(* ===== verification/Prelude.thy ===== *)
theory Prelude
  imports Main "HOL-Library.Word"
begin

unbundle bit_operations_syntax

text \<open>
  Shared types and lemmas of the development: the machine integers and byte vectors the
  C++ sources use, the \<^verbatim>\<open>Result\<close> type of \<^verbatim>\<open>include/pqchat/util/result.h\<close>, the
  big-endian stores and loads that every component repeats, the conversion between
  \<^verbatim>\<open>std::string\<close> and byte vectors, and the list lemmas the component theories share.
  The collections \<open>result_inv\<close> (inversion of the error monad), \<open>decodes_intros\<close> and
  \<open>canon_intros\<close> (the two directions of a codec) drive the component proofs.
\<close>

named_theorems result_inv
named_theorems decodes_intros
named_theorems canon_intros
named_theorems limit_defs

section \<open>Machine types\<close>

type_synonym u8 = "8 word"
type_synonym u32 = "32 word"
type_synonym u64 = "64 word"
type_synonym bytes = "u8 list"

section \<open>Results\<close>

text \<open>
  A \<^verbatim>\<open>Result<T>\<close> holds a value or an error text. \<^verbatim>\<open>ok()\<close> tests whether the error text
  is empty, so a result made by \<^verbatim>\<open>Err("")\<close> counts as a success although it holds no value;
  \<open>result_value\<close> (\<^verbatim>\<open>value()\<close>) is \<open>None\<close> there, where the C++ dereferences an empty optional.
\<close>

datatype 'a result = Ok 'a | Err string

primrec ok :: "'a result \<Rightarrow> bool" where
  "ok (Ok v) = True"
| "ok (Err e) = (e = [])"

primrec error :: "'a result \<Rightarrow> string" where
  "error (Ok v) = []"
| "error (Err e) = e"

primrec result_value :: "'a result \<Rightarrow> 'a option" where
  "result_value (Ok v) = Some v"
| "result_value (Err e) = None"

text \<open>
  The pattern \<^verbatim>\<open>auto r = f(); if (!r.ok()) return Err(r.error()); ... r.value() ...\<close>,
  for an \<open>f\<close> whose errors are never empty.
\<close>

definition rbind :: "'a result \<Rightarrow> ('a \<Rightarrow> 'b result) \<Rightarrow> 'b result" where
  "rbind r f = (case r of Ok v \<Rightarrow> f v | Err e \<Rightarrow> Err e)"

lemma rbind_simps [simp]:
  "rbind (Ok v) f = f v"
  "rbind (Err e) f = Err e"
  by (simp_all add: rbind_def)

lemma rbind_Ok_iff [result_inv]: "rbind r f = Ok y \<longleftrightarrow> (\<exists>v. r = Ok v \<and> f v = Ok y)"
  by (cases r) simp_all

lemma if_Err_Ok_iff [result_inv]: "(if b then Err e else r) = Ok y \<longleftrightarrow> \<not> b \<and> r = Ok y"
  by simp

lemma if_Ok_Err_iff [result_inv]: "(if b then r else Err e) = Ok y \<longleftrightarrow> b \<and> r = Ok y"
  by simp

text \<open>Errors that carry a prefix: \<^verbatim>\<open>Err("context: " + r.error())\<close>.\<close>

definition with_context :: "string \<Rightarrow> 'a result \<Rightarrow> 'a result" where
  "with_context c r = (case r of Ok v \<Rightarrow> Ok v | Err e \<Rightarrow> Err (c @ e))"

lemma with_context_simps [simp]:
  "with_context c (Ok v) = Ok v"
  "with_context c (Err e) = Err (c @ e)"
  by (simp_all add: with_context_def)

lemma with_context_Ok_iff [result_inv]: "with_context c r = Ok y \<longleftrightarrow> r = Ok y"
  by (cases r) simp_all

section \<open>Bytes of words\<close>

text \<open>\<^verbatim>\<open>static_cast<uint8_t>((value >> s) & 0xFF)\<close>\<close>

definition byte_of :: "'a::len word \<Rightarrow> nat \<Rightarrow> u8" where
  "byte_of v s = ucast (drop_bit s v AND 0xFF)"

lemma mask_byte: "(0xFF :: 'a::len word) = mask 8"
  by (simp add: mask_eq_exp_minus_1)

lemma bit_byte_of: "bit (byte_of v s) n \<longleftrightarrow> n < 8 \<and> bit v (s + n)"
  unfolding byte_of_def mask_byte by (auto simp: bit_simps dest: bit_imp_le_length)

lemma bit_u8_lt: "bit (w :: u8) n \<Longrightarrow> n < 8"
  by (drule bit_imp_le_length) simp

definition be32 :: "u32 \<Rightarrow> bytes" where
  "be32 v = [byte_of v 24, byte_of v 16, byte_of v 8, byte_of v 0]"

definition un_be32 :: "u8 \<Rightarrow> u8 \<Rightarrow> u8 \<Rightarrow> u8 \<Rightarrow> u32" where
  "un_be32 a b c d =
     push_bit 24 (ucast a) OR push_bit 16 (ucast b) OR push_bit 8 (ucast c) OR ucast d"

lemma bit_un_be32:
  "bit (un_be32 a b c d) n \<longleftrightarrow>
     (if n < 8 then bit d n else if n < 16 then bit c (n - 8)
      else if n < 24 then bit b (n - 16) else bit a (n - 24))"
  unfolding un_be32_def by (auto simp: bit_simps dest: bit_u8_lt)

lemma un_be32_be32: "un_be32 (byte_of v 24) (byte_of v 16) (byte_of v 8) (byte_of v 0) = v"
  by (rule bit_word_eqI) (auto simp: bit_un_be32 bit_byte_of)

lemma be32_un_be32: "be32 (un_be32 a b c d) = [a, b, c, d]"
  by (auto simp: be32_def bit_byte_of bit_un_be32 intro!: bit_word_eqI)

lemma length_be32 [simp]: "length (be32 v) = 4"
  by (simp add: be32_def)

lemma be32_inject [simp]: "be32 v = be32 w \<longleftrightarrow> v = w"
proof
  assume "be32 v = be32 w"
  then have "byte_of v 24 = byte_of w 24" "byte_of v 16 = byte_of w 16"
    "byte_of v 8 = byte_of w 8" "byte_of v 0 = byte_of w 0"
    by (simp_all add: be32_def)
  then show "v = w" using un_be32_be32 [of v] un_be32_be32 [of w] by metis
qed simp

text \<open>The loop \<^verbatim>\<open>for (i = 7; i >= 0; --i) push_back((value >> (8 * i)) & 0xFF)\<close>.\<close>

definition be64 :: "u64 \<Rightarrow> bytes" where
  "be64 v = map (\<lambda>i. byte_of v (8 * i)) (rev [0..<8])"

text \<open>The loop \<^verbatim>\<open>value = (value << 8) | bytes[pos + i]\<close>.\<close>

definition shift_in :: "u64 \<Rightarrow> u8 \<Rightarrow> u64" where
  "shift_in v b = push_bit 8 v OR ucast b"

definition un_be64 :: "bytes \<Rightarrow> u64" where
  "un_be64 bs = foldl shift_in 0 bs"

lemma be64_eq:
  "be64 v = [byte_of v 56, byte_of v 48, byte_of v 40, byte_of v 32,
             byte_of v 24, byte_of v 16, byte_of v 8, byte_of v 0]"
  by (simp add: be64_def upt_rec)

lemma bit_shift_in:
  "bit (shift_in v b) n \<longleftrightarrow> (if n < 8 then bit b n else n < 64 \<and> bit v (n - 8))"
  unfolding shift_in_def by (auto simp: bit_simps dest: bit_u8_lt)

lemma bit_foldl_shift_in:
  "k \<le> 8 \<Longrightarrow> bit (foldl shift_in x (map (\<lambda>i. byte_of v (8 * i)) (rev [0..<k]))) n \<longleftrightarrow>
     (if n < 8 * k then bit v n else n < 64 \<and> bit x (n - 8 * k))"
proof (induction k arbitrary: x n)
  case 0
  then show ?case by (auto dest: bit_imp_le_length)
next
  case (Suc k)
  then show ?case by (auto simp: bit_shift_in bit_byte_of add.commute)
qed

lemma un_be64_be64 [simp]: "un_be64 (be64 v) = v"
  by (rule bit_word_eqI) (simp add: un_be64_def be64_def bit_foldl_shift_in)

lemma length_8_conv:
  "length xs = 8 \<longleftrightarrow> (\<exists>a b c d e f g h. xs = [a, b, c, d, e, f, g, h])"
  by (auto simp: numeral_eq_Suc length_Suc_conv simp del: One_nat_def)

lemma byte_of_shift_in:
  "byte_of (shift_in v b) 0 = b"
  "8 \<le> s \<Longrightarrow> s \<le> 56 \<Longrightarrow> byte_of (shift_in v b) s = byte_of v (s - 8)"
  by (auto simp: bit_byte_of bit_shift_in intro!: bit_word_eqI)

lemma be64_un_be64:
  assumes "length bs = 8" shows "be64 (un_be64 bs) = bs"
proof -
  from assms obtain a b c d e f g h where "bs = [a, b, c, d, e, f, g, h]"
    unfolding length_8_conv by blast
  then show ?thesis by (simp add: be64_eq un_be64_def byte_of_shift_in)
qed

lemma length_be64 [simp]: "length (be64 v) = 8"
  by (simp add: be64_def)

lemma be64_inject [simp]: "be64 v = be64 w \<longleftrightarrow> v = w"
  by (metis un_be64_be64)

section \<open>Strings as byte vectors\<close>

text \<open>
  A \<^verbatim>\<open>std::string\<close> is a sequence of 8-bit characters, which is what \<open>string\<close> is;
  \<^verbatim>\<open>crypto::ToBytes\<close> and \<^verbatim>\<open>out->assign(bytes.begin(), bytes.end())\<close> convert.
\<close>

definition ToBytes :: "string \<Rightarrow> bytes" where
  "ToBytes s = map of_char s"

definition FromBytes :: "bytes \<Rightarrow> string" where
  "FromBytes bs = map (\<lambda>b. char_of (unat b)) bs"

lemma of_char_char_of_u8: "of_char (char_of (unat (w :: u8))) = w"
proof -
  have "of_char (char_of (unat w)) = (word_of_nat (of_char (char_of (unat w))) :: u8)"
    by (simp only: of_nat_of_char)
  also have "(of_char (char_of (unat w)) :: nat) = unat w mod 256" by simp
  also have "\<dots> = unat w"
  proof -
    have "unat w < 2 ^ LENGTH(8)" by (rule unsigned_less)
    then show ?thesis by simp
  qed
  finally show ?thesis by simp
qed

lemma char_of_of_char_u8: "char_of (unat (of_char c :: u8)) = c"
proof -
  have "(of_char c :: u8) = word_of_nat (of_char c)" by (simp only: of_nat_of_char)
  moreover have "of_char c < (256 :: nat)" by simp
  ultimately have "unat (of_char c :: u8) = of_char c"
    by (simp add: unat_of_nat take_bit_eq_mod)
  then show ?thesis by simp
qed

lemma FromBytes_ToBytes [simp]: "FromBytes (ToBytes s) = s"
  by (simp add: FromBytes_def ToBytes_def char_of_of_char_u8 comp_def)

lemma ToBytes_FromBytes [simp]: "ToBytes (FromBytes bs) = bs"
  by (simp add: FromBytes_def ToBytes_def of_char_char_of_u8 comp_def del: of_char_of)

lemma length_ToBytes [simp]: "length (ToBytes s) = length s"
  by (simp add: ToBytes_def)

lemma length_FromBytes [simp]: "length (FromBytes bs) = length bs"
  by (simp add: FromBytes_def)

lemma ToBytes_inject [simp]: "ToBytes s = ToBytes t \<longleftrightarrow> s = t"
  by (metis FromBytes_ToBytes)

section \<open>Sizes as 32-bit integers\<close>

lemma unat_u32_of_nat: "n < 2 ^ 32 \<Longrightarrow> unat (word_of_nat n :: u32) = n"
  by (simp add: unat_of_nat take_bit_eq_mod)

lemma unat_u64_of_nat: "n < 2 ^ 64 \<Longrightarrow> unat (word_of_nat n :: u64) = n"
  by (simp add: unat_of_nat take_bit_eq_mod)

lemma unat_of_nat_le: "n \<le> unat (m :: u32) \<Longrightarrow> unat (word_of_nat n :: u32) = n"
proof -
  assume "n \<le> unat m"
  moreover have "unat m < 2 ^ LENGTH(32)" by (rule unsigned_less)
  ultimately show ?thesis by (intro unat_u32_of_nat) simp
qed

section \<open>Lists\<close>

lemma dropWhile_sorted_filter:
  assumes "sorted xs" and "\<And>x y. x \<le> y \<Longrightarrow> P y \<Longrightarrow> P x"
  shows "dropWhile P xs = filter (\<lambda>x. \<not> P x) xs"
  using assms(1)
proof (induction xs)
  case Nil
  then show ?case by simp
next
  case (Cons x xs)
  show ?case
  proof (cases "P x")
    case True
    with Cons show ?thesis by simp
  next
    case False
    with Cons.prems assms(2) have "\<forall>y\<in>set xs. \<not> P y" by auto
    with False show ?thesis by (simp add: filter_True)
  qed
qed

section \<open>Maps\<close>

text \<open>The loop that erases the entries of an \<^verbatim>\<open>unordered_map\<close> that satisfy a condition.\<close>

definition erase_if :: "('v \<Rightarrow> bool) \<Rightarrow> ('k \<rightharpoonup> 'v) \<Rightarrow> ('k \<rightharpoonup> 'v)" where
  "erase_if P m = (\<lambda>k. case m k of None \<Rightarrow> None | Some v \<Rightarrow> if P v then None else Some v)"

lemma erase_if_Some_iff [simp]: "erase_if P m k = Some v \<longleftrightarrow> m k = Some v \<and> \<not> P v"
  by (auto simp: erase_if_def split: option.splits)

lemma erase_if_None_iff: "erase_if P m k = None \<longleftrightarrow> (\<forall>v. m k = Some v \<longrightarrow> P v)"
  by (auto simp: erase_if_def split: option.splits)

end
