(* ===== verification/Secure_Buffer.thy ===== *)
theory Secure_Buffer
  imports Prelude
begin

text \<open>
  \<^verbatim>\<open>src/crypto/secure_buffer.cpp\<close>: the class \<^verbatim>\<open>SecureBuffer\<close> over an explicit memory. A vector is the address of its block, or
  none when it is empty. Programs create, move and destroy buffers in any order; the theorems show that a
  block goes back to the allocator only with zeros in it, and that the objects behave as plain values, which is how
  the other theories model them. \<^verbatim>\<open>mutable_bytes\<close> has no caller.
\<close>

section \<open>The class\<close>

text \<open>\<open>mem_blocks\<close> are the allocated blocks, \<open>mem_freed\<close> what the blocks held when they were released.\<close>

record memory =
  mem_blocks :: "nat \<rightharpoonup> bytes"
  mem_freed :: "bytes list"

type_synonym vector = "nat option"

definition bytes_of :: "memory \<Rightarrow> vector \<Rightarrow> bytes" where
  "bytes_of m v = (case v of None \<Rightarrow> [] | Some a \<Rightarrow> (case mem_blocks m a of None \<Rightarrow> [] | Some bs \<Rightarrow> bs))"

definition size_of :: "memory \<Rightarrow> vector \<Rightarrow> nat" where
  "size_of m v = length (bytes_of m v)"

text \<open>A vector with the given bytes, at the address \<open>a\<close> that the allocator gives, and the release of its block.\<close>

definition vector_new :: "nat \<Rightarrow> bytes \<Rightarrow> memory \<Rightarrow> vector \<times> memory" where
  "vector_new a bs m = (if bs = [] then (None, m) else (Some a, m\<lparr>mem_blocks := (mem_blocks m)(a \<mapsto> bs)\<rparr>))"

definition vector_free :: "vector \<Rightarrow> memory \<Rightarrow> memory" where
  "vector_free v m =
     (case v of
        None \<Rightarrow> m
      | Some a \<Rightarrow> m\<lparr>mem_blocks := (mem_blocks m)(a := None), mem_freed := bytes_of m v # mem_freed m\<rparr>)"

definition cleanse :: "vector \<Rightarrow> memory \<Rightarrow> memory" where
  "cleanse v m =
     (if bytes_of m v = [] then m
      else case v of
        None \<Rightarrow> m
      | Some a \<Rightarrow> m\<lparr>mem_blocks := (mem_blocks m)(a \<mapsto> replicate (size_of m v) 0)\<rparr>)"

text \<open>The objects that are alive, by name.\<close>

record buffers =
  bu_objects :: "nat \<rightharpoonup> vector"
  bu_memory :: memory

text \<open>\<^verbatim>\<open>SecureBuffer(size_t)\<close>, and the constructor that takes over a vector.\<close>

definition construct_size :: "nat \<Rightarrow> nat \<Rightarrow> nat \<Rightarrow> buffers \<Rightarrow> buffers" where
  "construct_size this a n s =
     (let (v, m) = vector_new a (replicate n 0) (bu_memory s)
      in \<lparr>bu_objects = (bu_objects s)(this \<mapsto> v), bu_memory = m\<rparr>)"

definition construct_bytes :: "nat \<Rightarrow> nat \<Rightarrow> bytes \<Rightarrow> buffers \<Rightarrow> buffers" where
  "construct_bytes this a bs s =
     (let (v, m) = vector_new a bs (bu_memory s)
      in \<lparr>bu_objects = (bu_objects s)(this \<mapsto> v), bu_memory = m\<rparr>)"

text \<open>A moved-from vector is empty.\<close>

definition move_construct :: "nat \<Rightarrow> nat \<Rightarrow> buffers \<Rightarrow> buffers" where
  "move_construct this other s =
     s\<lparr>bu_objects := (bu_objects s)(this := bu_objects s other, other \<mapsto> None)\<rparr>"

definition move_assign :: "nat \<Rightarrow> nat \<Rightarrow> buffers \<Rightarrow> buffers" where
  "move_assign this other s =
     (if this = other then s
      else case bu_objects s this of
        None \<Rightarrow> s
      | Some v \<Rightarrow>
          s\<lparr>bu_memory := vector_free v (cleanse v (bu_memory s)),
            bu_objects := (bu_objects s)(this := bu_objects s other, other \<mapsto> None)\<rparr>)"

definition destruct :: "nat \<Rightarrow> buffers \<Rightarrow> buffers" where
  "destruct this s =
     (case bu_objects s this of
        None \<Rightarrow> s
      | Some v \<Rightarrow> \<lparr>bu_objects = (bu_objects s)(this := None), bu_memory = vector_free v (cleanse v (bu_memory s))\<rparr>)"

section \<open>Programs\<close>

datatype buffer_op = ConstructSize nat nat nat | ConstructBytes nat nat bytes | MoveConstruct nat nat | MoveAssign nat nat
  | Destruct nat

fun apply_op :: "buffer_op \<Rightarrow> buffers \<Rightarrow> buffers" where
  "apply_op (ConstructSize this a n) s = construct_size this a n s"
| "apply_op (ConstructBytes this a bs) s = construct_bytes this a bs s"
| "apply_op (MoveConstruct this other) s = move_construct this other s"
| "apply_op (MoveAssign this other) s = move_assign this other s"
| "apply_op (Destruct this) s = destruct this s"

text \<open>
  What the language guarantees: constructors make new objects, everything else is about objects that are alive,
  and the allocator gives blocks that are not in use.
\<close>

fun allowed :: "buffer_op \<Rightarrow> buffers \<Rightarrow> bool" where
  "allowed (ConstructSize this a n) s \<longleftrightarrow> bu_objects s this = None \<and> mem_blocks (bu_memory s) a = None"
| "allowed (ConstructBytes this a bs) s \<longleftrightarrow> bu_objects s this = None \<and> mem_blocks (bu_memory s) a = None"
| "allowed (MoveConstruct this other) s \<longleftrightarrow> bu_objects s this = None \<and> bu_objects s other \<noteq> None"
| "allowed (MoveAssign this other) s \<longleftrightarrow> bu_objects s this \<noteq> None \<and> bu_objects s other \<noteq> None"
| "allowed (Destruct this) s \<longleftrightarrow> bu_objects s this \<noteq> None"

definition no_buffers :: buffers where
  "no_buffers = \<lparr>bu_objects = Map.empty, bu_memory = \<lparr>mem_blocks = Map.empty, mem_freed = []\<rparr>\<rparr>"

inductive buffer_reachable :: "buffers \<Rightarrow> bool" where
  start: "buffer_reachable no_buffers"
| step: "buffer_reachable s \<Longrightarrow> allowed op s \<Longrightarrow> buffer_reachable (apply_op op s)"

section \<open>Ownership\<close>

definition owns :: "buffers \<Rightarrow> nat \<Rightarrow> nat \<Rightarrow> bool" where
  "owns s i a \<longleftrightarrow> bu_objects s i = Some (Some a)"

definition buffers_inv :: "buffers \<Rightarrow> bool" where
  "buffers_inv s \<longleftrightarrow>
     (\<forall>a. mem_blocks (bu_memory s) a \<noteq> None \<longleftrightarrow> (\<exists>i. owns s i a)) \<and>
     (\<forall>i j a. owns s i a \<and> owns s j a \<longrightarrow> i = j) \<and>
     (\<forall>bs\<in>set (mem_freed (bu_memory s)). set bs \<subseteq> {0})"

text \<open>Wiping and releasing a vector: its block is gone and had only zeros.\<close>

lemma release_blocks:
  "mem_blocks (vector_free v (cleanse v m)) a = (if v = Some a then None else mem_blocks m a)"
  by (auto simp: vector_free_def cleanse_def split: option.split)

lemma release_freed:
  "set (mem_freed m) \<subseteq> {bs. set bs \<subseteq> {0}} \<Longrightarrow> set (mem_freed (vector_free v (cleanse v m))) \<subseteq> {bs. set bs \<subseteq> {0}}"
  by (auto simp: vector_free_def cleanse_def bytes_of_def size_of_def split: option.split)

lemma inv_freed: "buffers_inv s \<Longrightarrow> set (mem_freed (bu_memory s)) \<subseteq> {bs. set bs \<subseteq> {0}}"
  unfolding buffers_inv_def by blast

lemma buffers_invI:
  assumes "\<And>a. mem_blocks (bu_memory s) a \<noteq> None \<longleftrightarrow> (\<exists>i. owns s i a)"
    and "\<And>i j a. owns s i a \<Longrightarrow> owns s j a \<Longrightarrow> i = j"
    and "set (mem_freed (bu_memory s)) \<subseteq> {bs. set bs \<subseteq> {0}}"
  shows "buffers_inv s"
  using assms unfolding buffers_inv_def by blast

lemma construct_inv:
  assumes "buffers_inv s" "bu_objects s this = None" "mem_blocks (bu_memory s) a = None"
  shows "buffers_inv (construct_bytes this a bs s)"
proof -
  have "owns s i b \<Longrightarrow> b \<noteq> a \<and> i \<noteq> this" for i b
    using assms unfolding buffers_inv_def owns_def by fastforce
  then show ?thesis
    using assms unfolding buffers_inv_def by (auto simp: construct_bytes_def vector_new_def owns_def)
qed

lemma move_inv:
  assumes "buffers_inv s" "this \<noteq> other" "bu_objects s this = Some v" "bu_objects s other \<noteq> None"
  shows "buffers_inv (move_assign this other s)"
proof (rule buffers_invI)
  let ?s = "move_assign this other s"
  have o: "owns ?s i a \<longleftrightarrow> (if i = this then owns s other a else i \<noteq> other \<and> owns s i a)" for i a
    using assms(2,3) by (auto simp: move_assign_def owns_def)
  have b: "mem_blocks (bu_memory ?s) a = (if v = Some a then None else mem_blocks (bu_memory s) a)" for a
    using assms(2,3) by (simp add: move_assign_def release_blocks)
  have u: "i = j" if "owns s i a" "owns s j a" for i j a using assms(1) that unfolding buffers_inv_def by blast
  have v: "v = Some a \<longleftrightarrow> owns s this a" for a using assms(3) by (auto simp: owns_def)
  have own: "mem_blocks (bu_memory s) a \<noteq> None \<longleftrightarrow> (\<exists>i. owns s i a)" for a
    using assms(1) unfolding buffers_inv_def by blast
  show "mem_blocks (bu_memory ?s) a \<noteq> None \<longleftrightarrow> (\<exists>i. owns ?s i a)" for a
    using own [of a] u [of _ a] assms(2) unfolding b o v by metis
  show "i = j" if "owns ?s i a" "owns ?s j a" for i j a
    using that u assms(2) unfolding o by (metis (full_types))
  show "set (mem_freed (bu_memory ?s)) \<subseteq> {bs. set bs \<subseteq> {0}}"
    using assms(2,3) release_freed [OF inv_freed [OF assms(1)], of v] by (simp add: move_assign_def)
qed

text \<open>A move constructor assigns to a new empty object; a destructor assigns a new empty object and forgets it.\<close>

lemma empty_object_inv: "buffers_inv s \<Longrightarrow> bu_objects s i = None \<Longrightarrow> buffers_inv (s\<lparr>bu_objects := (bu_objects s)(i \<mapsto> None)\<rparr>)"
  unfolding buffers_inv_def owns_def by (simp, metis option.distinct(1))

lemma drop_object_inv:
  "buffers_inv s \<Longrightarrow> bu_objects s i = Some None \<or> bu_objects s i = None \<Longrightarrow>
     buffers_inv (s\<lparr>bu_objects := (bu_objects s)(i := None)\<rparr>)"
  unfolding buffers_inv_def owns_def by (simp, metis option.distinct(1) option.inject)

lemma move_construct_as_assign:
  "bu_objects s this = None \<Longrightarrow> bu_objects s other \<noteq> None \<Longrightarrow>
     move_construct this other s = move_assign this other (s\<lparr>bu_objects := (bu_objects s)(this \<mapsto> None)\<rparr>)"
  by (auto simp: move_construct_def move_assign_def vector_free_def cleanse_def bytes_of_def)

lemma destruct_inv:
  assumes "buffers_inv s" "bu_objects s this = Some v"
  shows "buffers_inv (destruct this s)"
proof (rule buffers_invI)
  let ?s = "destruct this s"
  have o: "owns ?s i a \<longleftrightarrow> i \<noteq> this \<and> owns s i a" for i a using assms(2) by (auto simp: destruct_def owns_def)
  have b: "mem_blocks (bu_memory ?s) a = (if v = Some a then None else mem_blocks (bu_memory s) a)" for a
    using assms(2) by (simp add: destruct_def release_blocks)
  have u: "i = j" if "owns s i a" "owns s j a" for i j a using assms(1) that unfolding buffers_inv_def by blast
  have v: "v = Some a \<longleftrightarrow> owns s this a" for a using assms(2) by (auto simp: owns_def)
  have own: "mem_blocks (bu_memory s) a \<noteq> None \<longleftrightarrow> (\<exists>i. owns s i a)" for a
    using assms(1) unfolding buffers_inv_def by blast
  show "mem_blocks (bu_memory ?s) a \<noteq> None \<longleftrightarrow> (\<exists>i. owns ?s i a)" for a
    using own [of a] u [of _ a] unfolding b o v by metis
  show "i = j" if "owns ?s i a" "owns ?s j a" for i j a using that u unfolding o by blast
  show "set (mem_freed (bu_memory ?s)) \<subseteq> {bs. set bs \<subseteq> {0}}"
    using assms(2) release_freed [OF inv_freed [OF assms(1)], of v] by (simp add: destruct_def)
qed

lemma construct_size_bytes: "construct_size this a n = construct_bytes this a (replicate n 0)"
  by (simp add: construct_size_def construct_bytes_def fun_eq_iff)

lemma apply_op_inv: "buffers_inv s \<Longrightarrow> allowed op s \<Longrightarrow> buffers_inv (apply_op op s)"
proof (cases op)
  case (MoveConstruct this other)
  assume s: "buffers_inv s" "allowed op s"
  with MoveConstruct have a: "bu_objects s this = None" "bu_objects s other \<noteq> None" "this \<noteq> other" by auto
  with move_inv [OF empty_object_inv [OF s(1) a(1)] a(3)] MoveConstruct show ?thesis
    by (simp add: move_construct_as_assign)
next
  case (MoveAssign this other)
  assume "buffers_inv s" "allowed op s"
  with MoveAssign move_inv [of s this other] show ?thesis
    by (cases "this = other") (simp add: move_assign_def, auto)
qed (auto simp: construct_size_bytes intro: construct_inv destruct_inv)

lemma buffer_reachable_inv: "buffer_reachable s \<Longrightarrow> buffers_inv s"
proof (induction rule: buffer_reachable.induct)
  case start
  then show ?case by (simp add: buffers_inv_def no_buffers_def owns_def)
qed (rule apply_op_inv)

section \<open>Buffers as values\<close>

text \<open>The objects with the bytes they hold, and what the operations mean for them.\<close>

definition buffer_values :: "buffers \<Rightarrow> nat \<rightharpoonup> bytes" where
  "buffer_values s i = map_option (bytes_of (bu_memory s)) (bu_objects s i)"

fun value_op :: "buffer_op \<Rightarrow> (nat \<rightharpoonup> bytes) \<Rightarrow> (nat \<rightharpoonup> bytes)" where
  "value_op (ConstructSize this a n) f = f(this \<mapsto> replicate n 0)"
| "value_op (ConstructBytes this a bs) f = f(this \<mapsto> bs)"
| "value_op (MoveConstruct this other) f = f(this := f other, other \<mapsto> [])"
| "value_op (MoveAssign this other) f = (if this = other then f else f(this := f other, other \<mapsto> []))"
| "value_op (Destruct this) f = f(this := None)"

lemma bytes_of_None [simp]: "bytes_of m None = []"
  by (simp add: bytes_of_def)

text \<open>Only the vectors that an operation is about change: nobody else has their blocks.\<close>

lemma bytes_of_released:
  assumes "buffers_inv s" "bu_objects s this = Some v" "bu_objects s i = Some w" "i \<noteq> this"
  shows "bytes_of (vector_free v (cleanse v (bu_memory s))) w = bytes_of (bu_memory s) w"
proof (cases w)
  case (Some a)
  with assms have "v \<noteq> Some a" unfolding buffers_inv_def owns_def by blast
  with Some show ?thesis by (simp add: bytes_of_def release_blocks)
qed simp

lemma bytes_of_constructed:
  assumes "buffers_inv s" "mem_blocks (bu_memory s) a = None" "bu_objects s i = Some w"
  shows "bytes_of (snd (vector_new a bs (bu_memory s))) w = bytes_of (bu_memory s) w"
proof (cases w)
  case (Some b)
  with assms have "b \<noteq> a" unfolding buffers_inv_def owns_def by fastforce
  with Some show ?thesis by (simp add: bytes_of_def vector_new_def)
qed simp

lemma bytes_of_new: "bytes_of (snd (vector_new a bs m)) (fst (vector_new a bs m)) = bs"
  by (simp add: bytes_of_def vector_new_def)

lemma construct_values:
  assumes "buffers_inv s" "mem_blocks (bu_memory s) a = None" "bu_objects s this = None"
  shows "buffer_values (construct_bytes this a bs s) = (buffer_values s)(this \<mapsto> bs)"
proof
  fix i
  show "buffer_values (construct_bytes this a bs s) i = ((buffer_values s)(this \<mapsto> bs)) i"
    using bytes_of_constructed [OF assms(1,2)]
    by (cases "bu_objects s i") (auto simp: buffer_values_def construct_bytes_def bytes_of_new split_beta)
qed

lemma move_assign_values:
  assumes "buffers_inv s" "bu_objects s this = Some v" "bu_objects s other = Some w" "this \<noteq> other"
  shows "buffer_values (move_assign this other s) = (buffer_values s)(this := buffer_values s other, other \<mapsto> [])"
proof
  fix i
  show "buffer_values (move_assign this other s) i = ((buffer_values s)(this := buffer_values s other, other \<mapsto> [])) i"
    using bytes_of_released [OF assms(1,2)] assms
    by (cases "bu_objects s i") (auto simp: buffer_values_def move_assign_def)
qed

lemma destruct_values:
  assumes "buffers_inv s" "bu_objects s this = Some v"
  shows "buffer_values (destruct this s) = (buffer_values s)(this := None)"
proof
  fix i
  show "buffer_values (destruct this s) i = ((buffer_values s)(this := None)) i"
    using bytes_of_released [OF assms] assms
    by (cases "bu_objects s i") (auto simp: buffer_values_def destruct_def)
qed

lemma move_construct_values:
  "this \<noteq> other \<Longrightarrow> bu_objects s other = Some w \<Longrightarrow>
     buffer_values (move_construct this other s) = (buffer_values s)(this := buffer_values s other, other \<mapsto> [])"
  by (auto simp: buffer_values_def move_construct_def fun_eq_iff)

section \<open>Theorems\<close>


theorem secure_buffers_are_values:
  assumes "buffer_reachable s" "allowed op s"
  shows "buffer_values (apply_op op s) = value_op op (buffer_values s)"
proof -
  note inv = buffer_reachable_inv [OF assms(1)]
  show ?thesis
  proof (cases op)
    case (MoveConstruct this other)
    with assms(2) have "this \<noteq> other" by auto
    with MoveConstruct assms(2) show ?thesis by (auto simp: move_construct_values)
  next
    case (MoveAssign this other)
    then show ?thesis using assms(2) move_assign_values [OF inv, of this _ other]
      by (cases "this = other") (simp add: move_assign_def, auto)
  qed (use assms(2) in \<open>auto simp: construct_size_bytes construct_values [OF inv] destruct_values [OF inv]\<close>)
qed

section \<open>A buffer that is moved\<close>

definition moved_buffers :: buffers where
  "moved_buffers = apply_op (MoveAssign 2 1) (apply_op (ConstructSize 2 9 3) (apply_op (ConstructBytes 1 7 [5, 6]) no_buffers))"

lemma moved_buffers_reachable: "buffer_reachable moved_buffers" "allowed (Destruct 2) moved_buffers"
proof -
  have "allowed (ConstructBytes 1 7 [5, 6]) no_buffers"
    and "allowed (ConstructSize 2 9 3) (apply_op (ConstructBytes 1 7 [5, 6]) no_buffers)"
    and "allowed (MoveAssign 2 1) (apply_op (ConstructSize 2 9 3) (apply_op (ConstructBytes 1 7 [5, 6]) no_buffers))"
    by (simp_all add: no_buffers_def construct_bytes_def construct_size_def vector_new_def)
  then show "buffer_reachable moved_buffers" unfolding moved_buffers_def by (intro buffer_reachable.intros)
  show "allowed (Destruct 2) moved_buffers"
    by (simp add: moved_buffers_def no_buffers_def construct_bytes_def construct_size_def vector_new_def move_assign_def)
qed


theorem secure_buffers_are_values_witness:
  "buffer_values (destruct 2 moved_buffers) = (buffer_values moved_buffers)(2 := None)"
  using secure_buffers_are_values [OF moved_buffers_reachable] by simp

end
