(* ===== verification/Codec.thy ===== *)
theory Codec
  imports Prelude
begin

text \<open>
  The byte-level reader and writer of \<^verbatim>\<open>src/protocol/serialization.cpp\<close> (lines 9 to 207).
  A \<^verbatim>\<open>Writer\<close> appends to a byte vector, so each of its operations is modelled by the bytes it
  appends. A \<^verbatim>\<open>Reader\<close> is a byte vector with a position; an operation that returns
  \<^verbatim>\<open>false\<close> leaves an error text, which is the \<open>Err\<close> of the model, and no caller reads on
  after a failure. Positions and sizes are \<open>nat\<close>: a vector is shorter than \<open>2 ^ 63\<close> bytes and
  a length field is below \<open>2 ^ 32\<close>, so \<^verbatim>\<open>pos_ + len\<close> does not wrap in a 64-bit \<^verbatim>\<open>size_t\<close>.

  The interface of the layer is the locale \<open>codec\<close>: an encoder, a decoder and a
  well-formedness predicate with the two laws of a canonical encoding (decoding an encoding
  gives the value back wherever it stands in a buffer; whatever a decoder accepts is the
  encoding of a well-formed value). It extends \<open>self_delimiting\<close>, which the signature inputs
  use without a decoder.
\<close>

section \<open>Limits\<close>

definition kMaxSerializedInputBytes :: nat where
  "kMaxSerializedInputBytes = 8 * 1024 * 1024"

definition kMaxFieldBytes :: u32 where
  "kMaxFieldBytes = 1024 * 1024"

definition kMaxStringBytes :: u32 where
  "kMaxStringBytes = 64 * 1024"

definition kMaxOneTimePrekeys :: u32 where
  "kMaxOneTimePrekeys = 4096"

definition kMaxEnvelopeVectorItems :: u32 where
  "kMaxEnvelopeVectorItems = 4096"

lemma unat_limits [simp]:
  "unat kMaxFieldBytes = 1048576"
  "unat kMaxStringBytes = 65536"
  "unat kMaxOneTimePrekeys = 4096"
  "unat kMaxEnvelopeVectorItems = 4096"
  by (simp_all add: kMaxFieldBytes_def kMaxStringBytes_def kMaxOneTimePrekeys_def
      kMaxEnvelopeVectorItems_def)

definition ValidateInputSize :: "bytes \<Rightarrow> string \<Rightarrow> unit result" where
  "ValidateInputSize bs label =
     (if length bs > kMaxSerializedInputBytes then Err (label @ '' too large'') else Ok ())"

section \<open>Writer\<close>

definition Writer_U8 :: "u8 \<Rightarrow> bytes" where
  "Writer_U8 v = [v]"

definition Writer_U32 :: "u32 \<Rightarrow> bytes" where
  "Writer_U32 v = be32 v"

definition Writer_U64 :: "u64 \<Rightarrow> bytes" where
  "Writer_U64 v = be64 v"

definition Writer_Bytes :: "bytes \<Rightarrow> bytes" where
  "Writer_Bytes v = Writer_U32 (word_of_nat (length v)) @ v"

definition Writer_String :: "string \<Rightarrow> bytes" where
  "Writer_String s = Writer_Bytes (ToBytes s)"

definition Writer_OptionalU32 :: "u32 option \<Rightarrow> bytes" where
  "Writer_OptionalU32 v =
     Writer_U8 (if v \<noteq> None then 1 else 0) @ (case v of Some x \<Rightarrow> Writer_U32 x | None \<Rightarrow> [])"

definition Writer_OptionalBytes :: "bytes option \<Rightarrow> bytes" where
  "Writer_OptionalBytes v =
     Writer_U8 (if v \<noteq> None then 1 else 0) @ (case v of Some x \<Rightarrow> Writer_Bytes x | None \<Rightarrow> [])"

section \<open>Reader\<close>

record reader =
  rd_bytes :: bytes
  rd_pos :: nat

type_synonym 'a rd = "reader \<Rightarrow> ('a \<times> reader) result"

definition Reader_init :: "bytes \<Rightarrow> reader" where
  "Reader_init bs = \<lparr>rd_bytes = bs, rd_pos = 0\<rparr>"

definition rd_return :: "'a \<Rightarrow> 'a rd" where
  "rd_return x r = Ok (x, r)"

text \<open>Sequencing by \<^verbatim>\<open>&&\<close>: the next operation runs only if the first succeeded.\<close>

definition rd_bind :: "'a rd \<Rightarrow> ('a \<Rightarrow> 'b rd) \<Rightarrow> 'b rd" where
  "rd_bind m k r = rbind (m r) (\<lambda>(x, r'). k x r')"

definition rd_fail :: "string \<Rightarrow> 'a rd" where
  "rd_fail e r = Err e"

text \<open>\<^verbatim>\<open>return Err("context" + reader.error())\<close> after a failed read, and a result computed
  between two reads.\<close>

definition rd_context :: "string \<Rightarrow> 'a rd \<Rightarrow> 'a rd" where
  "rd_context c m r = with_context c (m r)"

definition rd_lift :: "'a result \<Rightarrow> 'a rd" where
  "rd_lift res r = rbind res (\<lambda>x. Ok (x, r))"

definition Reader_U8 :: "u8 rd" where
  "Reader_U8 r =
     (if rd_pos r + 1 > length (rd_bytes r) then Err ''unexpected EOF while reading u8''
      else Ok (rd_bytes r ! rd_pos r, r\<lparr>rd_pos := rd_pos r + 1\<rparr>))"

definition Reader_U32 :: "u32 rd" where
  "Reader_U32 r =
     (if rd_pos r + 4 > length (rd_bytes r) then Err ''unexpected EOF while reading u32''
      else Ok (un_be32 (rd_bytes r ! rd_pos r) (rd_bytes r ! (rd_pos r + 1)) (rd_bytes r ! (rd_pos r + 2))
                 (rd_bytes r ! (rd_pos r + 3)), r\<lparr>rd_pos := rd_pos r + 4\<rparr>))"

definition Reader_U64 :: "u64 rd" where
  "Reader_U64 r =
     (if rd_pos r + 8 > length (rd_bytes r) then Err ''unexpected EOF while reading u64''
      else Ok (un_be64 (map (\<lambda>i. rd_bytes r ! (rd_pos r + i)) [0..<8]), r\<lparr>rd_pos := rd_pos r + 8\<rparr>))"

definition Reader_LimitU32 :: "u32 \<Rightarrow> u32 \<Rightarrow> string \<Rightarrow> unit rd" where
  "Reader_LimitU32 v mx label r =
     (if v > mx then Err (''decoded '' @ label @ '' exceeds limit'') else Ok ((), r))"

definition Reader_take :: "nat \<Rightarrow> bytes rd" where
  "Reader_take n r =
     (if rd_pos r + n > length (rd_bytes r) then Err ''unexpected EOF while reading bytes''
      else Ok (take n (drop (rd_pos r) (rd_bytes r)), r\<lparr>rd_pos := rd_pos r + n\<rparr>))"

definition Reader_Bytes :: "u32 \<Rightarrow> string \<Rightarrow> bytes rd" where
  "Reader_Bytes max_len label =
     rd_bind Reader_U32 (\<lambda>len.
     if len > max_len then rd_fail (''decoded '' @ label @ '' exceeds limit'')
     else Reader_take (unat len))"

abbreviation Reader_Field :: "bytes rd" where
  "Reader_Field \<equiv> Reader_Bytes kMaxFieldBytes ''bytes''"

definition Reader_String :: "string rd" where
  "Reader_String =
     rd_bind (Reader_Bytes kMaxStringBytes ''string'') (\<lambda>bs. rd_return (FromBytes bs))"

definition Reader_OptionalU32 :: "u32 option rd" where
  "Reader_OptionalU32 =
     rd_bind Reader_U8 (\<lambda>present.
     if present = 0 then rd_return None
     else if present \<noteq> 1 then rd_fail ''invalid optional u32 tag''
     else rd_bind Reader_U32 (\<lambda>v. rd_return (Some v)))"

definition Reader_OptionalBytes :: "bytes option rd" where
  "Reader_OptionalBytes =
     rd_bind Reader_U8 (\<lambda>present.
     if present = 0 then rd_return None
     else if present \<noteq> 1 then rd_fail ''invalid optional bytes tag''
     else rd_bind Reader_Field (\<lambda>v. rd_return (Some v)))"

definition Reader_Finished :: "reader \<Rightarrow> bool" where
  "Reader_Finished r \<longleftrightarrow> rd_pos r = length (rd_bytes r)"

text \<open>The counted loop \<^verbatim>\<open>for (i = 0; i < count; ++i) { read one; push_back }\<close>.\<close>

fun read_n :: "nat \<Rightarrow> 'a rd \<Rightarrow> 'a list rd" where
  "read_n 0 m = rd_return []"
| "read_n (Suc n) m = rd_bind m (\<lambda>x. rd_bind (read_n n m) (\<lambda>xs. rd_return (x # xs)))"

section \<open>The two directions of a decoder\<close>

text \<open>\<open>decodes m w x\<close>: standing before the bytes \<open>w\<close>, wherever they are in a buffer, \<open>m\<close>
  reads exactly \<open>w\<close> and returns \<open>x\<close>.\<close>

definition decodes :: "'a rd \<Rightarrow> bytes \<Rightarrow> 'a \<Rightarrow> bool" where
  "decodes m w x \<longleftrightarrow> (\<forall>pre rest.
     m \<lparr>rd_bytes = pre @ w @ rest, rd_pos = length pre\<rparr> =
       Ok (x, \<lparr>rd_bytes = pre @ w @ rest, rd_pos = length pre + length w\<rparr>))"

text \<open>\<open>canon m P\<close>: whatever \<open>m\<close> accepts stays inside the buffer, and the bytes \<open>w\<close> it
  consumed are related to the value it returned by \<open>P\<close>.\<close>

definition canon :: "'a rd \<Rightarrow> ('a \<Rightarrow> bytes \<Rightarrow> bool) \<Rightarrow> bool" where
  "canon m P \<longleftrightarrow> (\<forall>r x r'. rd_pos r \<le> length (rd_bytes r) \<longrightarrow> m r = Ok (x, r') \<longrightarrow>
     rd_bytes r' = rd_bytes r \<and> rd_pos r' \<le> length (rd_bytes r) \<and>
     (\<exists>w. drop (rd_pos r) (rd_bytes r) = w @ drop (rd_pos r') (rd_bytes r) \<and> P x w))"

lemma decodes_return [decodes_intros]: "decodes (rd_return x) [] x"
  by (simp add: decodes_def rd_return_def)

lemma decodes_bind [decodes_intros]:
  assumes "decodes m w1 x" and "decodes (k x) w2 y"
  shows "decodes (rd_bind m k) (w1 @ w2) y"
  unfolding decodes_def
proof (intro allI)
  fix pre rest
  have "m \<lparr>rd_bytes = pre @ w1 @ (w2 @ rest), rd_pos = length pre\<rparr> =
      Ok (x, \<lparr>rd_bytes = pre @ w1 @ (w2 @ rest), rd_pos = length pre + length w1\<rparr>)"
    using assms(1) unfolding decodes_def by blast
  moreover have "k x \<lparr>rd_bytes = (pre @ w1) @ w2 @ rest, rd_pos = length (pre @ w1)\<rparr> =
      Ok (y, \<lparr>rd_bytes = (pre @ w1) @ w2 @ rest, rd_pos = length (pre @ w1) + length w2\<rparr>)"
    using assms(2) unfolding decodes_def by blast
  ultimately show "rd_bind m k \<lparr>rd_bytes = pre @ (w1 @ w2) @ rest, rd_pos = length pre\<rparr> =
      Ok (y, \<lparr>rd_bytes = pre @ (w1 @ w2) @ rest, rd_pos = length pre + length (w1 @ w2)\<rparr>)"
    by (simp add: rd_bind_def add.assoc)
qed

text \<open>The last step of a record decoder: nothing is left to read.\<close>

lemma decodes_bind_return:
  assumes "decodes m w x" shows "decodes (rd_bind m (\<lambda>x. rd_return (f x))) w (f x)"
proof -
  have "decodes (rd_bind m (\<lambda>x. rd_return (f x))) (w @ []) (f x)"
    using assms by (rule decodes_bind) (rule decodes_return)
  then show ?thesis by simp
qed

lemma decodes_eq: "decodes m w y \<Longrightarrow> y = x \<Longrightarrow> decodes m w x"
  by simp

lemma canon_return [canon_intros]: "canon (rd_return x) (\<lambda>y w. y = x \<and> w = [])"
  by (simp add: canon_def rd_return_def)

lemma canon_fail [canon_intros]: "canon (rd_fail e) (\<lambda>_ _. False)"
  by (simp add: canon_def rd_fail_def)

lemma canon_weaken: "canon m P \<Longrightarrow> (\<And>x w. P x w \<Longrightarrow> Q x w) \<Longrightarrow> canon m Q"
  unfolding canon_def by meson

text \<open>Sequencing for a decoder whose relation is given: each read leaves what it consumed in
  front of what the rest consumes.\<close>

lemma canon_step:
  assumes "canon m P" and "\<And>x w1. P x w1 \<Longrightarrow> canon (k x) (\<lambda>y w2. Q y (w1 @ w2))"
  shows "canon (rd_bind m k) Q"
  unfolding canon_def
proof (intro allI impI)
  fix r y r'
  assume r: "rd_pos r \<le> length (rd_bytes r)" and "rd_bind m k r = Ok (y, r')"
  then obtain x r1 where m: "m r = Ok (x, r1)" and k: "k x r1 = Ok (y, r')"
    by (auto simp: rd_bind_def result_inv)
  from assms(1) r m obtain w1 where 1: "rd_bytes r1 = rd_bytes r" "rd_pos r1 \<le> length (rd_bytes r)"
    "drop (rd_pos r) (rd_bytes r) = w1 @ drop (rd_pos r1) (rd_bytes r)" "P x w1"
    unfolding canon_def by blast
  from assms(2) [OF 1(4)] 1 k obtain w2 where "rd_bytes r' = rd_bytes r"
    "rd_pos r' \<le> length (rd_bytes r)" "drop (rd_pos r1) (rd_bytes r) = w2 @ drop (rd_pos r') (rd_bytes r)"
    "Q y (w1 @ w2)"
    unfolding canon_def by metis
  with 1 show "rd_bytes r' = rd_bytes r \<and> rd_pos r' \<le> length (rd_bytes r) \<and>
      (\<exists>w. drop (rd_pos r) (rd_bytes r) = w @ drop (rd_pos r') (rd_bytes r) \<and> Q y w)"
    by (metis append.assoc)
qed

lemma canon_done: "Q x [] \<Longrightarrow> canon (rd_return x) Q"
  by (simp add: canon_def rd_return_def)

lemma canon_bind:
  assumes "canon m P" and "\<And>x. canon (k x) (Q x)"
  shows "canon (rd_bind m k) (\<lambda>y w. \<exists>x w1 w2. w = w1 @ w2 \<and> P x w1 \<and> Q x y w2)"
  using assms(1) by (rule canon_step) (rule canon_weaken [OF assms(2)], blast)

lemma canon_if [canon_intros]:
  "(b \<Longrightarrow> canon m P) \<Longrightarrow> (\<not> b \<Longrightarrow> canon m' P') \<Longrightarrow>
   canon (if b then m else m') (\<lambda>x w. if b then P x w else P' x w)"
  by simp

lemma decodes_context [decodes_intros]: "decodes m w x \<Longrightarrow> decodes (rd_context c m) w x"
  by (simp add: decodes_def rd_context_def)

lemma canon_context [canon_intros]: "canon m P \<Longrightarrow> canon (rd_context c m) P"
  unfolding canon_def rd_context_def with_context_Ok_iff by assumption

lemma decodes_lift: "res = Ok x \<Longrightarrow> decodes (rd_lift res) [] x"
  by (simp add: decodes_def rd_lift_def)

lemma canon_lift [canon_intros]: "canon (rd_lift res) (\<lambda>x w. res = Ok x \<and> w = [])"
  by (auto simp: canon_def rd_lift_def result_inv)

section \<open>Leaf decoders\<close>

lemma decodes_U8 [decodes_intros]: "decodes Reader_U8 (Writer_U8 v) v"
  by (simp add: decodes_def Reader_U8_def Writer_U8_def nth_append)

lemma decodes_U32 [decodes_intros]: "decodes Reader_U32 (Writer_U32 v) v"
  by (simp add: decodes_def Reader_U32_def Writer_U32_def be32_def nth_append un_be32_be32)

lemma map_nth_mid: "length w = n \<Longrightarrow> map (\<lambda>i. (pre @ w @ rest) ! (length pre + i)) [0..<n] = w"
  by (rule nth_equalityI) (simp_all add: nth_append)

lemma decodes_U64 [decodes_intros]: "decodes Reader_U64 (Writer_U64 v) v"
  unfolding decodes_def
proof (intro allI)
  fix pre rest
  have m: "map (\<lambda>i. (pre @ be64 v @ rest) ! (length pre + i)) [0..<8] = be64 v"
    by (rule map_nth_mid) simp
  show "Reader_U64 \<lparr>rd_bytes = pre @ Writer_U64 v @ rest, rd_pos = length pre\<rparr> =
      Ok (v, \<lparr>rd_bytes = pre @ Writer_U64 v @ rest, rd_pos = length pre + length (Writer_U64 v)\<rparr>)"
    unfolding Reader_U64_def Writer_U64_def reader.simps m by simp
qed

lemma decodes_take: "n = length w \<Longrightarrow> decodes (Reader_take n) w w"
  by (simp add: decodes_def Reader_take_def)

lemma canon_U8 [canon_intros]: "canon Reader_U8 (\<lambda>v w. w = Writer_U8 v)"
  by (auto simp: canon_def Reader_U8_def Writer_U8_def Cons_nth_drop_Suc split: if_splits)

lemma drop_nth4:
  "p + 4 \<le> length xs \<Longrightarrow>
   drop p xs = [xs ! p, xs ! (p + 1), xs ! (p + 2), xs ! (p + 3)] @ drop (p + 4) xs"
  by (simp add: Cons_nth_drop_Suc numeral_eq_Suc)

lemma canon_U32 [canon_intros]: "canon Reader_U32 (\<lambda>v w. w = Writer_U32 v)"
  by (auto simp: canon_def Reader_U32_def Writer_U32_def be32_un_be32 drop_nth4 split: if_splits)

lemma drop_map_nth:
  "p + n \<le> length xs \<Longrightarrow> drop p xs = map (\<lambda>i. xs ! (p + i)) [0..<n] @ drop (p + n) xs"
  by (rule nth_equalityI) (auto simp: nth_append)

lemma canon_U64 [canon_intros]: "canon Reader_U64 (\<lambda>v w. w = Writer_U64 v)"
  unfolding canon_def
proof (intro allI impI)
  fix r x r'
  assume "Reader_U64 r = Ok (x, r')"
  then have p: "rd_pos r + 8 \<le> length (rd_bytes r)" and r': "r' = r\<lparr>rd_pos := rd_pos r + 8\<rparr>"
    and x: "x = un_be64 (map (\<lambda>i. rd_bytes r ! (rd_pos r + i)) [0..<8])"
    by (auto simp: Reader_U64_def split: if_splits)
  have "drop (rd_pos r) (rd_bytes r) = Writer_U64 x @ drop (rd_pos r') (rd_bytes r)"
    using drop_map_nth [OF p] by (simp add: Writer_U64_def x r' be64_un_be64 del: upt_rec_numeral)
  with p r' show "rd_bytes r' = rd_bytes r \<and> rd_pos r' \<le> length (rd_bytes r) \<and>
      (\<exists>w. drop (rd_pos r) (rd_bytes r) = w @ drop (rd_pos r') (rd_bytes r) \<and> w = Writer_U64 x)"
    by simp
qed

lemma canon_take: "canon (Reader_take n) (\<lambda>v w. w = v \<and> length v = n)"
  unfolding canon_def
proof (intro allI impI)
  fix r x r'
  assume "Reader_take n r = Ok (x, r')"
  then have "rd_pos r + n \<le> length (rd_bytes r)" "r' = r\<lparr>rd_pos := rd_pos r + n\<rparr>"
    "x = take n (drop (rd_pos r) (rd_bytes r))"
    by (auto simp: Reader_take_def split: if_splits)
  then show "rd_bytes r' = rd_bytes r \<and> rd_pos r' \<le> length (rd_bytes r) \<and>
      (\<exists>w. drop (rd_pos r) (rd_bytes r) = w @ drop (rd_pos r') (rd_bytes r) \<and> w = x \<and> length x = n)"
    by (simp add: add.commute [of _ n] drop_drop [symmetric] del: drop_drop)
qed

lemma canon_Limit [canon_intros]: "canon (Reader_LimitU32 v mx l) (\<lambda>_ w. w = [] \<and> v \<le> mx)"
  by (auto simp: canon_def Reader_LimitU32_def not_less split: if_splits)

lemma decodes_Limit: "v \<le> mx \<Longrightarrow> decodes (Reader_LimitU32 v mx l) [] ()"
  by (simp add: decodes_def Reader_LimitU32_def)

text \<open>Length-prefixed bytes: the length survives the cast to 32 bits.\<close>

lemma decodes_Bytes:
  assumes "length v \<le> unat mx" shows "decodes (Reader_Bytes mx l) (Writer_Bytes v) v"
proof -
  have n: "unat (word_of_nat (length v) :: u32) = length v"
    using assms by (rule unat_of_nat_le)
  then have "\<not> mx < (word_of_nat (length v) :: u32)"
    using assms by (simp add: word_less_nat_alt)
  with n show ?thesis
    unfolding Reader_Bytes_def Writer_Bytes_def
    by (intro decodes_bind [OF decodes_U32]) (simp add: decodes_take)
qed

lemma canon_Bytes:
  "canon (Reader_Bytes mx l) (\<lambda>v w. w = Writer_Bytes v \<and> length v \<le> unat mx)"
  unfolding Reader_Bytes_def
  by (rule canon_weaken, rule canon_bind [OF canon_U32 canon_if [OF canon_fail canon_take]])
    (auto simp: Writer_Bytes_def word_less_nat_alt not_less split: if_splits)

text \<open>The sizes a decoder accepts: a field of at most 1 MiB, a string of at most 64 KiB.\<close>

definition field_ok :: "bytes \<Rightarrow> bool" where
  "field_ok v \<longleftrightarrow> length v \<le> 1048576"

definition string_ok :: "string \<Rightarrow> bool" where
  "string_ok s \<longleftrightarrow> length s \<le> 65536"

definition opt_field_ok :: "bytes option \<Rightarrow> bool" where
  "opt_field_ok v \<longleftrightarrow> (case v of None \<Rightarrow> True | Some b \<Rightarrow> field_ok b)"

lemma decodes_Field [decodes_intros]: "field_ok v \<Longrightarrow> decodes Reader_Field (Writer_Bytes v) v"
  by (rule decodes_Bytes) (simp add: field_ok_def)

lemma canon_Field [canon_intros]: "canon Reader_Field (\<lambda>v w. w = Writer_Bytes v \<and> field_ok v)"
  by (rule canon_weaken [OF canon_Bytes]) (simp add: field_ok_def)

lemma decodes_String [decodes_intros]:
  "string_ok s \<Longrightarrow> decodes Reader_String (Writer_String s) s"
  unfolding Reader_String_def Writer_String_def
  using decodes_bind_return [OF decodes_Bytes, of "ToBytes s" kMaxStringBytes _ FromBytes]
  by (simp add: string_ok_def)

lemma canon_String [canon_intros]:
  "canon Reader_String (\<lambda>s w. w = Writer_String s \<and> string_ok s)"
  unfolding Reader_String_def
  by (rule canon_weaken, rule canon_bind [OF canon_Bytes canon_return])
    (auto simp: Writer_String_def string_ok_def)

lemma decodes_OptionalU32 [decodes_intros]:
  "decodes Reader_OptionalU32 (Writer_OptionalU32 v) v"
  unfolding Reader_OptionalU32_def Writer_OptionalU32_def
  by (intro decodes_bind [OF decodes_U8], cases v)
    (auto intro: decodes_return decodes_bind_return decodes_U32)

lemma canon_OptionalU32 [canon_intros]:
  "canon Reader_OptionalU32 (\<lambda>v w. w = Writer_OptionalU32 v)"
  unfolding Reader_OptionalU32_def
  by (rule canon_weaken, rule canon_bind [OF canon_U8 canon_if [OF canon_return
      canon_if [OF canon_fail canon_bind [OF canon_U32 canon_return]]]])
    (auto simp: Writer_OptionalU32_def split: if_splits)

lemma decodes_OptionalBytes [decodes_intros]:
  "opt_field_ok v \<Longrightarrow> decodes Reader_OptionalBytes (Writer_OptionalBytes v) v"
  unfolding Reader_OptionalBytes_def Writer_OptionalBytes_def
  by (intro decodes_bind [OF decodes_U8], cases v)
    (auto simp: opt_field_ok_def intro: decodes_return decodes_bind_return decodes_Field)

lemma canon_OptionalBytes [canon_intros]:
  "canon Reader_OptionalBytes (\<lambda>v w. w = Writer_OptionalBytes v \<and> opt_field_ok v)"
  unfolding Reader_OptionalBytes_def
  by (rule canon_weaken, rule canon_bind [OF canon_U8 canon_if [OF canon_return
      canon_if [OF canon_fail canon_bind [OF canon_Field canon_return]]]])
    (auto simp: Writer_OptionalBytes_def opt_field_ok_def split: if_splits)

section \<open>Counted loops\<close>

lemma decodes_read_n:
  assumes "\<And>x. x \<in> set xs \<Longrightarrow> decodes m (f x) x"
  shows "decodes (read_n (length xs) m) (concat (map f xs)) xs"
  using assms
proof (induction xs)
  case Nil
  show ?case by (simp add: decodes_return)
next
  case (Cons x xs)
  then show ?case
    by (auto intro!: decodes_bind [of m "f x" x] decodes_bind_return)
qed

lemma canon_read_n:
  assumes "canon m (\<lambda>x w. w = f x \<and> P x)"
  shows "canon (read_n n m) (\<lambda>xs w. w = concat (map f xs) \<and> length xs = n \<and> (\<forall>x\<in>set xs. P x))"
proof (induction n)
  case 0
  show ?case unfolding read_n.simps by (rule canon_weaken [OF canon_return]) auto
next
  case (Suc n)
  show ?case
    unfolding read_n.simps
    by (rule canon_weaken, rule canon_bind [OF assms canon_bind [OF Suc canon_return]]) auto
qed

text \<open>A count, its limit check and the loop (\<^verbatim>\<open>ReadOneTimeEc\<close>, the envelope vectors).\<close>

definition Writer_counted :: "('a \<Rightarrow> bytes) \<Rightarrow> 'a list \<Rightarrow> bytes" where
  "Writer_counted f xs = Writer_U32 (word_of_nat (length xs)) @ concat (map f xs)"

definition Reader_counted :: "u32 \<Rightarrow> string \<Rightarrow> 'a rd \<Rightarrow> 'a list rd" where
  "Reader_counted mx label m =
     rd_bind Reader_U32 (\<lambda>count.
     rd_bind (Reader_LimitU32 count mx label) (\<lambda>_.
     read_n (unat count) m))"

lemma decodes_counted:
  assumes "length xs \<le> unat mx" and "\<And>x. x \<in> set xs \<Longrightarrow> decodes m (f x) x"
  shows "decodes (Reader_counted mx label m) (Writer_counted f xs) xs"
proof -
  have n: "unat (word_of_nat (length xs) :: u32) = length xs"
    using assms(1) by (rule unat_of_nat_le)
  then have "(word_of_nat (length xs) :: u32) \<le> mx"
    using assms(1) by (simp add: word_le_nat_alt)
  from decodes_bind [OF decodes_Limit [OF this, of label],
      of "\<lambda>_. read_n (unat (word_of_nat (length xs) :: u32)) m" "concat (map f xs)" xs]
  show ?thesis
    unfolding Reader_counted_def Writer_counted_def
    using decodes_read_n [OF assms(2)] n by (intro decodes_bind [OF decodes_U32]) simp
qed

lemma canon_counted:
  assumes "canon m (\<lambda>x w. w = f x \<and> P x)"
  shows "canon (Reader_counted mx label m)
    (\<lambda>xs w. w = Writer_counted f xs \<and> length xs \<le> unat mx \<and> (\<forall>x\<in>set xs. P x))"
  unfolding Reader_counted_def
  by (rule canon_weaken, rule canon_bind [OF canon_U32 canon_bind [OF canon_Limit
        canon_read_n [OF assms]]])
    (auto simp: Writer_counted_def word_le_nat_alt)

section \<open>Whole messages\<close>

text \<open>
  The frame every \<^verbatim>\<open>Deserialize...\<close> function shares: the size check, the field reads, the
  check that no bytes are left.
\<close>

definition decode_framed :: "string \<Rightarrow> string \<Rightarrow> 'a rd \<Rightarrow> bytes \<Rightarrow> 'a result" where
  "decode_framed size_label context m bs =
     rbind (ValidateInputSize bs size_label) (\<lambda>_.
     rbind (m (Reader_init bs)) (\<lambda>(x, r).
     if \<not> Reader_Finished r then Err (context @ ''trailing bytes'') else Ok x))"

text \<open>Most of them put the same context before the reader's error and before the final one.\<close>

definition decode_whole :: "string \<Rightarrow> string \<Rightarrow> 'a rd \<Rightarrow> bytes \<Rightarrow> 'a result" where
  "decode_whole size_label context m = decode_framed size_label context (rd_context context m)"

text \<open>An encoding that can be cut off the front of a buffer in one way only.\<close>

locale self_delimiting =
  fixes enc :: "'a \<Rightarrow> bytes" and wf :: "'a \<Rightarrow> bool"
  assumes prefix_free: "wf x \<Longrightarrow> wf y \<Longrightarrow> enc x @ u = enc y @ v \<Longrightarrow> x = y \<and> u = v"
begin

lemma append_eq_iff: "wf x \<Longrightarrow> wf y \<Longrightarrow> enc x @ u = enc y @ v \<longleftrightarrow> x = y \<and> u = v"
  using prefix_free by blast

lemma enc_eq_iff: "wf x \<Longrightarrow> wf y \<Longrightarrow> enc x = enc y \<longleftrightarrow> x = y"
  using prefix_free [of x y "[]" "[]"] by auto

end

locale codec =
  fixes enc :: "'a \<Rightarrow> bytes" and dec :: "'a rd" and wf :: "'a \<Rightarrow> bool"
  assumes dec_enc: "wf x \<Longrightarrow> decodes dec (enc x) x"
    and enc_dec: "canon dec (\<lambda>x w. w = enc x \<and> wf x)"
begin

lemma decode_at:
  "wf x \<Longrightarrow> dec \<lparr>rd_bytes = pre @ enc x @ rest, rd_pos = length pre\<rparr> =
     Ok (x, \<lparr>rd_bytes = pre @ enc x @ rest, rd_pos = length pre + length (enc x)\<rparr>)"
  using dec_enc unfolding decodes_def by blast

lemma accepted:
  "rd_pos r \<le> length (rd_bytes r) \<Longrightarrow> dec r = Ok (x, r') \<Longrightarrow>
   rd_bytes r' = rd_bytes r \<and> rd_pos r' \<le> length (rd_bytes r) \<and> wf x \<and>
   drop (rd_pos r) (rd_bytes r) = enc x @ drop (rd_pos r') (rd_bytes r)"
  using enc_dec unfolding canon_def by blast

lemma decode_framed_iff:
  "decode_framed label context dec bs = Ok x \<longleftrightarrow>
     bs = enc x \<and> wf x \<and> length bs \<le> kMaxSerializedInputBytes"
proof
  assume "decode_framed label context dec bs = Ok x"
  then obtain r where sz: "length bs \<le> kMaxSerializedInputBytes"
    and d: "dec (Reader_init bs) = Ok (x, r)" and fin: "Reader_Finished r"
    by (auto simp: decode_framed_def ValidateInputSize_def result_inv split: if_splits)
  from accepted [OF _ d] fin sz show "bs = enc x \<and> wf x \<and> length bs \<le> kMaxSerializedInputBytes"
    by (simp add: Reader_init_def Reader_Finished_def)
next
  assume "bs = enc x \<and> wf x \<and> length bs \<le> kMaxSerializedInputBytes"
  then show "decode_framed label context dec bs = Ok x"
    using decode_at [of x "[]" "[]"]
    by (auto simp: decode_framed_def ValidateInputSize_def Reader_init_def Reader_Finished_def)
qed

lemma decode_whole_iff:
  "decode_whole label context dec bs = Ok x \<longleftrightarrow>
     bs = enc x \<and> wf x \<and> length bs \<le> kMaxSerializedInputBytes"
proof -
  have "decode_whole label context dec bs = Ok x \<longleftrightarrow> decode_framed label context dec bs = Ok x"
    by (simp add: decode_whole_def decode_framed_def rd_context_def result_inv)
  then show ?thesis by (simp add: decode_framed_iff)
qed

end

sublocale codec \<subseteq> self_delimiting
proof
  fix x y u v
  assume wf: "wf x" "wf y" and eq: "enc x @ u = enc y @ v"
  have "Ok (x, \<lparr>rd_bytes = enc x @ u, rd_pos = length (enc x)\<rparr>) =
      Ok (y, \<lparr>rd_bytes = enc y @ v, rd_pos = length (enc y)\<rparr>)"
    using decode_at [OF wf(1), of "[]" u] decode_at [OF wf(2), of "[]" v] eq by simp
  with eq show "x = y \<and> u = v" by simp
qed

interpretation u8_codec: codec Writer_U8 Reader_U8 "\<lambda>_. True"
  by unfold_locales (simp_all add: decodes_U8 canon_U8)

interpretation u32_codec: codec Writer_U32 Reader_U32 "\<lambda>_. True"
  by unfold_locales (simp_all add: decodes_U32 canon_U32)

interpretation u64_codec: codec Writer_U64 Reader_U64 "\<lambda>_. True"
  by unfold_locales (simp_all add: decodes_U64 canon_U64)

interpretation field_codec: codec Writer_Bytes Reader_Field field_ok
  by unfold_locales (simp_all add: decodes_Field canon_Field)

interpretation string_codec: codec Writer_String Reader_String string_ok
  by unfold_locales (simp_all add: decodes_String canon_String)

interpretation opt_u32_codec: codec Writer_OptionalU32 Reader_OptionalU32 "\<lambda>_. True"
  by unfold_locales (simp_all add: decodes_OptionalU32 canon_OptionalU32)

interpretation opt_field_codec: codec Writer_OptionalBytes Reader_OptionalBytes opt_field_ok
  by unfold_locales (simp_all add: decodes_OptionalBytes canon_OptionalBytes)

text \<open>
  Length-prefixed bytes without a decoder, for the signature inputs: below \<open>2 ^ 32\<close> bytes the
  length prefix is not truncated and the encoding is self-delimiting.
\<close>

definition len32 :: "bytes \<Rightarrow> bool" where
  "len32 v \<longleftrightarrow> length v < 2 ^ 32"

interpretation prefixed: self_delimiting Writer_Bytes len32
proof
  fix x y u v :: bytes
  assume len: "len32 x" "len32 y" and "Writer_Bytes x @ u = Writer_Bytes y @ v"
  then have eq: "be32 (word_of_nat (length x)) @ x @ u = be32 (word_of_nat (length y)) @ y @ v"
    by (simp add: Writer_Bytes_def Writer_U32_def)
  then have "(word_of_nat (length x) :: u32) = word_of_nat (length y)"
    by (simp add: append_eq_append_conv)
  then have "unat (word_of_nat (length x) :: u32) = unat (word_of_nat (length y) :: u32)" by simp
  with len have "length x = length y" by (simp add: len32_def unat_u32_of_nat)
  with eq show "x = y \<and> u = v" by (simp add: append_eq_append_conv)
qed

end
