(* ===== verification/Crypto.thy ===== *)
theory Crypto
  imports Prelude
begin

text \<open>
  The wrappers of \<^verbatim>\<open>src/crypto\<close> around OpenSSL. OpenSSL itself is a parameter of the
  development, the record \<open>openssl\<close>. Each wrapper is a chain of OpenSSL calls that returns a
  literal error text at the first call that fails; the record's field for the wrapper says
  which call of the chain failed (\<open>Inl i\<close>, counted from 0) or what the chain computed
  (\<open>Inr\<close>), and the wrapper's definition holds the checks and the error texts of the source.
  Calls that draw random bits (key generation, encapsulation, ML-DSA signing) take the
  entropy they consume as an argument. An \<^verbatim>\<open>EVP_PKEY*\<close> is \<open>None\<close> when null and otherwise the
  octet string of the private key it holds. A \<^verbatim>\<open>SecureBuffer\<close> is its
  bytes, as the theory \<open>Secure_Buffer\<close> justifies; ownership of OpenSSL handles (\<^verbatim>\<open>openssl_raii.h\<close>) has no
  counterpart in a model of values.
\<close>

type_synonym entropy = bytes
type_synonym pkey = "bytes option"

record openssl =
  ossl_sha256 :: "bytes \<Rightarrow> bytes option"
  ossl_hmac :: "bytes \<Rightarrow> bytes \<Rightarrow> bytes option"
  ossl_hkdf :: "bytes \<Rightarrow> bytes \<Rightarrow> bytes \<Rightarrow> nat \<Rightarrow> nat + bytes"
  ossl_seal :: "bytes \<Rightarrow> bytes \<Rightarrow> bytes \<Rightarrow> bytes \<Rightarrow> nat + bytes"
  ossl_open :: "bytes \<Rightarrow> bytes \<Rightarrow> bytes \<Rightarrow> bytes \<Rightarrow> nat + bytes"
  ossl_x25519_keygen :: "entropy \<Rightarrow> nat + bytes \<times> bytes"
  ossl_x25519_derive :: "bytes \<Rightarrow> bytes \<Rightarrow> nat + bytes"
  ossl_ed25519_keygen :: "entropy \<Rightarrow> nat + bytes \<times> bytes"
  ossl_ed25519_sign :: "bytes \<Rightarrow> bytes \<Rightarrow> nat + bytes"
  ossl_ed25519_verify :: "bytes \<Rightarrow> bytes \<Rightarrow> bytes \<Rightarrow> nat + unit"
  ossl_mldsa_keygen :: "entropy \<Rightarrow> nat + bytes \<times> bytes"
  ossl_mldsa_sign :: "entropy \<Rightarrow> bytes \<Rightarrow> bytes \<Rightarrow> nat + bytes"
  ossl_mldsa_verify :: "bytes \<Rightarrow> bytes \<Rightarrow> bytes \<Rightarrow> nat + unit"
  ossl_mlkem_keygen :: "entropy \<Rightarrow> nat + bytes \<times> bytes"
  ossl_mlkem_encaps :: "entropy \<Rightarrow> bytes \<Rightarrow> nat + bytes \<times> bytes"
  ossl_mlkem_decaps :: "bytes \<Rightarrow> bytes \<Rightarrow> nat + bytes"
  ossl_mldsa_export :: "bytes \<Rightarrow> nat + bytes"
  ossl_mldsa_import :: "bytes \<Rightarrow> bytes \<Rightarrow> nat + bytes"
  ossl_mlkem_export :: "bytes \<Rightarrow> nat + bytes"
  ossl_mlkem_import :: "bytes \<Rightarrow> bytes \<Rightarrow> nat + bytes"
  ossl_pbkdf2 :: "bytes \<Rightarrow> bytes \<Rightarrow> int \<Rightarrow> bytes option"

definition call_error :: "string list \<Rightarrow> nat \<Rightarrow> string" where
  "call_error texts i = (if i < length texts then texts ! i else last texts)"

definition run_calls :: "string list \<Rightarrow> nat + 'a \<Rightarrow> 'a result" where
  "run_calls texts r = (case r of Inl i \<Rightarrow> Err (call_error texts i) | Inr v \<Rightarrow> Ok v)"

lemma run_calls_Ok_iff [result_inv]: "run_calls texts r = Ok v \<longleftrightarrow> r = Inr v"
  by (cases r) (simp_all add: run_calls_def)

lemma run_calls_Inr [simp]: "run_calls texts (Inr v) = Ok v"
  by (simp add: run_calls_def)

section \<open>Hashing and key derivation\<close>

text \<open>
  A call that fills a zeroed vector of \<open>n\<close> bytes: whatever the callee writes, the vector the
  source returns has \<open>n\<close> bytes.
\<close>

definition fill :: "nat \<Rightarrow> bytes \<Rightarrow> bytes" where
  "fill n bs = take n (bs @ replicate n 0)"

lemma length_fill [simp]: "length (fill n bs) = n"
  by (simp add: fill_def)

lemma fill_id: "length bs = n \<Longrightarrow> fill n bs = bs"
  by (simp add: fill_def)

definition SHA256_DIGEST_LENGTH :: nat where "SHA256_DIGEST_LENGTH = 32"

definition Sha256 :: "openssl \<Rightarrow> bytes \<Rightarrow> bytes result" where
  "Sha256 ssl data =
     (case ossl_sha256 ssl data of
        None \<Rightarrow> Err ''SHA256 failed''
      | Some h \<Rightarrow> Ok (fill SHA256_DIGEST_LENGTH h))"

definition HmacSha256 :: "openssl \<Rightarrow> bytes \<Rightarrow> bytes \<Rightarrow> bytes result" where
  "HmacSha256 ssl key data =
     (case ossl_hmac ssl key data of None \<Rightarrow> Err ''HMAC failed'' | Some h \<Rightarrow> Ok h)"

definition HkdfSha256 :: "openssl \<Rightarrow> bytes \<Rightarrow> bytes \<Rightarrow> bytes \<Rightarrow> nat \<Rightarrow> bytes result" where
  "HkdfSha256 ssl ikm salt info output_len =
     rbind (run_calls [''EVP_KDF_fetch(HKDF) failed'', ''EVP_KDF_CTX_new failed'',
       ''EVP_KDF_derive failed''] (ossl_hkdf ssl ikm salt info output_len))
     (\<lambda>out. Ok (fill output_len out))"

lemma HkdfSha256_length: "HkdfSha256 ssl ikm salt info n = Ok out \<Longrightarrow> length out = n"
  by (auto simp: HkdfSha256_def result_inv)

definition Concat :: "bytes list \<Rightarrow> bytes" where
  "Concat parts = foldl (\<lambda>out part. out @ part) [] parts"

lemma Concat_eq: "Concat parts = concat parts"
proof -
  have "foldl (\<lambda>out part. out @ part) acc parts = acc @ concat parts" for acc
    by (induction parts arbitrary: acc) simp_all
  then show ?thesis by (simp add: Concat_def)
qed

section \<open>AEAD\<close>

definition kKeySize :: nat where "kKeySize = 32"
definition kNonceSize :: nat where "kNonceSize = 12"
definition kTagSize :: nat where "kTagSize = 16"

definition Seal :: "openssl \<Rightarrow> bytes \<Rightarrow> bytes \<Rightarrow> bytes \<Rightarrow> bytes \<Rightarrow> bytes result" where
  "Seal ssl key nonce plaintext ad =
     (if length key \<noteq> kKeySize then Err ''invalid key size''
      else if length nonce \<noteq> kNonceSize then Err ''invalid nonce size''
      else run_calls [''EVP_CIPHER_CTX_new failed'', ''EncryptInit failed'', ''SET_IVLEN failed'',
        ''EncryptInit key/nonce failed'', ''EncryptUpdate AD failed'', ''EncryptUpdate failed'',
        ''EncryptFinal failed'', ''GET_TAG failed''] (ossl_seal ssl key nonce plaintext ad))"

definition Open :: "openssl \<Rightarrow> bytes \<Rightarrow> bytes \<Rightarrow> bytes \<Rightarrow> bytes \<Rightarrow> bytes result" where
  "Open ssl key nonce ciphertext ad =
     (if length key \<noteq> kKeySize then Err ''invalid key size''
      else if length nonce \<noteq> kNonceSize then Err ''invalid nonce size''
      else if length ciphertext < kTagSize then Err ''ciphertext too short''
      else run_calls [''EVP_CIPHER_CTX_new failed'', ''DecryptInit failed'', ''SET_IVLEN failed'',
        ''DecryptInit key/nonce failed'', ''DecryptUpdate AD failed'', ''DecryptUpdate failed'',
        ''SET_TAG failed'', ''DecryptFinal failed''] (ossl_open ssl key nonce ciphertext ad))"

text \<open>The loop writes the counter's bytes backwards from the last position of the nonce.\<close>

fun nonce_loop :: "nat \<Rightarrow> nat \<Rightarrow> u64 \<Rightarrow> bytes \<Rightarrow> bytes" where
  "nonce_loop i 0 counter nonce = nonce"
| "nonce_loop i (Suc n) counter nonce =
     nonce_loop (Suc i) n (drop_bit 8 counter)
       (nonce[length nonce - 1 - i := ucast (counter AND 0xFF)])"

definition NonceFromCounter :: "u64 \<Rightarrow> bytes" where
  "NonceFromCounter counter = nonce_loop 0 8 counter (replicate kNonceSize 0)"

lemma byte_of_drop_bit: "byte_of (drop_bit s v) t = byte_of v (t + s)"
  by (rule bit_word_eqI) (simp add: bit_byte_of bit_drop_bit_eq add_ac)

lemma rev_upt_Suc_map: "map f (rev [0..<Suc n]) = map (\<lambda>k. f (Suc k)) (rev [0..<n]) @ [f 0]"
  by (simp add: rev_map [symmetric] upt_conv_Cons map_Suc_upt [symmetric] comp_def del: upt_Suc)

lemma nonce_loop_eq:
  "i + n \<le> length xs \<Longrightarrow>
   nonce_loop i n c xs =
     take (length xs - i - n) xs @ map (\<lambda>k. byte_of c (8 * k)) (rev [0..<n]) @
     drop (length xs - i) xs"
proof (induction n arbitrary: i c xs)
  case 0
  then show ?case by simp
next
  case (Suc n)
  define j where "j = length xs - 1 - i"
  define ys where "ys = xs[j := byte_of c 0]"
  have j: "j < length xs" and l: "length xs - i = Suc j" "length ys - Suc i = j"
    using Suc.prems by (simp_all add: j_def ys_def)
  have "drop j ys = byte_of c 0 # drop (Suc j) xs"
    using j by (simp add: ys_def Cons_nth_drop_Suc [symmetric])
  moreover have "take (j - n) ys = take (j - n) xs" by (simp add: ys_def)
  moreover have "nonce_loop i (Suc n) c xs = nonce_loop (Suc i) n (drop_bit 8 c) ys"
    by (simp add: ys_def j_def byte_of_def)
  moreover have "Suc i + n \<le> length ys" using Suc.prems by (simp add: ys_def)
  ultimately show ?case
    using Suc.IH [of "Suc i" ys "drop_bit 8 c"] l
    by (simp add: byte_of_drop_bit rev_upt_Suc_map add.commute del: upt_Suc nonce_loop.simps)
qed

text \<open>The nonce is four zero bytes and the counter, big-endian.\<close>

lemma NonceFromCounter_eq: "NonceFromCounter c = [0, 0, 0, 0] @ be64 c"
proof -
  have "nonce_loop 0 8 c (replicate kNonceSize 0) = replicate 4 0 @ be64 c"
    by (subst nonce_loop_eq) (simp_all add: kNonceSize_def be64_def)
  then show ?thesis by (simp add: NonceFromCounter_def eval_nat_numeral)
qed

lemma length_NonceFromCounter [simp]: "length (NonceFromCounter c) = kNonceSize"
  by (simp add: NonceFromCounter_eq kNonceSize_def)

lemma NonceFromCounter_inject [simp]: "NonceFromCounter c = NonceFromCounter d \<longleftrightarrow> c = d"
  by (simp add: NonceFromCounter_eq)

section \<open>Asymmetric keys\<close>

record X25519KeyPair =
  xk_private_key :: bytes
  xk_public_key :: bytes

record Ed25519KeyPair =
  ek_private_key :: bytes
  ek_public_key :: bytes

record MlDsa65KeyPair =
  dk_private_key :: pkey
  dk_public_key :: bytes

record MlKemKeyPair =
  kk_private_key :: pkey
  kk_public_key :: bytes

record MlKemEncapResult =
  er_ciphertext :: bytes
  er_shared_secret :: bytes

definition X25519_GenerateKeyPair :: "openssl \<Rightarrow> entropy \<Rightarrow> X25519KeyPair result" where
  "X25519_GenerateKeyPair ssl ent =
     rbind (run_calls [''EVP_PKEY_CTX_new_id failed'', ''EVP_PKEY_keygen_init failed'',
       ''EVP_PKEY_keygen failed'', ''get_raw_public_key failed'', ''get_raw_private_key failed'']
       (ossl_x25519_keygen ssl ent))
     (\<lambda>(sk, pk). Ok \<lparr>xk_private_key = sk, xk_public_key = pk\<rparr>)"

definition X25519_SharedSecret :: "openssl \<Rightarrow> bytes \<Rightarrow> bytes \<Rightarrow> bytes result" where
  "X25519_SharedSecret ssl private_key peer_public_key =
     run_calls [''new_raw_private_key failed'', ''new_raw_public_key failed'',
       ''EVP_PKEY_CTX_new failed'', ''EVP_PKEY_derive_init failed'',
       ''EVP_PKEY_derive_set_peer failed'', ''EVP_PKEY_derive sizing failed'',
       ''EVP_PKEY_derive failed''] (ossl_x25519_derive ssl private_key peer_public_key)"

definition Ed25519_GenerateKeyPair :: "openssl \<Rightarrow> entropy \<Rightarrow> Ed25519KeyPair result" where
  "Ed25519_GenerateKeyPair ssl ent =
     rbind (run_calls [''EVP_PKEY_CTX_new_id failed'', ''EVP_PKEY_keygen_init failed'',
       ''EVP_PKEY_keygen failed'', ''get_raw_public_key failed'', ''get_raw_private_key failed'']
       (ossl_ed25519_keygen ssl ent))
     (\<lambda>(sk, pk). Ok \<lparr>ek_private_key = sk, ek_public_key = pk\<rparr>)"

definition Ed25519_Sign :: "openssl \<Rightarrow> bytes \<Rightarrow> bytes \<Rightarrow> bytes result" where
  "Ed25519_Sign ssl private_key message =
     run_calls [''new_raw_private_key failed'', ''EVP_MD_CTX_new failed'',
       ''DigestSignInit failed'', ''DigestSign sizing failed'', ''DigestSign failed'']
       (ossl_ed25519_sign ssl private_key message)"

definition Ed25519_Verify :: "openssl \<Rightarrow> bytes \<Rightarrow> bytes \<Rightarrow> bytes \<Rightarrow> unit result" where
  "Ed25519_Verify ssl public_key message signature =
     run_calls [''new_raw_public_key failed'', ''EVP_MD_CTX_new failed'',
       ''DigestVerifyInit failed'', ''signature verification failed'']
       (ossl_ed25519_verify ssl public_key message signature)"

definition MlDsa65_GenerateKeyPair :: "openssl \<Rightarrow> entropy \<Rightarrow> MlDsa65KeyPair result" where
  "MlDsa65_GenerateKeyPair ssl ent =
     rbind (run_calls [''ML-DSA-65 not available in OpenSSL provider'',
       ''EVP_PKEY_keygen_init failed'', ''EVP_PKEY_generate failed'',
       ''get_octet_string_param size failed'', ''get_octet_string_param failed'']
       (ossl_mldsa_keygen ssl ent))
     (\<lambda>(sk, pk). Ok \<lparr>dk_private_key = Some sk, dk_public_key = pk\<rparr>)"

definition MlDsa65_Sign :: "openssl \<Rightarrow> entropy \<Rightarrow> pkey \<Rightarrow> bytes \<Rightarrow> bytes result" where
  "MlDsa65_Sign ssl ent private_key message =
     (case private_key of
        None \<Rightarrow> Err ''private key is null''
      | Some sk \<Rightarrow>
          run_calls [''EVP_MD_CTX_new failed'', ''EVP_DigestSignInit_ex failed'',
            ''EVP_DigestSign sizing failed'', ''EVP_DigestSign failed'']
            (ossl_mldsa_sign ssl ent sk message))"

definition MlDsa65_Verify :: "openssl \<Rightarrow> bytes \<Rightarrow> bytes \<Rightarrow> bytes \<Rightarrow> unit result" where
  "MlDsa65_Verify ssl public_key message signature =
     run_calls [''ML-DSA-65 not available in OpenSSL provider'',
       ''EVP_PKEY_fromdata_init failed'', ''EVP_PKEY_fromdata failed for ML-DSA public key'',
       ''EVP_MD_CTX_new failed'', ''EVP_DigestVerifyInit_ex failed'',
       ''ML-DSA signature verification failed'']
       (ossl_mldsa_verify ssl public_key message signature)"

definition MlKem768_GenerateKeyPair :: "openssl \<Rightarrow> entropy \<Rightarrow> MlKemKeyPair result" where
  "MlKem768_GenerateKeyPair ssl ent =
     rbind (run_calls [''ML-KEM-768 not available in OpenSSL provider'',
       ''EVP_PKEY_keygen_init failed'', ''EVP_PKEY_generate failed'',
       ''EVP_PKEY_get_octet_string_param size failed'',
       ''EVP_PKEY_get_octet_string_param failed''] (ossl_mlkem_keygen ssl ent))
     (\<lambda>(sk, pk). Ok \<lparr>kk_private_key = Some sk, kk_public_key = pk\<rparr>)"

definition MlKem768_Encapsulate :: "openssl \<Rightarrow> entropy \<Rightarrow> bytes \<Rightarrow> MlKemEncapResult result" where
  "MlKem768_Encapsulate ssl ent public_key =
     rbind (run_calls [''ML-KEM-768 not available in OpenSSL provider'',
       ''EVP_PKEY_fromdata_init failed'', ''EVP_PKEY_fromdata failed for public key'',
       ''EVP_PKEY_CTX_new failed'', ''EVP_PKEY_encapsulate_init failed'',
       ''EVP_PKEY_encapsulate sizing failed'', ''EVP_PKEY_encapsulate failed'']
       (ossl_mlkem_encaps ssl ent public_key))
     (\<lambda>(ct, ss). Ok \<lparr>er_ciphertext = ct, er_shared_secret = ss\<rparr>)"

definition MlKem768_Decapsulate :: "openssl \<Rightarrow> pkey \<Rightarrow> bytes \<Rightarrow> bytes result" where
  "MlKem768_Decapsulate ssl private_key ciphertext =
     (case private_key of
        None \<Rightarrow> Err ''private key is null''
      | Some sk \<Rightarrow>
          run_calls [''EVP_PKEY_CTX_new failed'', ''EVP_PKEY_decapsulate_init failed'',
            ''EVP_PKEY_decapsulate sizing failed'', ''EVP_PKEY_decapsulate failed'']
            (ossl_mlkem_decaps ssl sk ciphertext))"

text \<open>
  Export to and restoring from raw octets. \<^verbatim>\<open>KeyPairFromRaw\<close> hands both halves to
  \<^verbatim>\<open>EVP_PKEY_fromdata\<close>; the pair keeps the public octets it was given.
\<close>

definition MlDsa65_FromPrivateKey :: "openssl \<Rightarrow> bytes \<Rightarrow> bytes \<Rightarrow> MlDsa65KeyPair result" where
  "MlDsa65_FromPrivateKey ssl private_key public_key =
     rbind (run_calls [''ML-DSA-65 not available in OpenSSL provider'',
       ''EVP_PKEY_fromdata_init failed'', ''EVP_PKEY_fromdata failed for ML-DSA keypair'']
       (ossl_mldsa_import ssl private_key public_key))
     (\<lambda>sk. Ok \<lparr>dk_private_key = Some sk, dk_public_key = public_key\<rparr>)"

definition MlDsa65_ExportPrivateKey :: "openssl \<Rightarrow> pkey \<Rightarrow> bytes result" where
  "MlDsa65_ExportPrivateKey ssl private_key =
     (case private_key of
        None \<Rightarrow> Err ''private key is null''
      | Some sk \<Rightarrow> run_calls [''get private key size failed'', ''get private key failed'']
          (ossl_mldsa_export ssl sk))"

definition MlKem768_FromPrivateKey :: "openssl \<Rightarrow> bytes \<Rightarrow> bytes \<Rightarrow> MlKemKeyPair result" where
  "MlKem768_FromPrivateKey ssl private_key public_key =
     rbind (run_calls [''ML-KEM-768 not available in OpenSSL provider'',
       ''EVP_PKEY_fromdata_init failed'', ''EVP_PKEY_fromdata failed for ML-KEM keypair'']
       (ossl_mlkem_import ssl private_key public_key))
     (\<lambda>sk. Ok \<lparr>kk_private_key = Some sk, kk_public_key = public_key\<rparr>)"

definition MlKem768_ExportPrivateKey :: "openssl \<Rightarrow> pkey \<Rightarrow> bytes result" where
  "MlKem768_ExportPrivateKey ssl private_key =
     (case private_key of
        None \<Rightarrow> Err ''private key is null''
      | Some sk \<Rightarrow> run_calls [''get private key size failed'', ''get private key failed'']
          (ossl_mlkem_export ssl sk))"

section \<open>What the primitives promise\<close>

text \<open>
  The documented behaviour of the primitives that the protocol relies on, as predicates on the
  parameter. Both sides of an X25519 agreement between generated pairs compute the same value;
  decapsulating what was encapsulated to a generated key gives the encapsulated secret; a
  signature made with a generated key verifies under its public key; opening what was sealed
  under the same key, nonce and associated data gives the plaintext back.
\<close>

definition dh_pair :: "openssl \<Rightarrow> X25519KeyPair \<Rightarrow> bool" where
  "dh_pair ssl kp \<longleftrightarrow> (\<exists>ent. ossl_x25519_keygen ssl ent = Inr (xk_private_key kp, xk_public_key kp))"

definition dh_correct :: "openssl \<Rightarrow> bool" where
  "dh_correct ssl \<longleftrightarrow>
     (\<forall>e1 e2 sk1 pk1 sk2 pk2. ossl_x25519_keygen ssl e1 = Inr (sk1, pk1) \<longrightarrow>
        ossl_x25519_keygen ssl e2 = Inr (sk2, pk2) \<longrightarrow>
        ossl_x25519_derive ssl sk1 pk2 = ossl_x25519_derive ssl sk2 pk1)"

definition kem_correct :: "openssl \<Rightarrow> bool" where
  "kem_correct ssl \<longleftrightarrow>
     (\<forall>e sk pk ent ct ss. ossl_mlkem_keygen ssl e = Inr (sk, pk) \<longrightarrow>
        ossl_mlkem_encaps ssl ent pk = Inr (ct, ss) \<longrightarrow> ossl_mlkem_decaps ssl sk ct = Inr ss)"

definition sig_correct :: "openssl \<Rightarrow> bool" where
  "sig_correct ssl \<longleftrightarrow>
     (\<forall>e sk pk m s. ossl_ed25519_keygen ssl e = Inr (sk, pk) \<longrightarrow>
        ossl_ed25519_sign ssl sk m = Inr s \<longrightarrow> ossl_ed25519_verify ssl pk m s = Inr ()) \<and>
     (\<forall>e sk pk ent m s. ossl_mldsa_keygen ssl e = Inr (sk, pk) \<longrightarrow>
        ossl_mldsa_sign ssl ent sk m = Inr s \<longrightarrow> ossl_mldsa_verify ssl pk m s = Inr ())"

definition aead_correct :: "openssl \<Rightarrow> bool" where
  "aead_correct ssl \<longleftrightarrow>
     (\<forall>k n p ad c. ossl_seal ssl k n p ad = Inr c \<longrightarrow>
        length c = length p + kTagSize \<and> ossl_open ssl k n c ad = Inr p)"

text \<open>
  Public keys, signatures and encapsulations have fixed lengths (at most 3309 bytes, an ML-DSA-65
  signature); what matters is that they are far below the limits of the decoders.
\<close>

definition sizes_bounded :: "openssl \<Rightarrow> bool" where
  "sizes_bounded ssl \<longleftrightarrow>
     (\<forall>ent sk pk. ossl_x25519_keygen ssl ent = Inr (sk, pk) \<longrightarrow> length pk \<le> 8192) \<and>
     (\<forall>ent sk pk. ossl_ed25519_keygen ssl ent = Inr (sk, pk) \<longrightarrow> length pk \<le> 8192) \<and>
     (\<forall>ent sk pk. ossl_mldsa_keygen ssl ent = Inr (sk, pk) \<longrightarrow> length pk \<le> 8192) \<and>
     (\<forall>sk m s. ossl_ed25519_sign ssl sk m = Inr s \<longrightarrow> length s \<le> 8192) \<and>
     (\<forall>ent sk m s. ossl_mldsa_sign ssl ent sk m = Inr s \<longrightarrow> length s \<le> 8192) \<and>
     (\<forall>ent pk ct ss. ossl_mlkem_encaps ssl ent pk = Inr (ct, ss) \<longrightarrow> length ct \<le> 8192)"

lemma dh_agree:
  assumes "dh_correct ssl" "dh_pair ssl a" "dh_pair ssl b"
  shows "X25519_SharedSecret ssl (xk_private_key a) (xk_public_key b) =
    X25519_SharedSecret ssl (xk_private_key b) (xk_public_key a)"
proof -
  from assms(2,3) obtain e1 e2
    where "ossl_x25519_keygen ssl e1 = Inr (xk_private_key a, xk_public_key a)"
      and "ossl_x25519_keygen ssl e2 = Inr (xk_private_key b, xk_public_key b)"
    by (auto simp: dh_pair_def)
  with assms(1) have "ossl_x25519_derive ssl (xk_private_key a) (xk_public_key b) =
      ossl_x25519_derive ssl (xk_private_key b) (xk_public_key a)"
    unfolding dh_correct_def by blast
  then show ?thesis by (simp add: X25519_SharedSecret_def)
qed

lemma dh_pair_generated: "X25519_GenerateKeyPair ssl ent = Ok kp \<Longrightarrow> dh_pair ssl kp"
  by (auto simp: X25519_GenerateKeyPair_def dh_pair_def result_inv)

lemma Open_Seal:
  "aead_correct ssl \<Longrightarrow> Seal ssl k n p ad = Ok c \<Longrightarrow> Open ssl k n c ad = Ok p"
  by (auto simp: Seal_def Open_def aead_correct_def result_inv)

section \<open>A concrete instance\<close>

text \<open>
  A computable stand-in for OpenSSL, without any security, on which the hypotheses about the
  parameter are shown to be satisfiable: public keys equal private keys of at most 32 bytes,
  Diffie-Hellman and encapsulation combine bytewise, a signature is the key padded to 64 bytes
  more, encryption appends the first 16 bytes of the key as a tag.
\<close>

definition mix :: "bytes \<Rightarrow> bytes \<Rightarrow> bytes" where
  "mix a b = map (\<lambda>(x, y). x + y) (zip a b)"

definition toy_ssl :: openssl where
  "toy_ssl =
     \<lparr>ossl_sha256 = (\<lambda>m. Some (take 32 (m @ replicate 32 0))),
      ossl_hmac = (\<lambda>k m. Some (take 32 (k @ m @ replicate 32 0))),
      ossl_hkdf = (\<lambda>ikm salt info n. Inr (take n (ikm @ salt @ info @ replicate n 0))),
      ossl_seal = (\<lambda>k n p ad. Inr (p @ fill 16 k)),
      ossl_open = (\<lambda>k n c ad. if drop (length c - 16) c = fill 16 k
        then Inr (take (length c - 16) c) else Inl 7),
      ossl_x25519_keygen = (\<lambda>ent. Inr (take 32 ent, take 32 ent)),
      ossl_x25519_derive = (\<lambda>sk pk. Inr (mix sk pk)),
      ossl_ed25519_keygen = (\<lambda>ent. Inr (take 32 ent, take 32 ent)),
      ossl_ed25519_sign = (\<lambda>sk m. Inr (take 32 sk @ replicate 64 0)),
      ossl_ed25519_verify = (\<lambda>pk m s. if s = take 32 pk @ replicate 64 0 then Inr () else Inl 3),
      ossl_mldsa_keygen = (\<lambda>ent. Inr (take 32 ent, take 32 ent)),
      ossl_mldsa_sign = (\<lambda>ent sk m. Inr (take 32 sk @ replicate 64 0)),
      ossl_mldsa_verify = (\<lambda>pk m s. if s = take 32 pk @ replicate 64 0 then Inr () else Inl 5),
      ossl_mlkem_keygen = (\<lambda>ent. Inr (take 32 ent, take 32 ent)),
      ossl_mlkem_encaps = (\<lambda>ent pk. Inr (take 32 ent, mix (take 32 ent) pk)),
      ossl_mlkem_decaps = (\<lambda>sk ct. Inr (mix sk ct)),
      ossl_mldsa_export = (\<lambda>sk. Inr sk),
      ossl_mldsa_import = (\<lambda>sk pk. Inr sk),
      ossl_mlkem_export = (\<lambda>sk. Inr sk),
      ossl_mlkem_import = (\<lambda>sk pk. Inr sk),
      ossl_pbkdf2 = (\<lambda>p salt n. Some (fill 32 (p @ salt)))\<rparr>"

lemma take_onto [simp]: "(\<exists>ent. take n ent = xs) \<longleftrightarrow> length xs \<le> n"
  by (metis length_take min.bounded_iff nle_le take_all)

lemma mix_commute: "mix a b = mix b a"
  by (simp add: mix_def list_eq_iff_nth_eq add.commute)

lemma toy_ssl_correct:
  "dh_correct toy_ssl" "kem_correct toy_ssl" "sig_correct toy_ssl" "aead_correct toy_ssl"
  subgoal by (simp add: dh_correct_def toy_ssl_def mix_commute)
  subgoal by (simp add: kem_correct_def toy_ssl_def mix_commute)
  subgoal by (simp add: sig_correct_def toy_ssl_def)
  subgoal by (simp add: aead_correct_def toy_ssl_def kTagSize_def)
  done

lemma toy_ssl_sizes: "sizes_bounded toy_ssl"
  by (auto simp: sizes_bounded_def toy_ssl_def)

end
