(* ===== verification/Messages.thy ===== *)
theory Messages
  imports Codec Crypto
begin

text \<open>
  The protocol structures of \<^verbatim>\<open>include/pqchat/protocol\<close> as records (each field carries a
  prefix for its structure), the canonical inputs of signatures and hashes
  (\<^verbatim>\<open>src/protocol/messages.cpp\<close>, \<^verbatim>\<open>prekey_bundle.cpp\<close>, \<^verbatim>\<open>transport_auth.cpp\<close>) and the
  verification of prekey bundles. The lemmas show that each canonical input determines the
  fields it covers and that the inputs of different purposes never coincide, so a signature
  made for one cannot be replayed as another; the prekey bundle verification accepts exactly
  when all six signatures verify.
\<close>

section \<open>Structures\<close>

definition kProtocolVersion :: string where
  "kProtocolVersion = ''pqchat-v1''"

definition kCipherSuite :: string where
  "kCipherSuite = ''X25519+ML-KEM-768+ChaCha20-Poly1305+HKDF-SHA256''"

record SignedPrekeyEc =
  ske_id :: u32
  ske_public_key :: bytes
  ske_signature_ed25519 :: bytes
  ske_signature_mldsa65 :: bytes

record SignedPrekeyPq =
  skp_id :: u32
  skp_public_key :: bytes
  skp_signature_ed25519 :: bytes
  skp_signature_mldsa65 :: bytes

record OneTimePrekeyEc =
  ote_id :: u32
  ote_public_key :: bytes

record OneTimePrekeyPq =
  otp_id :: u32
  otp_public_key :: bytes

record PrekeyBundle =
  pb_user_id :: string
  pb_identity_sign_public_key :: bytes
  pb_identity_mldsa_public_key :: bytes
  pb_identity_dh_public_key :: bytes
  pb_signed_prekey_ec :: SignedPrekeyEc
  pb_signed_prekey_pq :: SignedPrekeyPq
  pb_one_time_ec :: "OneTimePrekeyEc list"
  pb_one_time_pq :: "OneTimePrekeyPq list"
  pb_bundle_signature_ed25519 :: bytes
  pb_bundle_signature_mldsa65 :: bytes
  pb_version :: string
  pb_cipher_suite :: string

record PrekeySelection =
  sel_signed_prekey_ec_id :: u32
  sel_signed_prekey_pq_id :: u32
  sel_one_time_ec_id :: "u32 option"
  sel_one_time_pq_id :: "u32 option"

record InitialMessage =
  im_session_id :: string
  im_from_user :: string
  im_to_user :: string
  im_version :: string
  im_cipher_suite :: string
  im_initiator_identity_sign_public_key :: bytes
  im_initiator_identity_mldsa_public_key :: bytes
  im_initiator_identity_dh_public_key :: bytes
  im_initiator_ephemeral_ec_public_key :: bytes
  im_selected_prekeys :: PrekeySelection
  im_kem_ciphertext_signed_pq :: bytes
  im_kem_ciphertext_one_time_pq :: "bytes option"
  im_transcript_hash :: bytes
  im_handshake_signature_ed25519 :: bytes
  im_handshake_signature_mldsa65 :: bytes
  im_initial_nonce :: bytes
  im_initial_ciphertext :: bytes

record InitialTranscriptFields =
  tf_session_id :: string
  tf_from_user :: string
  tf_to_user :: string
  tf_version :: string
  tf_cipher_suite :: string
  tf_initiator_identity_sign_public_key :: bytes
  tf_initiator_identity_mldsa_public_key :: bytes
  tf_initiator_identity_dh_public_key :: bytes
  tf_responder_identity_sign_public_key :: bytes
  tf_responder_identity_mldsa_public_key :: bytes
  tf_responder_identity_dh_public_key :: bytes
  tf_initiator_ephemeral_ec_public_key :: bytes
  tf_selected_prekeys :: PrekeySelection
  tf_kem_ciphertext_signed_pq :: bytes
  tf_kem_ciphertext_one_time_pq :: "bytes option"

record MessageHeader =
  mh_sender_ratchet_public_key :: "bytes option"
  mh_previous_chain_length :: u64
  mh_message_number :: u64
  mh_flags :: u32

record ChatMessage =
  cm_session_id :: string
  cm_from_user :: string
  cm_to_user :: string
  cm_header :: MessageHeader
  cm_nonce :: bytes
  cm_ciphertext :: bytes

datatype EnvelopeType = kInitial | kChat

record Envelope =
  env_type :: EnvelopeType
  env_initial :: "InitialMessage option"
  env_chat :: "ChatMessage option"

record InboxEnvelope =
  ie_inbox_id :: u64
  ie_envelope :: Envelope

definition FromInitial :: "InitialMessage \<Rightarrow> Envelope" where
  "FromInitial m = \<lparr>env_type = kInitial, env_initial = Some m, env_chat = None\<rparr>"

definition FromChat :: "ChatMessage \<Rightarrow> Envelope" where
  "FromChat m = \<lparr>env_type = kChat, env_initial = None, env_chat = Some m\<rparr>"

record RegisterRequest =
  rr_user_id :: string
  rr_transport_auth_public_key :: bytes
  rr_registration_token :: string
  rr_proof_signature_mldsa65 :: bytes
  rr_rotation_signature_mldsa65 :: "bytes option"

record AuthBeginRequest =
  abq_user_id :: string
  abq_client_nonce :: bytes

record AuthBeginResponse =
  abr_challenge_id :: string
  abr_server_nonce :: bytes
  abr_expires_at_unix :: u64

record AuthFinishRequest =
  afq_user_id :: string
  afq_challenge_id :: string
  afq_client_nonce :: bytes
  afq_server_nonce :: bytes
  afq_expires_at_unix :: u64
  afq_signature_mldsa65 :: bytes

record AuthFinishResponse =
  afr_session_token :: bytes
  afr_expires_at_unix :: u64

record AuthenticatedPayload =
  ap_session_token :: bytes
  ap_payload :: bytes

record EnqueueRequest =
  eq_user_id :: string
  eq_envelope :: Envelope

record DrainInboxRequest =
  dr_user_id :: string
  dr_ack_up_to_inbox_id :: "u64 option"

section \<open>Canonical inputs\<close>

text \<open>
  The append helpers of \<^verbatim>\<open>messages.cpp\<close>; \<^verbatim>\<open>prekey_bundle.cpp\<close> and
  \<^verbatim>\<open>transport_auth.cpp\<close> repeat them under other names.
\<close>

definition AppendUint32 :: "u32 \<Rightarrow> bytes" where
  "AppendUint32 v = be32 v"

definition AppendUint64 :: "u64 \<Rightarrow> bytes" where
  "AppendUint64 v = be64 v"

definition AppendBytes :: "bytes \<Rightarrow> bytes" where
  "AppendBytes bs = AppendUint32 (word_of_nat (length bs)) @ bs"

definition AppendString :: "string \<Rightarrow> bytes" where
  "AppendString s = AppendBytes (ToBytes s)"

text \<open>An optional part: a 32-bit presence flag, then the part if it is there.\<close>

definition AppendFlagged :: "('a \<Rightarrow> bytes) \<Rightarrow> 'a option \<Rightarrow> bytes" where
  "AppendFlagged f v =
     AppendUint32 (if v \<noteq> None then 1 else 0) @ (case v of Some x \<Rightarrow> f x | None \<Rightarrow> [])"

definition TranscriptCanonical :: "InitialTranscriptFields \<Rightarrow> bytes" where
  "TranscriptCanonical f =
     AppendString ''pqchat_initial_transcript_v1'' @
     AppendString (tf_session_id f) @
     AppendString (tf_from_user f) @
     AppendString (tf_to_user f) @
     AppendString (tf_version f) @
     AppendString (tf_cipher_suite f) @
     AppendBytes (tf_initiator_identity_sign_public_key f) @
     AppendBytes (tf_initiator_identity_mldsa_public_key f) @
     AppendBytes (tf_initiator_identity_dh_public_key f) @
     AppendBytes (tf_responder_identity_sign_public_key f) @
     AppendBytes (tf_responder_identity_mldsa_public_key f) @
     AppendBytes (tf_responder_identity_dh_public_key f) @
     AppendBytes (tf_initiator_ephemeral_ec_public_key f) @
     AppendUint32 (sel_signed_prekey_ec_id (tf_selected_prekeys f)) @
     AppendUint32 (sel_signed_prekey_pq_id (tf_selected_prekeys f)) @
     AppendFlagged AppendUint32 (sel_one_time_ec_id (tf_selected_prekeys f)) @
     AppendFlagged AppendUint32 (sel_one_time_pq_id (tf_selected_prekeys f)) @
     AppendBytes (tf_kem_ciphertext_signed_pq f) @
     AppendFlagged AppendBytes (tf_kem_ciphertext_one_time_pq f)"

definition ComputeInitialTranscriptHash :: "openssl \<Rightarrow> InitialTranscriptFields \<Rightarrow> bytes result" where
  "ComputeInitialTranscriptHash ssl f =
     (let canonical = TranscriptCanonical f
      in if tf_version f \<noteq> kProtocolVersion then Err ''unsupported initial message version''
         else if tf_cipher_suite f \<noteq> kCipherSuite
         then Err ''unsupported initial message cipher suite''
         else Sha256 ssl canonical)"

definition ChatAssociatedCanonical :: "ChatMessage \<Rightarrow> bytes" where
  "ChatAssociatedCanonical m =
     AppendString ''pqchat_chat_ad_v1'' @
     AppendString (cm_session_id m) @
     AppendString (cm_from_user m) @
     AppendString (cm_to_user m) @
     AppendUint64 (mh_previous_chain_length (cm_header m)) @
     AppendUint64 (mh_message_number (cm_header m)) @
     AppendUint32 (mh_flags (cm_header m)) @
     AppendFlagged AppendBytes (mh_sender_ratchet_public_key (cm_header m))"

definition BuildChatAssociatedData :: "openssl \<Rightarrow> ChatMessage \<Rightarrow> bytes result" where
  "BuildChatAssociatedData ssl m = Sha256 ssl (ChatAssociatedCanonical m)"

definition ToTagged :: "string \<Rightarrow> u32 \<Rightarrow> bytes \<Rightarrow> bytes" where
  "ToTagged tag key_id key = AppendBytes (ToBytes tag) @ AppendUint32 key_id @ AppendBytes key"

definition BuildEcPrekeySignInput :: "u32 \<Rightarrow> bytes \<Rightarrow> bytes" where
  "BuildEcPrekeySignInput key_id public_key = ToTagged ''pqchat_ec_prekey_v1'' key_id public_key"

definition BuildPqPrekeySignInput :: "u32 \<Rightarrow> bytes \<Rightarrow> bytes" where
  "BuildPqPrekeySignInput key_id public_key = ToTagged ''pqchat_pq_prekey_v1'' key_id public_key"

definition BuildBundleSignInput :: "PrekeyBundle \<Rightarrow> bytes" where
  "BuildBundleSignInput b =
     AppendString ''pqchat_bundle_sig_v2'' @
     AppendString (pb_user_id b) @
     AppendBytes (pb_identity_sign_public_key b) @
     AppendBytes (pb_identity_mldsa_public_key b) @
     AppendBytes (pb_identity_dh_public_key b) @
     AppendUint32 (ske_id (pb_signed_prekey_ec b)) @
     AppendBytes (ske_public_key (pb_signed_prekey_ec b)) @
     AppendBytes (ske_signature_ed25519 (pb_signed_prekey_ec b)) @
     AppendBytes (ske_signature_mldsa65 (pb_signed_prekey_ec b)) @
     AppendUint32 (skp_id (pb_signed_prekey_pq b)) @
     AppendBytes (skp_public_key (pb_signed_prekey_pq b)) @
     AppendBytes (skp_signature_ed25519 (pb_signed_prekey_pq b)) @
     AppendBytes (skp_signature_mldsa65 (pb_signed_prekey_pq b)) @
     AppendString (pb_version b) @
     AppendString (pb_cipher_suite b)"

definition BuildTransportAuthSignInput ::
    "string \<Rightarrow> bytes \<Rightarrow> bytes \<Rightarrow> string \<Rightarrow> u64 \<Rightarrow> bytes" where
  "BuildTransportAuthSignInput user_id client_nonce server_nonce challenge_id expires_at_unix =
     AppendString ''pqchat_transport_auth_v1'' @
     AppendString user_id @
     AppendBytes client_nonce @
     AppendBytes server_nonce @
     AppendString challenge_id @
     AppendUint64 expires_at_unix"

definition BuildTransportRegisterSignInput :: "string \<Rightarrow> bytes \<Rightarrow> bytes" where
  "BuildTransportRegisterSignInput user_id new_key =
     AppendString ''pqchat_transport_register_v1'' @ AppendString user_id @ AppendBytes new_key"

definition BuildTransportRegisterRotateSignInput :: "string \<Rightarrow> bytes \<Rightarrow> bytes \<Rightarrow> bytes" where
  "BuildTransportRegisterRotateSignInput user_id existing_key new_key =
     AppendString ''pqchat_transport_register_rotate_v1'' @ AppendString user_id @
     AppendBytes existing_key @ AppendBytes new_key"

section \<open>Prekey bundle verification\<close>

definition VerifyPrekeyBundleSignatures :: "openssl \<Rightarrow> PrekeyBundle \<Rightarrow> unit result" where
  "VerifyPrekeyBundleSignatures ssl b =
     (if pb_version b \<noteq> kProtocolVersion then Err ''unsupported bundle version''
      else if pb_cipher_suite b \<noteq> kCipherSuite then Err ''unsupported bundle cipher suite''
      else let ec_input = BuildEcPrekeySignInput (ske_id (pb_signed_prekey_ec b))
                 (ske_public_key (pb_signed_prekey_ec b))
        in rbind (with_context ''signed_prekey_ec ed25519 signature invalid: ''
             (Ed25519_Verify ssl (pb_identity_sign_public_key b) ec_input
               (ske_signature_ed25519 (pb_signed_prekey_ec b)))) (\<lambda>_.
           rbind (with_context ''signed_prekey_ec mldsa signature invalid: ''
             (MlDsa65_Verify ssl (pb_identity_mldsa_public_key b) ec_input
               (ske_signature_mldsa65 (pb_signed_prekey_ec b)))) (\<lambda>_.
           let pq_input = BuildPqPrekeySignInput (skp_id (pb_signed_prekey_pq b))
                 (skp_public_key (pb_signed_prekey_pq b))
           in rbind (with_context ''signed_prekey_pq ed25519 signature invalid: ''
             (Ed25519_Verify ssl (pb_identity_sign_public_key b) pq_input
               (skp_signature_ed25519 (pb_signed_prekey_pq b)))) (\<lambda>_.
           rbind (with_context ''signed_prekey_pq mldsa signature invalid: ''
             (MlDsa65_Verify ssl (pb_identity_mldsa_public_key b) pq_input
               (skp_signature_mldsa65 (pb_signed_prekey_pq b)))) (\<lambda>_.
           let bundle_sign_input = BuildBundleSignInput b
           in rbind (with_context ''bundle ed25519 signature invalid: ''
             (Ed25519_Verify ssl (pb_identity_sign_public_key b) bundle_sign_input
               (pb_bundle_signature_ed25519 b))) (\<lambda>_.
           rbind (with_context ''bundle mldsa signature invalid: ''
             (MlDsa65_Verify ssl (pb_identity_mldsa_public_key b) bundle_sign_input
               (pb_bundle_signature_mldsa65 b))) (\<lambda>_. Ok ())))))))"

section \<open>What the canonical inputs determine\<close>

lemma be_append_eq [simp]:
  "be32 v @ u = be32 w @ x \<longleftrightarrow> v = w \<and> u = x"
  "be64 v' @ u = be64 w' @ x \<longleftrightarrow> v' = w' \<and> u = x"
  by (simp_all add: append_eq_append_conv)

lemma AppendBytes_eq_Writer: "AppendBytes = Writer_Bytes"
  by (rule ext) (simp add: AppendBytes_def AppendUint32_def Writer_Bytes_def Writer_U32_def)

lemma AppendUint_append_eq:
  "AppendUint32 v @ u = AppendUint32 w @ x \<longleftrightarrow> v = w \<and> u = x"
  "AppendUint64 v' @ u = AppendUint64 w' @ x \<longleftrightarrow> v' = w' \<and> u = x"
  by (simp_all add: AppendUint32_def AppendUint64_def)

lemma AppendBytes_append_eq:
  "len32 v \<Longrightarrow> len32 w \<Longrightarrow> AppendBytes v @ u = AppendBytes w @ x \<longleftrightarrow> v = w \<and> u = x"
  unfolding AppendBytes_eq_Writer by (rule prefixed.append_eq_iff)

text \<open>Strings whose size fits the 32-bit length prefix.\<close>

definition str32 :: "string \<Rightarrow> bool" where
  "str32 s \<longleftrightarrow> len32 (ToBytes s)"

lemma AppendString_append_eq:
  "str32 s \<Longrightarrow> str32 t \<Longrightarrow> AppendString s @ u = AppendString t @ x \<longleftrightarrow> s = t \<and> u = x"
  by (simp add: AppendString_def str32_def AppendBytes_append_eq)

lemma AppendFlagged_append_eq:
  assumes "\<And>a b y z. P a \<Longrightarrow> P b \<Longrightarrow> f a @ y = f b @ z \<longleftrightarrow> a = b \<and> y = z"
    and "pred_option P v" "pred_option P w"
  shows "AppendFlagged f v @ u = AppendFlagged f w @ x \<longleftrightarrow> v = w \<and> u = x"
  using assms(2,3)
  by (cases v; cases w) (auto simp: AppendFlagged_def AppendUint_append_eq assms(1))

lemmas Flagged_u32_append_eq = AppendFlagged_append_eq
  [of "\<lambda>_. True" AppendUint32, simplified AppendUint_append_eq option.pred_True, simplified]

lemmas Flagged_bytes_append_eq = AppendFlagged_append_eq [of len32 AppendBytes, OF AppendBytes_append_eq]

text \<open>The last part of an input is compared by appending nothing to both sides.\<close>

lemmas canonical_append_eq =
  AppendUint_append_eq AppendString_append_eq AppendBytes_append_eq
  Flagged_u32_append_eq Flagged_bytes_append_eq
  AppendUint_append_eq [where u = "[]" and x = "[]", simplified]
  AppendString_append_eq [where u = "[]" and x = "[]", simplified]
  AppendBytes_append_eq [where u = "[]" and x = "[]", simplified]
  Flagged_bytes_append_eq [where u = "[]" and x = "[]", simplified]

text \<open>The fields of a bundle that its signature input covers, sizes below the length prefix.\<close>

definition bundle_sizes_ok :: "PrekeyBundle \<Rightarrow> bool" where
  "bundle_sizes_ok b \<longleftrightarrow>
     str32 (pb_user_id b) \<and> len32 (pb_identity_sign_public_key b) \<and>
     len32 (pb_identity_mldsa_public_key b) \<and> len32 (pb_identity_dh_public_key b) \<and>
     len32 (ske_public_key (pb_signed_prekey_ec b)) \<and>
     len32 (ske_signature_ed25519 (pb_signed_prekey_ec b)) \<and>
     len32 (ske_signature_mldsa65 (pb_signed_prekey_ec b)) \<and>
     len32 (skp_public_key (pb_signed_prekey_pq b)) \<and>
     len32 (skp_signature_ed25519 (pb_signed_prekey_pq b)) \<and>
     len32 (skp_signature_mldsa65 (pb_signed_prekey_pq b)) \<and>
     str32 (pb_version b) \<and> str32 (pb_cipher_suite b)"

definition signed_part :: "PrekeyBundle \<Rightarrow> PrekeyBundle" where
  "signed_part b = b\<lparr>pb_one_time_ec := [], pb_one_time_pq := [],
     pb_bundle_signature_ed25519 := [], pb_bundle_signature_mldsa65 := []\<rparr>"

lemma signed_part_eq_iff:
  "signed_part b = signed_part c \<longleftrightarrow>
     pb_user_id b = pb_user_id c \<and>
     pb_identity_sign_public_key b = pb_identity_sign_public_key c \<and>
     pb_identity_mldsa_public_key b = pb_identity_mldsa_public_key c \<and>
     pb_identity_dh_public_key b = pb_identity_dh_public_key c \<and>
     pb_signed_prekey_ec b = pb_signed_prekey_ec c \<and>
     pb_signed_prekey_pq b = pb_signed_prekey_pq c \<and>
     pb_version b = pb_version c \<and> pb_cipher_suite b = pb_cipher_suite c"
  by (cases b; cases c) (auto simp: signed_part_def)

lemma SignedPrekey_eq_iff:
  "(e :: SignedPrekeyEc) = e' \<longleftrightarrow> ske_id e = ske_id e' \<and> ske_public_key e = ske_public_key e' \<and>
     ske_signature_ed25519 e = ske_signature_ed25519 e' \<and>
     ske_signature_mldsa65 e = ske_signature_mldsa65 e'"
  "(q :: SignedPrekeyPq) = q' \<longleftrightarrow> skp_id q = skp_id q' \<and> skp_public_key q = skp_public_key q' \<and>
     skp_signature_ed25519 q = skp_signature_ed25519 q' \<and>
     skp_signature_mldsa65 q = skp_signature_mldsa65 q'"
  by (cases e; cases e'; simp) (cases q; cases q'; simp)

theorem bundle_sign_input_binds:
  assumes "bundle_sizes_ok b" and "bundle_sizes_ok c"
  shows "BuildBundleSignInput b = BuildBundleSignInput c \<longleftrightarrow> signed_part b = signed_part c"
  using assms
  unfolding BuildBundleSignInput_def signed_part_eq_iff SignedPrekey_eq_iff bundle_sizes_ok_def
  by (simp add: canonical_append_eq conj_ac)

definition transcript_sizes_ok :: "InitialTranscriptFields \<Rightarrow> bool" where
  "transcript_sizes_ok f \<longleftrightarrow>
     str32 (tf_session_id f) \<and> str32 (tf_from_user f) \<and> str32 (tf_to_user f) \<and>
     str32 (tf_version f) \<and> str32 (tf_cipher_suite f) \<and>
     len32 (tf_initiator_identity_sign_public_key f) \<and>
     len32 (tf_initiator_identity_mldsa_public_key f) \<and>
     len32 (tf_initiator_identity_dh_public_key f) \<and>
     len32 (tf_responder_identity_sign_public_key f) \<and>
     len32 (tf_responder_identity_mldsa_public_key f) \<and>
     len32 (tf_responder_identity_dh_public_key f) \<and>
     len32 (tf_initiator_ephemeral_ec_public_key f) \<and>
     len32 (tf_kem_ciphertext_signed_pq f) \<and>
     pred_option len32 (tf_kem_ciphertext_one_time_pq f)"

lemma PrekeySelection_eq_iff:
  "(s :: PrekeySelection) = t \<longleftrightarrow>
     sel_signed_prekey_ec_id s = sel_signed_prekey_ec_id t \<and>
     sel_signed_prekey_pq_id s = sel_signed_prekey_pq_id t \<and>
     sel_one_time_ec_id s = sel_one_time_ec_id t \<and> sel_one_time_pq_id s = sel_one_time_pq_id t"
  by (cases s; cases t) simp

theorem transcript_canonical_injective:
  assumes "transcript_sizes_ok f" and "transcript_sizes_ok g"
  shows "TranscriptCanonical f = TranscriptCanonical g \<longleftrightarrow> f = g"
proof
  assume "TranscriptCanonical f = TranscriptCanonical g"
  then show "f = g"
    using assms unfolding TranscriptCanonical_def transcript_sizes_ok_def
    by (simp add: canonical_append_eq PrekeySelection_eq_iff)
qed simp

definition chat_sizes_ok :: "ChatMessage \<Rightarrow> bool" where
  "chat_sizes_ok m \<longleftrightarrow>
     str32 (cm_session_id m) \<and> str32 (cm_from_user m) \<and> str32 (cm_to_user m) \<and>
     pred_option len32 (mh_sender_ratchet_public_key (cm_header m))"

theorem chat_associated_data_binds_header:
  assumes "chat_sizes_ok m" and "chat_sizes_ok n"
  shows "ChatAssociatedCanonical m = ChatAssociatedCanonical n \<longleftrightarrow>
    cm_session_id m = cm_session_id n \<and> cm_from_user m = cm_from_user n \<and>
    cm_to_user m = cm_to_user n \<and> cm_header m = cm_header n"
  using assms unfolding ChatAssociatedCanonical_def chat_sizes_ok_def
  by (cases "cm_header m"; cases "cm_header n") (simp add: canonical_append_eq conj_ac)

section \<open>Separation of purposes\<close>

lemma AppendString_tag_neq:
  "str32 s \<Longrightarrow> str32 t \<Longrightarrow> s \<noteq> t \<Longrightarrow> AppendString s @ u \<noteq> AppendString t @ x"
  by (simp add: AppendString_append_eq)

lemma str32_tags [simp]:
  "str32 ''pqchat_initial_transcript_v1''" "str32 ''pqchat_chat_ad_v1''"
  "str32 ''pqchat_ec_prekey_v1''" "str32 ''pqchat_pq_prekey_v1''"
  "str32 ''pqchat_bundle_sig_v2''" "str32 ''pqchat_transport_auth_v1''"
  "str32 ''pqchat_transport_register_v1''" "str32 ''pqchat_transport_register_rotate_v1''"
  by (simp_all add: str32_def len32_def)

lemmas sign_inputs = BuildEcPrekeySignInput_def BuildPqPrekeySignInput_def ToTagged_def
  AppendString_def [symmetric] BuildBundleSignInput_def BuildTransportAuthSignInput_def
  BuildTransportRegisterSignInput_def BuildTransportRegisterRotateSignInput_def
  TranscriptCanonical_def ChatAssociatedCanonical_def

text \<open>The purposes for which a key signs (or, for the last two, a hash is taken).\<close>

datatype sign_purpose =
    EcPrekey u32 bytes
  | PqPrekey u32 bytes
  | Bundle PrekeyBundle
  | TransportAuth string bytes bytes string u64
  | TransportRegister string bytes
  | TransportRotate string bytes bytes
  | Transcript InitialTranscriptFields
  | ChatAd ChatMessage

fun sign_input :: "sign_purpose \<Rightarrow> bytes" where
  "sign_input (EcPrekey i k) = BuildEcPrekeySignInput i k"
| "sign_input (PqPrekey i k) = BuildPqPrekeySignInput i k"
| "sign_input (Bundle b) = BuildBundleSignInput b"
| "sign_input (TransportAuth u cn sn ch e) = BuildTransportAuthSignInput u cn sn ch e"
| "sign_input (TransportRegister u k) = BuildTransportRegisterSignInput u k"
| "sign_input (TransportRotate u k k') = BuildTransportRegisterRotateSignInput u k k'"
| "sign_input (Transcript f) = TranscriptCanonical f"
| "sign_input (ChatAd m) = ChatAssociatedCanonical m"

fun purpose_tag :: "sign_purpose \<Rightarrow> nat" where
  "purpose_tag (EcPrekey i k) = 0"
| "purpose_tag (PqPrekey i k) = 1"
| "purpose_tag (Bundle b) = 2"
| "purpose_tag (TransportAuth u cn sn ch e) = 3"
| "purpose_tag (TransportRegister u k) = 4"
| "purpose_tag (TransportRotate u k k') = 5"
| "purpose_tag (Transcript f) = 6"
| "purpose_tag (ChatAd m) = 7"

text \<open>
C40. No input built for one purpose (EC prekey, PQ prekey, bundle, transport login,
registration, rotation, transcript, chat header) is ever an input of another purpose.
\<close>

theorem sign_inputs_separate_purposes:
  assumes "purpose_tag p \<noteq> purpose_tag q"
  shows "sign_input p \<noteq> sign_input q"
  using assms by (cases p; cases q) (simp_all add: sign_inputs AppendString_append_eq)

theorem verify_bundle_iff:
  "VerifyPrekeyBundleSignatures ssl b = Ok () \<longleftrightarrow>
     pb_version b = kProtocolVersion \<and> pb_cipher_suite b = kCipherSuite \<and>
     (let ec = pb_signed_prekey_ec b; pq = pb_signed_prekey_pq b;
          ed = Ed25519_Verify ssl (pb_identity_sign_public_key b);
          ml = MlDsa65_Verify ssl (pb_identity_mldsa_public_key b);
          ec_in = BuildEcPrekeySignInput (ske_id ec) (ske_public_key ec);
          pq_in = BuildPqPrekeySignInput (skp_id pq) (skp_public_key pq);
          b_in = BuildBundleSignInput b
      in ed ec_in (ske_signature_ed25519 ec) = Ok () \<and> ml ec_in (ske_signature_mldsa65 ec) = Ok () \<and>
         ed pq_in (skp_signature_ed25519 pq) = Ok () \<and> ml pq_in (skp_signature_mldsa65 pq) = Ok () \<and>
         ed b_in (pb_bundle_signature_ed25519 b) = Ok () \<and>
         ml b_in (pb_bundle_signature_mldsa65 b) = Ok ())"
  by (auto simp: VerifyPrekeyBundleSignatures_def Let_def result_inv)

section \<open>Concrete messages\<close>

definition demo_bundle :: PrekeyBundle where
  "demo_bundle =
     \<lparr>pb_user_id = ''bob'', pb_identity_sign_public_key = [1], pb_identity_mldsa_public_key = [2],
      pb_identity_dh_public_key = [3],
      pb_signed_prekey_ec = \<lparr>ske_id = 1, ske_public_key = [4],
        ske_signature_ed25519 = [1] @ replicate 64 0, ske_signature_mldsa65 = [2] @ replicate 64 0\<rparr>,
      pb_signed_prekey_pq = \<lparr>skp_id = 2, skp_public_key = [5],
        skp_signature_ed25519 = [1] @ replicate 64 0, skp_signature_mldsa65 = [2] @ replicate 64 0\<rparr>,
      pb_one_time_ec = [\<lparr>ote_id = 10, ote_public_key = [6]\<rparr>, \<lparr>ote_id = 11, ote_public_key = [7]\<rparr>],
      pb_one_time_pq = [\<lparr>otp_id = 20, otp_public_key = [8]\<rparr>],
      pb_bundle_signature_ed25519 = [1] @ replicate 64 0,
      pb_bundle_signature_mldsa65 = [2] @ replicate 64 0,
      pb_version = kProtocolVersion, pb_cipher_suite = kCipherSuite\<rparr>"

definition demo_transcript :: InitialTranscriptFields where
  "demo_transcript =
     \<lparr>tf_session_id = ''s1'', tf_from_user = ''alice'', tf_to_user = ''bob'',
      tf_version = kProtocolVersion, tf_cipher_suite = kCipherSuite,
      tf_initiator_identity_sign_public_key = [1], tf_initiator_identity_mldsa_public_key = [2],
      tf_initiator_identity_dh_public_key = [3], tf_responder_identity_sign_public_key = [4],
      tf_responder_identity_mldsa_public_key = [5], tf_responder_identity_dh_public_key = [6],
      tf_initiator_ephemeral_ec_public_key = [7],
      tf_selected_prekeys = \<lparr>sel_signed_prekey_ec_id = 1, sel_signed_prekey_pq_id = 2,
        sel_one_time_ec_id = Some 3, sel_one_time_pq_id = None\<rparr>,
      tf_kem_ciphertext_signed_pq = [8], tf_kem_ciphertext_one_time_pq = None\<rparr>"

definition demo_chat :: ChatMessage where
  "demo_chat = \<lparr>cm_session_id = ''s1'', cm_from_user = ''alice'', cm_to_user = ''bob'',
     cm_header = \<lparr>mh_sender_ratchet_public_key = None, mh_previous_chain_length = 0,
       mh_message_number = 0, mh_flags = 0\<rparr>, cm_nonce = [], cm_ciphertext = []\<rparr>"

lemmas demo_sizes_defs = str32_def len32_def kProtocolVersion_def kCipherSuite_def

theorem bundle_sign_input_binds_witness:
  "BuildBundleSignInput demo_bundle \<noteq> BuildBundleSignInput (demo_bundle\<lparr>pb_user_id := ''eve''\<rparr>) \<and>
   BuildBundleSignInput demo_bundle = BuildBundleSignInput (demo_bundle\<lparr>pb_one_time_ec := []\<rparr>)"
proof -
  have "bundle_sizes_ok demo_bundle" "bundle_sizes_ok (demo_bundle\<lparr>pb_user_id := ''eve''\<rparr>)"
    "bundle_sizes_ok (demo_bundle\<lparr>pb_one_time_ec := []\<rparr>)"
    by (simp_all add: demo_sizes_defs bundle_sizes_ok_def demo_bundle_def)
  moreover have "signed_part demo_bundle \<noteq> signed_part (demo_bundle\<lparr>pb_user_id := ''eve''\<rparr>)"
    "signed_part demo_bundle = signed_part (demo_bundle\<lparr>pb_one_time_ec := []\<rparr>)" by code_simp+
  ultimately show ?thesis
    using bundle_sign_input_binds [of demo_bundle "demo_bundle\<lparr>pb_user_id := ''eve''\<rparr>"]
      bundle_sign_input_binds [of demo_bundle "demo_bundle\<lparr>pb_one_time_ec := []\<rparr>"] by blast
qed

theorem transcript_canonical_injective_witness:
  "TranscriptCanonical demo_transcript \<noteq> TranscriptCanonical (demo_transcript\<lparr>tf_from_user := ''eve''\<rparr>)"
proof -
  have "transcript_sizes_ok demo_transcript"
    "transcript_sizes_ok (demo_transcript\<lparr>tf_from_user := ''eve''\<rparr>)"
    "demo_transcript \<noteq> demo_transcript\<lparr>tf_from_user := ''eve''\<rparr>"
    by (simp_all add: demo_sizes_defs transcript_sizes_ok_def demo_transcript_def)
  then show ?thesis
    using transcript_canonical_injective [of demo_transcript "demo_transcript\<lparr>tf_from_user := ''eve''\<rparr>"]
    by blast
qed

theorem chat_associated_data_binds_header_witness:
  "ChatAssociatedCanonical demo_chat \<noteq> ChatAssociatedCanonical (demo_chat\<lparr>cm_from_user := ''eve''\<rparr>) \<and>
   ChatAssociatedCanonical demo_chat = ChatAssociatedCanonical (demo_chat\<lparr>cm_ciphertext := [1]\<rparr>)"
proof -
  have "chat_sizes_ok demo_chat" "chat_sizes_ok (demo_chat\<lparr>cm_from_user := ''eve''\<rparr>)"
    "chat_sizes_ok (demo_chat\<lparr>cm_ciphertext := [1]\<rparr>)"
    by (simp_all add: demo_sizes_defs chat_sizes_ok_def demo_chat_def)
  then show ?thesis
    using chat_associated_data_binds_header [of demo_chat "demo_chat\<lparr>cm_from_user := ''eve''\<rparr>"]
      chat_associated_data_binds_header [of demo_chat "demo_chat\<lparr>cm_ciphertext := [1]\<rparr>"]
    by (simp add: demo_chat_def)
qed

theorem sign_inputs_separate_purposes_witness:
  "sign_input (EcPrekey 1 [2]) \<noteq> sign_input (PqPrekey 1 [2])"
  by (rule sign_inputs_separate_purposes) simp

end
