(* ===== verification/Serialization.thy ===== *)
theory Serialization
  imports Messages
begin

text \<open>
  The message formats of \<^verbatim>\<open>src/protocol/serialization.cpp\<close> (lines 209 to 876), one
  \<open>Write...\<close>/\<open>Read...\<close> pair per structure and one \<open>Serialize...\<close>/\<open>Deserialize...\<close> pair per
  message. A \<open>..._ok\<close> predicate states the sizes a decoder accepts. Every format is an
  interpretation of the locale \<open>codec\<close>; the theorems say for each \<^verbatim>\<open>Deserialize\<close> function
  exactly which inputs it accepts: the encodings of the well-formed values, each value by one
  byte string only, within the input limit.
\<close>

section \<open>Structures\<close>

definition WritePrekeySelection :: "PrekeySelection \<Rightarrow> bytes" where
  "WritePrekeySelection selection =
     Writer_U32 (sel_signed_prekey_ec_id selection) @
     Writer_U32 (sel_signed_prekey_pq_id selection) @
     Writer_OptionalU32 (sel_one_time_ec_id selection) @
     Writer_OptionalU32 (sel_one_time_pq_id selection)"

definition ReadPrekeySelection :: "PrekeySelection rd" where
  "ReadPrekeySelection =
     rd_bind Reader_U32 (\<lambda>ec.
     rd_bind Reader_U32 (\<lambda>pq.
     rd_bind Reader_OptionalU32 (\<lambda>ot_ec.
     rd_bind Reader_OptionalU32 (\<lambda>ot_pq.
     rd_return \<lparr>sel_signed_prekey_ec_id = ec, sel_signed_prekey_pq_id = pq,
       sel_one_time_ec_id = ot_ec, sel_one_time_pq_id = ot_pq\<rparr>))))"

definition WriteMessageHeader :: "MessageHeader \<Rightarrow> bytes" where
  "WriteMessageHeader header =
     Writer_OptionalBytes (mh_sender_ratchet_public_key header) @
     Writer_U64 (mh_previous_chain_length header) @
     Writer_U64 (mh_message_number header) @
     Writer_U32 (mh_flags header)"

definition ReadMessageHeader :: "MessageHeader rd" where
  "ReadMessageHeader =
     rd_bind Reader_OptionalBytes (\<lambda>pub.
     rd_bind Reader_U64 (\<lambda>prev.
     rd_bind Reader_U64 (\<lambda>num.
     rd_bind Reader_U32 (\<lambda>flags.
     rd_return \<lparr>mh_sender_ratchet_public_key = pub, mh_previous_chain_length = prev,
       mh_message_number = num, mh_flags = flags\<rparr>))))"

definition WriteInitialMessage :: "InitialMessage \<Rightarrow> bytes" where
  "WriteInitialMessage message =
     Writer_String (im_session_id message) @
     Writer_String (im_from_user message) @
     Writer_String (im_to_user message) @
     Writer_String (im_version message) @
     Writer_String (im_cipher_suite message) @
     Writer_Bytes (im_initiator_identity_sign_public_key message) @
     Writer_Bytes (im_initiator_identity_mldsa_public_key message) @
     Writer_Bytes (im_initiator_identity_dh_public_key message) @
     Writer_Bytes (im_initiator_ephemeral_ec_public_key message) @
     WritePrekeySelection (im_selected_prekeys message) @
     Writer_Bytes (im_kem_ciphertext_signed_pq message) @
     Writer_OptionalBytes (im_kem_ciphertext_one_time_pq message) @
     Writer_Bytes (im_transcript_hash message) @
     Writer_Bytes (im_handshake_signature_ed25519 message) @
     Writer_Bytes (im_handshake_signature_mldsa65 message) @
     Writer_Bytes (im_initial_nonce message) @
     Writer_Bytes (im_initial_ciphertext message)"

definition ReadInitialMessage :: "InitialMessage rd" where
  "ReadInitialMessage =
     rd_bind Reader_String (\<lambda>session_id.
     rd_bind Reader_String (\<lambda>from_user.
     rd_bind Reader_String (\<lambda>to_user.
     rd_bind Reader_String (\<lambda>version.
     rd_bind Reader_String (\<lambda>cipher_suite.
     rd_bind Reader_Field (\<lambda>sign_key.
     rd_bind Reader_Field (\<lambda>mldsa_key.
     rd_bind Reader_Field (\<lambda>dh_key.
     rd_bind Reader_Field (\<lambda>ephemeral.
     rd_bind ReadPrekeySelection (\<lambda>selected.
     rd_bind Reader_Field (\<lambda>kem_signed.
     rd_bind Reader_OptionalBytes (\<lambda>kem_one_time.
     rd_bind Reader_Field (\<lambda>hash.
     rd_bind Reader_Field (\<lambda>sig_ed.
     rd_bind Reader_Field (\<lambda>sig_ml.
     rd_bind Reader_Field (\<lambda>nonce.
     rd_bind Reader_Field (\<lambda>ciphertext.
     rd_return \<lparr>im_session_id = session_id, im_from_user = from_user, im_to_user = to_user,
       im_version = version, im_cipher_suite = cipher_suite,
       im_initiator_identity_sign_public_key = sign_key,
       im_initiator_identity_mldsa_public_key = mldsa_key,
       im_initiator_identity_dh_public_key = dh_key,
       im_initiator_ephemeral_ec_public_key = ephemeral,
       im_selected_prekeys = selected, im_kem_ciphertext_signed_pq = kem_signed,
       im_kem_ciphertext_one_time_pq = kem_one_time, im_transcript_hash = hash,
       im_handshake_signature_ed25519 = sig_ed, im_handshake_signature_mldsa65 = sig_ml,
       im_initial_nonce = nonce, im_initial_ciphertext = ciphertext\<rparr>)))))))))))))))))"

definition WriteChatMessage :: "ChatMessage \<Rightarrow> bytes" where
  "WriteChatMessage message =
     Writer_String (cm_session_id message) @
     Writer_String (cm_from_user message) @
     Writer_String (cm_to_user message) @
     WriteMessageHeader (cm_header message) @
     Writer_Bytes (cm_nonce message) @
     Writer_Bytes (cm_ciphertext message)"

definition ReadChatMessage :: "ChatMessage rd" where
  "ReadChatMessage =
     rd_bind Reader_String (\<lambda>session_id.
     rd_bind Reader_String (\<lambda>from_user.
     rd_bind Reader_String (\<lambda>to_user.
     rd_bind ReadMessageHeader (\<lambda>header.
     rd_bind Reader_Field (\<lambda>nonce.
     rd_bind Reader_Field (\<lambda>ciphertext.
     rd_return \<lparr>cm_session_id = session_id, cm_from_user = from_user, cm_to_user = to_user,
       cm_header = header, cm_nonce = nonce, cm_ciphertext = ciphertext\<rparr>))))))"

definition WriteSignedPrekeyEc :: "SignedPrekeyEc \<Rightarrow> bytes" where
  "WriteSignedPrekeyEc spk =
     Writer_U32 (ske_id spk) @ Writer_Bytes (ske_public_key spk) @
     Writer_Bytes (ske_signature_ed25519 spk) @ Writer_Bytes (ske_signature_mldsa65 spk)"

definition ReadSignedPrekeyEc :: "SignedPrekeyEc rd" where
  "ReadSignedPrekeyEc =
     rd_bind Reader_U32 (\<lambda>i.
     rd_bind Reader_Field (\<lambda>pub.
     rd_bind Reader_Field (\<lambda>sig_ed.
     rd_bind Reader_Field (\<lambda>sig_ml.
     rd_return \<lparr>ske_id = i, ske_public_key = pub, ske_signature_ed25519 = sig_ed,
       ske_signature_mldsa65 = sig_ml\<rparr>))))"

definition WriteSignedPrekeyPq :: "SignedPrekeyPq \<Rightarrow> bytes" where
  "WriteSignedPrekeyPq spk =
     Writer_U32 (skp_id spk) @ Writer_Bytes (skp_public_key spk) @
     Writer_Bytes (skp_signature_ed25519 spk) @ Writer_Bytes (skp_signature_mldsa65 spk)"

definition ReadSignedPrekeyPq :: "SignedPrekeyPq rd" where
  "ReadSignedPrekeyPq =
     rd_bind Reader_U32 (\<lambda>i.
     rd_bind Reader_Field (\<lambda>pub.
     rd_bind Reader_Field (\<lambda>sig_ed.
     rd_bind Reader_Field (\<lambda>sig_ml.
     rd_return \<lparr>skp_id = i, skp_public_key = pub, skp_signature_ed25519 = sig_ed,
       skp_signature_mldsa65 = sig_ml\<rparr>))))"

text \<open>One entry of a one-time prekey list, then the counted lists.\<close>

definition Write_ote :: "OneTimePrekeyEc \<Rightarrow> bytes" where
  "Write_ote key = Writer_U32 (ote_id key) @ Writer_Bytes (ote_public_key key)"

definition Read_ote :: "OneTimePrekeyEc rd" where
  "Read_ote = rd_bind Reader_U32 (\<lambda>i. rd_bind Reader_Field (\<lambda>pub.
     rd_return \<lparr>ote_id = i, ote_public_key = pub\<rparr>))"

definition Write_otp :: "OneTimePrekeyPq \<Rightarrow> bytes" where
  "Write_otp key = Writer_U32 (otp_id key) @ Writer_Bytes (otp_public_key key)"

definition Read_otp :: "OneTimePrekeyPq rd" where
  "Read_otp = rd_bind Reader_U32 (\<lambda>i. rd_bind Reader_Field (\<lambda>pub.
     rd_return \<lparr>otp_id = i, otp_public_key = pub\<rparr>))"

definition WriteOneTimeEc :: "OneTimePrekeyEc list \<Rightarrow> bytes" where
  "WriteOneTimeEc one_time = Writer_counted Write_ote one_time"

definition ReadOneTimeEc :: "OneTimePrekeyEc list rd" where
  "ReadOneTimeEc = Reader_counted kMaxOneTimePrekeys ''one-time EC prekey count'' Read_ote"

definition WriteOneTimePq :: "OneTimePrekeyPq list \<Rightarrow> bytes" where
  "WriteOneTimePq one_time = Writer_counted Write_otp one_time"

definition ReadOneTimePq :: "OneTimePrekeyPq list rd" where
  "ReadOneTimePq = Reader_counted kMaxOneTimePrekeys ''one-time PQ prekey count'' Read_otp"

section \<open>Accepted sizes\<close>

definition MessageHeader_ok :: "MessageHeader \<Rightarrow> bool" where
  "MessageHeader_ok h \<longleftrightarrow> opt_field_ok (mh_sender_ratchet_public_key h)"

definition InitialMessage_ok :: "InitialMessage \<Rightarrow> bool" where
  "InitialMessage_ok m \<longleftrightarrow>
     string_ok (im_session_id m) \<and> string_ok (im_from_user m) \<and> string_ok (im_to_user m) \<and>
     string_ok (im_version m) \<and> string_ok (im_cipher_suite m) \<and>
     field_ok (im_initiator_identity_sign_public_key m) \<and>
     field_ok (im_initiator_identity_mldsa_public_key m) \<and>
     field_ok (im_initiator_identity_dh_public_key m) \<and>
     field_ok (im_initiator_ephemeral_ec_public_key m) \<and>
     field_ok (im_kem_ciphertext_signed_pq m) \<and>
     opt_field_ok (im_kem_ciphertext_one_time_pq m) \<and>
     field_ok (im_transcript_hash m) \<and> field_ok (im_handshake_signature_ed25519 m) \<and>
     field_ok (im_handshake_signature_mldsa65 m) \<and> field_ok (im_initial_nonce m) \<and>
     field_ok (im_initial_ciphertext m)"

definition ChatMessage_ok :: "ChatMessage \<Rightarrow> bool" where
  "ChatMessage_ok m \<longleftrightarrow>
     string_ok (cm_session_id m) \<and> string_ok (cm_from_user m) \<and> string_ok (cm_to_user m) \<and>
     MessageHeader_ok (cm_header m) \<and> field_ok (cm_nonce m) \<and> field_ok (cm_ciphertext m)"

definition SignedPrekeyEc_ok :: "SignedPrekeyEc \<Rightarrow> bool" where
  "SignedPrekeyEc_ok s \<longleftrightarrow> field_ok (ske_public_key s) \<and> field_ok (ske_signature_ed25519 s) \<and>
     field_ok (ske_signature_mldsa65 s)"

definition SignedPrekeyPq_ok :: "SignedPrekeyPq \<Rightarrow> bool" where
  "SignedPrekeyPq_ok s \<longleftrightarrow> field_ok (skp_public_key s) \<and> field_ok (skp_signature_ed25519 s) \<and>
     field_ok (skp_signature_mldsa65 s)"

definition one_time_ec_ok :: "OneTimePrekeyEc list \<Rightarrow> bool" where
  "one_time_ec_ok xs \<longleftrightarrow> length xs \<le> 4096 \<and> (\<forall>k\<in>set xs. field_ok (ote_public_key k))"

definition one_time_pq_ok :: "OneTimePrekeyPq list \<Rightarrow> bool" where
  "one_time_pq_ok xs \<longleftrightarrow> length xs \<le> 4096 \<and> (\<forall>k\<in>set xs. field_ok (otp_public_key k))"

section \<open>Structures are codecs\<close>

text \<open>
  The two directions for a record decoder follow its field reads: \<open>decodes\<close> by the
  introduction rules, \<open>canon\<close> by building the consumed bytes field by field.
\<close>

lemma decodes_PrekeySelection [decodes_intros]:
  "decodes ReadPrekeySelection (WritePrekeySelection s) s"
  unfolding ReadPrekeySelection_def WritePrekeySelection_def
  by (rule decodes_eq, (rule decodes_intros decodes_bind_return)+, simp)

lemma canon_PrekeySelection [canon_intros]:
  "canon ReadPrekeySelection (\<lambda>s w. w = WritePrekeySelection s)"
  unfolding ReadPrekeySelection_def
  by ((rule canon_step, rule canon_intros)+, rule canon_done) (simp add: WritePrekeySelection_def)

lemma decodes_InitialMessage [decodes_intros]:
  "InitialMessage_ok m \<Longrightarrow> decodes ReadInitialMessage (WriteInitialMessage m) m"
  unfolding ReadInitialMessage_def WriteInitialMessage_def InitialMessage_ok_def
  by (elim conjE, rule decodes_eq, (rule decodes_intros decodes_bind_return | assumption)+, simp)

lemma canon_InitialMessage [canon_intros]:
  "canon ReadInitialMessage (\<lambda>m w. w = WriteInitialMessage m \<and> InitialMessage_ok m)"
  unfolding ReadInitialMessage_def
  by ((rule canon_step, rule canon_intros)+, rule canon_done)
    (simp add: WriteInitialMessage_def InitialMessage_ok_def)

lemma decodes_MessageHeader [decodes_intros]:
  "MessageHeader_ok h \<Longrightarrow> decodes ReadMessageHeader (WriteMessageHeader h) h"
  unfolding ReadMessageHeader_def WriteMessageHeader_def MessageHeader_ok_def
  by (rule decodes_eq, (rule decodes_intros decodes_bind_return | assumption)+, simp)

lemma canon_MessageHeader [canon_intros]:
  "canon ReadMessageHeader (\<lambda>h w. w = WriteMessageHeader h \<and> MessageHeader_ok h)"
  unfolding ReadMessageHeader_def
  by ((rule canon_step, rule canon_intros)+, rule canon_done)
    (simp add: WriteMessageHeader_def MessageHeader_ok_def)

lemma decodes_ChatMessage [decodes_intros]:
  "ChatMessage_ok m \<Longrightarrow> decodes ReadChatMessage (WriteChatMessage m) m"
  unfolding ReadChatMessage_def WriteChatMessage_def ChatMessage_ok_def
  by (elim conjE, rule decodes_eq, (rule decodes_intros decodes_bind_return | assumption)+, simp)

lemma canon_ChatMessage [canon_intros]:
  "canon ReadChatMessage (\<lambda>m w. w = WriteChatMessage m \<and> ChatMessage_ok m)"
  unfolding ReadChatMessage_def
  by ((rule canon_step, rule canon_intros)+, rule canon_done)
    (simp add: WriteChatMessage_def ChatMessage_ok_def)

lemma decodes_SignedPrekeyEc [decodes_intros]:
  "SignedPrekeyEc_ok s \<Longrightarrow> decodes ReadSignedPrekeyEc (WriteSignedPrekeyEc s) s"
  unfolding ReadSignedPrekeyEc_def WriteSignedPrekeyEc_def SignedPrekeyEc_ok_def
  by (elim conjE, rule decodes_eq, (rule decodes_intros decodes_bind_return | assumption)+, simp)

lemma canon_SignedPrekeyEc [canon_intros]:
  "canon ReadSignedPrekeyEc (\<lambda>s w. w = WriteSignedPrekeyEc s \<and> SignedPrekeyEc_ok s)"
  unfolding ReadSignedPrekeyEc_def
  by ((rule canon_step, rule canon_intros)+, rule canon_done)
    (simp add: WriteSignedPrekeyEc_def SignedPrekeyEc_ok_def)

lemma decodes_SignedPrekeyPq [decodes_intros]:
  "SignedPrekeyPq_ok s \<Longrightarrow> decodes ReadSignedPrekeyPq (WriteSignedPrekeyPq s) s"
  unfolding ReadSignedPrekeyPq_def WriteSignedPrekeyPq_def SignedPrekeyPq_ok_def
  by (elim conjE, rule decodes_eq, (rule decodes_intros decodes_bind_return | assumption)+, simp)

lemma canon_SignedPrekeyPq [canon_intros]:
  "canon ReadSignedPrekeyPq (\<lambda>s w. w = WriteSignedPrekeyPq s \<and> SignedPrekeyPq_ok s)"
  unfolding ReadSignedPrekeyPq_def
  by ((rule canon_step, rule canon_intros)+, rule canon_done)
    (simp add: WriteSignedPrekeyPq_def SignedPrekeyPq_ok_def)

lemma decodes_ote: "field_ok (ote_public_key k) \<Longrightarrow> decodes Read_ote (Write_ote k) k"
  unfolding Read_ote_def Write_ote_def
  by (rule decodes_eq, (rule decodes_intros decodes_bind_return | assumption)+, simp)

lemma canon_ote: "canon Read_ote (\<lambda>k w. w = Write_ote k \<and> field_ok (ote_public_key k))"
  unfolding Read_ote_def
  by ((rule canon_step, rule canon_intros)+, rule canon_done) (simp add: Write_ote_def)

lemma decodes_otp: "field_ok (otp_public_key k) \<Longrightarrow> decodes Read_otp (Write_otp k) k"
  unfolding Read_otp_def Write_otp_def
  by (rule decodes_eq, (rule decodes_intros decodes_bind_return | assumption)+, simp)

lemma canon_otp: "canon Read_otp (\<lambda>k w. w = Write_otp k \<and> field_ok (otp_public_key k))"
  unfolding Read_otp_def
  by ((rule canon_step, rule canon_intros)+, rule canon_done) (simp add: Write_otp_def)

lemma decodes_OneTimeEc [decodes_intros]:
  "one_time_ec_ok xs \<Longrightarrow> decodes ReadOneTimeEc (WriteOneTimeEc xs) xs"
  unfolding ReadOneTimeEc_def WriteOneTimeEc_def one_time_ec_ok_def
  by (rule decodes_counted) (simp_all add: decodes_ote)

lemma canon_OneTimeEc [canon_intros]:
  "canon ReadOneTimeEc (\<lambda>xs w. w = WriteOneTimeEc xs \<and> one_time_ec_ok xs)"
  unfolding ReadOneTimeEc_def
  by (rule canon_weaken [OF canon_counted [OF canon_ote]])
    (simp add: WriteOneTimeEc_def one_time_ec_ok_def)

lemma decodes_OneTimePq [decodes_intros]:
  "one_time_pq_ok xs \<Longrightarrow> decodes ReadOneTimePq (WriteOneTimePq xs) xs"
  unfolding ReadOneTimePq_def WriteOneTimePq_def one_time_pq_ok_def
  by (rule decodes_counted) (simp_all add: decodes_otp)

lemma canon_OneTimePq [canon_intros]:
  "canon ReadOneTimePq (\<lambda>xs w. w = WriteOneTimePq xs \<and> one_time_pq_ok xs)"
  unfolding ReadOneTimePq_def
  by (rule canon_weaken [OF canon_counted [OF canon_otp]])
    (simp add: WriteOneTimePq_def one_time_pq_ok_def)

interpretation initial_codec: codec WriteInitialMessage ReadInitialMessage InitialMessage_ok
  by unfold_locales (simp_all add: decodes_InitialMessage canon_InitialMessage)

interpretation chat_codec: codec WriteChatMessage ReadChatMessage ChatMessage_ok
  by unfold_locales (simp_all add: decodes_ChatMessage canon_ChatMessage)

section \<open>Prekey bundles\<close>

definition PrekeyBundle_bytes :: "PrekeyBundle \<Rightarrow> bytes" where
  "PrekeyBundle_bytes bundle =
     Writer_String (pb_user_id bundle) @
     Writer_Bytes (pb_identity_sign_public_key bundle) @
     Writer_Bytes (pb_identity_mldsa_public_key bundle) @
     Writer_Bytes (pb_identity_dh_public_key bundle) @
     WriteSignedPrekeyEc (pb_signed_prekey_ec bundle) @
     WriteSignedPrekeyPq (pb_signed_prekey_pq bundle) @
     WriteOneTimeEc (pb_one_time_ec bundle) @
     WriteOneTimePq (pb_one_time_pq bundle) @
     Writer_Bytes (pb_bundle_signature_ed25519 bundle) @
     Writer_Bytes (pb_bundle_signature_mldsa65 bundle) @
     Writer_String (pb_version bundle) @
     Writer_String (pb_cipher_suite bundle)"

definition SerializePrekeyBundle :: "PrekeyBundle \<Rightarrow> bytes result" where
  "SerializePrekeyBundle bundle = Ok (PrekeyBundle_bytes bundle)"

definition PrekeyBundle_reader :: "PrekeyBundle rd" where
  "PrekeyBundle_reader =
     rd_bind Reader_String (\<lambda>user_id.
     rd_bind Reader_Field (\<lambda>sign_key.
     rd_bind Reader_Field (\<lambda>mldsa_key.
     rd_bind Reader_Field (\<lambda>dh_key.
     rd_bind ReadSignedPrekeyEc (\<lambda>spk_ec.
     rd_bind ReadSignedPrekeyPq (\<lambda>spk_pq.
     rd_bind ReadOneTimeEc (\<lambda>ot_ec.
     rd_bind ReadOneTimePq (\<lambda>ot_pq.
     rd_bind Reader_Field (\<lambda>sig_ed.
     rd_bind Reader_Field (\<lambda>sig_ml.
     rd_bind Reader_String (\<lambda>version.
     rd_bind Reader_String (\<lambda>cipher_suite.
     rd_return \<lparr>pb_user_id = user_id, pb_identity_sign_public_key = sign_key,
       pb_identity_mldsa_public_key = mldsa_key, pb_identity_dh_public_key = dh_key,
       pb_signed_prekey_ec = spk_ec, pb_signed_prekey_pq = spk_pq,
       pb_one_time_ec = ot_ec, pb_one_time_pq = ot_pq,
       pb_bundle_signature_ed25519 = sig_ed, pb_bundle_signature_mldsa65 = sig_ml,
       pb_version = version, pb_cipher_suite = cipher_suite\<rparr>))))))))))))"

definition DeserializePrekeyBundle :: "bytes \<Rightarrow> PrekeyBundle result" where
  "DeserializePrekeyBundle =
     decode_whole ''prekey bundle payload'' ''decode prekey bundle failed: '' PrekeyBundle_reader"

definition PrekeyBundle_ok :: "PrekeyBundle \<Rightarrow> bool" where
  "PrekeyBundle_ok b \<longleftrightarrow>
     string_ok (pb_user_id b) \<and> field_ok (pb_identity_sign_public_key b) \<and>
     field_ok (pb_identity_mldsa_public_key b) \<and> field_ok (pb_identity_dh_public_key b) \<and>
     SignedPrekeyEc_ok (pb_signed_prekey_ec b) \<and> SignedPrekeyPq_ok (pb_signed_prekey_pq b) \<and>
     one_time_ec_ok (pb_one_time_ec b) \<and> one_time_pq_ok (pb_one_time_pq b) \<and>
     field_ok (pb_bundle_signature_ed25519 b) \<and> field_ok (pb_bundle_signature_mldsa65 b) \<and>
     string_ok (pb_version b) \<and> string_ok (pb_cipher_suite b)"

interpretation bundle_codec: codec PrekeyBundle_bytes PrekeyBundle_reader PrekeyBundle_ok
proof
  show "PrekeyBundle_ok b \<Longrightarrow> decodes PrekeyBundle_reader (PrekeyBundle_bytes b) b" for b
    unfolding PrekeyBundle_reader_def PrekeyBundle_bytes_def PrekeyBundle_ok_def
    by (elim conjE, rule decodes_eq, (rule decodes_intros decodes_bind_return | assumption)+, simp)
  show "canon PrekeyBundle_reader (\<lambda>b w. w = PrekeyBundle_bytes b \<and> PrekeyBundle_ok b)"
    unfolding PrekeyBundle_reader_def
    by ((rule canon_step, rule canon_intros)+, rule canon_done)
      (simp add: PrekeyBundle_bytes_def PrekeyBundle_ok_def)
qed

text \<open>
C39. DeserializePrekeyBundle accepts a byte string exactly if it is the serialization of the
bundle it returns, the fields respect the limits and the input is at most 8 MiB: decoding
inverts encoding and no bundle has a second encoding.
\<close>

theorem prekey_bundle_roundtrip:
  "DeserializePrekeyBundle bs = Ok b \<longleftrightarrow>
     SerializePrekeyBundle b = Ok bs \<and> PrekeyBundle_ok b \<and> length bs \<le> kMaxSerializedInputBytes"
  unfolding DeserializePrekeyBundle_def SerializePrekeyBundle_def bundle_codec.decode_whole_iff
  by auto

section \<open>Envelopes\<close>

definition SerializeEnvelope :: "Envelope \<Rightarrow> bytes result" where
  "SerializeEnvelope envelope =
     (case env_type envelope of
        kInitial \<Rightarrow>
          (case env_initial envelope of
             None \<Rightarrow> Err ''serialize envelope failed: initial payload missing''
           | Some m \<Rightarrow> Ok (Writer_U8 0 @ WriteInitialMessage m))
      | kChat \<Rightarrow>
          (case env_chat envelope of
             None \<Rightarrow> Err ''serialize envelope failed: chat payload missing''
           | Some m \<Rightarrow> Ok (Writer_U8 1 @ WriteChatMessage m)))"

definition Envelope_reader :: "Envelope rd" where
  "Envelope_reader =
     rd_bind (rd_context ''decode envelope failed: '' Reader_U8) (\<lambda>tag.
     if tag = 0 then
       rd_bind (rd_context ''decode initial message failed: '' ReadInitialMessage)
         (\<lambda>initial. rd_return (FromInitial initial))
     else if tag = 1 then
       rd_bind (rd_context ''decode chat message failed: '' ReadChatMessage)
         (\<lambda>chat. rd_return (FromChat chat))
     else rd_fail ''decode envelope failed: unknown tag'')"

definition DeserializeEnvelope :: "bytes \<Rightarrow> Envelope result" where
  "DeserializeEnvelope =
     decode_framed ''envelope payload'' ''decode envelope failed: '' Envelope_reader"

text \<open>An envelope as \<^verbatim>\<open>FromInitial\<close> and \<^verbatim>\<open>FromChat\<close> build it, with acceptable fields.\<close>

definition Envelope_ok :: "Envelope \<Rightarrow> bool" where
  "Envelope_ok e \<longleftrightarrow>
     (case env_type e of
        kInitial \<Rightarrow> env_chat e = None \<and> (case env_initial e of None \<Rightarrow> False | Some m \<Rightarrow> InitialMessage_ok m)
      | kChat \<Rightarrow> env_initial e = None \<and> (case env_chat e of None \<Rightarrow> False | Some m \<Rightarrow> ChatMessage_ok m))"

definition Envelope_bytes :: "Envelope \<Rightarrow> bytes" where
  "Envelope_bytes e = (case SerializeEnvelope e of Ok b \<Rightarrow> b | Err _ \<Rightarrow> [])"

lemma Envelope_ok_cases:
  "Envelope_ok e \<longleftrightarrow> (\<exists>m. e = FromInitial m \<and> InitialMessage_ok m) \<or> (\<exists>m. e = FromChat m \<and> ChatMessage_ok m)"
  by (cases e) (auto simp: Envelope_ok_def FromInitial_def FromChat_def split: EnvelopeType.splits option.splits)

lemma Envelope_ok_simps [simp]:
  "Envelope_ok (FromInitial m) = InitialMessage_ok m"
  "Envelope_ok (FromChat c) = ChatMessage_ok c"
  by (simp_all add: Envelope_ok_def FromInitial_def FromChat_def)

lemma Envelope_bytes_simps [simp]:
  "Envelope_bytes (FromInitial m) = Writer_U8 0 @ WriteInitialMessage m"
  "Envelope_bytes (FromChat c) = Writer_U8 1 @ WriteChatMessage c"
  by (simp_all add: Envelope_bytes_def SerializeEnvelope_def FromInitial_def FromChat_def)

lemma SerializeEnvelope_ok: "Envelope_ok e \<Longrightarrow> SerializeEnvelope e = Ok (Envelope_bytes e)"
  by (auto simp: Envelope_ok_cases SerializeEnvelope_def FromInitial_def FromChat_def Envelope_bytes_def)

lemma SerializeEnvelope_Ok_iff:
  "Envelope_ok e \<Longrightarrow> SerializeEnvelope e = Ok b \<longleftrightarrow> b = Envelope_bytes e"
  by (auto simp: SerializeEnvelope_ok)

interpretation envelope_codec: codec Envelope_bytes Envelope_reader Envelope_ok
proof
  show "decodes Envelope_reader (Envelope_bytes e) e" if "Envelope_ok e" for e
    using that unfolding Envelope_ok_cases
  proof (elim disjE exE conjE)
    fix m assume "e = FromInitial m" "InitialMessage_ok m"
    then show ?thesis
      unfolding Envelope_reader_def
      by (simp, intro decodes_bind [OF decodes_context [OF decodes_U8]])
        (simp add: decodes_bind_return decodes_context decodes_InitialMessage)
  next
    fix m assume "e = FromChat m" "ChatMessage_ok m"
    then show ?thesis
      unfolding Envelope_reader_def
      by (simp, intro decodes_bind [OF decodes_context [OF decodes_U8]])
        (simp add: decodes_bind_return decodes_context decodes_ChatMessage)
  qed
  show "canon Envelope_reader (\<lambda>e w. w = Envelope_bytes e \<and> Envelope_ok e)"
    unfolding Envelope_reader_def
    by (rule canon_weaken, rule canon_bind [OF canon_context [OF canon_U8]
          canon_if [OF canon_bind [OF canon_context [OF canon_InitialMessage] canon_return]
          canon_if [OF canon_bind [OF canon_context [OF canon_ChatMessage] canon_return] canon_fail]]])
      (auto simp: Envelope_ok_cases split: if_splits)
qed

theorem envelope_roundtrip:
  "DeserializeEnvelope bs = Ok e \<longleftrightarrow>
     SerializeEnvelope e = Ok bs \<and> Envelope_ok e \<and> length bs \<le> kMaxSerializedInputBytes"
  unfolding DeserializeEnvelope_def envelope_codec.decode_framed_iff
  by (auto simp: SerializeEnvelope_Ok_iff)

section \<open>Envelope vectors\<close>

text \<open>The encoded envelope inside another message: a field that must itself decode.\<close>

definition embedded_envelope :: "string \<Rightarrow> Envelope rd" where
  "embedded_envelope context =
     rd_bind (rd_context context Reader_Field) (\<lambda>encoded. rd_lift (DeserializeEnvelope encoded))"

definition embedded_ok :: "Envelope \<Rightarrow> bool" where
  "embedded_ok e \<longleftrightarrow> Envelope_ok e \<and> field_ok (Envelope_bytes e)"

lemma DeserializeEnvelope_embedded:
  "field_ok b \<Longrightarrow> DeserializeEnvelope b = Ok e \<longleftrightarrow> b = Envelope_bytes e \<and> embedded_ok e"
  unfolding DeserializeEnvelope_def envelope_codec.decode_framed_iff
  by (auto simp: embedded_ok_def field_ok_def kMaxSerializedInputBytes_def)

lemma decodes_embedded [decodes_intros]:
  assumes "embedded_ok e"
  shows "decodes (embedded_envelope c) (Writer_Bytes (Envelope_bytes e)) e"
proof -
  have f: "field_ok (Envelope_bytes e)" using assms by (simp add: embedded_ok_def)
  with assms have "DeserializeEnvelope (Envelope_bytes e) = Ok e"
    by (simp add: DeserializeEnvelope_embedded)
  then have "decodes (embedded_envelope c) (Writer_Bytes (Envelope_bytes e) @ []) e"
    unfolding embedded_envelope_def
    by (intro decodes_bind [OF decodes_context [OF decodes_Field [OF f]] decodes_lift])
  then show ?thesis by simp
qed

lemma canon_embedded [canon_intros]:
  "canon (embedded_envelope c) (\<lambda>e w. w = Writer_Bytes (Envelope_bytes e) \<and> embedded_ok e)"
  unfolding embedded_envelope_def
  by (rule canon_weaken, rule canon_bind [OF canon_context [OF canon_Field] canon_lift])
    (auto simp: DeserializeEnvelope_embedded)

fun write_envelopes :: "Envelope list \<Rightarrow> bytes result" where
  "write_envelopes [] = Ok []"
| "write_envelopes (envelope # envelopes) =
     rbind (SerializeEnvelope envelope) (\<lambda>encoded.
     rbind (write_envelopes envelopes) (\<lambda>rest. Ok (Writer_Bytes encoded @ rest)))"

definition SerializeEnvelopeVector :: "Envelope list \<Rightarrow> bytes result" where
  "SerializeEnvelopeVector envelopes =
     rbind (write_envelopes envelopes) (\<lambda>items.
     Ok (Writer_U32 (word_of_nat (length envelopes)) @ items))"

definition EnvelopeVector_reader :: "Envelope list rd" where
  "EnvelopeVector_reader =
     rd_bind (rd_context ''decode envelope vector failed: '' Reader_U32) (\<lambda>count.
     rd_bind (rd_context ''decode envelope vector failed: ''
       (Reader_LimitU32 count kMaxEnvelopeVectorItems ''envelope vector count'')) (\<lambda>_.
     read_n (unat count) (embedded_envelope ''decode envelope vector item failed: '')))"

definition DeserializeEnvelopeVector :: "bytes \<Rightarrow> Envelope list result" where
  "DeserializeEnvelopeVector =
     decode_framed ''envelope vector payload'' ''decode envelope vector failed: ''
       EnvelopeVector_reader"

fun write_inbox_envelopes :: "InboxEnvelope list \<Rightarrow> bytes result" where
  "write_inbox_envelopes [] = Ok []"
| "write_inbox_envelopes (item # envelopes) =
     rbind (SerializeEnvelope (ie_envelope item)) (\<lambda>encoded.
     rbind (write_inbox_envelopes envelopes) (\<lambda>rest.
     Ok (Writer_U64 (ie_inbox_id item) @ Writer_Bytes encoded @ rest)))"

definition SerializeInboxEnvelopeVector :: "InboxEnvelope list \<Rightarrow> bytes result" where
  "SerializeInboxEnvelopeVector envelopes =
     rbind (write_inbox_envelopes envelopes) (\<lambda>items.
     Ok (Writer_U32 (word_of_nat (length envelopes)) @ items))"

definition InboxEnvelope_reader :: "InboxEnvelope rd" where
  "InboxEnvelope_reader =
     rd_bind (rd_context ''decode inbox envelope vector item failed: '' Reader_U64) (\<lambda>inbox_id.
     rd_bind (embedded_envelope ''decode inbox envelope vector item failed: '') (\<lambda>envelope.
     rd_return \<lparr>ie_inbox_id = inbox_id, ie_envelope = envelope\<rparr>))"

definition InboxEnvelopeVector_reader :: "InboxEnvelope list rd" where
  "InboxEnvelopeVector_reader =
     rd_bind (rd_context ''decode inbox envelope vector failed: '' Reader_U32) (\<lambda>count.
     rd_bind (rd_context ''decode inbox envelope vector failed: ''
       (Reader_LimitU32 count kMaxEnvelopeVectorItems ''inbox envelope vector count'')) (\<lambda>_.
     read_n (unat count) InboxEnvelope_reader))"

definition DeserializeInboxEnvelopeVector :: "bytes \<Rightarrow> InboxEnvelope list result" where
  "DeserializeInboxEnvelopeVector =
     decode_framed ''inbox envelope vector payload'' ''decode inbox envelope vector failed: ''
       InboxEnvelopeVector_reader"

definition inbox_item_bytes :: "InboxEnvelope \<Rightarrow> bytes" where
  "inbox_item_bytes i = Writer_U64 (ie_inbox_id i) @ Writer_Bytes (Envelope_bytes (ie_envelope i))"

lemma decodes_inbox_item:
  "embedded_ok (ie_envelope i) \<Longrightarrow> decodes InboxEnvelope_reader (inbox_item_bytes i) i"
  unfolding InboxEnvelope_reader_def inbox_item_bytes_def
  by (rule decodes_eq, (rule decodes_intros decodes_bind_return | assumption)+, simp)

lemma canon_inbox_item:
  "canon InboxEnvelope_reader (\<lambda>i w. w = inbox_item_bytes i \<and> embedded_ok (ie_envelope i))"
  unfolding InboxEnvelope_reader_def
  by (rule canon_step, rule canon_context, rule canon_U64,
      rule canon_step, rule canon_embedded, rule canon_done) (simp add: inbox_item_bytes_def)

text \<open>The error contexts do not change which vectors are accepted.\<close>

lemma context_counted:
  "rd_bind (rd_context c Reader_U32) (\<lambda>count.
     rd_bind (rd_context c (Reader_LimitU32 count mx label)) (\<lambda>_. read_n (unat count) m)) r = Ok y \<longleftrightarrow>
   Reader_counted mx label m r = Ok y"
  by (auto simp: rd_bind_def rd_context_def Reader_counted_def result_inv)

lemma decodes_context_counted:
  assumes "length xs \<le> unat mx" and "\<And>x. x \<in> set xs \<Longrightarrow> decodes m (f x) x"
  shows "decodes (rd_bind (rd_context c Reader_U32) (\<lambda>count.
     rd_bind (rd_context c (Reader_LimitU32 count mx label)) (\<lambda>_. read_n (unat count) m)))
     (Writer_counted f xs) xs"
  using decodes_counted [OF assms] unfolding decodes_def context_counted by auto

lemma canon_context_counted:
  assumes "canon m (\<lambda>x w. w = f x \<and> P x)"
  shows "canon (rd_bind (rd_context c Reader_U32) (\<lambda>count.
     rd_bind (rd_context c (Reader_LimitU32 count mx label)) (\<lambda>_. read_n (unat count) m)))
    (\<lambda>xs w. w = Writer_counted f xs \<and> length xs \<le> unat mx \<and> (\<forall>x\<in>set xs. P x))"
  using canon_counted [OF assms] unfolding canon_def context_counted by blast

definition envelopes_ok :: "Envelope list \<Rightarrow> bool" where
  "envelopes_ok es \<longleftrightarrow> length es \<le> 4096 \<and> (\<forall>e\<in>set es. embedded_ok e)"

definition inbox_envelopes_ok :: "InboxEnvelope list \<Rightarrow> bool" where
  "inbox_envelopes_ok is \<longleftrightarrow> length is \<le> 4096 \<and> (\<forall>i\<in>set is. embedded_ok (ie_envelope i))"

interpretation envelope_vector_codec:
  codec "Writer_counted (\<lambda>e. Writer_Bytes (Envelope_bytes e))" EnvelopeVector_reader envelopes_ok
proof
  show "decodes EnvelopeVector_reader (Writer_counted (\<lambda>e. Writer_Bytes (Envelope_bytes e)) es) es"
    if "envelopes_ok es" for es
    using that unfolding EnvelopeVector_reader_def envelopes_ok_def
    by (intro decodes_context_counted) (auto intro: decodes_embedded)
  show "canon EnvelopeVector_reader
      (\<lambda>es w. w = Writer_counted (\<lambda>e. Writer_Bytes (Envelope_bytes e)) es \<and> envelopes_ok es)"
    unfolding EnvelopeVector_reader_def
    by (rule canon_weaken [OF canon_context_counted [OF canon_embedded]]) (simp add: envelopes_ok_def)
qed

interpretation inbox_vector_codec:
  codec "Writer_counted inbox_item_bytes" InboxEnvelopeVector_reader inbox_envelopes_ok
proof
  show "decodes InboxEnvelopeVector_reader (Writer_counted inbox_item_bytes is) is"
    if "inbox_envelopes_ok is" for "is"
    using that unfolding InboxEnvelopeVector_reader_def inbox_envelopes_ok_def
    by (intro decodes_context_counted) (auto intro: decodes_inbox_item)
  show "canon InboxEnvelopeVector_reader
      (\<lambda>is w. w = Writer_counted inbox_item_bytes is \<and> inbox_envelopes_ok is)"
    unfolding InboxEnvelopeVector_reader_def
    by (rule canon_weaken [OF canon_context_counted [OF canon_inbox_item]])
      (simp add: inbox_envelopes_ok_def)
qed

lemma write_envelopes_ok:
  "\<forall>e\<in>set es. embedded_ok e \<Longrightarrow>
   write_envelopes es = Ok (concat (map (\<lambda>e. Writer_Bytes (Envelope_bytes e)) es))"
  by (induction es) (simp_all add: embedded_ok_def SerializeEnvelope_ok)

lemma write_inbox_envelopes_ok:
  "\<forall>i\<in>set is. embedded_ok (ie_envelope i) \<Longrightarrow>
   write_inbox_envelopes is = Ok (concat (map inbox_item_bytes is))"
  by (induction "is") (simp_all add: embedded_ok_def SerializeEnvelope_ok inbox_item_bytes_def)

lemma SerializeEnvelopeVector_Ok_iff:
  "envelopes_ok es \<Longrightarrow> SerializeEnvelopeVector es = Ok bs \<longleftrightarrow>
   bs = Writer_counted (\<lambda>e. Writer_Bytes (Envelope_bytes e)) es"
  by (auto simp: SerializeEnvelopeVector_def envelopes_ok_def write_envelopes_ok Writer_counted_def)

lemma SerializeInboxEnvelopeVector_Ok_iff:
  "inbox_envelopes_ok is \<Longrightarrow> SerializeInboxEnvelopeVector is = Ok bs \<longleftrightarrow>
   bs = Writer_counted inbox_item_bytes is"
  by (auto simp: SerializeInboxEnvelopeVector_def inbox_envelopes_ok_def write_inbox_envelopes_ok
      Writer_counted_def)

theorem envelope_vector_roundtrip:
  "DeserializeEnvelopeVector bs = Ok es \<longleftrightarrow>
     SerializeEnvelopeVector es = Ok bs \<and> envelopes_ok es \<and> length bs \<le> kMaxSerializedInputBytes"
  unfolding DeserializeEnvelopeVector_def envelope_vector_codec.decode_framed_iff
  by (auto simp: SerializeEnvelopeVector_Ok_iff)

theorem inbox_envelope_vector_roundtrip:
  "DeserializeInboxEnvelopeVector bs = Ok is \<longleftrightarrow>
     SerializeInboxEnvelopeVector is = Ok bs \<and> inbox_envelopes_ok is \<and>
     length bs \<le> kMaxSerializedInputBytes"
  unfolding DeserializeInboxEnvelopeVector_def inbox_vector_codec.decode_framed_iff
  by (auto simp: SerializeInboxEnvelopeVector_Ok_iff)

section \<open>Requests and responses of the transport\<close>

definition SerializeString :: "string \<Rightarrow> bytes result" where
  "SerializeString s = Ok (Writer_String s)"

definition DeserializeString :: "bytes \<Rightarrow> string result" where
  "DeserializeString = decode_whole ''string payload'' ''decode string failed: '' Reader_String"

theorem string_roundtrip:
  "DeserializeString bs = Ok s \<longleftrightarrow> SerializeString s = Ok bs \<and> string_ok s"
  unfolding DeserializeString_def SerializeString_def string_codec.decode_whole_iff
  by (auto simp: string_ok_def Writer_String_def Writer_Bytes_def Writer_U32_def
      kMaxSerializedInputBytes_def)

text \<open>An enqueue request is read whole before its envelope is decoded.\<close>

definition SerializeEnqueueRequest :: "EnqueueRequest \<Rightarrow> bytes result" where
  "SerializeEnqueueRequest request =
     rbind (SerializeEnvelope (eq_envelope request)) (\<lambda>envelope.
     Ok (Writer_String (eq_user_id request) @ Writer_Bytes envelope))"

definition enqueue_fields :: "(string \<times> bytes) rd" where
  "enqueue_fields =
     rd_bind Reader_String (\<lambda>user_id. rd_bind Reader_Field (\<lambda>envelope_bytes.
     rd_return (user_id, envelope_bytes)))"

definition DeserializeEnqueueRequest :: "bytes \<Rightarrow> EnqueueRequest result" where
  "DeserializeEnqueueRequest bs =
     rbind (decode_whole ''enqueue request payload'' ''decode enqueue request failed: ''
       enqueue_fields bs) (\<lambda>(user_id, envelope_bytes).
     rbind (DeserializeEnvelope envelope_bytes) (\<lambda>envelope.
     Ok \<lparr>eq_user_id = user_id, eq_envelope = envelope\<rparr>))"

definition EnqueueRequest_ok :: "EnqueueRequest \<Rightarrow> bool" where
  "EnqueueRequest_ok q \<longleftrightarrow> string_ok (eq_user_id q) \<and> embedded_ok (eq_envelope q)"

definition enqueue_fields_bytes :: "string \<times> bytes \<Rightarrow> bytes" where
  "enqueue_fields_bytes ub = Writer_String (fst ub) @ Writer_Bytes (snd ub)"

definition enqueue_fields_ok :: "string \<times> bytes \<Rightarrow> bool" where
  "enqueue_fields_ok ub \<longleftrightarrow> string_ok (fst ub) \<and> field_ok (snd ub)"

interpretation enqueue_fields_codec: codec enqueue_fields_bytes enqueue_fields enqueue_fields_ok
proof
  show "enqueue_fields_ok ub \<Longrightarrow> decodes enqueue_fields (enqueue_fields_bytes ub) ub" for ub
    unfolding enqueue_fields_def enqueue_fields_bytes_def enqueue_fields_ok_def
    by (elim conjE, rule decodes_eq, (rule decodes_intros decodes_bind_return | assumption)+, simp)
  show "canon enqueue_fields (\<lambda>ub w. w = enqueue_fields_bytes ub \<and> enqueue_fields_ok ub)"
    unfolding enqueue_fields_def
    by ((rule canon_step, rule canon_intros)+, rule canon_done)
      (simp add: enqueue_fields_bytes_def enqueue_fields_ok_def)
qed

lemma SerializeEnqueueRequest_Ok_iff:
  "EnqueueRequest_ok q \<Longrightarrow> SerializeEnqueueRequest q = Ok bs \<longleftrightarrow>
   bs = enqueue_fields_bytes (eq_user_id q, Envelope_bytes (eq_envelope q))"
  by (auto simp: EnqueueRequest_ok_def embedded_ok_def SerializeEnqueueRequest_def
      SerializeEnvelope_ok enqueue_fields_bytes_def)

lemma DeserializeEnqueueRequest_iff:
  "DeserializeEnqueueRequest bs = Ok q \<longleftrightarrow>
     bs = enqueue_fields_bytes (eq_user_id q, Envelope_bytes (eq_envelope q)) \<and>
     EnqueueRequest_ok q \<and> length bs \<le> kMaxSerializedInputBytes"
proof -
  have "DeserializeEnqueueRequest bs = Ok q \<longleftrightarrow>
      (\<exists>b. bs = enqueue_fields_bytes (eq_user_id q, b) \<and> string_ok (eq_user_id q) \<and> field_ok b \<and>
        length bs \<le> kMaxSerializedInputBytes \<and> DeserializeEnvelope b = Ok (eq_envelope q))"
    unfolding DeserializeEnqueueRequest_def
    by (cases q) (force simp: result_inv enqueue_fields_codec.decode_whole_iff enqueue_fields_ok_def)
  also have "\<dots> \<longleftrightarrow> bs = enqueue_fields_bytes (eq_user_id q, Envelope_bytes (eq_envelope q)) \<and>
      EnqueueRequest_ok q \<and> length bs \<le> kMaxSerializedInputBytes"
    by (auto simp: DeserializeEnvelope_embedded EnqueueRequest_ok_def embedded_ok_def)
  finally show ?thesis .
qed

theorem enqueue_request_roundtrip:
  "DeserializeEnqueueRequest bs = Ok q \<longleftrightarrow>
     SerializeEnqueueRequest q = Ok bs \<and> EnqueueRequest_ok q \<and>
     length bs \<le> kMaxSerializedInputBytes"
  unfolding DeserializeEnqueueRequest_iff by (auto simp: SerializeEnqueueRequest_Ok_iff)

definition DrainInboxRequest_bytes :: "DrainInboxRequest \<Rightarrow> bytes" where
  "DrainInboxRequest_bytes request =
     Writer_String (dr_user_id request) @
     Writer_U8 (if dr_ack_up_to_inbox_id request \<noteq> None then 1 else 0) @
     (case dr_ack_up_to_inbox_id request of Some i \<Rightarrow> Writer_U64 i | None \<Rightarrow> [])"

definition SerializeDrainInboxRequest :: "DrainInboxRequest \<Rightarrow> bytes result" where
  "SerializeDrainInboxRequest request = Ok (DrainInboxRequest_bytes request)"

definition DrainInboxRequest_reader :: "DrainInboxRequest rd" where
  "DrainInboxRequest_reader =
     rd_bind Reader_String (\<lambda>user_id.
     rd_bind Reader_U8 (\<lambda>has_ack.
     if has_ack = 1 then rd_bind Reader_U64 (\<lambda>i.
       rd_return \<lparr>dr_user_id = user_id, dr_ack_up_to_inbox_id = Some i\<rparr>)
     else if has_ack \<noteq> 0 then rd_fail ''invalid ack tag''
     else rd_return \<lparr>dr_user_id = user_id, dr_ack_up_to_inbox_id = None\<rparr>))"

definition DeserializeDrainInboxRequest :: "bytes \<Rightarrow> DrainInboxRequest result" where
  "DeserializeDrainInboxRequest =
     decode_whole ''drain inbox request payload'' ''decode drain inbox request failed: ''
       DrainInboxRequest_reader"

definition DrainInboxRequest_ok :: "DrainInboxRequest \<Rightarrow> bool" where
  "DrainInboxRequest_ok q \<longleftrightarrow> string_ok (dr_user_id q)"

interpretation drain_request_codec:
  codec DrainInboxRequest_bytes DrainInboxRequest_reader DrainInboxRequest_ok
proof
  show "decodes DrainInboxRequest_reader (DrainInboxRequest_bytes q) q" if "DrainInboxRequest_ok q" for q
  proof -
    have "string_ok (dr_user_id q)" using that by (simp add: DrainInboxRequest_ok_def)
    then show ?thesis
      unfolding DrainInboxRequest_reader_def DrainInboxRequest_bytes_def
      by (rule decodes_bind [OF decodes_String], intro decodes_bind [OF decodes_U8], cases q,
          cases "dr_ack_up_to_inbox_id q")
        (auto intro: decodes_return decodes_bind_return decodes_U64)
  qed
  show "canon DrainInboxRequest_reader (\<lambda>q w. w = DrainInboxRequest_bytes q \<and> DrainInboxRequest_ok q)"
    unfolding DrainInboxRequest_reader_def
    by (rule canon_step [OF canon_String], rule canon_step [OF canon_U8],
        rule canon_weaken, rule canon_if [OF canon_bind [OF canon_U64 canon_return]
          canon_if [OF canon_fail canon_return]])
      (auto simp: DrainInboxRequest_bytes_def DrainInboxRequest_ok_def split: if_splits)
qed

definition RegisterRequest_bytes :: "RegisterRequest \<Rightarrow> bytes" where
  "RegisterRequest_bytes request =
     Writer_String (rr_user_id request) @
     Writer_Bytes (rr_transport_auth_public_key request) @
     Writer_String (rr_registration_token request) @
     Writer_Bytes (rr_proof_signature_mldsa65 request) @
     Writer_OptionalBytes (rr_rotation_signature_mldsa65 request)"

definition SerializeRegisterRequest :: "RegisterRequest \<Rightarrow> bytes result" where
  "SerializeRegisterRequest request = Ok (RegisterRequest_bytes request)"

definition RegisterRequest_reader :: "RegisterRequest rd" where
  "RegisterRequest_reader =
     rd_bind Reader_String (\<lambda>user_id.
     rd_bind Reader_Field (\<lambda>public_key.
     rd_bind Reader_String (\<lambda>token.
     rd_bind Reader_Field (\<lambda>proof_sig.
     rd_bind Reader_OptionalBytes (\<lambda>rotation_sig.
     rd_return \<lparr>rr_user_id = user_id, rr_transport_auth_public_key = public_key,
       rr_registration_token = token, rr_proof_signature_mldsa65 = proof_sig,
       rr_rotation_signature_mldsa65 = rotation_sig\<rparr>)))))"

definition DeserializeRegisterRequest :: "bytes \<Rightarrow> RegisterRequest result" where
  "DeserializeRegisterRequest =
     decode_whole ''register request payload'' ''decode register request failed: '' RegisterRequest_reader"

definition RegisterRequest_ok :: "RegisterRequest \<Rightarrow> bool" where
  "RegisterRequest_ok x \<longleftrightarrow> string_ok (rr_user_id x) \<and> field_ok (rr_transport_auth_public_key x) \<and> string_ok (rr_registration_token x) \<and> field_ok (rr_proof_signature_mldsa65 x) \<and> opt_field_ok (rr_rotation_signature_mldsa65 x)"

interpretation register_codec: codec RegisterRequest_bytes RegisterRequest_reader RegisterRequest_ok
proof
  show "RegisterRequest_ok x \<Longrightarrow> decodes RegisterRequest_reader (RegisterRequest_bytes x) x" for x
    unfolding RegisterRequest_reader_def RegisterRequest_bytes_def RegisterRequest_ok_def
    by ((elim conjE)?, rule decodes_eq, (rule decodes_intros decodes_bind_return | assumption)+, simp)
  show "canon RegisterRequest_reader (\<lambda>x w. w = RegisterRequest_bytes x \<and> RegisterRequest_ok x)"
    unfolding RegisterRequest_reader_def
    by ((rule canon_step, rule canon_intros)+, rule canon_done)
      (simp add: RegisterRequest_bytes_def RegisterRequest_ok_def)
qed

definition AuthBeginRequest_bytes :: "AuthBeginRequest \<Rightarrow> bytes" where
  "AuthBeginRequest_bytes request =
     Writer_String (abq_user_id request) @
     Writer_Bytes (abq_client_nonce request)"

definition SerializeAuthBeginRequest :: "AuthBeginRequest \<Rightarrow> bytes result" where
  "SerializeAuthBeginRequest request = Ok (AuthBeginRequest_bytes request)"

definition AuthBeginRequest_reader :: "AuthBeginRequest rd" where
  "AuthBeginRequest_reader =
     rd_bind Reader_String (\<lambda>user_id.
     rd_bind Reader_Field (\<lambda>client_nonce.
     rd_return \<lparr>abq_user_id = user_id, abq_client_nonce = client_nonce\<rparr>))"

definition DeserializeAuthBeginRequest :: "bytes \<Rightarrow> AuthBeginRequest result" where
  "DeserializeAuthBeginRequest =
     decode_whole ''auth begin request payload'' ''decode auth begin request failed: '' AuthBeginRequest_reader"

definition AuthBeginRequest_ok :: "AuthBeginRequest \<Rightarrow> bool" where
  "AuthBeginRequest_ok x \<longleftrightarrow> string_ok (abq_user_id x) \<and> field_ok (abq_client_nonce x)"

interpretation auth_begin_request_codec: codec AuthBeginRequest_bytes AuthBeginRequest_reader AuthBeginRequest_ok
proof
  show "AuthBeginRequest_ok x \<Longrightarrow> decodes AuthBeginRequest_reader (AuthBeginRequest_bytes x) x" for x
    unfolding AuthBeginRequest_reader_def AuthBeginRequest_bytes_def AuthBeginRequest_ok_def
    by ((elim conjE)?, rule decodes_eq, (rule decodes_intros decodes_bind_return | assumption)+, simp)
  show "canon AuthBeginRequest_reader (\<lambda>x w. w = AuthBeginRequest_bytes x \<and> AuthBeginRequest_ok x)"
    unfolding AuthBeginRequest_reader_def
    by ((rule canon_step, rule canon_intros)+, rule canon_done)
      (simp add: AuthBeginRequest_bytes_def AuthBeginRequest_ok_def)
qed

definition AuthBeginResponse_bytes :: "AuthBeginResponse \<Rightarrow> bytes" where
  "AuthBeginResponse_bytes response =
     Writer_String (abr_challenge_id response) @
     Writer_Bytes (abr_server_nonce response) @
     Writer_U64 (abr_expires_at_unix response)"

definition SerializeAuthBeginResponse :: "AuthBeginResponse \<Rightarrow> bytes result" where
  "SerializeAuthBeginResponse response = Ok (AuthBeginResponse_bytes response)"

definition AuthBeginResponse_reader :: "AuthBeginResponse rd" where
  "AuthBeginResponse_reader =
     rd_bind Reader_String (\<lambda>challenge_id.
     rd_bind Reader_Field (\<lambda>server_nonce.
     rd_bind Reader_U64 (\<lambda>expires.
     rd_return \<lparr>abr_challenge_id = challenge_id, abr_server_nonce = server_nonce,
       abr_expires_at_unix = expires\<rparr>)))"

definition DeserializeAuthBeginResponse :: "bytes \<Rightarrow> AuthBeginResponse result" where
  "DeserializeAuthBeginResponse =
     decode_whole ''auth begin response payload'' ''decode auth begin response failed: '' AuthBeginResponse_reader"

definition AuthBeginResponse_ok :: "AuthBeginResponse \<Rightarrow> bool" where
  "AuthBeginResponse_ok x \<longleftrightarrow> string_ok (abr_challenge_id x) \<and> field_ok (abr_server_nonce x)"

interpretation auth_begin_response_codec: codec AuthBeginResponse_bytes AuthBeginResponse_reader AuthBeginResponse_ok
proof
  show "AuthBeginResponse_ok x \<Longrightarrow> decodes AuthBeginResponse_reader (AuthBeginResponse_bytes x) x" for x
    unfolding AuthBeginResponse_reader_def AuthBeginResponse_bytes_def AuthBeginResponse_ok_def
    by ((elim conjE)?, rule decodes_eq, (rule decodes_intros decodes_bind_return | assumption)+, simp)
  show "canon AuthBeginResponse_reader (\<lambda>x w. w = AuthBeginResponse_bytes x \<and> AuthBeginResponse_ok x)"
    unfolding AuthBeginResponse_reader_def
    by ((rule canon_step, rule canon_intros)+, rule canon_done)
      (simp add: AuthBeginResponse_bytes_def AuthBeginResponse_ok_def)
qed

definition AuthFinishRequest_bytes :: "AuthFinishRequest \<Rightarrow> bytes" where
  "AuthFinishRequest_bytes request =
     Writer_String (afq_user_id request) @
     Writer_String (afq_challenge_id request) @
     Writer_Bytes (afq_client_nonce request) @
     Writer_Bytes (afq_server_nonce request) @
     Writer_U64 (afq_expires_at_unix request) @
     Writer_Bytes (afq_signature_mldsa65 request)"

definition SerializeAuthFinishRequest :: "AuthFinishRequest \<Rightarrow> bytes result" where
  "SerializeAuthFinishRequest request = Ok (AuthFinishRequest_bytes request)"

definition AuthFinishRequest_reader :: "AuthFinishRequest rd" where
  "AuthFinishRequest_reader =
     rd_bind Reader_String (\<lambda>user_id.
     rd_bind Reader_String (\<lambda>challenge_id.
     rd_bind Reader_Field (\<lambda>client_nonce.
     rd_bind Reader_Field (\<lambda>server_nonce.
     rd_bind Reader_U64 (\<lambda>expires.
     rd_bind Reader_Field (\<lambda>sig.
     rd_return \<lparr>afq_user_id = user_id, afq_challenge_id = challenge_id, afq_client_nonce =
       client_nonce, afq_server_nonce = server_nonce, afq_expires_at_unix = expires,
       afq_signature_mldsa65 = sig\<rparr>))))))"

definition DeserializeAuthFinishRequest :: "bytes \<Rightarrow> AuthFinishRequest result" where
  "DeserializeAuthFinishRequest =
     decode_whole ''auth finish request payload'' ''decode auth finish request failed: '' AuthFinishRequest_reader"

definition AuthFinishRequest_ok :: "AuthFinishRequest \<Rightarrow> bool" where
  "AuthFinishRequest_ok x \<longleftrightarrow> string_ok (afq_user_id x) \<and> string_ok (afq_challenge_id x) \<and> field_ok (afq_client_nonce x) \<and> field_ok (afq_server_nonce x) \<and> field_ok (afq_signature_mldsa65 x)"

interpretation auth_finish_request_codec: codec AuthFinishRequest_bytes AuthFinishRequest_reader AuthFinishRequest_ok
proof
  show "AuthFinishRequest_ok x \<Longrightarrow> decodes AuthFinishRequest_reader (AuthFinishRequest_bytes x) x" for x
    unfolding AuthFinishRequest_reader_def AuthFinishRequest_bytes_def AuthFinishRequest_ok_def
    by ((elim conjE)?, rule decodes_eq, (rule decodes_intros decodes_bind_return | assumption)+, simp)
  show "canon AuthFinishRequest_reader (\<lambda>x w. w = AuthFinishRequest_bytes x \<and> AuthFinishRequest_ok x)"
    unfolding AuthFinishRequest_reader_def
    by ((rule canon_step, rule canon_intros)+, rule canon_done)
      (simp add: AuthFinishRequest_bytes_def AuthFinishRequest_ok_def)
qed

definition AuthFinishResponse_bytes :: "AuthFinishResponse \<Rightarrow> bytes" where
  "AuthFinishResponse_bytes response =
     Writer_Bytes (afr_session_token response) @
     Writer_U64 (afr_expires_at_unix response)"

definition SerializeAuthFinishResponse :: "AuthFinishResponse \<Rightarrow> bytes result" where
  "SerializeAuthFinishResponse response = Ok (AuthFinishResponse_bytes response)"

definition AuthFinishResponse_reader :: "AuthFinishResponse rd" where
  "AuthFinishResponse_reader =
     rd_bind Reader_Field (\<lambda>token.
     rd_bind Reader_U64 (\<lambda>expires.
     rd_return \<lparr>afr_session_token = token, afr_expires_at_unix = expires\<rparr>))"

definition DeserializeAuthFinishResponse :: "bytes \<Rightarrow> AuthFinishResponse result" where
  "DeserializeAuthFinishResponse =
     decode_whole ''auth finish response payload'' ''decode auth finish response failed: '' AuthFinishResponse_reader"

definition AuthFinishResponse_ok :: "AuthFinishResponse \<Rightarrow> bool" where
  "AuthFinishResponse_ok x \<longleftrightarrow> field_ok (afr_session_token x)"

interpretation auth_finish_response_codec: codec AuthFinishResponse_bytes AuthFinishResponse_reader AuthFinishResponse_ok
proof
  show "AuthFinishResponse_ok x \<Longrightarrow> decodes AuthFinishResponse_reader (AuthFinishResponse_bytes x) x" for x
    unfolding AuthFinishResponse_reader_def AuthFinishResponse_bytes_def AuthFinishResponse_ok_def
    by ((elim conjE)?, rule decodes_eq, (rule decodes_intros decodes_bind_return | assumption)+, simp)
  show "canon AuthFinishResponse_reader (\<lambda>x w. w = AuthFinishResponse_bytes x \<and> AuthFinishResponse_ok x)"
    unfolding AuthFinishResponse_reader_def
    by ((rule canon_step, rule canon_intros)+, rule canon_done)
      (simp add: AuthFinishResponse_bytes_def AuthFinishResponse_ok_def)
qed

definition AuthenticatedPayload_bytes :: "AuthenticatedPayload \<Rightarrow> bytes" where
  "AuthenticatedPayload_bytes payload =
     Writer_Bytes (ap_session_token payload) @
     Writer_Bytes (ap_payload payload)"

definition SerializeAuthenticatedPayload :: "AuthenticatedPayload \<Rightarrow> bytes result" where
  "SerializeAuthenticatedPayload payload = Ok (AuthenticatedPayload_bytes payload)"

definition AuthenticatedPayload_reader :: "AuthenticatedPayload rd" where
  "AuthenticatedPayload_reader =
     rd_bind Reader_Field (\<lambda>token.
     rd_bind Reader_Field (\<lambda>payload.
     rd_return \<lparr>ap_session_token = token, ap_payload = payload\<rparr>))"

definition DeserializeAuthenticatedPayload :: "bytes \<Rightarrow> AuthenticatedPayload result" where
  "DeserializeAuthenticatedPayload =
     decode_whole ''authenticated payload'' ''decode authenticated payload failed: '' AuthenticatedPayload_reader"

definition AuthenticatedPayload_ok :: "AuthenticatedPayload \<Rightarrow> bool" where
  "AuthenticatedPayload_ok x \<longleftrightarrow> field_ok (ap_session_token x) \<and> field_ok (ap_payload x)"

interpretation authenticated_payload_codec: codec AuthenticatedPayload_bytes AuthenticatedPayload_reader AuthenticatedPayload_ok
proof
  show "AuthenticatedPayload_ok x \<Longrightarrow> decodes AuthenticatedPayload_reader (AuthenticatedPayload_bytes x) x" for x
    unfolding AuthenticatedPayload_reader_def AuthenticatedPayload_bytes_def AuthenticatedPayload_ok_def
    by ((elim conjE)?, rule decodes_eq, (rule decodes_intros decodes_bind_return | assumption)+, simp)
  show "canon AuthenticatedPayload_reader (\<lambda>x w. w = AuthenticatedPayload_bytes x \<and> AuthenticatedPayload_ok x)"
    unfolding AuthenticatedPayload_reader_def
    by ((rule canon_step, rule canon_intros)+, rule canon_done)
      (simp add: AuthenticatedPayload_bytes_def AuthenticatedPayload_ok_def)
qed

theorem drain_request_roundtrip:
  "DeserializeDrainInboxRequest bs = Ok q \<longleftrightarrow>
     SerializeDrainInboxRequest q = Ok bs \<and> DrainInboxRequest_ok q \<and>
     length bs \<le> kMaxSerializedInputBytes"
  unfolding DeserializeDrainInboxRequest_def SerializeDrainInboxRequest_def
    drain_request_codec.decode_whole_iff
  by auto

theorem transport_auth_messages_roundtrip:
  "(DeserializeRegisterRequest bs = Ok r \<longleftrightarrow>
     SerializeRegisterRequest r = Ok bs \<and> RegisterRequest_ok r \<and> length bs \<le> kMaxSerializedInputBytes) \<and>
   (DeserializeAuthBeginRequest bs = Ok bq \<longleftrightarrow>
     SerializeAuthBeginRequest bq = Ok bs \<and> AuthBeginRequest_ok bq \<and> length bs \<le> kMaxSerializedInputBytes) \<and>
   (DeserializeAuthBeginResponse bs = Ok br \<longleftrightarrow>
     SerializeAuthBeginResponse br = Ok bs \<and> AuthBeginResponse_ok br \<and> length bs \<le> kMaxSerializedInputBytes) \<and>
   (DeserializeAuthFinishRequest bs = Ok fq \<longleftrightarrow>
     SerializeAuthFinishRequest fq = Ok bs \<and> AuthFinishRequest_ok fq \<and> length bs \<le> kMaxSerializedInputBytes) \<and>
   (DeserializeAuthFinishResponse bs = Ok fr \<longleftrightarrow>
     SerializeAuthFinishResponse fr = Ok bs \<and> AuthFinishResponse_ok fr \<and> length bs \<le> kMaxSerializedInputBytes) \<and>
   (DeserializeAuthenticatedPayload bs = Ok p \<longleftrightarrow>
     SerializeAuthenticatedPayload p = Ok bs \<and> AuthenticatedPayload_ok p \<and> length bs \<le> kMaxSerializedInputBytes)"
  unfolding DeserializeRegisterRequest_def SerializeRegisterRequest_def register_codec.decode_whole_iff
    DeserializeAuthBeginRequest_def SerializeAuthBeginRequest_def
    auth_begin_request_codec.decode_whole_iff
    DeserializeAuthBeginResponse_def SerializeAuthBeginResponse_def
    auth_begin_response_codec.decode_whole_iff
    DeserializeAuthFinishRequest_def SerializeAuthFinishRequest_def
    auth_finish_request_codec.decode_whole_iff
    DeserializeAuthFinishResponse_def SerializeAuthFinishResponse_def
    auth_finish_response_codec.decode_whole_iff
    DeserializeAuthenticatedPayload_def SerializeAuthenticatedPayload_def
    authenticated_payload_codec.decode_whole_iff
  by auto

end
