(* ===== verification/Server_Api.thy ===== *)
theory Server_Api
  imports Serialization
begin

text \<open>
  The contract of the inbox calls of \<^verbatim>\<open>IServerApi\<close> (\<^verbatim>\<open>include/pqchat/server/server_api.h\<close>),
  which every store behind the TCP server provides, as the locale \<open>inbox_service\<close>: inbox ids
  ascend, draining removes exactly what is acknowledged and returns a non-empty prefix of the
  rest, enqueueing appends under a new id. Its consequence for a client that acknowledges what
  it has received: repeated draining delivers every pending envelope once, in order. The locale
  \<open>message_server\<close> extends it by what a client relies on when it publishes, acquires and enqueues; its
  parameters \<open>known\<close> and \<open>fits\<close> are the acknowledgements and the envelopes for which a store promises it.
\<close>

section \<open>The interface\<close>

text \<open>
  The virtual methods of \<^verbatim>\<open>IServerApi\<close> as a record of functions on the implementation's state.
  A call also gets the values of the clock and of the random generator it will read.
\<close>

record call_env =
  env_now :: u64
  env_rnd1 :: "bytes option"
  env_rnd2 :: "bytes option"

record 's IServerApi =
  api_RegisterTransportIdentity :: "call_env \<Rightarrow> 's \<Rightarrow> RegisterRequest \<Rightarrow> unit result \<times> 's"
  api_BeginTransportAuthentication ::
    "call_env \<Rightarrow> 's \<Rightarrow> AuthBeginRequest \<Rightarrow> AuthBeginResponse result \<times> 's"
  api_FinishTransportAuthentication ::
    "call_env \<Rightarrow> 's \<Rightarrow> AuthFinishRequest \<Rightarrow> AuthFinishResponse result \<times> 's"
  api_AuthenticateSessionToken :: "call_env \<Rightarrow> 's \<Rightarrow> bytes \<Rightarrow> string result \<times> 's"
  api_RevokeSessionToken :: "call_env \<Rightarrow> 's \<Rightarrow> bytes \<Rightarrow> unit result \<times> 's"
  api_PublishBundle :: "call_env \<Rightarrow> 's \<Rightarrow> PrekeyBundle \<Rightarrow> unit result \<times> 's"
  api_AcquireBundleForSession :: "call_env \<Rightarrow> 's \<Rightarrow> string \<Rightarrow> PrekeyBundle result \<times> 's"
  api_EnqueueEnvelope :: "call_env \<Rightarrow> 's \<Rightarrow> string \<Rightarrow> Envelope \<Rightarrow> unit result \<times> 's"
  api_DrainInbox ::
    "call_env \<Rightarrow> 's \<Rightarrow> string \<Rightarrow> u64 option \<Rightarrow> InboxEnvelope list result \<times> 's"

section \<open>Draining an inbox\<close>

definition unacked :: "u64 option \<Rightarrow> InboxEnvelope list \<Rightarrow> InboxEnvelope list" where
  "unacked ack xs = (case ack of None \<Rightarrow> xs | Some a \<Rightarrow> filter (\<lambda>i. a < ie_inbox_id i) xs)"

definition ascending :: "InboxEnvelope list \<Rightarrow> bool" where
  "ascending xs \<longleftrightarrow> sorted_wrt (\<lambda>i j. ie_inbox_id i < ie_inbox_id j) xs"

lemma ascending_unacked: "ascending xs \<Longrightarrow> ascending (unacked ack xs)"
  by (simp add: ascending_def unacked_def sorted_wrt_filter split: option.splits)

lemma ascending_last:
  "ascending (a # as) \<Longrightarrow> i \<in> set (a # as) \<Longrightarrow> ie_inbox_id i \<le> ie_inbox_id (last (a # as))"
proof (induction "as" arbitrary: a i)
  case (Cons b bs)
  then have "ie_inbox_id a < ie_inbox_id b" and rec: "ascending (b # bs)" by (auto simp: ascending_def)
  moreover have "ie_inbox_id b \<le> ie_inbox_id (last (b # bs))" using Cons.IH [OF rec] by simp
  ultimately show ?case using Cons by (auto simp: ascending_def)
qed simp

text \<open>Acknowledging the last envelope of a batch leaves what follows the batch.\<close>

lemma unacked_after_batch:
  assumes "ascending (xs @ ys)" and "xs \<noteq> []"
  shows "unacked (Some (ie_inbox_id (last xs))) (xs @ ys) = ys"
proof -
  obtain a "as" where xs: "xs = a # as" using assms(2) by (cases xs) auto
  have asc: "ascending xs" and above: "\<forall>i\<in>set xs. \<forall>j\<in>set ys. ie_inbox_id i < ie_inbox_id j"
    using assms(1) by (auto simp: ascending_def sorted_wrt_append)
  have "filter (\<lambda>i. ie_inbox_id (last xs) < ie_inbox_id i) xs = []"
    unfolding filter_empty_conv using ascending_last [OF asc [unfolded xs]] xs by (auto simp: not_less)
  moreover have "filter (\<lambda>i. ie_inbox_id (last xs) < ie_inbox_id i) ys = ys"
    using above assms(2) by (intro filter_True) auto
  ultimately show ?thesis by (simp add: unacked_def)
qed

definition can_serialize :: "InboxEnvelope \<Rightarrow> bool" where
  "can_serialize i \<longleftrightarrow> (case SerializeEnvelope (ie_envelope i) of Ok _ \<Rightarrow> True | Err _ \<Rightarrow> False)"

text \<open>A client that drains until nothing comes back, acknowledging each batch by its last id.\<close>

primrec drain_all ::
    "('s \<Rightarrow> string \<Rightarrow> u64 option \<Rightarrow> InboxEnvelope list result \<times> 's) \<Rightarrow>
     nat \<Rightarrow> 's \<Rightarrow> string \<Rightarrow> u64 option \<Rightarrow> (InboxEnvelope list \<times> 's) option" where
  "drain_all drain 0 s u ack = None"
| "drain_all drain (Suc n) s u ack =
     (case drain s u ack of
        (Err _, _) \<Rightarrow> None
      | (Ok xs, s') \<Rightarrow>
          if xs = [] then Some ([], s')
          else map_option (\<lambda>(ys, s''). (xs @ ys, s''))
            (drain_all drain n s' u (Some (ie_inbox_id (last xs)))))"

locale inbox_service =
  fixes inv :: "'s \<Rightarrow> bool"
    and pending :: "'s \<Rightarrow> string \<Rightarrow> InboxEnvelope list"
    and known :: "u64 \<Rightarrow> bool"
    and drain :: "'s \<Rightarrow> string \<Rightarrow> u64 option \<Rightarrow> InboxEnvelope list result \<times> 's"
  assumes pending_ascending: "inv s \<Longrightarrow> ascending (pending s u)"
    and pending_known: "inv s \<Longrightarrow> i \<in> set (pending s u) \<Longrightarrow> known (ie_inbox_id i)"
    and drain_inv: "inv s \<Longrightarrow> inv (snd (drain s u ack))"
    and drain_pending: "inv s \<Longrightarrow> pred_option known ack \<Longrightarrow> fst (drain s u ack) = Ok xs \<Longrightarrow>
      pending (snd (drain s u ack)) u' =
      (if u' = u then unacked ack (pending s u) else pending s u')"
    and drain_batch: "inv s \<Longrightarrow> pred_option known ack \<Longrightarrow> fst (drain s u ack) = Ok xs \<Longrightarrow>
      \<exists>k. xs = take k (unacked ack (pending s u)) \<and> (unacked ack (pending s u) \<noteq> [] \<longrightarrow> 0 < k)"
    and drain_total: "inv s \<Longrightarrow> \<forall>i\<in>set (pending s u). can_serialize i \<Longrightarrow>
      \<exists>xs. fst (drain s u ack) = Ok xs"
begin

lemma drain_all_complete:
  assumes "inv s" and "\<forall>i\<in>set (pending s u). can_serialize i" and "pred_option known ack"
    and "length (unacked ack (pending s u)) < n"
  shows "\<exists>s'. drain_all drain n s u ack = Some (unacked ack (pending s u), s') \<and> inv s' \<and>
    pending s' u = [] \<and> (\<forall>v. v \<noteq> u \<longrightarrow> pending s' v = pending s v)"
  using assms
proof (induction n arbitrary: s ack)
  case 0
  then show ?case by simp
next
  case (Suc n)
  let ?P = "unacked ack (pending s u)"
  obtain xs s1 where d: "drain s u ack = (Ok xs, s1)"
    using drain_total [OF Suc.prems(1,2), of ack] by (metis prod.collapse)
  have s1: "inv s1" and p1: "pending s1 v = (if v = u then ?P else pending s v)" for v
    using drain_inv [OF Suc.prems(1), of u ack] drain_pending [OF Suc.prems(1,3), of u xs v] d by auto
  obtain k where k: "xs = take k ?P" and pos: "?P \<noteq> [] \<longrightarrow> 0 < k"
    using drain_batch [OF Suc.prems(1,3), of u xs] d by auto
  show ?case
  proof (cases "?P = []")
    case True
    with d k s1 p1 show ?thesis by simp
  next
    case False
    with k pos have xs: "xs \<noteq> []" by simp
    let ?ack = "Some (ie_inbox_id (last xs))"
    have "?P = xs @ drop k ?P" using k by simp
    moreover have "ascending ?P" using pending_ascending [OF Suc.prems(1)] by (rule ascending_unacked)
    ultimately have rest: "unacked ?ack ?P = drop k ?P" using unacked_after_batch xs by metis
    have "length (unacked ?ack (pending s1 u)) < n"
      using Suc.prems(4) False pos by (simp add: p1 rest less_diff_conv2 flip: length_greater_0_conv)
    moreover have "\<forall>i\<in>set (pending s1 u). can_serialize i"
      using Suc.prems(2) by (auto simp: p1 unacked_def split: option.splits)
    moreover have "last xs \<in> set (pending s u)"
      using last_in_set [OF xs] k set_take_subset [of k ?P] by (auto simp: unacked_def split: option.splits)
    then have "pred_option known ?ack" using pending_known [OF Suc.prems(1)] by simp
    ultimately obtain s2 where "drain_all drain n s1 u ?ack = Some (drop k ?P, s2)" "inv s2"
      "pending s2 u = []" "\<forall>v. v \<noteq> u \<longrightarrow> pending s2 v = pending s1 v"
      using Suc.IH [OF s1, of ?ack] by (auto simp: p1 rest)
    with d xs k p1 show ?thesis by auto
  qed
qed

end

section \<open>A server that passes messages on\<close>

text \<open>
  What two clients rely on when they talk through a server: an enqueued envelope is appended to
  the inbox of its recipient, a bundle that was published comes back with its first one-time
  prekeys, and neither touches anything else of the inboxes. \<open>room\<close> is the number of envelopes
  an inbox still has ids for, \<open>fits\<close> tells which envelopes come back as they were stored.
\<close>

definition first_keys :: "PrekeyBundle \<Rightarrow> PrekeyBundle" where
  "first_keys b = b\<lparr>pb_one_time_ec := take 1 (pb_one_time_ec b),
     pb_one_time_pq := take 1 (pb_one_time_pq b)\<rparr>"

text \<open>Enqueueing a list of envelopes, and those of them that are for a user.\<close>

fun deliver_all :: "'s IServerApi \<Rightarrow> call_env \<Rightarrow> (string \<times> Envelope) list \<Rightarrow> 's \<Rightarrow> 's option" where
  "deliver_all api env [] s = Some s"
| "deliver_all api env ((u, e) # mail) s =
     (case api_EnqueueEnvelope api env s u e of
        (Ok _, s') \<Rightarrow> deliver_all api env mail s'
      | (Err _, _) \<Rightarrow> None)"

definition mail_for :: "string \<Rightarrow> (string \<times> Envelope) list \<Rightarrow> Envelope list" where
  "mail_for u mail = map snd (filter (\<lambda>(v, _). v = u) mail)"

locale message_server =
  fixes inv :: "'s \<Rightarrow> bool"
    and pending :: "'s \<Rightarrow> string \<Rightarrow> InboxEnvelope list"
    and known :: "u64 \<Rightarrow> bool"
    and fits :: "Envelope \<Rightarrow> bool"
    and room :: "'s \<Rightarrow> string \<Rightarrow> nat"
    and api :: "'s IServerApi"
  assumes inbox: "inbox_service inv pending known (api_DrainInbox api env)"
    and enqueue: "inv s \<Longrightarrow> 0 < room s u \<Longrightarrow> fits e \<Longrightarrow> api_EnqueueEnvelope api env s u e = (Ok (), s') \<Longrightarrow>
      inv s' \<and> (\<forall>v. room s v \<le> room s' v + 1) \<and>
      (\<exists>i. pending s' u = pending s u @ [\<lparr>ie_inbox_id = i, ie_envelope = e\<rparr>]) \<and>
      (\<forall>v. v \<noteq> u \<longrightarrow> pending s' v = pending s v)"
    and enqueue_total: "inv s \<Longrightarrow> 0 < room s u \<Longrightarrow> fits e \<Longrightarrow> can_serialize \<lparr>ie_inbox_id = 0, ie_envelope = e\<rparr> \<Longrightarrow>
      \<exists>s'. api_EnqueueEnvelope api env s u e = (Ok (), s')"
    and publish: "inv s \<Longrightarrow> api_PublishBundle api env s b = (Ok (), s') \<Longrightarrow>
      inv s' \<and> room s' = room s \<and> pending s' = pending s"
    and acquire: "inv s \<Longrightarrow> api_AcquireBundleForSession api env s u = (r, s') \<Longrightarrow>
      inv s' \<and> room s' = room s \<and> pending s' = pending s"
    and acquire_published: "api_PublishBundle api env s b = (Ok (), s') \<Longrightarrow>
      pb_one_time_ec b \<noteq> [] \<Longrightarrow> pb_one_time_pq b \<noteq> [] \<Longrightarrow>
      fst (api_AcquireBundleForSession api env' s' (pb_user_id b)) = Ok (first_keys b)"

begin

text \<open>
  A server that gets these envelopes, each for its user: afterwards, every user who drains the inbox
  gets the own ones, in the order in which they came.
\<close>

lemma deliver_all_pending:
  assumes "inv s" and "\<forall>v. length mail \<le> room s v"
    and "\<forall>(v, e)\<in>set mail. fits e \<and> can_serialize \<lparr>ie_inbox_id = 0, ie_envelope = e\<rparr>"
  shows "\<exists>s'. deliver_all api env mail s = Some s' \<and> inv s' \<and>
    (\<forall>u. map ie_envelope (pending s' u) = map ie_envelope (pending s u) @ mail_for u mail)"
  using assms
proof (induction mail arbitrary: s)
  case (Cons m mail)
  obtain v e where m: "m = (v, e)" by (cases m)
  have "length (m # mail) \<le> room s v" using Cons.prems(2) by blast
  then have "0 < room s v" by simp
  moreover from this obtain s1 where enq: "api_EnqueueEnvelope api env s v e = (Ok (), s1)"
    using enqueue_total [OF Cons.prems(1)] Cons.prems(3) m by fastforce
  ultimately have s1: "inv s1" "\<forall>w. room s w \<le> room s1 w + 1"
      "\<exists>i. pending s1 v = pending s v @ [\<lparr>ie_inbox_id = i, ie_envelope = e\<rparr>]"
      "\<forall>w. w \<noteq> v \<longrightarrow> pending s1 w = pending s w"
    using enqueue [OF Cons.prems(1) _ _ enq] Cons.prems(3) m by auto
  have "\<forall>w. length mail \<le> room s1 w"
  proof
    fix w
    have "length (m # mail) \<le> room s w" "room s w \<le> room s1 w + 1" using Cons.prems(2) s1(2) by blast+
    then show "length mail \<le> room s1 w" by simp
  qed
  with s1 Cons.IH [of s1] Cons.prems(3) obtain s' where "deliver_all api env mail s1 = Some s'" "inv s'"
    "\<forall>u. map ie_envelope (pending s' u) = map ie_envelope (pending s1 u) @ mail_for u mail" by auto
  with enq s1(3,4) show ?case by (auto simp: m mail_for_def)
qed (simp add: mail_for_def)

lemma deliver_all_drains:
  assumes "inv s" and "\<forall>u. pending s u = []" and "\<forall>v. length mail \<le> room s v"
    and "\<forall>(v, e)\<in>set mail. fits e \<and> can_serialize \<lparr>ie_inbox_id = 0, ie_envelope = e\<rparr>"
    and "length mail < n"
  shows "\<exists>s' xs s''. deliver_all api env mail s = Some s' \<and>
    drain_all (api_DrainInbox api env') n s' u None = Some (xs, s'') \<and> map ie_envelope xs = mail_for u mail"
proof -
  obtain s' where s': "deliver_all api env mail s = Some s'" "inv s'" "map ie_envelope (pending s' u) = mail_for u mail"
    using deliver_all_pending [OF assms(1,3,4), of env] assms(2) by auto
  have "can_serialize i" if "i \<in> set (pending s' u)" for i
  proof -
    have "ie_envelope i \<in> set (mail_for u mail)" using that by (simp flip: s'(3))
    then show ?thesis using assms(4) by (auto simp: mail_for_def can_serialize_def)
  qed
  moreover have "length (pending s' u) < n"
    using le_less_trans [OF length_filter_le assms(5)] arg_cong [OF s'(3), of length] by (simp add: mail_for_def)
  ultimately have "\<exists>s''. drain_all (api_DrainInbox api env') n s' u None = Some (pending s' u, s'')"
    using inbox_service.drain_all_complete [OF inbox s'(2), of u None n env'] by (auto simp: unacked_def)
  with s' show ?thesis by blast
qed

end

end
