(* ===== verification/Rate_Limit.thy ===== *)
theory Rate_Limit
  imports Prelude
begin

text \<open>
  The sliding-window limiter that \<^verbatim>\<open>src/server/tcp_server.cpp\<close> (\<^verbatim>\<open>TrimWindow\<close>,
  \<^verbatim>\<open>CheckAndRecord\<close>) and \<^verbatim>\<open>src/server/in_memory_server.cpp\<close> (\<^verbatim>\<open>EnforceRateLimit\<close>, the
  \<^verbatim>\<open>trim_buckets\<close> lambda) share. A bucket is the deque of the times of accepted attempts; the
  comparison \<^verbatim>\<open>front + window <= now\<close> is on 64-bit words and may wrap.

  The locale \<open>rate_limiter\<close> is the contract a limiter keyed by users or addresses offers: what
  an attempt decides, what it records and that it does not touch the windows of other keys. The
  bound on accepted attempts per window is proved in it once, for any interleaving of keys.
\<close>

type_synonym bucket = "u64 list"
type_synonym buckets = "string \<rightharpoonup> bucket"

definition TrimWindow :: "u64 \<Rightarrow> u64 \<Rightarrow> bucket \<Rightarrow> bucket" where
  "TrimWindow now window_seconds bucket = dropWhile (\<lambda>t. t + window_seconds \<le> now) bucket"

definition CheckAndRecord ::
    "bucket \<Rightarrow> u64 \<Rightarrow> u64 \<Rightarrow> nat \<Rightarrow> string \<Rightarrow> unit result \<times> bucket" where
  "CheckAndRecord bucket now window_seconds limit error_text =
     (let bucket = TrimWindow now window_seconds bucket
      in if length bucket \<ge> limit then (Err error_text, bucket) else (Ok (), bucket @ [now]))"

text \<open>The loop over a map of buckets: each is trimmed, and erased when that empties it.\<close>

definition trim_buckets :: "u64 \<Rightarrow> u64 \<Rightarrow> buckets \<Rightarrow> buckets" where
  "trim_buckets now window_seconds buckets =
     (\<lambda>k. case buckets k of
        None \<Rightarrow> None
      | Some b \<Rightarrow> (let b' = TrimWindow now window_seconds b in if b' = [] then None else Some b'))"

text \<open>\<^verbatim>\<open>(*buckets)[key]\<close> creates an empty bucket when there is none.\<close>

definition bucket_of :: "string \<Rightarrow> buckets \<Rightarrow> bucket" where
  "bucket_of k buckets = (case buckets k of None \<Rightarrow> [] | Some b \<Rightarrow> b)"

definition EnforceRateLimit ::
    "buckets \<Rightarrow> string \<Rightarrow> u64 \<Rightarrow> nat \<Rightarrow> u64 \<Rightarrow> string \<Rightarrow> unit result \<times> buckets" where
  "EnforceRateLimit buckets user_id now max_attempts window_seconds error_text =
     (let bucket = TrimWindow now window_seconds (bucket_of user_id buckets)
      in if length bucket \<ge> max_attempts then (Err error_text, buckets(user_id \<mapsto> bucket))
         else (Ok (), buckets(user_id \<mapsto> bucket @ [now])))"

section \<open>Trimming\<close>

text \<open>No wrap-around: the time plus the window stays below \<open>2 ^ 64\<close>.\<close>

definition no_wrap :: "u64 \<Rightarrow> u64 \<Rightarrow> bool" where
  "no_wrap w t \<longleftrightarrow> unat t + unat w < 2 ^ 64"

lemma unat_add_no_wrap: "no_wrap w t \<Longrightarrow> unat (t + w) = unat t + unat w"
  by (simp add: no_wrap_def unat_word_ariths)

lemma TrimWindow_Nil [simp]: "TrimWindow now w [] = []"
  by (simp add: TrimWindow_def)

lemma set_TrimWindow: "set (TrimWindow now w b) \<subseteq> set b"
  unfolding TrimWindow_def by (auto dest: set_dropWhileD)

lemma sorted_TrimWindow: "sorted b \<Longrightarrow> sorted (TrimWindow now w b)"
  unfolding TrimWindow_def by (rule sorted_dropWhile)

lemma sorted_no_wrap_mono:
  "no_wrap w x \<Longrightarrow> no_wrap w y \<Longrightarrow> x \<le> y \<Longrightarrow> x + w \<le> y + w"
  by (simp add: word_le_nat_alt unat_add_no_wrap)

lemma TrimWindow_filter:
  assumes "sorted b" and "\<forall>t\<in>set b. no_wrap w t"
  shows "TrimWindow now w b = filter (\<lambda>t. now < t + w) b"
  using assms
proof (induction b)
  case Nil
  show ?case by simp
next
  case (Cons x b)
  show ?case
  proof (cases "x + w \<le> now")
    case True
    with Cons show ?thesis by (simp add: TrimWindow_def not_less)
  next
    case False
    have "now < y + w" if "y \<in> set b" for y
    proof -
      have "x + w \<le> y + w" using Cons.prems that by (intro sorted_no_wrap_mono) auto
      with False show ?thesis by simp
    qed
    with False show ?thesis by (simp add: TrimWindow_def not_le filter_True)
  qed
qed

lemma TrimWindow_TrimWindow:
  assumes "now \<le> now'" and "sorted b" and "\<forall>t\<in>set b. no_wrap w t"
  shows "TrimWindow now' w (TrimWindow now w b) = TrimWindow now' w b"
proof -
  have "\<forall>t\<in>set (TrimWindow now w b). no_wrap w t" using assms(3) set_TrimWindow by fastforce
  then have "TrimWindow now' w (TrimWindow now w b) = filter (\<lambda>t. now' < t + w) (TrimWindow now w b)"
    using assms(2) by (intro TrimWindow_filter sorted_TrimWindow)
  also have "\<dots> = filter (\<lambda>t. now < t + w \<and> now' < t + w) b"
    by (simp add: TrimWindow_filter assms)
  also have "\<dots> = filter (\<lambda>t. now' < t + w) b"
    using assms(1) by (intro filter_cong) auto
  also have "\<dots> = TrimWindow now' w b" by (simp add: TrimWindow_filter assms)
  finally show ?thesis .
qed

lemma TrimWindow_idem [simp]: "TrimWindow now w (TrimWindow now w b) = TrimWindow now w b"
  by (simp add: TrimWindow_def)

lemma bucket_of_trim_buckets [simp]:
  "bucket_of k (trim_buckets now w m) = TrimWindow now w (bucket_of k m)"
  by (simp add: bucket_of_def trim_buckets_def Let_def split: option.splits)

lemma bucket_of_upd [simp]: "bucket_of k (m(k' \<mapsto> b)) = (if k = k' then b else bucket_of k m)"
  by (simp add: bucket_of_def)

lemma bucket_of_empty [simp]: "bucket_of k Map.empty = []"
  by (simp add: bucket_of_def)

section \<open>The bound\<close>

text \<open>The accepted times that fall into the \<open>window\<close> seconds from \<open>s\<close> on.\<close>

definition in_window :: "u64 \<Rightarrow> u64 \<Rightarrow> u64 list \<Rightarrow> u64 list" where
  "in_window w s ts = filter (\<lambda>t. unat s \<le> unat t \<and> unat t < unat s + unat w) ts"

lemma in_window_recent:
  assumes "sorted A" and "\<forall>t\<in>set A. no_wrap w t" and "\<forall>a\<in>set A. a \<le> now"
    and "unat now < unat s + unat w"
  shows "length (in_window w s A) \<le> length (TrimWindow now w A)"
proof -
  have "in_window w s A = filter (\<lambda>t. unat s \<le> unat t \<and> unat t < unat s + unat w) (TrimWindow now w A)"
    unfolding in_window_def TrimWindow_filter [OF assms(1,2)] filter_filter
    using assms(2,4) by (intro filter_cong) (auto simp: word_less_nat_alt unat_add_no_wrap)
  then show ?thesis by (simp add: length_filter_le)
qed

locale rate_limiter =
  fixes attempt :: "'k \<Rightarrow> u64 \<Rightarrow> 's \<Rightarrow> bool \<times> 's"
    and tick :: "u64 \<Rightarrow> 's \<Rightarrow> 's"
    and recent :: "'k \<Rightarrow> 's \<Rightarrow> bucket"
    and limit :: nat
    and window :: u64
  assumes accepts_iff: "fst (attempt k t s) \<longleftrightarrow> length (TrimWindow t window (recent k s)) < limit"
    and recent_same: "recent k (snd (attempt k t s)) =
      TrimWindow t window (recent k s) @ (if fst (attempt k t s) then [t] else [])"
    and recent_other: "k' \<noteq> k \<Longrightarrow>
      recent k' (snd (attempt k t s)) \<in> {recent k' s, TrimWindow t window (recent k' s)}"
    and recent_tick: "recent k (tick t s) \<in> {recent k s, TrimWindow t window (recent k s)}"
begin

text \<open>
  The times at which attempts of \<open>k\<close> are accepted in a run of attempts of any keys (\<open>Some k'\<close>)
  and of calls that at most trim (\<open>None\<close>).
\<close>

primrec accepted :: "'k \<Rightarrow> ('k option \<times> u64) list \<Rightarrow> 's \<Rightarrow> u64 list" where
  "accepted k [] s = []"
| "accepted k (a # as) s =
     (case fst a of
        None \<Rightarrow> accepted k as (tick (snd a) s)
      | Some k' \<Rightarrow>
          (let r = attempt k' (snd a) s
           in (if k' = k \<and> fst r then [snd a] else []) @ accepted k as (snd r)))"

text \<open>
  What the state keeps of the accepted times \<open>A\<close> of a key at time \<open>now\<close>: as far as any later
  attempt can tell, all of them.
\<close>

definition tracks :: "'k \<Rightarrow> u64 list \<Rightarrow> u64 \<Rightarrow> 's \<Rightarrow> bool" where
  "tracks k A now s \<longleftrightarrow>
     sorted A \<and> (\<forall>a\<in>set A. no_wrap window a \<and> a \<le> now) \<and>
     sorted (recent k s) \<and> (\<forall>a\<in>set (recent k s). no_wrap window a) \<and>
     (\<forall>now'\<ge>now. TrimWindow now' window (recent k s) = TrimWindow now' window A)"

lemma tracks_trimmed:
  assumes "tracks k A now s" and t: "now \<le> t"
    and r': "recent k s' \<in> {recent k s, TrimWindow t window (recent k s)}"
  shows "tracks k A t s'"
proof -
  have r: "sorted (recent k s)" "\<forall>a\<in>set (recent k s). no_wrap window a"
    using assms(1) by (auto simp: tracks_def)
  have "TrimWindow now' window (recent k s') = TrimWindow now' window A" if "t \<le> now'" for now'
    using r' TrimWindow_TrimWindow [OF that r] assms(1) t that by (auto simp: tracks_def)
  moreover have "sorted (recent k s')" "\<forall>a\<in>set (recent k s'). no_wrap window a"
    using r' r set_TrimWindow by (auto simp: sorted_TrimWindow) fastforce
  ultimately show ?thesis using assms(1) t by (auto simp: tracks_def)
qed

lemma tracks_accepted:
  assumes "tracks k A now s" and t: "now \<le> t" "no_wrap window t"
    and r': "recent k s' = TrimWindow t window (recent k s) @ [t]"
  shows "tracks k (A @ [t]) t s'"
proof -
  let ?r = "TrimWindow t window (recent k s)"
  have A: "sorted A" "\<forall>a\<in>set A. no_wrap window a" "\<forall>a\<in>set A. a \<le> t"
    and r: "sorted (recent k s)" "\<forall>a\<in>set (recent k s). no_wrap window a"
    and eq: "\<forall>now'\<ge>now. TrimWindow now' window (recent k s) = TrimWindow now' window A"
    using assms by (auto simp: tracks_def)
  have "set ?r \<subseteq> set A" using eq t(1) set_TrimWindow by metis
  then have 1: "sorted (recent k s')" and 2: "\<forall>a\<in>set (recent k s'). no_wrap window a"
    using r' A t(2) sorted_TrimWindow [OF r(1)] by (auto simp: sorted_append)
  have 3: "TrimWindow now' window (recent k s') = TrimWindow now' window (A @ [t])" if "t \<le> now'" for now'
  proof -
    have r2: "sorted ?r" "\<forall>a\<in>set ?r. no_wrap window a"
      using sorted_TrimWindow [OF r(1)] r(2) set_TrimWindow by fastforce+
    have "TrimWindow now' window ?r = TrimWindow now' window A"
      using TrimWindow_TrimWindow [OF that r] eq t(1) that by simp
    then have "filter (\<lambda>a. now' < a + window) ?r = filter (\<lambda>a. now' < a + window) A"
      by (simp add: TrimWindow_filter r2 A)
    moreover have "sorted (A @ [t])" "\<forall>a\<in>set (A @ [t]). no_wrap window a"
      using A t(2) by (auto simp: sorted_append)
    ultimately show ?thesis
      using TrimWindow_filter [OF 1 2] TrimWindow_filter [of "A @ [t]"] r' by simp
  qed
  show ?thesis unfolding tracks_def using A t(2) 1 2 3 by (auto simp: sorted_append)
qed

lemma tracks_attempt:
  assumes "tracks k A now s" and "now \<le> t" "no_wrap window t"
  shows "tracks k (A @ (if k' = k \<and> fst (attempt k' t s) then [t] else [])) t (snd (attempt k' t s))"
proof (cases "k' = k \<and> fst (attempt k' t s)")
  case True
  with recent_same [of k t s] assms show ?thesis by (auto intro: tracks_accepted)
next
  case False
  then have "recent k (snd (attempt k' t s)) \<in> {recent k s, TrimWindow t window (recent k s)}"
    using recent_same [of k t s] recent_other [of k k' t s] by (cases "k' = k") auto
  with False assms show ?thesis by (auto intro: tracks_trimmed)
qed

lemma window_bound:
  assumes "tracks k A now s" and "\<forall>p. length (in_window window p A) \<le> limit"
    and "sorted (now # map snd as)" and "\<forall>a\<in>set as. no_wrap window (snd a)"
  shows "length (in_window window p (A @ accepted k as s)) \<le> limit"
  using assms
proof (induction "as" arbitrary: A now s)
  case Nil
  then show ?case by simp
next
  case (Cons a "as")
  let ?t = "snd a"
  have t: "now \<le> ?t" "no_wrap window ?t" using Cons.prems by auto
  have rest: "sorted (?t # map snd as)" "\<forall>a\<in>set as. no_wrap window (snd a)"
    using Cons.prems by auto
  show ?case
  proof (cases "fst a")
    case None
    have "tracks k A ?t (tick ?t s)"
      using Cons.prems(1) t(1) recent_tick by (rule tracks_trimmed)
    from Cons.IH [OF this Cons.prems(2) rest] None show ?thesis by simp
  next
    case (Some k')
    let ?s' = "snd (attempt k' ?t s)"
    let ?B = "if k' = k \<and> fst (attempt k' ?t s) then [?t] else []"
    have tr: "tracks k (A @ ?B) ?t ?s'" using Cons.prems(1) t by (rule tracks_attempt)
    have "length (in_window window p (A @ ?B)) \<le> limit" for p
    proof (cases "?B = [] \<or> \<not> (unat p \<le> unat ?t \<and> unat ?t < unat p + unat window)")
      case True
      then show ?thesis using Cons.prems(2) by (auto simp: in_window_def)
    next
      case False
      then have acc: "fst (attempt k ?t s)" and w: "unat ?t < unat p + unat window"
        by (auto split: if_splits)
      have "length (in_window window p A) \<le> length (TrimWindow ?t window A)"
        using Cons.prems(1) t(1) w by (intro in_window_recent) (auto simp: tracks_def)
      also have "\<dots> = length (TrimWindow ?t window (recent k s))"
        using Cons.prems(1) t(1) by (simp add: tracks_def)
      also have "\<dots> < limit" using acc by (simp add: accepts_iff)
      finally show ?thesis by (simp add: in_window_def)
    qed
    then have "length (in_window window p ((A @ ?B) @ accepted k as ?s')) \<le> limit"
      using rest by (intro Cons.IH [OF tr]) auto
    then show ?thesis using Some by (simp add: Let_def)
  qed
qed

theorem at_most_limit_per_window:
  assumes "recent k s = []" and "sorted (map snd as)" and "\<forall>a\<in>set as. no_wrap window (snd a)"
  shows "length (in_window window p (accepted k as s)) \<le> limit"
proof -
  have "tracks k [] 0 s" using assms(1) by (simp add: tracks_def)
  moreover have "sorted (0 # map snd as)" using assms(2) by simp
  ultimately have "length (in_window window p ([] @ accepted k as s)) \<le> limit"
    using assms by (intro window_bound) (auto simp: in_window_def)
  then show ?thesis by simp
qed

end

end
