(* ===== verification/In_Memory_Server.thy ===== *)
theory In_Memory_Server
  imports Server_Api Rate_Limit
begin

text \<open>
  The server of \<^verbatim>\<open>src/server/in_memory_server.cpp\<close>. Its state is the record
  \<open>InMemoryServer\<close>; each API call is a function from the state to a result and the new state.
  The mutex makes the calls atomic, so a run of the server is a sequence of calls. The clock
  (\<^verbatim>\<open>NowUnix\<close>) and the bytes of \<^verbatim>\<open>RAND_bytes\<close> (\<open>None\<close> when it fails) are arguments.
\<close>

section \<open>Constants and validation\<close>

definition kMaxUserIdBytes :: nat where "kMaxUserIdBytes = 64"
definition kMaxTransportAuthPublicKeyBytes :: nat where "kMaxTransportAuthPublicKeyBytes = 8192"
definition kExpectedAuthNonceBytes :: nat where "kExpectedAuthNonceBytes = 32"
definition kExpectedSessionTokenBytes :: nat where "kExpectedSessionTokenBytes = 32"
definition kMinMlDsaSignatureBytes :: nat where "kMinMlDsaSignatureBytes = 64"
definition kMaxMlDsaSignatureBytes :: nat where "kMaxMlDsaSignatureBytes = 8192"
definition kChallengeIdHexBytes :: nat where "kChallengeIdHexBytes = 32"
definition kMaxDrainInboxBatchItems :: nat where "kMaxDrainInboxBatchItems = 128"
definition kMaxDrainInboxBatchBytes :: nat where "kMaxDrainInboxBatchBytes = 512 * 1024"
definition kAuthRateWindowSeconds :: u64 where "kAuthRateWindowSeconds = 60"
definition kMaxAuthBeginAttemptsPerWindow :: nat where "kMaxAuthBeginAttemptsPerWindow = 30"
definition kMaxAuthFinishAttemptsPerWindow :: nat where "kMaxAuthFinishAttemptsPerWindow = 30"

definition user_id_char :: "char \<Rightarrow> bool" where
  "user_id_char ch \<longleftrightarrow>
     (let c = (of_char ch :: nat)
      in (97 \<le> c \<and> c \<le> 122) \<or> (48 \<le> c \<and> c \<le> 57) \<or> c = 45 \<or> c = 95 \<or> c = 46)"

definition IsValidUserId :: "string \<Rightarrow> bool" where
  "IsValidUserId user_id \<longleftrightarrow>
     (if user_id = [] \<or> length user_id > kMaxUserIdBytes then False
      else list_all user_id_char user_id)"

text \<open>A \<^verbatim>\<open>char\<close> above 127 is negative or large; either way no range below contains it.\<close>

definition HexValue :: "char \<Rightarrow> int" where
  "HexValue ch =
     (let c = (of_char ch :: int)
      in if 48 \<le> c \<and> c \<le> 57 then c - 48
         else if 97 \<le> c \<and> c \<le> 102 then 10 + (c - 97)
         else if 65 \<le> c \<and> c \<le> 70 then 10 + (c - 65)
         else -1)"

definition IsValidHexString :: "string \<Rightarrow> bool" where
  "IsValidHexString s \<longleftrightarrow> list_all (\<lambda>c. \<not> HexValue c < 0) s"

definition IsValidChallengeId :: "string \<Rightarrow> bool" where
  "IsValidChallengeId challenge_id \<longleftrightarrow>
     length challenge_id = kChallengeIdHexBytes \<and> IsValidHexString challenge_id"

fun decode_hex_pairs :: "string \<Rightarrow> bytes result" where
  "decode_hex_pairs (h # l # rest) =
     (let hi = HexValue h; lo = HexValue l
      in if hi < 0 \<or> lo < 0 then Err ''invalid hex character''
         else rbind (decode_hex_pairs rest) (\<lambda>out. Ok (word_of_int (push_bit 4 hi OR lo) # out)))"
| "decode_hex_pairs _ = Ok []"

definition DecodeHex :: "string \<Rightarrow> bytes result" where
  "DecodeHex hex =
     (if length hex mod 2 \<noteq> 0 then Err ''invalid hex length'' else decode_hex_pairs hex)"

definition VerifyProvisioningToken :: "openssl \<Rightarrow> string \<Rightarrow> string \<Rightarrow> string \<Rightarrow> unit result" where
  "VerifyProvisioningToken ssl provisioning_secret user_id token_hex =
     (case HmacSha256 ssl (ToBytes provisioning_secret) (ToBytes user_id) of
        Err _ \<Rightarrow> Err ''failed to derive registration token''
      | Ok expected_bytes \<Rightarrow>
          if length token_hex \<noteq> length expected_bytes * 2 then Err ''invalid registration token''
          else case DecodeHex token_hex of
            Err _ \<Rightarrow> Err ''invalid registration token''
          | Ok provided_bytes \<Rightarrow>
              if length expected_bytes \<noteq> length provided_bytes then Err ''invalid registration token''
              else if expected_bytes \<noteq> provided_bytes then Err ''invalid registration token''
              else Ok ())"

section \<open>State\<close>

record BundleStore =
  base_bundle :: PrekeyBundle
  one_time_ec_pool :: "OneTimePrekeyEc list"
  one_time_pq_pool :: "OneTimePrekeyPq list"

record ChallengeState =
  ch_user_id :: string
  ch_client_nonce :: bytes
  ch_server_nonce :: bytes
  ch_expires_at_unix :: u64
  ch_used :: bool

record AuthSessionState =
  ss_user_id :: string
  ss_expires_at_unix :: u64

record InboxEntry =
  en_inbox_id :: u64
  en_envelope :: Envelope

record InMemoryServer =
  bundles :: "string \<rightharpoonup> BundleStore"
  inbox :: "string \<rightharpoonup> InboxEntry list"
  next_inbox_id_by_user :: "string \<rightharpoonup> u64"
  transport_identities :: "string \<rightharpoonup> bytes"
  challenges :: "string \<rightharpoonup> ChallengeState"
  sessions :: "string \<rightharpoonup> AuthSessionState"
  auth_begin_attempts :: buckets
  auth_finish_attempts :: buckets
  required_registration_token :: string

definition InMemoryServer_init :: "string \<Rightarrow> InMemoryServer" where
  "InMemoryServer_init token =
     \<lparr>bundles = Map.empty, inbox = Map.empty, next_inbox_id_by_user = Map.empty,
      transport_identities = Map.empty, challenges = Map.empty, sessions = Map.empty,
      auth_begin_attempts = Map.empty, auth_finish_attempts = Map.empty,
      required_registration_token = token\<rparr>"

type_synonym 'a server_call = "'a result \<times> InMemoryServer"

section \<open>Randomness and cleanup\<close>

text \<open>\<^verbatim>\<open>out\<close> has \<open>n\<close> zero bytes, which \<^verbatim>\<open>RAND_bytes\<close> overwrites.\<close>

definition RandomBytes :: "nat \<Rightarrow> bytes option \<Rightarrow> bytes" where
  "RandomBytes n rnd = (case rnd of None \<Rightarrow> [] | Some bs \<Rightarrow> take n (bs @ replicate n 0))"

definition hex_digit :: "nat \<Rightarrow> char" where
  "hex_digit n = ''0123456789abcdef'' ! n"

text \<open>\<^verbatim>\<open>std::hex << std::setfill('0') << std::setw(2)\<close> for each byte.\<close>

definition hex_string :: "bytes \<Rightarrow> string" where
  "hex_string bs = concat (map (\<lambda>b. [hex_digit (unat b div 16), hex_digit (unat b mod 16)]) bs)"

definition RandomHex :: "nat \<Rightarrow> bytes option \<Rightarrow> string" where
  "RandomHex n rnd = (let data = RandomBytes n rnd in if data = [] then [] else hex_string data)"

definition CleanupAuthState :: "u64 \<Rightarrow> InMemoryServer \<Rightarrow> InMemoryServer" where
  "CleanupAuthState now st =
     st\<lparr>challenges := erase_if (\<lambda>c. ch_used c \<or> ch_expires_at_unix c < now) (challenges st),
        sessions := erase_if (\<lambda>s. ss_expires_at_unix s < now) (sessions st),
        auth_begin_attempts := trim_buckets now kAuthRateWindowSeconds (auth_begin_attempts st),
        auth_finish_attempts := trim_buckets now kAuthRateWindowSeconds (auth_finish_attempts st)\<rparr>"

section \<open>Transport identities and sessions\<close>

text \<open>The part of \<^verbatim>\<open>RegisterTransportIdentity\<close> for a user with another key: rotation signed by
  the old key, or recovery with the registration token; it ends the user's sessions.\<close>

definition rotate_identity ::
    "openssl \<Rightarrow> InMemoryServer \<Rightarrow> RegisterRequest \<Rightarrow> bytes \<Rightarrow> unit server_call" where
  "rotate_identity ssl st request existing =
     (let rotated =
            (case rr_rotation_signature_mldsa65 request of
               None \<Rightarrow> False
             | Some sig \<Rightarrow>
                 ok (MlDsa65_Verify ssl existing
                   (BuildTransportRegisterRotateSignInput (rr_user_id request) existing
                     (rr_transport_auth_public_key request)) sig));
          recovered =
            (if \<not> rotated \<and> required_registration_token st \<noteq> []
             then ok (VerifyProvisioningToken ssl (required_registration_token st)
                    (rr_user_id request) (rr_registration_token request))
             else False)
      in if \<not> rotated \<and> \<not> recovered
         then (Err ''transport identity already registered with different key (rotation/recovery required)'', st)
         else (Ok (),
           st\<lparr>transport_identities :=
                (transport_identities st)(rr_user_id request \<mapsto> rr_transport_auth_public_key request),
              sessions := erase_if (\<lambda>s. ss_user_id s = rr_user_id request) (sessions st)\<rparr>))"

definition RegisterTransportIdentity ::
    "openssl \<Rightarrow> InMemoryServer \<Rightarrow> RegisterRequest \<Rightarrow> unit server_call" where
  "RegisterTransportIdentity ssl st request =
     (if \<not> IsValidUserId (rr_user_id request)
      then (Err ''invalid user_id (allowed: lowercase a-z, 0-9, '-', '_', '.', max 64)'', st)
      else if rr_transport_auth_public_key request = [] \<or>
              length (rr_transport_auth_public_key request) > kMaxTransportAuthPublicKeyBytes
      then (Err ''invalid transport auth public key size'', st)
      else if length (rr_proof_signature_mldsa65 request) < kMinMlDsaSignatureBytes \<or>
              length (rr_proof_signature_mldsa65 request) > kMaxMlDsaSignatureBytes
      then (Err ''invalid registration proof signature size'', st)
      else if (case rr_rotation_signature_mldsa65 request of
                 None \<Rightarrow> False
               | Some sig \<Rightarrow> length sig < kMinMlDsaSignatureBytes \<or> length sig > kMaxMlDsaSignatureBytes)
      then (Err ''invalid rotation signature size'', st)
      else if \<not> ok (MlDsa65_Verify ssl (rr_transport_auth_public_key request)
                (BuildTransportRegisterSignInput (rr_user_id request)
                  (rr_transport_auth_public_key request))
                (rr_proof_signature_mldsa65 request))
      then (Err ''transport identity registration proof invalid'', st)
      else case transport_identities st (rr_user_id request) of
        None \<Rightarrow>
          (let token_verify =
             (if required_registration_token st \<noteq> []
              then VerifyProvisioningToken ssl (required_registration_token st)
                (rr_user_id request) (rr_registration_token request)
              else Ok ())
           in if \<not> ok token_verify then (token_verify, st)
              else (Ok (), st\<lparr>transport_identities :=
                (transport_identities st)(rr_user_id request \<mapsto> rr_transport_auth_public_key request)\<rparr>))
      | Some existing \<Rightarrow>
          if existing \<noteq> rr_transport_auth_public_key request
          then rotate_identity ssl st request existing
          else (Ok (), st))"

definition BeginTransportAuthentication ::
    "InMemoryServer \<Rightarrow> u64 \<Rightarrow> bytes option \<Rightarrow> bytes option \<Rightarrow> AuthBeginRequest \<Rightarrow>
     AuthBeginResponse server_call" where
  "BeginTransportAuthentication st now rnd_id rnd_nonce request =
     (let st = CleanupAuthState now st
      in if \<not> IsValidUserId (abq_user_id request) then (Err ''invalid user_id'', st)
         else if length (abq_client_nonce request) \<noteq> kExpectedAuthNonceBytes
         then (Err ''invalid client nonce size'', st)
         else let (limit, attempts) = EnforceRateLimit (auth_begin_attempts st) (abq_user_id request)
                    now kMaxAuthBeginAttemptsPerWindow kAuthRateWindowSeconds
                    ''auth begin rate limit exceeded'';
                  st = st\<lparr>auth_begin_attempts := attempts\<rparr>
         in if \<not> ok limit then (Err (error limit), st)
            else if transport_identities st (abq_user_id request) = None
            then (Err ''authentication failed'', st)
            else let challenge_id = RandomHex 16 rnd_id;
                     server_nonce = RandomBytes 32 rnd_nonce;
                     expires_at = now + 60
            in if challenge_id = [] \<or> server_nonce = [] then (Err ''RNG failed'', st)
               else (Ok \<lparr>abr_challenge_id = challenge_id, abr_server_nonce = server_nonce,
                         abr_expires_at_unix = expires_at\<rparr>,
                     st\<lparr>challenges := (challenges st)(challenge_id \<mapsto>
                       \<lparr>ch_user_id = abq_user_id request, ch_client_nonce = abq_client_nonce request,
                        ch_server_nonce = server_nonce, ch_expires_at_unix = expires_at,
                        ch_used = False\<rparr>)\<rparr>))"

text \<open>The part of \<^verbatim>\<open>FinishTransportAuthentication\<close> after the challenge is marked used.\<close>

definition issue_session ::
    "openssl \<Rightarrow> InMemoryServer \<Rightarrow> u64 \<Rightarrow> bytes option \<Rightarrow> AuthFinishRequest \<Rightarrow>
     AuthFinishResponse server_call" where
  "issue_session ssl st now rnd_token request =
     (case transport_identities st (afq_user_id request) of
        None \<Rightarrow> (Err ''authentication failed'', st)
      | Some identity \<Rightarrow>
          if \<not> ok (MlDsa65_Verify ssl identity
               (BuildTransportAuthSignInput (afq_user_id request) (afq_client_nonce request)
                 (afq_server_nonce request) (afq_challenge_id request) (afq_expires_at_unix request))
               (afq_signature_mldsa65 request))
          then (Err ''auth signature invalid'', st)
          else let session_token = RandomBytes 32 rnd_token;
                   expires_at = now + 900
          in if session_token = [] then (Err ''RNG failed'', st)
             else (Ok \<lparr>afr_session_token = session_token, afr_expires_at_unix = expires_at\<rparr>,
                   st\<lparr>sessions := (sessions st)(hex_string session_token \<mapsto>
                     \<lparr>ss_user_id = afq_user_id request, ss_expires_at_unix = expires_at\<rparr>)\<rparr>))"

definition FinishTransportAuthentication ::
    "openssl \<Rightarrow> InMemoryServer \<Rightarrow> u64 \<Rightarrow> bytes option \<Rightarrow> AuthFinishRequest \<Rightarrow>
     AuthFinishResponse server_call" where
  "FinishTransportAuthentication ssl st now rnd_token request =
     (let st = CleanupAuthState now st
      in if \<not> IsValidUserId (afq_user_id request) then (Err ''invalid user_id'', st)
         else if \<not> IsValidChallengeId (afq_challenge_id request)
         then (Err ''invalid challenge id'', st)
         else if length (afq_client_nonce request) \<noteq> kExpectedAuthNonceBytes \<or>
                 length (afq_server_nonce request) \<noteq> kExpectedAuthNonceBytes
         then (Err ''invalid auth nonce size'', st)
         else if length (afq_signature_mldsa65 request) < kMinMlDsaSignatureBytes \<or>
                 length (afq_signature_mldsa65 request) > kMaxMlDsaSignatureBytes
         then (Err ''invalid auth signature size'', st)
         else let (limit, attempts) = EnforceRateLimit (auth_finish_attempts st) (afq_user_id request)
                    now kMaxAuthFinishAttemptsPerWindow kAuthRateWindowSeconds
                    ''auth finish rate limit exceeded'';
                  st = st\<lparr>auth_finish_attempts := attempts\<rparr>
         in if \<not> ok limit then (Err (error limit), st)
            else case challenges st (afq_challenge_id request) of
              None \<Rightarrow> (Err ''unknown challenge'', st)
            | Some challenge \<Rightarrow>
                if ch_used challenge then (Err ''challenge already used'', st)
                else if ch_user_id challenge \<noteq> afq_user_id request \<or>
                        ch_client_nonce challenge \<noteq> afq_client_nonce request \<or>
                        ch_server_nonce challenge \<noteq> afq_server_nonce request \<or>
                        ch_expires_at_unix challenge \<noteq> afq_expires_at_unix request
                then (Err ''challenge mismatch'', st)
                else if now > ch_expires_at_unix challenge then (Err ''challenge expired'', st)
                else issue_session ssl
                  (st\<lparr>challenges := (challenges st)(afq_challenge_id request \<mapsto> challenge\<lparr>ch_used := True\<rparr>)\<rparr>)
                  now rnd_token request)"

definition AuthenticateSessionToken ::
    "InMemoryServer \<Rightarrow> u64 \<Rightarrow> bytes \<Rightarrow> string server_call" where
  "AuthenticateSessionToken st now session_token =
     (let st = CleanupAuthState now st
      in if length session_token \<noteq> kExpectedSessionTokenBytes
         then (Err ''invalid session token size'', st)
         else case sessions st (hex_string session_token) of
           None \<Rightarrow> (Err ''invalid session'', st)
         | Some s \<Rightarrow>
             if now > ss_expires_at_unix s then (Err ''session expired'', st)
             else (Ok (ss_user_id s), st))"

definition RevokeSessionToken :: "InMemoryServer \<Rightarrow> bytes \<Rightarrow> unit server_call" where
  "RevokeSessionToken st session_token =
     (if length session_token \<noteq> kExpectedSessionTokenBytes
      then (Err ''invalid session token size'', st)
      else case sessions st (hex_string session_token) of
        None \<Rightarrow> (Err ''invalid session'', st)
      | Some _ \<Rightarrow>
          (Ok (), st\<lparr>sessions := (sessions st)(hex_string session_token := None)\<rparr>))"

section \<open>Prekey bundles\<close>

definition PublishBundle :: "openssl \<Rightarrow> InMemoryServer \<Rightarrow> PrekeyBundle \<Rightarrow> unit server_call" where
  "PublishBundle ssl st bundle =
     (if pb_version bundle \<noteq> kProtocolVersion then (Err ''unsupported bundle version'', st)
      else if pb_cipher_suite bundle \<noteq> kCipherSuite
      then (Err ''unsupported bundle cipher suite'', st)
      else case VerifyPrekeyBundleSignatures ssl bundle of
        Err e \<Rightarrow> (Err (''invalid prekey bundle signatures: '' @ e), st)
      | Ok _ \<Rightarrow>
          (Ok (), st\<lparr>bundles := (bundles st)(pb_user_id bundle \<mapsto>
             \<lparr>base_bundle = bundle, one_time_ec_pool = pb_one_time_ec bundle,
              one_time_pq_pool = pb_one_time_pq bundle\<rparr>)\<rparr>))"

definition AcquireBundleForSession ::
    "InMemoryServer \<Rightarrow> string \<Rightarrow> PrekeyBundle server_call" where
  "AcquireBundleForSession st user_id =
     (case bundles st user_id of
        None \<Rightarrow> (Err ''no prekey bundle for user'', st)
      | Some store \<Rightarrow>
          (let out = (base_bundle store)\<lparr>pb_one_time_ec := [], pb_one_time_pq := []\<rparr>
           in case (one_time_ec_pool store, one_time_pq_pool store) of
                (ec # ecs, pq # pqs) \<Rightarrow>
                  (Ok (out\<lparr>pb_one_time_ec := [ec], pb_one_time_pq := [pq]\<rparr>),
                   st\<lparr>bundles := (bundles st)(user_id \<mapsto>
                     store\<lparr>one_time_ec_pool := ecs, one_time_pq_pool := pqs\<rparr>)\<rparr>)
              | _ \<Rightarrow> (Ok out, st)))"

section \<open>Inboxes\<close>

definition EnqueueEnvelope :: "InMemoryServer \<Rightarrow> string \<Rightarrow> Envelope \<Rightarrow> unit server_call" where
  "EnqueueEnvelope st user_id envelope =
     (let next_id = (case next_inbox_id_by_user st user_id of None \<Rightarrow> 0 | Some i \<Rightarrow> i) + 1;
          entries = (case inbox st user_id of None \<Rightarrow> [] | Some es \<Rightarrow> es)
      in (Ok (), st\<lparr>next_inbox_id_by_user := (next_inbox_id_by_user st)(user_id \<mapsto> next_id),
            inbox := (inbox st)(user_id \<mapsto>
              entries @ [\<lparr>en_inbox_id = next_id, en_envelope = envelope\<rparr>])\<rparr>))"

fun drain_loop :: "InboxEntry list \<Rightarrow> InboxEnvelope list \<Rightarrow> nat \<Rightarrow> InboxEnvelope list result" where
  "drain_loop [] out total_payload_bytes = Ok out"
| "drain_loop (entry # entries) out total_payload_bytes =
     rbind (SerializeEnvelope (en_envelope entry)) (\<lambda>encoded.
     let estimated_size = length encoded + 8 + 8
     in if out \<noteq> [] \<and>
           (length out \<ge> kMaxDrainInboxBatchItems \<or>
            total_payload_bytes + estimated_size > kMaxDrainInboxBatchBytes)
        then Ok out
        else drain_loop entries
          (out @ [\<lparr>ie_inbox_id = en_inbox_id entry, ie_envelope = en_envelope entry\<rparr>])
          (total_payload_bytes + estimated_size))"

definition DrainInbox ::
    "InMemoryServer \<Rightarrow> string \<Rightarrow> u64 option \<Rightarrow> InboxEnvelope list server_call" where
  "DrainInbox st user_id ack_up_to_inbox_id =
     (case inbox st user_id of
        None \<Rightarrow> (Ok [], st)
      | Some entries \<Rightarrow>
          (let entries =
             (case ack_up_to_inbox_id of
                None \<Rightarrow> entries
              | Some ack \<Rightarrow> dropWhile (\<lambda>e. en_inbox_id e \<le> ack) entries)
           in (drain_loop entries [] 0, st\<lparr>inbox := (inbox st)(user_id \<mapsto> entries)\<rparr>)))"

text \<open>The server as an implementation of the interface.\<close>

definition in_memory_api :: "openssl \<Rightarrow> InMemoryServer IServerApi" where
  "in_memory_api ssl =
     \<lparr>api_RegisterTransportIdentity = (\<lambda>env. RegisterTransportIdentity ssl),
      api_BeginTransportAuthentication = (\<lambda>env st.
        BeginTransportAuthentication st (env_now env) (env_rnd1 env) (env_rnd2 env)),
      api_FinishTransportAuthentication = (\<lambda>env st.
        FinishTransportAuthentication ssl st (env_now env) (env_rnd1 env)),
      api_AuthenticateSessionToken = (\<lambda>env st. AuthenticateSessionToken st (env_now env)),
      api_RevokeSessionToken = (\<lambda>env. RevokeSessionToken),
      api_PublishBundle = (\<lambda>env. PublishBundle ssl),
      api_AcquireBundleForSession = (\<lambda>env. AcquireBundleForSession),
      api_EnqueueEnvelope = (\<lambda>env. EnqueueEnvelope),
      api_DrainInbox = (\<lambda>env. DrainInbox)\<rparr>"

section \<open>Hexadecimal text\<close>

lemma less_16_cases:
  "n < (16 :: nat) \<Longrightarrow> n \<in> {0, 1, 2, 3, 4, 5, 6, 7, 8, 9, 10, 11, 12, 13, 14, 15}"
  unfolding insert_iff empty_iff by presburger

lemma HexValue_hex_digit: "n < 16 \<Longrightarrow> HexValue (hex_digit n) = int n"
  by (drule less_16_cases) (auto simp: hex_digit_def HexValue_def)

lemma hex_pair_value:
  assumes "0 \<le> lo" "lo < 16" shows "push_bit 4 hi OR lo = 16 * hi + (lo :: int)"
proof -
  have "take_bit 4 lo = lo" using assms by (simp add: take_bit_int_eq_self)
  moreover have "take_bit 4 lo OR push_bit 4 hi = take_bit 4 lo + push_bit 4 hi"
    using concat_bit_def [of 4 lo hi] concat_bit_eq [of 4 lo hi] by simp
  ultimately show ?thesis by (simp add: push_bit_eq_mult or.commute)
qed

lemma u8_less_256: "unat (b :: u8) < 256"
  using unsigned_less [of b] by simp

lemma decode_hex_pair:
  "word_of_int (push_bit 4 (int (unat (b :: u8) div 16)) OR int (unat b mod 16)) = b"
proof -
  have "push_bit 4 (int (unat b div 16)) OR int (unat b mod 16) =
      16 * int (unat b div 16) + int (unat b mod 16)"
    by (rule hex_pair_value) simp_all
  also have "\<dots> = int (16 * (unat b div 16) + unat b mod 16)"
    by (simp only: of_nat_add of_nat_mult of_nat_numeral)
  also have "\<dots> = int (unat b)" by (simp only: mult_div_mod_eq)
  finally show ?thesis by simp
qed

lemma hex_string_simps [simp]:
  "hex_string [] = []"
  "hex_string (b # bs) = hex_digit (unat b div 16) # hex_digit (unat b mod 16) # hex_string bs"
  by (simp_all add: hex_string_def)

lemma length_hex_string [simp]: "length (hex_string bs) = 2 * length bs"
  by (induction bs) simp_all

lemma decode_hex_pairs_hex_string: "decode_hex_pairs (hex_string bs) = Ok bs"
proof (induction bs)
  case (Cons b bs)
  have "unat b div 16 < 16" using u8_less_256 [of b] by simp
  with Cons show ?case by (simp add: HexValue_hex_digit decode_hex_pair)
qed simp

lemma DecodeHex_hex_string: "DecodeHex (hex_string bs) = Ok bs"
  by (simp add: DecodeHex_def decode_hex_pairs_hex_string)

lemma hex_string_inject [simp]: "hex_string a = hex_string b \<longleftrightarrow> a = b"
  by (metis DecodeHex_hex_string result.inject(1))

lemma IsValidHexString_hex_string: "IsValidHexString (hex_string bs)"
proof (induction bs)
  case (Cons b bs)
  have "unat b div 16 < 16" using u8_less_256 [of b] by simp
  with Cons show ?case by (simp add: IsValidHexString_def HexValue_hex_digit)
qed (simp add: IsValidHexString_def)

lemma length_decode_hex_pairs:
  "decode_hex_pairs s = Ok bs \<Longrightarrow> even (length s) \<Longrightarrow> length s = 2 * length bs"
  by (induction s arbitrary: bs rule: decode_hex_pairs.induct)
    (auto simp: Let_def result_inv split: if_splits)

lemma length_DecodeHex: "DecodeHex s = Ok bs \<Longrightarrow> length s = 2 * length bs"
  by (auto simp: DecodeHex_def even_iff_mod_2_eq_zero split: if_splits intro!: length_decode_hex_pairs)

lemma length_RandomBytes: "length (RandomBytes n (Some bs)) = n"
  by (simp add: RandomBytes_def)

lemma RandomBytes_empty_iff: "RandomBytes n rnd = [] \<longleftrightarrow> rnd = None \<or> n = 0"
  by (auto simp: RandomBytes_def split: option.splits)

text \<open>Every challenge id the server issues passes its own check.\<close>

lemma RandomHex_valid: "IsValidChallengeId (RandomHex 16 (Some bs))"
  by (simp add: RandomHex_def IsValidChallengeId_def IsValidHexString_hex_string Let_def
      length_RandomBytes kChallengeIdHexBytes_def RandomBytes_empty_iff)

section \<open>Results that are never empty errors\<close>

lemma call_error_in: "texts \<noteq> [] \<Longrightarrow> call_error texts i \<in> set texts"
  by (simp add: call_error_def)

lemma ok_run_calls:
  assumes "texts \<noteq> []" and "[] \<notin> set texts"
  shows "ok (run_calls texts r) \<longleftrightarrow> (\<exists>v. r = Inr v)"
proof (cases r)
  case (Inl i)
  have "call_error texts i \<noteq> []" using call_error_in [OF assms(1)] assms(2) by metis
  then show ?thesis by (simp add: run_calls_def Inl)
qed simp

lemma ok_MlDsa65_Verify: "ok (MlDsa65_Verify ssl k m s) \<longleftrightarrow> MlDsa65_Verify ssl k m s = Ok ()"
  unfolding MlDsa65_Verify_def by (subst ok_run_calls) (simp_all add: result_inv)

lemma ok_EnforceRateLimit:
  "e \<noteq> [] \<Longrightarrow> ok (fst (EnforceRateLimit b u now m w e)) \<longleftrightarrow>
   length (TrimWindow now w (bucket_of u b)) < m"
  by (simp add: EnforceRateLimit_def Let_def)

lemma VerifyProvisioningToken_iff:
  "VerifyProvisioningToken ssl secret user token = Ok () \<longleftrightarrow>
     (\<exists>h. HmacSha256 ssl (ToBytes secret) (ToBytes user) = Ok h \<and> DecodeHex token = Ok h)"
  unfolding VerifyProvisioningToken_def
  by (auto split: result.splits dest: length_DecodeHex)

lemma ok_VerifyProvisioningToken:
  "ok (VerifyProvisioningToken ssl s u t) \<longleftrightarrow> VerifyProvisioningToken ssl s u t = Ok ()"
  unfolding VerifyProvisioningToken_def by (simp split: result.splits)

section \<open>Registration\<close>

text \<open>What entitles a request to set the key of a user whose present key is \<open>old\<close>.\<close>

definition may_set_identity ::
    "openssl \<Rightarrow> string \<Rightarrow> RegisterRequest \<Rightarrow> bytes option \<Rightarrow> bool" where
  "may_set_identity ssl secret r old \<longleftrightarrow>
     MlDsa65_Verify ssl (rr_transport_auth_public_key r)
       (BuildTransportRegisterSignInput (rr_user_id r) (rr_transport_auth_public_key r))
       (rr_proof_signature_mldsa65 r) = Ok () \<and>
     (let token = (VerifyProvisioningToken ssl secret (rr_user_id r) (rr_registration_token r) = Ok ())
      in case old of
           None \<Rightarrow> secret = [] \<or> token
         | Some k \<Rightarrow>
             (\<exists>sig. rr_rotation_signature_mldsa65 r = Some sig \<and>
                MlDsa65_Verify ssl k (BuildTransportRegisterRotateSignInput (rr_user_id r) k
                  (rr_transport_auth_public_key r)) sig = Ok ()) \<or>
             (secret \<noteq> [] \<and> token))"

lemmas register_defs = RegisterTransportIdentity_def rotate_identity_def Let_def

lemma register_frame:
  assumes "RegisterTransportIdentity ssl st r = (res, st')"
  shows "bundles st' = bundles st" "inbox st' = inbox st"
    "next_inbox_id_by_user st' = next_inbox_id_by_user st" "challenges st' = challenges st"
    "required_registration_token st' = required_registration_token st"
    "auth_begin_attempts st' = auth_begin_attempts st"
    "auth_finish_attempts st' = auth_finish_attempts st"
    "sessions st' k = Some s \<Longrightarrow> sessions st k = Some s"
  using assms by (auto simp: register_defs split: if_splits option.splits)

theorem register_identity_change:
  assumes "RegisterTransportIdentity ssl st r = (res, st')"
    and "transport_identities st' u \<noteq> transport_identities st u"
  shows "u = rr_user_id r \<and> IsValidUserId u \<and> res = Ok () \<and>
    transport_identities st' u = Some (rr_transport_auth_public_key r) \<and>
    may_set_identity ssl (required_registration_token st) r (transport_identities st u) \<and>
    (transport_identities st u \<noteq> None \<longrightarrow> (\<forall>k s. sessions st' k = Some s \<longrightarrow> ss_user_id s \<noteq> u))"
  using assms
  by (auto simp: register_defs may_set_identity_def ok_MlDsa65_Verify ok_VerifyProvisioningToken
      split: if_splits option.splits)

section \<open>Authentication\<close>

lemma CleanupAuthState_simps [simp]:
  "bundles (CleanupAuthState now st) = bundles st"
  "inbox (CleanupAuthState now st) = inbox st"
  "next_inbox_id_by_user (CleanupAuthState now st) = next_inbox_id_by_user st"
  "transport_identities (CleanupAuthState now st) = transport_identities st"
  "required_registration_token (CleanupAuthState now st) = required_registration_token st"
  "challenges (CleanupAuthState now st) =
     erase_if (\<lambda>c. ch_used c \<or> ch_expires_at_unix c < now) (challenges st)"
  "sessions (CleanupAuthState now st) = erase_if (\<lambda>s. ss_expires_at_unix s < now) (sessions st)"
  "auth_begin_attempts (CleanupAuthState now st) =
     trim_buckets now kAuthRateWindowSeconds (auth_begin_attempts st)"
  "auth_finish_attempts (CleanupAuthState now st) =
     trim_buckets now kAuthRateWindowSeconds (auth_finish_attempts st)"
  by (simp_all add: CleanupAuthState_def)

text \<open>The proof of identity that a finish request carries for the challenge \<open>c\<close>.\<close>

definition answers_challenge :: "openssl \<Rightarrow> ChallengeState \<Rightarrow> bytes \<Rightarrow> AuthFinishRequest \<Rightarrow> bool" where
  "answers_challenge ssl c key q \<longleftrightarrow>
     ch_user_id c = afq_user_id q \<and> ch_client_nonce c = afq_client_nonce q \<and>
     ch_server_nonce c = afq_server_nonce q \<and> ch_expires_at_unix c = afq_expires_at_unix q \<and>
     MlDsa65_Verify ssl key
       (BuildTransportAuthSignInput (ch_user_id c) (ch_client_nonce c) (ch_server_nonce c)
         (afq_challenge_id q) (ch_expires_at_unix c)) (afq_signature_mldsa65 q) = Ok ()"

lemmas finish_defs = FinishTransportAuthentication_def issue_session_def Let_def case_prod_beta

lemma finish_uses_challenge:
  assumes "FinishTransportAuthentication ssl st now rnd q = (Ok resp, st')"
  shows "\<exists>c. challenges st (afq_challenge_id q) = Some c \<and> \<not> ch_used c \<and>
    challenges st' (afq_challenge_id q) = Some (c\<lparr>ch_used := True\<rparr>)"
  using assms by (auto simp: finish_defs erase_if_def split: if_splits option.splits)

text \<open>
C2. FinishTransportAuthentication hands out a session only if the named challenge exists, is
unused and not expired, was issued to that user with exactly those nonces and expiry, and
the signature over it verifies under the key registered for the user; the challenge is then
used, and the session is the new 32-byte token for that user for 900 seconds.
\<close>

theorem finish_grants_session_only_on_proof:
  assumes "FinishTransportAuthentication ssl st now rnd q = (Ok resp, st')"
  shows "\<exists>c key. challenges st (afq_challenge_id q) = Some c \<and> \<not> ch_used c \<and>
    now \<le> ch_expires_at_unix c \<and>
    transport_identities st (afq_user_id q) = Some key \<and> answers_challenge ssl c key q \<and>
    challenges st' (afq_challenge_id q) = Some (c\<lparr>ch_used := True\<rparr>) \<and>
    length (afr_session_token resp) = kExpectedSessionTokenBytes \<and>
    sessions st' (hex_string (afr_session_token resp)) =
      Some \<lparr>ss_user_id = afq_user_id q, ss_expires_at_unix = now + 900\<rparr>"
  using assms
  by (auto simp: finish_defs answers_challenge_def ok_MlDsa65_Verify RandomBytes_empty_iff
      length_RandomBytes kExpectedSessionTokenBytes_def not_less erase_if_def
      split: if_splits option.splits)

lemma authenticate_iff_session:
  "fst (AuthenticateSessionToken st now token) = Ok u \<longleftrightarrow>
     length token = kExpectedSessionTokenBytes \<and>
     (\<exists>s. sessions st (hex_string token) = Some s \<and> ss_user_id s = u \<and> now \<le> ss_expires_at_unix s)"
  by (auto simp: AuthenticateSessionToken_def Let_def erase_if_def not_less
      split: option.splits if_splits)

theorem rotation_ends_sessions:
  assumes "RegisterTransportIdentity ssl st r = (res, st')"
    and "transport_identities st u = Some old" and "transport_identities st' u \<noteq> Some old"
  shows "fst (AuthenticateSessionToken st' now token) \<noteq> Ok u"
  using assms unfolding authenticate_iff_session
  by (auto simp: register_defs split: if_splits option.splits)

theorem logout_revokes:
  assumes "RevokeSessionToken st token = (Ok (), st')"
  shows "fst (AuthenticateSessionToken st' now token) \<noteq> Ok u \<and>
    (token' \<noteq> token \<longrightarrow>
      fst (AuthenticateSessionToken st' now token') = fst (AuthenticateSessionToken st now token'))"
  using assms
  by (auto simp: RevokeSessionToken_def AuthenticateSessionToken_def Let_def erase_if_def
      split: option.splits if_splits)

section \<open>Runs of the server\<close>

text \<open>Each call holds the mutex, so concurrent clients see some sequence of these steps.\<close>

datatype server_op =
    OpRegister RegisterRequest
  | OpBegin u64 "bytes option" "bytes option" AuthBeginRequest
  | OpFinish u64 "bytes option" AuthFinishRequest
  | OpAuthenticate u64 bytes
  | OpRevoke bytes
  | OpPublish PrekeyBundle
  | OpAcquire string
  | OpEnqueue string Envelope
  | OpDrain string "u64 option"

fun server_step :: "openssl \<Rightarrow> InMemoryServer \<Rightarrow> server_op \<Rightarrow> InMemoryServer" where
  "server_step ssl st (OpRegister r) = snd (RegisterTransportIdentity ssl st r)"
| "server_step ssl st (OpBegin now ri rn q) = snd (BeginTransportAuthentication st now ri rn q)"
| "server_step ssl st (OpFinish now rt q) = snd (FinishTransportAuthentication ssl st now rt q)"
| "server_step ssl st (OpAuthenticate now t) = snd (AuthenticateSessionToken st now t)"
| "server_step ssl st (OpRevoke t) = snd (RevokeSessionToken st t)"
| "server_step ssl st (OpPublish b) = snd (PublishBundle ssl st b)"
| "server_step ssl st (OpAcquire u) = snd (AcquireBundleForSession st u)"
| "server_step ssl st (OpEnqueue u e) = snd (EnqueueEnvelope st u e)"
| "server_step ssl st (OpDrain u a) = snd (DrainInbox st u a)"

definition server_run :: "openssl \<Rightarrow> InMemoryServer \<Rightarrow> server_op list \<Rightarrow> InMemoryServer" where
  "server_run ssl st ops = foldl (server_step ssl) st ops"

lemma server_run_simps [simp]:
  "server_run ssl st [] = st"
  "server_run ssl st (op # ops) = server_run ssl (server_step ssl st op) ops"
  "server_run ssl st (ops @ [op]) = server_step ssl (server_run ssl st ops) op"
  by (simp_all add: server_run_def)

lemma server_run_invariant:
  assumes "P st" and "\<And>st op. op \<in> set ops \<Longrightarrow> P st \<Longrightarrow> P (server_step ssl st op)"
  shows "P (server_run ssl st ops)"
  using assms by (induction ops arbitrary: st) auto

text \<open>What each call leaves alone, by the part of the state.\<close>

lemmas begin_defs = BeginTransportAuthentication_def Let_def case_prod_beta

lemmas other_defs = AuthenticateSessionToken_def RevokeSessionToken_def PublishBundle_def
  AcquireBundleForSession_def EnqueueEnvelope_def DrainInbox_def Let_def case_prod_beta

lemma step_identities:
  "\<nexists>r. op = OpRegister r \<Longrightarrow>
   transport_identities (server_step ssl st op) = transport_identities st"
  by (cases op) (auto simp: begin_defs finish_defs other_defs
      split: option.splits result.splits list.splits)

lemma step_token:
  "required_registration_token (server_step ssl st op) = required_registration_token st"
  by (cases op) (auto simp: begin_defs finish_defs other_defs register_defs
      split: option.splits result.splits list.splits)

section \<open>A challenge is good for one session\<close>

definition spent :: "string \<Rightarrow> InMemoryServer \<Rightarrow> bool" where
  "spent c st \<longleftrightarrow> (case challenges st c of None \<Rightarrow> True | Some ch \<Rightarrow> ch_used ch)"

lemma spent_cleanup: "spent c st \<Longrightarrow> spent c (CleanupAuthState now st)"
  by (auto simp: spent_def erase_if_def split: option.splits)

text \<open>The operations that do not draw \<open>c\<close> as a new challenge id.\<close>

fun not_issuing :: "string \<Rightarrow> server_op \<Rightarrow> bool" where
  "not_issuing c (OpBegin now ri rn q) \<longleftrightarrow> RandomHex 16 ri \<noteq> c"
| "not_issuing c _ \<longleftrightarrow> True"

lemma step_spent:
  assumes "spent c st" and "not_issuing c op" shows "spent c (server_step ssl st op)"
proof (cases op)
  case (OpBegin now ri rn q)
  with assms show ?thesis
    by (auto simp: begin_defs spent_def erase_if_def split: option.splits)
next
  case (OpFinish now rt q)
  with assms show ?thesis
    by (auto simp: finish_defs spent_def erase_if_def split: option.splits)
next
  case (OpRegister r)
  with assms show ?thesis
    using register_frame(4) [of ssl st r] by (auto simp: spent_def prod_eq_iff)
next
  case (OpAuthenticate now t)
  with assms show ?thesis
    by (auto simp: other_defs spent_def erase_if_def split: option.splits)
qed (use assms in \<open>auto simp: other_defs spent_def split: option.splits result.splits list.splits\<close>)

lemma finish_spent_fails:
  assumes "spent (afq_challenge_id q) st"
  shows "fst (FinishTransportAuthentication ssl st now rnd q) \<noteq> Ok resp"
proof
  assume "fst (FinishTransportAuthentication ssl st now rnd q) = Ok resp"
  then obtain st' where "FinishTransportAuthentication ssl st now rnd q = (Ok resp, st')"
    by (cases "FinishTransportAuthentication ssl st now rnd q") auto
  from finish_uses_challenge [OF this] assms show False by (auto simp: spent_def)
qed

text \<open>
C9. A challenge that has produced a session never produces another one, whatever calls the
server serves in between, as long as none of them draws the same challenge id again.
\<close>

theorem challenge_single_use:
  assumes "FinishTransportAuthentication ssl st now rnd q = (Ok resp, st')"
    and "\<forall>op\<in>set ops. not_issuing (afq_challenge_id q) op"
    and "afq_challenge_id q' = afq_challenge_id q"
  shows "fst (FinishTransportAuthentication ssl (server_run ssl st' ops) now' rnd' q') \<noteq> Ok resp'"
proof -
  have "spent (afq_challenge_id q) st'"
    using finish_uses_challenge [OF assms(1)] by (auto simp: spent_def)
  then have "spent (afq_challenge_id q) (server_run ssl st' ops)"
    by (rule server_run_invariant) (use assms(2) step_spent in blast)
  with assms(3) show ?thesis by (intro finish_spent_fails) simp
qed

section \<open>Sessions belong to registered users\<close>

definition sessions_registered :: "InMemoryServer \<Rightarrow> bool" where
  "sessions_registered st \<longleftrightarrow>
     (\<forall>k s. sessions st k = Some s \<longrightarrow> transport_identities st (ss_user_id s) \<noteq> None)"

lemma finish_sessions:
  "sessions (snd (FinishTransportAuthentication ssl st now rt q)) k = Some s \<Longrightarrow>
   sessions st k = Some s \<or> transport_identities st (ss_user_id s) \<noteq> None"
  by (auto simp: finish_defs split: option.splits if_splits)

lemma begin_sessions:
  "sessions (snd (BeginTransportAuthentication st now ri rn q)) k = Some s \<Longrightarrow> sessions st k = Some s"
  by (simp add: begin_defs split: if_splits)

lemma step_sessions:
  "sessions (server_step ssl st op) k = Some s \<Longrightarrow>
   sessions st k = Some s \<or> transport_identities st (ss_user_id s) \<noteq> None"
proof (cases op)
  case (OpRegister r)
  then show "sessions (server_step ssl st op) k = Some s \<Longrightarrow> ?thesis"
    using register_frame(8) [of ssl st r] by (metis prod.collapse server_step.simps(1))
next
  case (OpFinish now rt q)
  then show "sessions (server_step ssl st op) k = Some s \<Longrightarrow> ?thesis"
    using finish_sessions [of ssl st now rt q k s] by simp
next
  case (OpBegin now ri rn q)
  then show "sessions (server_step ssl st op) k = Some s \<Longrightarrow> ?thesis"
    using begin_sessions [of st now ri rn q k s] by simp
qed (auto simp: other_defs split: option.splits result.splits list.splits if_splits)

lemma step_keeps_registered:
  assumes "transport_identities st u \<noteq> None"
  shows "transport_identities (server_step ssl st op) u \<noteq> None"
proof (cases "\<exists>r. op = OpRegister r")
  case True
  with assms show ?thesis by (auto simp: register_defs split: option.splits)
next
  case False
  with assms show ?thesis by (simp add: step_identities)
qed

lemma step_sessions_registered:
  assumes "sessions_registered st" shows "sessions_registered (server_step ssl st op)"
  unfolding sessions_registered_def
proof (intro allI impI)
  fix k s assume "sessions (server_step ssl st op) k = Some s"
  then have "transport_identities st (ss_user_id s) \<noteq> None"
    using step_sessions assms unfolding sessions_registered_def by blast
  then show "transport_identities (server_step ssl st op) (ss_user_id s) \<noteq> None"
    by (rule step_keeps_registered)
qed

theorem authenticated_users_are_registered:
  assumes "st = server_run ssl (InMemoryServer_init token) ops"
    and "fst (AuthenticateSessionToken st now tok) = Ok u"
  shows "\<exists>key. transport_identities st u = Some key"
proof -
  have "sessions_registered st"
    unfolding assms(1)
  proof (rule server_run_invariant [where P = sessions_registered])
    show "sessions_registered (InMemoryServer_init token)"
      by (simp add: sessions_registered_def InMemoryServer_init_def)
  qed (rule step_sessions_registered)
  with assms(2) show ?thesis by (auto simp: authenticate_iff_session sessions_registered_def)
qed

section \<open>Attempts per window\<close>

text \<open>One attempt as the two authentication calls make it: cleanup first, then the limiter.\<close>

definition auth_attempt :: "string \<Rightarrow> u64 \<Rightarrow> buckets \<Rightarrow> bool \<times> buckets" where
  "auth_attempt user now attempts =
     (let r = EnforceRateLimit (trim_buckets now kAuthRateWindowSeconds attempts) user now
            kMaxAuthBeginAttemptsPerWindow kAuthRateWindowSeconds ''auth begin rate limit exceeded''
      in (ok (fst r), snd r))"

interpretation auth_limiter: rate_limiter auth_attempt
    "\<lambda>now. trim_buckets now kAuthRateWindowSeconds" bucket_of
    kMaxAuthBeginAttemptsPerWindow kAuthRateWindowSeconds
  by unfold_locales (auto simp: auth_attempt_def EnforceRateLimit_def Let_def)

text \<open>The requests of a user that \<^verbatim>\<open>BeginTransportAuthentication\<close> does not reject before it
  counts them.\<close>

definition counted_begin :: "AuthBeginRequest \<Rightarrow> bool" where
  "counted_begin q \<longleftrightarrow>
     IsValidUserId (abq_user_id q) \<and> length (abq_client_nonce q) = kExpectedAuthNonceBytes"

text \<open>The times of the counted begin calls of \<open>u\<close> in a run that got past the limiter.\<close>

fun begin_admitted :: "openssl \<Rightarrow> string \<Rightarrow> server_op list \<Rightarrow> InMemoryServer \<Rightarrow> u64 list" where
  "begin_admitted ssl u [] st = []"
| "begin_admitted ssl u (op # ops) st =
     (case op of
        OpBegin now ri rn q \<Rightarrow>
          (if counted_begin q \<and> abq_user_id q = u \<and>
              fst (BeginTransportAuthentication st now ri rn q) \<noteq> Err ''auth begin rate limit exceeded''
           then [now] else [])
      | _ \<Rightarrow> []) @ begin_admitted ssl u ops (server_step ssl st op)"

text \<open>The calls that read the clock, as events of the limiter.\<close>

fun limiter_event :: "server_op \<Rightarrow> (string option \<times> u64) list" where
  "limiter_event (OpBegin now ri rn q) = [(if counted_begin q then Some (abq_user_id q) else None, now)]"
| "limiter_event (OpFinish now rt q) = [(None, now)]"
| "limiter_event (OpAuthenticate now t) = [(None, now)]"
| "limiter_event _ = []"

definition limiter_events :: "server_op list \<Rightarrow> (string option \<times> u64) list" where
  "limiter_events ops = concat (map limiter_event ops)"

lemma begin_attempts_counted:
  "counted_begin q \<Longrightarrow>
   auth_begin_attempts (snd (BeginTransportAuthentication st now ri rn q)) =
     snd (auth_attempt (abq_user_id q) now (auth_begin_attempts st)) \<and>
   (fst (BeginTransportAuthentication st now ri rn q) \<noteq> Err ''auth begin rate limit exceeded'' \<longleftrightarrow>
     fst (auth_attempt (abq_user_id q) now (auth_begin_attempts st)))"
  by (simp add: begin_defs counted_begin_def auth_attempt_def EnforceRateLimit_def)

lemma step_attempts_uncounted:
  "\<not> (\<exists>now ri rn q. op = OpBegin now ri rn q \<and> counted_begin q) \<Longrightarrow>
   auth_begin_attempts (server_step ssl st op) =
     foldl (\<lambda>m a. trim_buckets (snd a) kAuthRateWindowSeconds m) (auth_begin_attempts st)
       (limiter_event op)"
proof (cases op)
  case (OpRegister r)
  then show ?thesis using register_frame(6) [of ssl st r] by (simp add: prod_eq_iff)
qed (auto simp: begin_defs counted_begin_def finish_defs other_defs
    split: option.splits result.splits list.splits)

lemma begin_admitted_eq:
  "begin_admitted ssl u ops st =
   auth_limiter.accepted u (limiter_events ops) (auth_begin_attempts st)"
proof (induction ops arbitrary: st)
  case Nil
  show ?case by (simp add: limiter_events_def)
next
  case (Cons op ops)
  show ?case
  proof (cases "\<exists>now ri rn q. op = OpBegin now ri rn q \<and> counted_begin q")
    case True
    with Cons show ?thesis
      by (auto simp: limiter_events_def Let_def begin_attempts_counted)
  next
    case False
    then have "begin_admitted ssl u (op # ops) st = begin_admitted ssl u ops (server_step ssl st op)"
      by (cases op) auto
    with False Cons step_attempts_uncounted [OF False, of ssl st] show ?thesis
      by (cases op) (auto simp: limiter_events_def)
  qed
qed

theorem begin_attempts_bounded:
  assumes "sorted (map snd (limiter_events ops))"
    and "\<forall>a\<in>set (limiter_events ops). no_wrap kAuthRateWindowSeconds (snd a)"
  shows "length (in_window kAuthRateWindowSeconds p
    (begin_admitted ssl u ops (InMemoryServer_init token))) \<le> kMaxAuthBeginAttemptsPerWindow"
  unfolding begin_admitted_eq
  using assms by (intro auth_limiter.at_most_limit_per_window) (simp_all add: InMemoryServer_init_def)

section \<open>Prekey bundles\<close>

text \<open>The results of \<open>n\<close> acquisitions in a row.\<close>

primrec acquire_times :: "nat \<Rightarrow> InMemoryServer \<Rightarrow> string \<Rightarrow> PrekeyBundle result list" where
  "acquire_times 0 st u = []"
| "acquire_times (Suc n) st u =
     (let r = AcquireBundleForSession st u in fst r # acquire_times n (snd r) u)"

definition handed_out :: "PrekeyBundle \<Rightarrow> OneTimePrekeyEc list \<Rightarrow> OneTimePrekeyPq list \<Rightarrow> nat \<Rightarrow> PrekeyBundle" where
  "handed_out b ecs pqs i =
     (if i < length ecs \<and> i < length pqs then b\<lparr>pb_one_time_ec := [ecs ! i], pb_one_time_pq := [pqs ! i]\<rparr>
      else b\<lparr>pb_one_time_ec := [], pb_one_time_pq := []\<rparr>)"

lemma acquire_times_store:
  "bundles st u = Some \<lparr>base_bundle = b, one_time_ec_pool = ecs, one_time_pq_pool = pqs\<rparr> \<Longrightarrow>
   acquire_times n st u = map (\<lambda>i. Ok (handed_out b ecs pqs i)) [0..<n]"
proof (induction n arbitrary: st ecs pqs)
  case 0
  show ?case by simp
next
  case (Suc n)
  have shift: "map f [0..<Suc n] = f 0 # map (\<lambda>i. f (Suc i)) [0..<n]" for f :: "nat \<Rightarrow> PrekeyBundle result"
    by (simp add: upt_conv_Cons map_Suc_upt [symmetric] comp_def del: upt_Suc)
  show ?case
  proof (cases "ecs = [] \<or> pqs = []")
    case True
    then have "AcquireBundleForSession st u = (Ok (handed_out b ecs pqs 0), st)"
      using Suc.prems
      by (cases ecs; cases pqs) (auto simp: AcquireBundleForSession_def Let_def handed_out_def)
    moreover have "handed_out b ecs pqs (Suc i) = handed_out b ecs pqs i" for i
      using True by (auto simp: handed_out_def)
    ultimately show ?thesis using Suc.IH [OF Suc.prems] by (simp add: shift Let_def del: upt_Suc)
  next
    case False
    then obtain e es p ps where [simp]: "ecs = e # es" "pqs = p # ps" by (cases ecs; cases pqs) auto
    let ?st = "st\<lparr>bundles := (bundles st)(u \<mapsto>
      \<lparr>base_bundle = b, one_time_ec_pool = es, one_time_pq_pool = ps\<rparr>)\<rparr>"
    have "AcquireBundleForSession st u = (Ok (handed_out b ecs pqs 0), ?st)"
      using Suc.prems by (simp add: AcquireBundleForSession_def Let_def handed_out_def)
    moreover have "handed_out b ecs pqs (Suc i) = handed_out b es ps i" for i
      by (simp add: handed_out_def)
    ultimately show ?thesis using Suc.IH [of ?st es ps] by (simp add: shift Let_def del: upt_Suc)
  qed
qed

theorem published_prekeys_handed_out_once:
  assumes "PublishBundle ssl st b = (Ok (), st')"
  shows "acquire_times n st' (pb_user_id b) =
    map (\<lambda>i. Ok (handed_out b (pb_one_time_ec b) (pb_one_time_pq b) i)) [0..<n]"
  using assms
  by (intro acquire_times_store) (auto simp: PublishBundle_def split: if_splits result.splits)

theorem publish_iff_signatures_verify:
  "fst (PublishBundle ssl st b) = Ok () \<longleftrightarrow> VerifyPrekeyBundleSignatures ssl b = Ok ()"
  by (auto simp: PublishBundle_def VerifyPrekeyBundleSignatures_def Let_def split: result.splits)

section \<open>Inboxes\<close>

definition to_inbox_envelope :: "InboxEntry \<Rightarrow> InboxEnvelope" where
  "to_inbox_envelope e = \<lparr>ie_inbox_id = en_inbox_id e, ie_envelope = en_envelope e\<rparr>"

definition pending_envelopes :: "InMemoryServer \<Rightarrow> string \<Rightarrow> InboxEnvelope list" where
  "pending_envelopes st u = (case inbox st u of None \<Rightarrow> [] | Some es \<Rightarrow> map to_inbox_envelope es)"

definition next_id :: "InMemoryServer \<Rightarrow> string \<Rightarrow> u64" where
  "next_id st u = (case next_inbox_id_by_user st u of None \<Rightarrow> 0 | Some i \<Rightarrow> i)"

definition inbox_inv :: "InMemoryServer \<Rightarrow> bool" where
  "inbox_inv st \<longleftrightarrow> (\<forall>u. ascending (pending_envelopes st u) \<and>
     (\<forall>i\<in>set (pending_envelopes st u). ie_inbox_id i \<le> next_id st u))"

lemma to_inbox_envelope_sel [simp]:
  "ie_inbox_id (to_inbox_envelope e) = en_inbox_id e"
  "ie_envelope (to_inbox_envelope e) = en_envelope e"
  by (simp_all add: to_inbox_envelope_def)

text \<open>Popping acknowledged entries off the front removes them all, because ids ascend.\<close>

lemma dropWhile_acked:
  "ascending (map to_inbox_envelope es) \<Longrightarrow>
   map to_inbox_envelope (dropWhile (\<lambda>e. en_inbox_id e \<le> a) es) =
   unacked (Some a) (map to_inbox_envelope es)"
proof (induction es)
  case (Cons e es)
  show ?case
  proof (cases "en_inbox_id e \<le> a")
    case True
    with Cons show ?thesis by (auto simp: unacked_def ascending_def)
  next
    case False
    with Cons.prems have "\<forall>i\<in>set es. a < en_inbox_id i"
      by (auto simp: ascending_def)
    with False show ?thesis by (simp add: unacked_def filter_map comp_def filter_True)
  qed
qed (simp add: unacked_def)

lemma pending_after_drain:
  assumes "ascending (pending_envelopes st u)"
  shows "pending_envelopes (snd (DrainInbox st u ack)) v =
    (if v = u then unacked ack (pending_envelopes st u) else pending_envelopes st v)"
  using assms
  by (auto simp: DrainInbox_def pending_envelopes_def Let_def dropWhile_acked unacked_def
      split: option.splits)

lemma next_id_drain: "next_id (snd (DrainInbox st u ack)) v = next_id st v"
  by (simp add: DrainInbox_def next_id_def Let_def split: option.splits)

text \<open>The loop returns a prefix of the entries, and at least one if there is one.\<close>

lemma drain_loop_prefix:
  "drain_loop es out t = Ok ys \<Longrightarrow>
   \<exists>k. ys = out @ take k (map to_inbox_envelope es) \<and> (out = [] \<and> es \<noteq> [] \<longrightarrow> 0 < k)"
proof (induction es arbitrary: out t)
  case Nil
  then show ?case by simp
next
  case (Cons e es)
  from Cons.prems obtain enc where enc: "SerializeEnvelope (en_envelope e) = Ok enc"
    by (auto simp: result_inv)
  show ?case
  proof (cases "out \<noteq> [] \<and> (length out \<ge> kMaxDrainInboxBatchItems \<or>
      t + (length enc + 8 + 8) > kMaxDrainInboxBatchBytes)")
    case True
    with Cons.prems enc have "ys = out" by (simp add: Let_def)
    with True show ?thesis by (intro exI [of _ 0]) simp
  next
    case False
    with Cons.prems enc have "drain_loop es (out @ [to_inbox_envelope e]) (t + (length enc + 8 + 8)) = Ok ys"
      by (auto simp: Let_def to_inbox_envelope_def)
    from Cons.IH [OF this] obtain k where
      "ys = (out @ [to_inbox_envelope e]) @ take k (map to_inbox_envelope es)" by blast
    then show ?thesis by (intro exI [of _ "Suc k"]) simp
  qed
qed

lemma drain_loop_total:
  "\<forall>e\<in>set es. \<exists>b. SerializeEnvelope (en_envelope e) = Ok b \<Longrightarrow> \<exists>ys. drain_loop es out t = Ok ys"
  by (induction es out t rule: drain_loop.induct) (auto simp: Let_def)

lemma fst_DrainInbox:
  "fst (DrainInbox st u ack) = Ok xs \<Longrightarrow> ascending (pending_envelopes st u) \<Longrightarrow>
   \<exists>k. xs = take k (unacked ack (pending_envelopes st u)) \<and>
     (unacked ack (pending_envelopes st u) \<noteq> [] \<longrightarrow> 0 < k)"
proof (cases "inbox st u")
  case None
  then show "fst (DrainInbox st u ack) = Ok xs \<Longrightarrow> ?thesis"
    by (auto simp: DrainInbox_def pending_envelopes_def unacked_def split: option.splits)
next
  case (Some es)
  assume d: "fst (DrainInbox st u ack) = Ok xs" and asc: "ascending (pending_envelopes st u)"
  define es' where "es' = (case ack of None \<Rightarrow> es | Some a \<Rightarrow> dropWhile (\<lambda>e. en_inbox_id e \<le> a) es)"
  have m: "map to_inbox_envelope es' = unacked ack (pending_envelopes st u)"
    using asc Some by (auto simp: es'_def pending_envelopes_def dropWhile_acked unacked_def split: option.splits)
  have "drain_loop es' [] 0 = Ok xs" using d Some by (simp add: DrainInbox_def es'_def Let_def)
  from drain_loop_prefix [OF this] show ?thesis using m by auto
qed

interpretation im_inbox: inbox_service inbox_inv pending_envelopes "\<lambda>_. True" DrainInbox
proof
  fix s u ack u'
  assume inv: "inbox_inv s"
  then have asc: "\<And>u. ascending (pending_envelopes s u)" by (simp add: inbox_inv_def)
  show "ascending (pending_envelopes s u)" by (rule asc)
  show "pending_envelopes (snd (DrainInbox s u ack)) u' =
      (if u' = u then unacked ack (pending_envelopes s u) else pending_envelopes s u')"
    by (rule pending_after_drain) (rule asc)
  have "set (unacked ack xs) \<subseteq> set xs" for xs by (auto simp: unacked_def split: option.splits)
  then show "inbox_inv (snd (DrainInbox s u ack))"
    using inv unfolding inbox_inv_def next_id_drain
    by (auto simp: pending_after_drain ascending_unacked)
  show "\<exists>k. xs = take k (unacked ack (pending_envelopes s u)) \<and>
      (unacked ack (pending_envelopes s u) \<noteq> [] \<longrightarrow> 0 < k)"
    if "fst (DrainInbox s u ack) = Ok xs" for xs
    using that asc by (rule fst_DrainInbox)
  assume ser: "\<forall>i\<in>set (pending_envelopes s u). can_serialize i"
  have "\<exists>ys. drain_loop es [] 0 = Ok ys" if "set (map to_inbox_envelope es) \<subseteq> set (pending_envelopes s u)" for es
  proof (intro drain_loop_total ballI)
    fix e assume "e \<in> set es"
    with that ser have "can_serialize (to_inbox_envelope e)" by auto
    then show "\<exists>b. SerializeEnvelope (en_envelope e) = Ok b"
      by (simp add: can_serialize_def split: result.splits)
  qed
  then show "\<exists>xs. fst (DrainInbox s u ack) = Ok xs"
    by (auto simp: DrainInbox_def pending_envelopes_def Let_def split: option.splits)
      (meson image_mono set_dropWhileD subsetI)
qed simp_all

text \<open>
  The abstract inbox: for each user a counter and the queue of numbered envelopes. An
  acknowledgement deletes by number; there are no word sizes, no maps with absent entries.
\<close>

type_synonym inbox_spec = "string \<Rightarrow> nat \<times> (nat \<times> Envelope) list"

fun spec_step :: "inbox_spec \<Rightarrow> server_op \<Rightarrow> inbox_spec" where
  "spec_step s (OpEnqueue u e) =
     (let (n, q) = s u in s(u := (n + 1, q @ [(n + 1, e)])))"
| "spec_step s (OpDrain u (Some a)) =
     (let (n, q) = s u in s(u := (n, filter (\<lambda>(i, _). unat a < i) q)))"
| "spec_step s _ = s"

definition abs_inbox :: "InMemoryServer \<Rightarrow> inbox_spec" where
  "abs_inbox st =
     (\<lambda>u. (unat (next_id st u), map (\<lambda>i. (unat (ie_inbox_id i), ie_envelope i)) (pending_envelopes st u)))"

lemma step_inbox_frame:
  assumes "\<forall>u e. op \<noteq> OpEnqueue u e" and "\<forall>u a. op \<noteq> OpDrain u a"
  shows "inbox (server_step ssl st op) = inbox st"
    "next_inbox_id_by_user (server_step ssl st op) = next_inbox_id_by_user st"
proof (atomize (full), cases op)
  case (OpRegister r)
  then show "inbox (server_step ssl st op) = inbox st \<and>
      next_inbox_id_by_user (server_step ssl st op) = next_inbox_id_by_user st"
    using register_frame(2,3) [of ssl st r] by (simp add: prod_eq_iff)
qed (use assms in \<open>auto simp: begin_defs finish_defs other_defs
      split: option.splits result.splits list.splits\<close>)

lemma enqueue_pending:
  "pending_envelopes (snd (EnqueueEnvelope st u e)) v =
     (if v = u then pending_envelopes st u @ [\<lparr>ie_inbox_id = next_id st u + 1, ie_envelope = e\<rparr>]
      else pending_envelopes st v)"
  "next_id (snd (EnqueueEnvelope st u e)) v = (if v = u then next_id st u + 1 else next_id st v)"
  by (auto simp: EnqueueEnvelope_def pending_envelopes_def next_id_def Let_def to_inbox_envelope_def
      split: option.splits)

lemma unat_Suc_u64: "unat (i :: u64) + 1 < 2 ^ 64 \<Longrightarrow> unat (i + 1) = unat i + 1"
  by (simp add: unat_word_ariths)

lemma enqueue_inv:
  assumes "inbox_inv st" and "unat (next_id st u) + 1 < 2 ^ 64"
  shows "inbox_inv (snd (EnqueueEnvelope st u e))"
proof -
  have "i < next_id st u + 1" if "i \<le> next_id st u" for i
    using that unat_Suc_u64 [OF assms(2)] by (simp add: word_le_nat_alt word_less_nat_alt)
  with assms(1) show ?thesis
    unfolding inbox_inv_def enqueue_pending
    by (auto simp: ascending_def sorted_wrt_append less_imp_le)
qed

lemma inbox_frame:
  "inbox st' = inbox st \<Longrightarrow> next_inbox_id_by_user st' = next_inbox_id_by_user st \<Longrightarrow>
   inbox_inv st' = inbox_inv st \<and> next_id st' = next_id st \<and> pending_envelopes st' = pending_envelopes st"
  by (simp add: inbox_inv_def pending_envelopes_def [abs_def] next_id_def [abs_def])

definition inbox_room :: "InMemoryServer \<Rightarrow> string \<Rightarrow> nat" where
  "inbox_room st u = 2 ^ 64 - 1 - unat (next_id st u)"

interpretation im_server: message_server inbox_inv pending_envelopes "\<lambda>_. True" "\<lambda>_. True" inbox_room "in_memory_api ssl" for ssl
proof (rule message_server.intro)
  fix env
  show "inbox_service inbox_inv pending_envelopes (\<lambda>_. True) (api_DrainInbox (in_memory_api ssl) env)"
    using im_inbox.inbox_service_axioms by (simp add: in_memory_api_def)
next
  fix s u env e s'
  assume inv: "inbox_inv s" and "0 < inbox_room s u"
    and "api_EnqueueEnvelope (in_memory_api ssl) env s u e = (Ok (), s')"
  then have s': "s' = snd (EnqueueEnvelope s u e)" and lt: "unat (next_id s u) + 1 < 2 ^ 64"
    by (simp_all add: in_memory_api_def inbox_room_def)
  have "unat (next_id s u + 1) = unat (next_id s u) + 1"
    using lt by (simp add: unat_word_ariths)
  then show "inbox_inv s' \<and> (\<forall>v. inbox_room s v \<le> inbox_room s' v + 1) \<and>
      (\<exists>i. pending_envelopes s' u = pending_envelopes s u @ [\<lparr>ie_inbox_id = i, ie_envelope = e\<rparr>]) \<and>
      (\<forall>v. v \<noteq> u \<longrightarrow> pending_envelopes s' v = pending_envelopes s v)"
    using enqueue_inv [OF inv lt] by (simp add: s' enqueue_pending inbox_room_def)
next
  fix s u env e
  show "\<exists>s'. api_EnqueueEnvelope (in_memory_api ssl) env s u e = (Ok (), s')"
    by (simp add: in_memory_api_def EnqueueEnvelope_def Let_def)
next
  fix s env b s'
  assume inv: "inbox_inv s" and "api_PublishBundle (in_memory_api ssl) env s b = (Ok (), s')"
  then have "inbox s' = inbox s" "next_inbox_id_by_user s' = next_inbox_id_by_user s"
    by (auto simp: in_memory_api_def PublishBundle_def split: if_splits result.splits)
  from inbox_frame [OF this]
  show "inbox_inv s' \<and> inbox_room s' = inbox_room s \<and> pending_envelopes s' = pending_envelopes s"
    using inv by (simp add: inbox_room_def [abs_def])
next
  fix s env u r s'
  assume inv: "inbox_inv s" and "api_AcquireBundleForSession (in_memory_api ssl) env s u = (r, s')"
  then have "inbox s' = inbox s" "next_inbox_id_by_user s' = next_inbox_id_by_user s"
    by (auto simp: in_memory_api_def AcquireBundleForSession_def Let_def split: option.splits list.splits)
  from inbox_frame [OF this]
  show "inbox_inv s' \<and> inbox_room s' = inbox_room s \<and> pending_envelopes s' = pending_envelopes s"
    using inv by (simp add: inbox_room_def [abs_def])
next
  fix env s b s' env'
  assume "api_PublishBundle (in_memory_api ssl) env s b = (Ok (), s')"
    "pb_one_time_ec b \<noteq> []" "pb_one_time_pq b \<noteq> []"
  then show "fst (api_AcquireBundleForSession (in_memory_api ssl) env' s' (pb_user_id b)) = Ok (first_keys b)"
    by (cases "pb_one_time_ec b"; cases "pb_one_time_pq b")
      (auto simp: in_memory_api_def PublishBundle_def AcquireBundleForSession_def first_keys_def
        split: if_splits result.splits)
qed

lemma spec_drain:
  "inbox_inv st \<Longrightarrow> abs_inbox (snd (DrainInbox st u ack)) = spec_step (abs_inbox st) (OpDrain u ack)"
  by (cases ack)
    (auto simp: abs_inbox_def next_id_drain pending_after_drain inbox_inv_def unacked_def
      filter_map comp_def word_less_nat_alt fun_eq_iff)

definition ids_below :: "nat \<Rightarrow> InMemoryServer \<Rightarrow> bool" where
  "ids_below m st \<longleftrightarrow> inbox_inv st \<and> (\<forall>u. unat (next_id st u) \<le> m)"

lemma step_other_refines:
  assumes "ids_below m st" and "\<forall>u e. op \<noteq> OpEnqueue u e" and "\<forall>u a. op \<noteq> OpDrain u a"
  shows "abs_inbox (server_step ssl st op) = spec_step (abs_inbox st) op \<and>
    ids_below (m + 1) (server_step ssl st op)"
proof -
  have same: "pending_envelopes (server_step ssl st op) = pending_envelopes st"
    "next_id (server_step ssl st op) = next_id st"
    using step_inbox_frame [OF assms(2,3)] by (auto simp: pending_envelopes_def next_id_def fun_eq_iff)
  moreover have "spec_step s op = s" for s using assms(2,3) by (cases op) auto
  ultimately show ?thesis
    using assms(1) by (auto simp: abs_inbox_def ids_below_def inbox_inv_def le_SucI)
qed

lemma step_enqueue_refines:
  assumes "ids_below m st" and "m + 1 < 2 ^ 64"
  shows "abs_inbox (snd (EnqueueEnvelope st u e)) = spec_step (abs_inbox st) (OpEnqueue u e) \<and>
    ids_below (m + 1) (snd (EnqueueEnvelope st u e))"
proof -
  have b: "unat (next_id st u) + 1 < 2 ^ 64"
    using assms by (meson add_le_mono1 ids_below_def le_less_trans)
  have "inbox_inv (snd (EnqueueEnvelope st u e))"
    using assms(1) b by (intro enqueue_inv) (auto simp: ids_below_def)
  with unat_Suc_u64 [OF b] assms(1) show ?thesis
    by (auto simp: abs_inbox_def enqueue_pending fun_eq_iff ids_below_def le_SucI)
qed

lemma step_refines:
  assumes "ids_below m st" and "m + 1 < 2 ^ 64"
  shows "abs_inbox (server_step ssl st op) = spec_step (abs_inbox st) op \<and>
    ids_below (m + 1) (server_step ssl st op)"
proof (cases "(\<exists>u e. op = OpEnqueue u e) \<or> (\<exists>u a. op = OpDrain u a)")
  case True
  then show ?thesis
    using step_enqueue_refines [OF assms] assms(1) spec_drain im_inbox.drain_inv
    by (auto simp: ids_below_def next_id_drain le_SucI)
qed (use step_other_refines [OF assms(1)] in blast)

lemma run_refines:
  assumes "length ops < 2 ^ 64"
  shows "abs_inbox (server_run ssl (InMemoryServer_init token) ops) =
      foldl spec_step (\<lambda>_. (0, [])) ops \<and>
    ids_below (length ops) (server_run ssl (InMemoryServer_init token) ops)"
  using assms
proof (induction ops rule: rev_induct)
  case Nil
  show ?case
    by (auto simp: InMemoryServer_init_def abs_inbox_def ids_below_def inbox_inv_def
        pending_envelopes_def next_id_def ascending_def)
next
  case (snoc op ops)
  with step_refines [of "length ops" "server_run ssl (InMemoryServer_init token) ops" ssl op]
  show ?case by simp
qed

text \<open>
C11. The inboxes of the server implement, for every sequence of calls below 2^64, the
abstract inbox with a counter and a queue per user, where an acknowledgement deletes by
number.
\<close>

theorem inbox_refines_spec:
  assumes "length ops < 2 ^ 64"
  shows "abs_inbox (server_run ssl (InMemoryServer_init token) ops) =
    foldl spec_step (\<lambda>_. (0, [])) ops"
  using run_refines [OF assms] by blast

theorem inbox_delivers_once_in_order:
  assumes "st = server_run ssl (InMemoryServer_init token) ops" and "length ops < 2 ^ 64"
    and "\<forall>i\<in>set (pending_envelopes st u). can_serialize i"
    and "length (pending_envelopes st u) < n"
  shows "\<exists>st'. drain_all DrainInbox n st u None = Some (pending_envelopes st u, st') \<and>
    pending_envelopes st' u = [] \<and> (\<forall>v. v \<noteq> u \<longrightarrow> pending_envelopes st' v = pending_envelopes st v)"
proof -
  have "inbox_inv st" using run_refines [OF assms(2)] assms(1) by (auto simp: ids_below_def)
  from im_inbox.drain_all_complete [OF this assms(3), of None n] assms(4) show ?thesis
    by (auto simp: unacked_def)
qed

section \<open>Batches\<close>

text \<open>The bytes a batch takes by the server's estimate.\<close>

definition batch_bytes :: "InboxEnvelope list \<Rightarrow> nat" where
  "batch_bytes xs = sum_list (map (\<lambda>i. length (Envelope_bytes (ie_envelope i)) + 16) xs)"

definition batch_ok :: "InboxEnvelope list \<Rightarrow> bool" where
  "batch_ok xs \<longleftrightarrow> length xs \<le> kMaxDrainInboxBatchItems \<and>
     (length xs \<le> 1 \<or> batch_bytes xs \<le> kMaxDrainInboxBatchBytes)"

lemma batch_bytes_snoc [simp]:
  "batch_bytes (xs @ [x]) = batch_bytes xs + (length (Envelope_bytes (ie_envelope x)) + 16)"
  by (simp add: batch_bytes_def)

lemma drain_loop_batch_ok:
  "drain_loop es out (batch_bytes out) = Ok ys \<Longrightarrow> batch_ok out \<Longrightarrow> batch_ok ys"
proof (induction es arbitrary: out)
  case Nil
  then show ?case by simp
next
  case (Cons e es)
  from Cons.prems(1) obtain enc where enc: "SerializeEnvelope (en_envelope e) = Ok enc"
    by (auto simp: result_inv)
  then have len: "length enc = length (Envelope_bytes (en_envelope e))" by (simp add: Envelope_bytes_def)
  let ?x = "\<lparr>ie_inbox_id = en_inbox_id e, ie_envelope = en_envelope e\<rparr>"
  show ?case
  proof (cases "out \<noteq> [] \<and> (length out \<ge> kMaxDrainInboxBatchItems \<or>
      batch_bytes out + (length enc + 8 + 8) > kMaxDrainInboxBatchBytes)")
    case True
    with Cons.prems enc show ?thesis by (simp add: Let_def)
  next
    case False
    with Cons.prems(1) enc len have "drain_loop es (out @ [?x]) (batch_bytes (out @ [?x])) = Ok ys"
      by (auto simp: Let_def add.assoc split: if_splits)
    moreover have "batch_ok (out @ [?x])"
      using False len by (auto simp: batch_ok_def batch_bytes_def kMaxDrainInboxBatchItems_def)
    ultimately show ?thesis by (rule Cons.IH)
  qed
qed

lemma DrainInbox_batch_ok: "fst (DrainInbox st u ack) = Ok xs \<Longrightarrow> batch_ok xs"
  using drain_loop_batch_ok [of _ "[]"]
  by (auto simp: DrainInbox_def Let_def batch_ok_def batch_bytes_def kMaxDrainInboxBatchItems_def
      split: option.splits)

theorem drain_batches_bounded:
  assumes "fst (DrainInbox st u ack) = Ok xs"
  shows "length xs \<le> kMaxDrainInboxBatchItems \<and>
    (length xs \<le> 1 \<or> batch_bytes xs \<le> kMaxDrainInboxBatchBytes)"
  using DrainInbox_batch_ok [OF assms] by (simp add: batch_ok_def)

section \<open>A concrete run\<close>

text \<open>Alice registers, gets a challenge and answers it; the bytes drawn are fixed.\<close>

definition demo_register :: RegisterRequest where
  "demo_register = \<lparr>rr_user_id = ''alice'', rr_transport_auth_public_key = [1],
     rr_registration_token = [], rr_proof_signature_mldsa65 = [1] @ replicate 64 0,
     rr_rotation_signature_mldsa65 = None\<rparr>"

definition demo_rotate :: RegisterRequest where
  "demo_rotate = \<lparr>rr_user_id = ''alice'', rr_transport_auth_public_key = [2],
     rr_registration_token = [], rr_proof_signature_mldsa65 = [2] @ replicate 64 0,
     rr_rotation_signature_mldsa65 = Some ([1] @ replicate 64 0)\<rparr>"

definition demo_begin :: AuthBeginRequest where
  "demo_begin = \<lparr>abq_user_id = ''alice'', abq_client_nonce = replicate 32 7\<rparr>"

definition demo_challenge_id :: string where
  "demo_challenge_id = RandomHex 16 (Some [])"

definition demo_finish :: AuthFinishRequest where
  "demo_finish = \<lparr>afq_user_id = ''alice'', afq_challenge_id = demo_challenge_id,
     afq_client_nonce = replicate 32 7, afq_server_nonce = RandomBytes 32 (Some [9]),
     afq_expires_at_unix = 160, afq_signature_mldsa65 = [1] @ replicate 64 0\<rparr>"

definition demo_ops :: "server_op list" where
  "demo_ops = [OpRegister demo_register, OpBegin 100 (Some []) (Some [9]) demo_begin]"

definition demo_state :: InMemoryServer where
  "demo_state = server_run toy_ssl (InMemoryServer_init []) demo_ops"

definition demo_token :: bytes where
  "demo_token = RandomBytes 32 (Some [5])"

definition demo_session :: InMemoryServer where
  "demo_session = snd (FinishTransportAuthentication toy_ssl demo_state 110 (Some [5]) demo_finish)"

lemma demo_finish_ok:
  "fst (FinishTransportAuthentication toy_ssl demo_state 110 (Some [5]) demo_finish) =
     Ok \<lparr>afr_session_token = demo_token, afr_expires_at_unix = 1010\<rparr>"
  by code_simp

lemma demo_auth: "fst (AuthenticateSessionToken demo_session 120 demo_token) = Ok ''alice''"
  by code_simp

theorem register_identity_change_witness:
  "transport_identities (snd (RegisterTransportIdentity toy_ssl demo_session demo_rotate)) ''alice'' = Some [2] \<and>
   may_set_identity toy_ssl [] demo_rotate (Some [1])"
proof -
  have 1: "transport_identities demo_session ''alice'' = Some [1]"
    "required_registration_token demo_session = []"
    "transport_identities (snd (RegisterTransportIdentity toy_ssl demo_session demo_rotate)) ''alice'' = Some [2]"
    by code_simp+
  then show ?thesis
    using register_identity_change [OF prod.collapse [symmetric], of toy_ssl demo_session demo_rotate "''alice''"]
    by (simp add: demo_rotate_def)
qed

theorem finish_grants_session_only_on_proof_witness:
  "\<exists>c key. challenges demo_state demo_challenge_id = Some c \<and>
     transport_identities demo_state ''alice'' = Some key \<and> answers_challenge toy_ssl c key demo_finish"
proof -
  have "FinishTransportAuthentication toy_ssl demo_state 110 (Some [5]) demo_finish =
      (Ok \<lparr>afr_session_token = demo_token, afr_expires_at_unix = 1010\<rparr>, demo_session)"
    using demo_finish_ok by (simp add: demo_session_def prod_eq_iff)
  from finish_grants_session_only_on_proof [OF this] show ?thesis
    by (auto simp: demo_finish_def)
qed

theorem rotation_ends_sessions_witness:
  "fst (AuthenticateSessionToken demo_session 120 demo_token) = Ok ''alice'' \<and>
   fst (AuthenticateSessionToken (snd (RegisterTransportIdentity toy_ssl demo_session demo_rotate))
     120 demo_token) \<noteq> Ok ''alice''"
proof -
  have "transport_identities demo_session ''alice'' = Some [1]"
    "transport_identities (snd (RegisterTransportIdentity toy_ssl demo_session demo_rotate)) ''alice'' \<noteq> Some [1]"
    by code_simp+
  from rotation_ends_sessions [OF prod.collapse [symmetric] this] demo_auth show ?thesis by blast
qed

theorem logout_revokes_witness:
  "fst (AuthenticateSessionToken demo_session 120 demo_token) = Ok ''alice'' \<and>
   fst (AuthenticateSessionToken (snd (RevokeSessionToken demo_session demo_token)) 120 demo_token) \<noteq> Ok ''alice''"
proof -
  have "fst (RevokeSessionToken demo_session demo_token) = Ok ()" by code_simp
  then have "RevokeSessionToken demo_session demo_token = (Ok (), snd (RevokeSessionToken demo_session demo_token))"
    by (simp add: prod_eq_iff)
  from logout_revokes [OF this] demo_auth show ?thesis by blast
qed

theorem challenge_single_use_witness:
  "fst (FinishTransportAuthentication toy_ssl
     (server_run toy_ssl demo_session [OpEnqueue ''alice'' (FromChat demo_chat)]) 111 (Some [6]) demo_finish) \<noteq>
   Ok \<lparr>afr_session_token = RandomBytes 32 (Some [6]), afr_expires_at_unix = 1011\<rparr>"
proof -
  have "FinishTransportAuthentication toy_ssl demo_state 110 (Some [5]) demo_finish =
      (Ok \<lparr>afr_session_token = demo_token, afr_expires_at_unix = 1010\<rparr>, demo_session)"
    using demo_finish_ok by (simp add: demo_session_def prod_eq_iff)
  from challenge_single_use [OF this, of "[OpEnqueue ''alice'' (FromChat demo_chat)]" demo_finish]
  show ?thesis by simp
qed

theorem authenticated_users_are_registered_witness:
  "\<exists>key. transport_identities demo_session ''alice'' = Some key"
proof -
  have "demo_session = server_run toy_ssl (InMemoryServer_init [])
      (demo_ops @ [OpFinish 110 (Some [5]) demo_finish])"
    by (simp add: demo_session_def demo_state_def)
  from authenticated_users_are_registered [OF this demo_auth] show ?thesis .
qed

theorem begin_attempts_bounded_witness:
  "length (in_window kAuthRateWindowSeconds 90
     (begin_admitted toy_ssl ''alice'' demo_ops (InMemoryServer_init []))) \<le> 30"
proof -
  have "sorted (map snd (limiter_events demo_ops))"
    "\<forall>a\<in>set (limiter_events demo_ops). no_wrap kAuthRateWindowSeconds (snd a)"
    by (simp_all add: limiter_events_def demo_ops_def no_wrap_def kAuthRateWindowSeconds_def)
  from begin_attempts_bounded [OF this, of 90 toy_ssl "''alice''" "[]"] show ?thesis
    by (simp add: kMaxAuthBeginAttemptsPerWindow_def)
qed

definition demo_published :: InMemoryServer where
  "demo_published = snd (PublishBundle toy_ssl (InMemoryServer_init []) demo_bundle)"

theorem published_prekeys_handed_out_once_witness:
  "acquire_times 2 demo_published ''bob'' =
     [Ok (demo_bundle\<lparr>pb_one_time_ec := [\<lparr>ote_id = 10, ote_public_key = [6]\<rparr>],
        pb_one_time_pq := [\<lparr>otp_id = 20, otp_public_key = [8]\<rparr>]\<rparr>),
      Ok (demo_bundle\<lparr>pb_one_time_ec := [], pb_one_time_pq := []\<rparr>)]"
proof -
  have "fst (PublishBundle toy_ssl (InMemoryServer_init []) demo_bundle) = Ok ()" by code_simp
  then have "PublishBundle toy_ssl (InMemoryServer_init []) demo_bundle = (Ok (), demo_published)"
    by (simp add: demo_published_def prod_eq_iff)
  from published_prekeys_handed_out_once [OF this, of 2] show ?thesis
    by (simp add: demo_bundle_def handed_out_def upt_rec)
qed

definition demo_inbox_ops :: "server_op list" where
  "demo_inbox_ops = [OpEnqueue ''bob'' (FromChat demo_chat),
     OpEnqueue ''bob'' (FromChat (demo_chat\<lparr>cm_ciphertext := [1]\<rparr>)), OpDrain ''bob'' (Some 1)]"

theorem inbox_refines_spec_witness:
  "abs_inbox (server_run toy_ssl (InMemoryServer_init []) demo_inbox_ops) ''bob'' =
     (2, [(2, FromChat (demo_chat\<lparr>cm_ciphertext := [1]\<rparr>))])"
proof -
  have "length demo_inbox_ops < 2 ^ 64" by (simp add: demo_inbox_ops_def)
  from inbox_refines_spec [OF this, of toy_ssl "[]"] show ?thesis
    by (simp add: demo_inbox_ops_def)
qed

theorem inbox_delivers_once_in_order_witness:
  "\<exists>st'. drain_all DrainInbox 2 (server_run toy_ssl (InMemoryServer_init []) demo_inbox_ops) ''bob'' None =
     Some ([\<lparr>ie_inbox_id = 2, ie_envelope = FromChat (demo_chat\<lparr>cm_ciphertext := [1]\<rparr>)\<rparr>], st')"
proof -
  let ?st = "server_run toy_ssl (InMemoryServer_init []) demo_inbox_ops"
  have "pending_envelopes ?st ''bob'' =
      [\<lparr>ie_inbox_id = 2, ie_envelope = FromChat (demo_chat\<lparr>cm_ciphertext := [1]\<rparr>)\<rparr>]"
    by code_simp
  moreover have "length demo_inbox_ops < 2 ^ 64" by (simp add: demo_inbox_ops_def)
  moreover from calculation have "\<forall>i\<in>set (pending_envelopes ?st ''bob''). can_serialize i"
    by (simp add: can_serialize_def SerializeEnvelope_def FromChat_def)
  ultimately show ?thesis
    using inbox_delivers_once_in_order [of ?st toy_ssl "[]" demo_inbox_ops "''bob''" 2] by auto
qed

theorem drain_batches_bounded_witness:
  "length [\<lparr>ie_inbox_id = 2, ie_envelope = FromChat (demo_chat\<lparr>cm_ciphertext := [1]\<rparr>)\<rparr>] \<le>
     kMaxDrainInboxBatchItems"
proof -
  have "fst (DrainInbox (server_run toy_ssl (InMemoryServer_init []) demo_inbox_ops) ''bob'' None) =
      Ok [\<lparr>ie_inbox_id = 2, ie_envelope = FromChat (demo_chat\<lparr>cm_ciphertext := [1]\<rparr>)\<rparr>]"
    by code_simp
  from drain_batches_bounded [OF this] show ?thesis by blast
qed

end
