(* ===== verification/Tcp_Wire.thy ===== *)
theory Tcp_Wire
  imports Prelude
begin

text \<open>
  Framing over a stream socket, \<^verbatim>\<open>src/server/tcp_wire.cpp\<close>. What \<^verbatim>\<open>recv\<close> and
  \<^verbatim>\<open>SSL_read\<close> will return is the list of \<open>recv_event\<close>s the connection still holds: chunks of
  bytes of any size, interruptions that are retried, the peer's close, an error. A call that
  asks for fewer bytes than the next chunk has leaves the rest. When the list is empty the call
  blocks, which is \<open>None\<close>. \<^verbatim>\<open>send\<close> and \<^verbatim>\<open>SSL_write\<close> are modelled alike.

  The theorems say that a frame is read back whatever the segmentation of the stream, that a
  successful write has sent exactly the frame, and what the reader reports when the peer closes.
\<close>

section \<open>Reading\<close>

datatype recv_event = Data bytes | Again | Eof | Fail string

text \<open>The loop of \<^verbatim>\<open>ReadExact\<close> and \<^verbatim>\<open>ReadExactTls\<close>, which differ in their error texts.
  A closed connection stays closed.\<close>

function read_loop ::
    "string \<Rightarrow> string \<Rightarrow> recv_event list \<Rightarrow> nat \<Rightarrow> bytes \<Rightarrow> (bytes result \<times> recv_event list) option" where
  "read_loop mid_text fail_text evs len out =
     (if length out \<ge> len then Some (Ok out, evs)
      else case evs of
        [] \<Rightarrow> None
      | Data bs # evs' \<Rightarrow>
          if bs = [] then Some (Err (if out = [] then ''eof'' else mid_text), evs)
          else let n = min (length bs) (len - length out)
               in read_loop mid_text fail_text
                    (if n = length bs then evs' else Data (drop n bs) # evs') len (out @ take n bs)
      | Again # evs' \<Rightarrow> read_loop mid_text fail_text evs' len out
      | Eof # evs' \<Rightarrow> Some (Err (if out = [] then ''eof'' else mid_text), evs)
      | Fail e # evs' \<Rightarrow> Some (Err (fail_text @ e), evs'))"
  by pat_completeness auto

primrec event_size :: "recv_event \<Rightarrow> nat" where
  "event_size (Data bs) = Suc (length bs)"
| "event_size Again = 1"
| "event_size Eof = 1"
| "event_size (Fail e) = 1"

definition events_size :: "recv_event list \<Rightarrow> nat" where
  "events_size evs = sum_list (map event_size evs)"

lemma events_size_simps [simp]:
  "events_size [] = 0"
  "events_size (e # evs) = event_size e + events_size evs"
  by (simp_all add: events_size_def)

termination read_loop
  by (relation "measure (\<lambda>(_, _, evs, _, _). events_size evs)") (auto simp: min_def split: if_splits)

declare read_loop.simps [simp del]

definition ReadExact :: "recv_event list \<Rightarrow> nat \<Rightarrow> (bytes result \<times> recv_event list) option" where
  "ReadExact evs len = read_loop ''socket closed mid-frame'' ''recv failed: '' evs len []"

text \<open>A null \<^verbatim>\<open>SSL*\<close> is \<open>None\<close>.\<close>

definition ReadExactTls ::
    "recv_event list option \<Rightarrow> nat \<Rightarrow> (bytes result \<times> recv_event list option) option" where
  "ReadExactTls ssl len =
     (case ssl of
        None \<Rightarrow> Some (Err ''SSL pointer is null'', None)
      | Some evs \<Rightarrow> map_option (map_prod id Some)
          (read_loop ''TLS connection closed mid-frame'' ''SSL_read failed: '' evs len []))"

section \<open>Writing\<close>

datatype send_event = Sent nat | SendAgain | SendFail string

text \<open>The result, the bytes handed to the connection, the events left.\<close>

fun write_loop ::
    "string \<Rightarrow> send_event list \<Rightarrow> bytes \<Rightarrow> (unit result \<times> bytes \<times> send_event list) option" where
  "write_loop fail_text evs [] = Some (Ok (), [], evs)"
| "write_loop fail_text [] data = None"
| "write_loop fail_text (Sent n # evs) data =
     map_option (\<lambda>(r, sent, evs'). (r, take n data @ sent, evs'))
       (write_loop fail_text evs (drop n data))"
| "write_loop fail_text (SendAgain # evs) data = write_loop fail_text evs data"
| "write_loop fail_text (SendFail e # evs) data = Some (Err (fail_text @ e), [], evs)"

definition WriteExact ::
    "send_event list \<Rightarrow> bytes \<Rightarrow> (unit result \<times> bytes \<times> send_event list) option" where
  "WriteExact evs data = write_loop ''send failed: '' evs data"

definition WriteExactTls ::
    "send_event list option \<Rightarrow> bytes \<Rightarrow> (unit result \<times> bytes \<times> send_event list option) option" where
  "WriteExactTls ssl data =
     (case ssl of
        None \<Rightarrow> Some (Err ''SSL pointer is null'', [], None)
      | Some evs \<Rightarrow> map_option (\<lambda>(r, sent, evs'). (r, sent, Some evs'))
          (write_loop ''SSL_write failed: '' evs data))"

section \<open>Frames\<close>

definition kMaxFramePayloadBytes :: u32 where
  "kMaxFramePayloadBytes = 1024 * 1024"

lemma unat_kMaxFramePayloadBytes [simp]: "unat kMaxFramePayloadBytes = 1048576"
  by (simp add: kMaxFramePayloadBytes_def)

definition LoadU32 :: "bytes \<Rightarrow> u32" where
  "LoadU32 inp = un_be32 (inp ! 0) (inp ! 1) (inp ! 2) (inp ! 3)"

definition StoreU32 :: "u32 \<Rightarrow> bytes" where
  "StoreU32 v = be32 v"

definition frame_header :: "u32 \<Rightarrow> bytes \<Rightarrow> bytes" where
  "frame_header type payload = StoreU32 type @ StoreU32 (word_of_nat (length payload))"

text \<open>\<^verbatim>\<open>WriteFrame\<close> and \<^verbatim>\<open>WriteFrameTls\<close> over their way of writing.\<close>

definition write_frame ::
    "('s \<Rightarrow> bytes \<Rightarrow> (unit result \<times> bytes \<times> 's) option) \<Rightarrow> 's \<Rightarrow> u32 \<Rightarrow> bytes \<Rightarrow>
     (unit result \<times> bytes \<times> 's) option" where
  "write_frame write s type payload =
     (if length payload > unat kMaxFramePayloadBytes
      then Some (Err ''frame payload too large'', [], s)
      else case write s (frame_header type payload) of
        None \<Rightarrow> None
      | Some (Err e, sent, s1) \<Rightarrow> Some (Err e, sent, s1)
      | Some (Ok _, sent, s1) \<Rightarrow>
          if payload \<noteq> []
          then map_option (\<lambda>(r, sent', s2). (r, sent @ sent', s2)) (write s1 payload)
          else Some (Ok (), sent, s1))"

definition WriteFrame :: "send_event list \<Rightarrow> u32 \<Rightarrow> bytes \<Rightarrow> (unit result \<times> bytes \<times> send_event list) option" where
  "WriteFrame = write_frame WriteExact"

definition WriteFrameTls ::
    "send_event list option \<Rightarrow> u32 \<Rightarrow> bytes \<Rightarrow> (unit result \<times> bytes \<times> send_event list option) option" where
  "WriteFrameTls = write_frame WriteExactTls"

definition read_frame ::
    "('s \<Rightarrow> nat \<Rightarrow> (bytes result \<times> 's) option) \<Rightarrow> 's \<Rightarrow> ((u32 \<times> bytes) result \<times> 's) option" where
  "read_frame read s =
     (case read s 8 of
        None \<Rightarrow> None
      | Some (Err e, s1) \<Rightarrow> Some (Err e, s1)
      | Some (Ok header, s1) \<Rightarrow>
          (let type = LoadU32 header; payload_len = LoadU32 (drop 4 header)
           in if payload_len > kMaxFramePayloadBytes then Some (Err ''frame payload too large'', s1)
              else if payload_len > 0
              then case read s1 (unat payload_len) of
                  None \<Rightarrow> None
                | Some (Err e, s2) \<Rightarrow> Some (Err e, s2)
                | Some (Ok payload, s2) \<Rightarrow> Some (Ok (type, payload), s2)
              else Some (Ok (type, []), s1)))"

definition ReadFrame :: "recv_event list \<Rightarrow> ((u32 \<times> bytes) result \<times> recv_event list) option" where
  "ReadFrame = read_frame ReadExact"

definition ReadFrameTls ::
    "recv_event list option \<Rightarrow> ((u32 \<times> bytes) result \<times> recv_event list option) option" where
  "ReadFrameTls = read_frame ReadExactTls"

section \<open>The byte stream of a connection\<close>

text \<open>The bytes the peer delivers before it closes or the connection fails.\<close>

fun stream :: "recv_event list \<Rightarrow> bytes" where
  "stream (Data bs # evs) = (if bs = [] then [] else bs @ stream evs)"
| "stream (Again # evs) = stream evs"
| "stream _ = []"

text \<open>What comes after those bytes: \<open>None\<close> when the peer just stays silent.\<close>

fun stream_end :: "recv_event list \<Rightarrow> recv_event option" where
  "stream_end (Data bs # evs) = (if bs = [] then Some Eof else stream_end evs)"
| "stream_end (Again # evs) = stream_end evs"
| "stream_end (e # evs) = Some e"
| "stream_end [] = None"

lemma read_loop_enough:
  "len \<le> length out + length (stream evs) \<Longrightarrow> length out \<le> len \<Longrightarrow>
   \<exists>evs'. read_loop m f evs len out = Some (Ok (out @ take (len - length out) (stream evs)), evs') \<and>
     stream evs' = drop (len - length out) (stream evs) \<and> stream_end evs' = stream_end evs"
proof (induction m f evs len out rule: read_loop.induct)
  case (1 m f evs len out)
  show ?case
  proof (cases "length out \<ge> len")
    case True
    with "1.prems" show ?thesis by (simp add: read_loop.simps)
  next
    case False
    with "1.prems" obtain e es where evs: "evs = e # es" by (cases evs) auto
    show ?thesis
    proof (cases e)
      case (Data bs)
      let ?n = "min (length bs) (len - length out)"
      have bs: "bs \<noteq> []" using "1.prems" False by (auto simp: evs Data)
      have n: "0 < ?n" using bs False by simp
      let ?evs = "if ?n = length bs then es else Data (drop ?n bs) # es"
      have st: "bs @ stream es = take ?n bs @ stream ?evs" and en: "stream_end ?evs = stream_end es"
        using False by (auto simp: min_def)
      have "len \<le> length (out @ take ?n bs) + length (stream ?evs)"
        using "1.prems"(1) arg_cong [OF st, of length] bs by (simp add: evs Data)
      then obtain evs' where IH: "read_loop m f ?evs len (out @ take ?n bs) =
          Some (Ok ((out @ take ?n bs) @ take (len - length (out @ take ?n bs)) (stream ?evs)), evs')"
        "stream evs' = drop (len - length (out @ take ?n bs)) (stream ?evs)"
        "stream_end evs' = stream_end ?evs"
        using "1.IH"(1) [OF False evs Data bs refl] False by force
      have "take (len - length out) (bs @ stream es) =
          take ?n bs @ take (len - length (out @ take ?n bs)) (stream ?evs)"
        "drop (len - length out) (bs @ stream es) = drop (len - length (out @ take ?n bs)) (stream ?evs)"
        unfolding st using False by (auto simp: min_def)
      with IH bs False en show ?thesis
        by (subst read_loop.simps) (simp add: evs Data Let_def)
    next
      case Again
      with "1.IH"(2) [OF False evs Again] "1.prems" False show ?thesis
        by (subst read_loop.simps) (auto simp: evs)
    qed (use "1.prems" False in \<open>auto simp: evs\<close>)
  qed
qed

lemma read_loop_short:
  "length out + length (stream evs) < len \<Longrightarrow> stream_end evs = Some Eof \<Longrightarrow>
   \<exists>evs'. read_loop m f evs len out =
     Some (Err (if out = [] \<and> stream evs = [] then ''eof'' else m), evs')"
proof (induction m f evs len out rule: read_loop.induct)
  case (1 m f evs len out)
  then have len: "\<not> length out \<ge> len" by simp
  from "1.prems" obtain e es where evs: "evs = e # es" by (cases evs) auto
  show ?case
  proof (cases e)
    case (Data bs)
    show ?thesis
    proof (cases "bs = []")
      case True
      with len show ?thesis by (subst read_loop.simps) (simp add: evs Data)
    next
      case False
      have n: "min (length bs) (len - length out) = length bs" using "1.prems" False by (simp add: evs Data)
      from "1.IH"(1) [OF len evs Data False refl] obtain evs' where
        "read_loop m f es len (out @ bs) = Some (Err m, evs')"
        using "1.prems" False n by (auto simp: evs Data)
      with len False n show ?thesis by (subst read_loop.simps) (simp add: evs Data Let_def)
    qed
  next
    case Again
    with "1.IH"(2) [OF len evs Again] "1.prems" len show ?thesis
      by (subst read_loop.simps) (auto simp: evs)
  next
    case Eof
    with len show ?thesis by (subst read_loop.simps) (simp add: evs)
  qed (use "1.prems" in \<open>auto simp: evs\<close>)
qed

section \<open>The interface between frames and connections\<close>

locale exact_reader =
  fixes read :: "'s \<Rightarrow> nat \<Rightarrow> (bytes result \<times> 's) option"
    and live :: "'s \<Rightarrow> bool"
    and avail :: "'s \<Rightarrow> bytes"
    and closing :: "'s \<Rightarrow> bool"
  assumes read_enough: "live s \<Longrightarrow> len \<le> length (avail s) \<Longrightarrow>
      \<exists>s'. read s len = Some (Ok (take len (avail s)), s') \<and> live s' \<and>
        avail s' = drop len (avail s) \<and> (closing s' \<longleftrightarrow> closing s)"
    and read_short: "live s \<Longrightarrow> length (avail s) < len \<Longrightarrow> closing s \<Longrightarrow>
      \<exists>e s'. read s len = Some (Err e, s') \<and> (e = ''eof'' \<longleftrightarrow> avail s = [])"
begin

lemma read_header:
  assumes "live s" and "avail s = StoreU32 t @ StoreU32 l @ rest"
  shows "\<exists>header s'. read s 8 = Some (Ok header, s') \<and> LoadU32 header = t \<and> LoadU32 (drop 4 header) = l \<and>
    live s' \<and> avail s' = rest \<and> (closing s' \<longleftrightarrow> closing s)"
proof -
  have "avail s = (be32 t @ be32 l) @ rest" using assms(2) by (simp add: StoreU32_def)
  with read_enough [OF assms(1), of 8] obtain s' where
    "read s 8 = Some (Ok (be32 t @ be32 l), s')" "live s'" "avail s' = rest" "closing s' \<longleftrightarrow> closing s"
    by auto
  moreover have "LoadU32 (be32 t @ be32 l) = t" "LoadU32 (drop 4 (be32 t @ be32 l)) = l"
    by (simp_all add: LoadU32_def be32_def un_be32_be32)
  ultimately show ?thesis by blast
qed

lemma frame_read:
  assumes "live s" and "avail s = frame_header t p @ p @ rest" and "length p \<le> 1048576"
  shows "\<exists>s'. read_frame read s = Some (Ok (t, p), s') \<and> live s' \<and> avail s' = rest"
proof -
  let ?l = "word_of_nat (length p) :: u32"
  have l: "unat ?l = length p" using assms(3) by (intro unat_u32_of_nat) simp
  have a: "avail s = StoreU32 t @ StoreU32 ?l @ (p @ rest)" using assms(2) by (simp add: frame_header_def)
  from read_header [OF assms(1) a] obtain h s1 where
    h: "read s 8 = Some (Ok h, s1)" "LoadU32 h = t" "LoadU32 (drop 4 h) = ?l" "live s1" "avail s1 = p @ rest"
    by blast
  have "\<not> kMaxFramePayloadBytes < ?l" using l assms(3) by (simp add: word_less_nat_alt)
  moreover have "0 < ?l \<longleftrightarrow> p \<noteq> []" using l by (simp add: word_less_nat_alt)
  ultimately show ?thesis
    using h l read_enough [OF h(4), of "length p"] by (auto simp: read_frame_def Let_def)
qed

lemma frame_oversized:
  assumes "live s" and "avail s = StoreU32 t @ StoreU32 l @ rest" and "1048576 < unat l"
  shows "\<exists>s'. read_frame read s = Some (Err ''frame payload too large'', s') \<and> avail s' = rest"
  using read_header [OF assms(1,2)] assms(3)
  by (auto simp: read_frame_def Let_def word_less_nat_alt)

lemma frame_at_close:
  assumes "live s" and "avail s = []" and "closing s"
  shows "\<exists>s'. read_frame read s = Some (Err ''eof'', s')"
  using read_short [OF assms(1) _ assms(3), of 8] assms(2) by (auto simp: read_frame_def)

lemma torn_frame:
  assumes "live s" and "avail s = StoreU32 t @ StoreU32 l @ part" and "length part < unat l"
    and "unat l \<le> 1048576" and "closing s"
  shows "\<exists>e s'. read_frame read s = Some (Err e, s') \<and> (e = ''eof'' \<longleftrightarrow> part = [])"
proof -
  from read_header [OF assms(1,2)] obtain h s1 where
    h: "read s 8 = Some (Ok h, s1)" "LoadU32 h = t" "LoadU32 (drop 4 h) = l" "live s1" "avail s1 = part"
    "closing s1" using assms(5) by blast
  have "\<not> kMaxFramePayloadBytes < l" "0 < l" using assms(3,4) by (auto simp: word_less_nat_alt)
  with h read_short [OF h(4), of "unat l"] assms(3) show ?thesis
    by (auto simp: read_frame_def Let_def)
qed

end

locale exact_writer =
  fixes wr :: "'s \<Rightarrow> bytes \<Rightarrow> (unit result \<times> bytes \<times> 's) option"
  assumes write_ok: "wr s d = Some (Ok (), sent, s') \<Longrightarrow> sent = d"
begin

lemma frame_written:
  "write_frame wr s t p = Some (Ok (), sent, s') \<Longrightarrow>
   sent = frame_header t p @ p \<and> length p \<le> 1048576"
  by (auto simp: write_frame_def not_less split: if_splits option.splits result.splits dest!: write_ok)

lemma oversized_not_written:
  "length p > 1048576 \<Longrightarrow> write_frame wr s t p = Some (Err ''frame payload too large'', [], s)"
  by (simp add: write_frame_def)

end

interpretation plain: exact_reader ReadExact "\<lambda>_. True" stream "\<lambda>evs. stream_end evs = Some Eof"
proof
  show "\<exists>evs'. ReadExact evs len = Some (Ok (take len (stream evs)), evs') \<and> True \<and>
      stream evs' = drop len (stream evs) \<and> (stream_end evs' = Some Eof \<longleftrightarrow> stream_end evs = Some Eof)"
    if "len \<le> length (stream evs)" for evs len
    using read_loop_enough [of len "[]" evs] that by (fastforce simp: ReadExact_def)
  show "\<exists>e evs'. ReadExact evs len = Some (Err e, evs') \<and> (e = ''eof'' \<longleftrightarrow> stream evs = [])"
    if "length (stream evs) < len" "stream_end evs = Some Eof" for evs len
  proof -
    from read_loop_short [of "[]" evs len] that obtain evs' where
      "ReadExact evs len =
        Some (Err (if stream evs = [] then ''eof'' else ''socket closed mid-frame''), evs')"
      by (auto simp: ReadExact_def)
    then show ?thesis by simp
  qed
qed

definition tls_stream :: "recv_event list option \<Rightarrow> bytes" where
  "tls_stream ssl = (case ssl of None \<Rightarrow> [] | Some evs \<Rightarrow> stream evs)"

definition tls_closing :: "recv_event list option \<Rightarrow> bool" where
  "tls_closing ssl \<longleftrightarrow> (case ssl of None \<Rightarrow> False | Some evs \<Rightarrow> stream_end evs = Some Eof)"

interpretation tls: exact_reader ReadExactTls "\<lambda>ssl. ssl \<noteq> None" tls_stream tls_closing
proof
  show "\<exists>s'. ReadExactTls s len = Some (Ok (take len (tls_stream s)), s') \<and> s' \<noteq> None \<and>
      tls_stream s' = drop len (tls_stream s) \<and> (tls_closing s' \<longleftrightarrow> tls_closing s)"
    if "s \<noteq> None" "len \<le> length (tls_stream s)" for s len
  proof -
    from that(1) obtain evs where [simp]: "s = Some evs" by blast
    from read_loop_enough [of len "[]" evs] that(2) obtain evs' where
      "read_loop ''TLS connection closed mid-frame'' ''SSL_read failed: '' evs len [] =
        Some (Ok (take len (stream evs)), evs')"
      "stream evs' = drop len (stream evs)" "stream_end evs' = stream_end evs"
      by (fastforce simp: tls_stream_def)
    then show ?thesis by (simp add: ReadExactTls_def tls_stream_def tls_closing_def)
  qed
  show "\<exists>e s'. ReadExactTls s len = Some (Err e, s') \<and> (e = ''eof'' \<longleftrightarrow> tls_stream s = [])"
    if "s \<noteq> None" "length (tls_stream s) < len" "tls_closing s" for s len
  proof -
    from that(1) obtain evs where [simp]: "s = Some evs" by blast
    from read_loop_short [of "[]" evs len] that(2,3) obtain evs' where
      "read_loop ''TLS connection closed mid-frame'' ''SSL_read failed: '' evs len [] =
        Some (Err (if stream evs = [] then ''eof'' else ''TLS connection closed mid-frame''), evs')"
      by (auto simp: tls_stream_def tls_closing_def)
    then show ?thesis by (simp add: ReadExactTls_def tls_stream_def)
  qed
qed

lemma write_loop_ok: "write_loop f evs d = Some (Ok (), sent, evs') \<Longrightarrow> sent = d"
  by (induction f evs d arbitrary: sent rule: write_loop.induct) auto

interpretation plain_out: exact_writer WriteExact
  by unfold_locales (auto simp: WriteExact_def dest: write_loop_ok)

interpretation tls_out: exact_writer WriteExactTls
  by unfold_locales (auto simp: WriteExactTls_def split: option.splits dest: write_loop_ok)

section \<open>Theorems\<close>

text \<open>
C38. A frame that WriteFrame reports as written is read back by ReadFrame from any
segmentation of the byte stream, with interruptions, and the reader stops exactly behind it.
\<close>

theorem frame_roundtrip:
  assumes "WriteFrame out t p = Some (Ok (), sent, out')" and "stream evs = sent @ rest"
  shows "\<exists>evs'. ReadFrame evs = Some (Ok (t, p), evs') \<and> stream evs' = rest"
  using plain_out.frame_written [OF assms(1) [unfolded WriteFrame_def]] assms(2)
    plain.frame_read [of evs t p rest]
  by (auto simp: ReadFrame_def)

theorem frame_roundtrip_tls:
  assumes "WriteFrameTls out t p = Some (Ok (), sent, out')" and "stream evs = sent @ rest"
  shows "\<exists>evs'. ReadFrameTls (Some evs) = Some (Ok (t, p), Some evs') \<and> stream evs' = rest"
  using tls_out.frame_written [OF assms(1) [unfolded WriteFrameTls_def]] assms(2)
    tls.frame_read [of "Some evs" t p rest]
  by (auto simp: ReadFrameTls_def tls_stream_def)

theorem write_refuses_oversized:
  assumes "length p > unat kMaxFramePayloadBytes"
  shows "WriteFrame out t p = Some (Err ''frame payload too large'', [], out)"
  using assms by (simp add: WriteFrame_def plain_out.oversized_not_written)

theorem read_refuses_oversized:
  assumes "stream evs = StoreU32 t @ StoreU32 l @ rest" and "unat kMaxFramePayloadBytes < unat l"
  shows "\<exists>evs'. ReadFrame evs = Some (Err ''frame payload too large'', evs') \<and> stream evs' = rest"
  unfolding ReadFrame_def using assms by (intro plain.frame_oversized) auto

theorem torn_frame_reported_as_eof:
  assumes "stream evs = StoreU32 t @ StoreU32 l @ part" and "stream_end evs = Some Eof"
    and "length part < unat l" and "unat l \<le> unat kMaxFramePayloadBytes"
  shows "\<exists>e evs'. ReadFrame evs = Some (Err e, evs') \<and> (e = ''eof'' \<longleftrightarrow> part = [])"
  unfolding ReadFrame_def using assms by (intro plain.torn_frame) auto

text \<open>A connection that delivers a frame byte by byte, with interruptions.\<close>

definition demo_events :: "recv_event list" where
  "demo_events = [Data [0, 0], Again, Data [0, 3, 0, 0, 0], Data [2, 65], Again, Data [66, 9], Eof]"

lemmas demo_write_defs = WriteFrame_def WriteFrameTls_def write_frame_def WriteExact_def
  WriteExactTls_def frame_header_def StoreU32_def be32_def byte_of_def

lemma demo_write:
  "WriteFrame [Sent 3, SendAgain, Sent 100, Sent 0, Sent 1, Sent 1] 3 [65, 66] =
     Some (Ok (), [0, 0, 0, 3, 0, 0, 0, 2, 65, 66], [])"
  by (simp add: demo_write_defs)

theorem frame_roundtrip_witness:
  "\<exists>evs'. ReadFrame demo_events = Some (Ok (3, [65, 66]), evs') \<and> stream evs' = [9]"
  by (rule frame_roundtrip [OF demo_write]) (simp add: demo_events_def)

theorem frame_roundtrip_tls_witness:
  "\<exists>evs'. ReadFrameTls (Some demo_events) = Some (Ok (3, [65, 66]), Some evs') \<and> stream evs' = [9]"
proof -
  have "WriteFrameTls (Some [Sent 3, SendAgain, Sent 100, Sent 1, Sent 1]) 3 [65, 66] =
      Some (Ok (), [0, 0, 0, 3, 0, 0, 0, 2, 65, 66], Some [])"
    by (simp add: demo_write_defs)
  then show ?thesis by (rule frame_roundtrip_tls) (simp add: demo_events_def)
qed

theorem write_refuses_oversized_witness:
  "WriteFrame [Sent 8] 0 (replicate 1048577 0) = Some (Err ''frame payload too large'', [], [Sent 8])"
  by (rule write_refuses_oversized) (simp add: kMaxFramePayloadBytes_def)

theorem read_refuses_oversized_witness:
  "\<exists>evs'. ReadFrame [Data [0, 0, 0, 3, 0, 32, 0, 0]] = Some (Err ''frame payload too large'', evs') \<and>
     stream evs' = []"
  by (rule read_refuses_oversized [where t = 3 and l = "0x200000"])
    (simp_all add: kMaxFramePayloadBytes_def StoreU32_def be32_def byte_of_def)

theorem torn_frame_reported_as_eof_witness:
  "\<exists>e evs'. ReadFrame [Data [0, 0, 0, 3, 0, 0, 0, 2], Eof] = Some (Err e, evs') \<and> e = ''eof''"
  using torn_frame_reported_as_eof [of "[Data [0, 0, 0, 3, 0, 0, 0, 2], Eof]" 3 2 "[]"]
  by (simp add: StoreU32_def be32_def byte_of_def)

end
