(* ===== verification/Tcp_Server.thy ===== *)
theory Tcp_Server
  imports In_Memory_Server Tcp_Wire
begin

text \<open>
  The TCP front end, \<^verbatim>\<open>src/server/tcp_server.cpp\<close>: the rate limits before authentication and
  \<^verbatim>\<open>HandleConnection\<close>, one definition per command. The store behind it is any implementation of
  the interface \<open>IServerApi\<close>; the theorems are about the in-memory one. A connection ends when
  the reader reports an error. Responses are the frames handed to \<^verbatim>\<open>WriteFrame\<close>, whose result
  the source ignores.
\<close>

section \<open>Rate limits before authentication\<close>

record PreAuthRateLimitConfig =
  rl_window_seconds :: u64
  rl_register_per_addr :: nat
  rl_register_per_addr_user :: nat
  rl_auth_begin_per_addr :: nat
  rl_auth_begin_per_addr_user :: nat
  rl_auth_finish_per_addr :: nat
  rl_auth_finish_per_addr_user :: nat
  rl_register_global :: nat
  rl_auth_begin_global :: nat
  rl_auth_finish_global :: nat

definition default_rate_limits :: PreAuthRateLimitConfig where
  "default_rate_limits =
     \<lparr>rl_window_seconds = 60, rl_register_per_addr = 20, rl_register_per_addr_user = 10,
      rl_auth_begin_per_addr = 60, rl_auth_begin_per_addr_user = 30,
      rl_auth_finish_per_addr = 60, rl_auth_finish_per_addr_user = 30,
      rl_register_global = 200, rl_auth_begin_global = 800, rl_auth_finish_global = 800\<rparr>"

record TcpServer =
  preauth_register_by_addr :: buckets
  preauth_register_by_addr_user :: buckets
  preauth_auth_begin_by_addr :: buckets
  preauth_auth_begin_by_addr_user :: buckets
  preauth_auth_finish_by_addr :: buckets
  preauth_auth_finish_by_addr_user :: buckets
  preauth_register_global :: bucket
  preauth_auth_begin_global :: bucket
  preauth_auth_finish_global :: bucket

definition TcpServer_init :: TcpServer where
  "TcpServer_init =
     \<lparr>preauth_register_by_addr = Map.empty, preauth_register_by_addr_user = Map.empty,
      preauth_auth_begin_by_addr = Map.empty, preauth_auth_begin_by_addr_user = Map.empty,
      preauth_auth_finish_by_addr = Map.empty, preauth_auth_finish_by_addr_user = Map.empty,
      preauth_register_global = [], preauth_auth_begin_global = [], preauth_auth_finish_global = []\<rparr>"

datatype TcpCommand = kPublishBundle | kAcquireBundle | kEnqueueEnvelope | kDrainInbox
  | kRegisterTransportIdentity | kAuthBegin | kAuthFinish | kLogout

primrec command_code :: "TcpCommand \<Rightarrow> u32" where
  "command_code kPublishBundle = 1"
| "command_code kAcquireBundle = 2"
| "command_code kEnqueueEnvelope = 3"
| "command_code kDrainInbox = 4"
| "command_code kRegisterTransportIdentity = 5"
| "command_code kAuthBegin = 6"
| "command_code kAuthFinish = 7"
| "command_code kLogout = 8"

datatype TcpStatus = kOk | kError

primrec status_code :: "TcpStatus \<Rightarrow> u32" where
  "status_code kOk = 0"
| "status_code kError = 1"

text \<open>\<^verbatim>\<open>CheckAndRecord(&map[key], ...)\<close>: the bucket is looked up, created if absent, updated.\<close>

definition check_keyed ::
    "buckets \<Rightarrow> string \<Rightarrow> u64 \<Rightarrow> u64 \<Rightarrow> nat \<Rightarrow> string \<Rightarrow> unit result \<times> buckets" where
  "check_keyed m key now window_seconds limit error_text =
     (let (r, b) = CheckAndRecord (bucket_of key m) now window_seconds limit error_text
      in (r, m(key \<mapsto> b)))"

definition is_preauth :: "u32 \<Rightarrow> bool" where
  "is_preauth command \<longleftrightarrow> command = command_code kRegisterTransportIdentity \<or>
     command = command_code kAuthBegin \<or> command = command_code kAuthFinish"

definition trim_by_addr :: "u64 \<Rightarrow> u64 \<Rightarrow> TcpServer \<Rightarrow> TcpServer" where
  "trim_by_addr now w st =
     st\<lparr>preauth_register_by_addr := trim_buckets now w (preauth_register_by_addr st),
        preauth_auth_begin_by_addr := trim_buckets now w (preauth_auth_begin_by_addr st),
        preauth_auth_finish_by_addr := trim_buckets now w (preauth_auth_finish_by_addr st),
        preauth_register_global := TrimWindow now w (preauth_register_global st),
        preauth_auth_begin_global := TrimWindow now w (preauth_auth_begin_global st),
        preauth_auth_finish_global := TrimWindow now w (preauth_auth_finish_global st)\<rparr>"

definition EnforcePreAuthRateLimit ::
    "PreAuthRateLimitConfig \<Rightarrow> TcpServer \<Rightarrow> u64 \<Rightarrow> u32 \<Rightarrow> string \<Rightarrow> unit result \<times> TcpServer" where
  "EnforcePreAuthRateLimit cfg st now command peer_addr =
     (if \<not> is_preauth command then (Ok (), st)
      else let w = rl_window_seconds cfg; st = trim_by_addr now w st
      in if command = command_code kRegisterTransportIdentity then
           (let (r, m) = check_keyed (preauth_register_by_addr st) peer_addr now w
                  (rl_register_per_addr cfg) ''register rate limit exceeded (source address)'';
                st = st\<lparr>preauth_register_by_addr := m\<rparr>
            in case r of
                 Err e \<Rightarrow> (Err e, st)
               | Ok _ \<Rightarrow>
                   (let (r, b) = CheckAndRecord (preauth_register_global st) now w
                          (rl_register_global cfg) ''register rate limit exceeded (global)''
                    in (r, st\<lparr>preauth_register_global := b\<rparr>)))
         else if command = command_code kAuthBegin then
           (let (r, m) = check_keyed (preauth_auth_begin_by_addr st) peer_addr now w
                  (rl_auth_begin_per_addr cfg) ''auth begin rate limit exceeded (source address)'';
                st = st\<lparr>preauth_auth_begin_by_addr := m\<rparr>
            in case r of
                 Err e \<Rightarrow> (Err e, st)
               | Ok _ \<Rightarrow>
                   (let (r, b) = CheckAndRecord (preauth_auth_begin_global st) now w
                          (rl_auth_begin_global cfg) ''auth begin rate limit exceeded (global)''
                    in (r, st\<lparr>preauth_auth_begin_global := b\<rparr>)))
         else
           (let (r, m) = check_keyed (preauth_auth_finish_by_addr st) peer_addr now w
                  (rl_auth_finish_per_addr cfg) ''auth finish rate limit exceeded (source address)'';
                st = st\<lparr>preauth_auth_finish_by_addr := m\<rparr>
            in case r of
                 Err e \<Rightarrow> (Err e, st)
               | Ok _ \<Rightarrow>
                   (let (r, b) = CheckAndRecord (preauth_auth_finish_global st) now w
                          (rl_auth_finish_global cfg) ''auth finish rate limit exceeded (global)''
                    in (r, st\<lparr>preauth_auth_finish_global := b\<rparr>))))"

definition IsValidUserIdForRateLimit :: "string \<Rightarrow> bool" where
  "IsValidUserIdForRateLimit user_id \<longleftrightarrow>
     (if user_id = [] \<or> length user_id > 64 then False else list_all user_id_char user_id)"

definition EnforcePreAuthUserRateLimit ::
    "PreAuthRateLimitConfig \<Rightarrow> TcpServer \<Rightarrow> u64 \<Rightarrow> u32 \<Rightarrow> string \<Rightarrow> string \<Rightarrow>
     unit result \<times> TcpServer" where
  "EnforcePreAuthUserRateLimit cfg st now command peer_addr user_id =
     (if \<not> is_preauth command \<or> \<not> IsValidUserIdForRateLimit user_id then (Ok (), st)
      else let w = rl_window_seconds cfg;
               key = peer_addr @ ''|'' @ user_id;
               reg = trim_buckets now w (preauth_register_by_addr_user st);
               beg = trim_buckets now w (preauth_auth_begin_by_addr_user st);
               fin = trim_buckets now w (preauth_auth_finish_by_addr_user st);
               st = st\<lparr>preauth_register_by_addr_user := reg, preauth_auth_begin_by_addr_user := beg,
                       preauth_auth_finish_by_addr_user := fin\<rparr>
      in if command = command_code kRegisterTransportIdentity then
           (let (r, m) = check_keyed reg key now w (rl_register_per_addr_user cfg)
                  ''register rate limit exceeded (source+user)''
            in (r, st\<lparr>preauth_register_by_addr_user := m\<rparr>))
         else if command = command_code kAuthBegin then
           (let (r, m) = check_keyed beg key now w (rl_auth_begin_per_addr_user cfg)
                  ''auth begin rate limit exceeded (source+user)''
            in (r, st\<lparr>preauth_auth_begin_by_addr_user := m\<rparr>))
         else
           (let (r, m) = check_keyed fin key now w (rl_auth_finish_per_addr_user cfg)
                  ''auth finish rate limit exceeded (source+user)''
            in (r, st\<lparr>preauth_auth_finish_by_addr_user := m\<rparr>)))"

section \<open>Commands\<close>

type_synonym response = "u32 \<times> bytes"

definition ok_response :: "bytes \<Rightarrow> response" where
  "ok_response payload = (status_code kOk, payload)"

definition send_error :: "string \<Rightarrow> response" where
  "send_error e =
     (status_code kError, (case SerializeString e of Ok bs \<Rightarrow> bs | Err _ \<Rightarrow> []))"

text \<open>\<^verbatim>\<open>if (!r.ok()) { send_error(r.error()); continue; }\<close>\<close>

definition or_error :: "'a result \<Rightarrow> ('a \<Rightarrow> response \<times> 's) \<Rightarrow> 's \<Rightarrow> response \<times> 's" where
  "or_error r k s = (case r of Err e \<Rightarrow> (send_error e, s) | Ok v \<Rightarrow> k v)"

lemma or_error_simps [simp]:
  "or_error (Ok v) k s = k v"
  "or_error (Err e) k s = (send_error e, s)"
  by (simp_all add: or_error_def)

text \<open>The values the clock and the random generator give while one frame is handled.\<close>

record frame_env =
  fe_now_addr :: u64
  fe_now_user :: u64
  fe_auth :: call_env
  fe_call :: call_env

definition handle_register ::
    "'s IServerApi \<Rightarrow> PreAuthRateLimitConfig \<Rightarrow> frame_env \<Rightarrow> string \<Rightarrow> u32 \<Rightarrow> bytes \<Rightarrow>
     TcpServer \<times> 's \<Rightarrow> response \<times> TcpServer \<times> 's" where
  "handle_register api cfg env peer_addr command payload w =
     or_error (DeserializeRegisterRequest payload) (\<lambda>request.
       let (user_limit, st) = EnforcePreAuthUserRateLimit cfg (fst w) (fe_now_user env) command
             peer_addr (rr_user_id request)
       in or_error user_limit (\<lambda>_.
            let (status, s) = api_RegisterTransportIdentity api (fe_call env) (snd w) request
            in or_error status (\<lambda>_. (ok_response [], st, s)) (st, s)) (st, snd w)) w"

definition handle_auth_begin ::
    "'s IServerApi \<Rightarrow> PreAuthRateLimitConfig \<Rightarrow> frame_env \<Rightarrow> string \<Rightarrow> u32 \<Rightarrow> bytes \<Rightarrow>
     TcpServer \<times> 's \<Rightarrow> response \<times> TcpServer \<times> 's" where
  "handle_auth_begin api cfg env peer_addr command payload w =
     or_error (DeserializeAuthBeginRequest payload) (\<lambda>request.
       let (user_limit, st) = EnforcePreAuthUserRateLimit cfg (fst w) (fe_now_user env) command
             peer_addr (abq_user_id request)
       in or_error user_limit (\<lambda>_.
            let (response, s) = api_BeginTransportAuthentication api (fe_call env) (snd w) request
            in or_error response (\<lambda>r.
                 or_error (SerializeAuthBeginResponse r) (\<lambda>encoded.
                   (ok_response encoded, st, s)) (st, s)) (st, s)) (st, snd w)) w"

definition handle_auth_finish ::
    "'s IServerApi \<Rightarrow> PreAuthRateLimitConfig \<Rightarrow> frame_env \<Rightarrow> string \<Rightarrow> u32 \<Rightarrow> bytes \<Rightarrow>
     TcpServer \<times> 's \<Rightarrow> response \<times> TcpServer \<times> 's" where
  "handle_auth_finish api cfg env peer_addr command payload w =
     or_error (DeserializeAuthFinishRequest payload) (\<lambda>request.
       let (user_limit, st) = EnforcePreAuthUserRateLimit cfg (fst w) (fe_now_user env) command
             peer_addr (afq_user_id request)
       in or_error user_limit (\<lambda>_.
            let (response, s) = api_FinishTransportAuthentication api (fe_call env) (snd w) request
            in or_error response (\<lambda>r.
                 or_error (SerializeAuthFinishResponse r) (\<lambda>encoded.
                   (ok_response encoded, st, s)) (st, s)) (st, s)) (st, snd w)) w"

text \<open>The commands of an authenticated session work on the store only.\<close>

definition handle_logout ::
    "'s IServerApi \<Rightarrow> frame_env \<Rightarrow> bytes \<Rightarrow> 's \<Rightarrow> response \<times> 's" where
  "handle_logout api env session_token s =
     (let (revoked, s) = api_RevokeSessionToken api (fe_call env) s session_token
      in or_error revoked (\<lambda>_. (ok_response [], s)) s)"

definition handle_publish ::
    "'s IServerApi \<Rightarrow> frame_env \<Rightarrow> string \<Rightarrow> bytes \<Rightarrow> 's \<Rightarrow> response \<times> 's" where
  "handle_publish api env session_user inner_payload s =
     or_error (DeserializePrekeyBundle inner_payload) (\<lambda>bundle.
       if pb_user_id bundle \<noteq> session_user
       then (send_error ''publish user_id mismatch with authenticated session'', s)
       else let (status, s) = api_PublishBundle api (fe_call env) s bundle
         in or_error status (\<lambda>_. (ok_response [], s)) s) s"

definition handle_acquire ::
    "'s IServerApi \<Rightarrow> frame_env \<Rightarrow> bytes \<Rightarrow> 's \<Rightarrow> response \<times> 's" where
  "handle_acquire api env inner_payload s =
     or_error (DeserializeString inner_payload) (\<lambda>user.
       let (bundle, s) = api_AcquireBundleForSession api (fe_call env) s user
       in or_error bundle (\<lambda>b.
            or_error (SerializePrekeyBundle b) (\<lambda>encoded. (ok_response encoded, s)) s) s) s"

text \<open>The sender and recipient an envelope names; \<open>None\<close> when its payload is missing.\<close>

definition envelope_parties :: "Envelope \<Rightarrow> (string \<times> string) option" where
  "envelope_parties e =
     (case (env_type e, env_initial e, env_chat e) of
        (kInitial, Some m, _) \<Rightarrow> Some (im_from_user m, im_to_user m)
      | (kChat, _, Some m) \<Rightarrow> Some (cm_from_user m, cm_to_user m)
      | _ \<Rightarrow> None)"

definition handle_enqueue ::
    "'s IServerApi \<Rightarrow> frame_env \<Rightarrow> string \<Rightarrow> bytes \<Rightarrow> 's \<Rightarrow> response \<times> 's" where
  "handle_enqueue api env session_user inner_payload s =
     or_error (DeserializeEnqueueRequest inner_payload) (\<lambda>request.
       case envelope_parties (eq_envelope request) of
         None \<Rightarrow> (send_error ''invalid envelope sender'', s)
       | Some (sender, recipient) \<Rightarrow>
           if sender \<noteq> session_user
           then (send_error ''envelope sender mismatch with authenticated session'', s)
           else if recipient \<noteq> eq_user_id request
           then (send_error ''envelope recipient mismatch with enqueue target'', s)
           else let (status, s) = api_EnqueueEnvelope api (fe_call env) s (eq_user_id request)
                      (eq_envelope request)
             in or_error status (\<lambda>_. (ok_response [], s)) s) s"

definition handle_drain ::
    "'s IServerApi \<Rightarrow> frame_env \<Rightarrow> string \<Rightarrow> bytes \<Rightarrow> 's \<Rightarrow> response \<times> 's" where
  "handle_drain api env session_user inner_payload s =
     or_error (DeserializeDrainInboxRequest inner_payload) (\<lambda>drain_request.
       if dr_user_id drain_request \<noteq> session_user
       then (send_error ''drain user_id mismatch with authenticated session'', s)
       else let (envelopes, s) = api_DrainInbox api (fe_call env) s session_user
                  (dr_ack_up_to_inbox_id drain_request)
         in or_error envelopes (\<lambda>xs.
              or_error (SerializeInboxEnvelopeVector xs) (\<lambda>encoded. (ok_response encoded, s)) s) s) s"

definition handle_authenticated ::
    "'s IServerApi \<Rightarrow> frame_env \<Rightarrow> u32 \<Rightarrow> bytes \<Rightarrow> 's \<Rightarrow> response \<times> 's" where
  "handle_authenticated api env command payload s =
     or_error (DeserializeAuthenticatedPayload payload) (\<lambda>ap.
       let (session_user, s) = api_AuthenticateSessionToken api (fe_auth env) s (ap_session_token ap)
       in or_error session_user (\<lambda>user.
         if command = command_code kLogout then handle_logout api env (ap_session_token ap) s
         else if command = command_code kPublishBundle then handle_publish api env user (ap_payload ap) s
         else if command = command_code kAcquireBundle then handle_acquire api env (ap_payload ap) s
         else if command = command_code kEnqueueEnvelope then handle_enqueue api env user (ap_payload ap) s
         else if command = command_code kDrainInbox then handle_drain api env user (ap_payload ap) s
         else (send_error ''unknown command'', s)) s) s"

text \<open>One turn of the loop of \<^verbatim>\<open>HandleConnection\<close>, after a frame was read.\<close>

definition handle_frame ::
    "'s IServerApi \<Rightarrow> PreAuthRateLimitConfig \<Rightarrow> frame_env \<Rightarrow> string \<Rightarrow> u32 \<Rightarrow> bytes \<Rightarrow>
     TcpServer \<times> 's \<Rightarrow> response \<times> TcpServer \<times> 's" where
  "handle_frame api cfg env peer_addr command payload w =
     (let (preauth_limit, st) = EnforcePreAuthRateLimit cfg (fst w) (fe_now_addr env) command peer_addr;
          w = (st, snd w)
      in or_error preauth_limit (\<lambda>_.
           if command = command_code kRegisterTransportIdentity
           then handle_register api cfg env peer_addr command payload w
           else if command = command_code kAuthBegin
           then handle_auth_begin api cfg env peer_addr command payload w
           else if command = command_code kAuthFinish
           then handle_auth_finish api cfg env peer_addr command payload w
           else let (r, s) = handle_authenticated api env command payload (snd w) in (r, st, s)) w)"

section \<open>Connections\<close>

text \<open>The reader of the connection, with or without TLS, on the events it still holds.\<close>

definition read_conn :: "bool \<Rightarrow> recv_event list \<Rightarrow> ((u32 \<times> bytes) result \<times> recv_event list) option" where
  "read_conn tls evs =
     (if tls then map_option (map_prod id (\<lambda>s. case s of None \<Rightarrow> [] | Some es \<Rightarrow> es)) (ReadFrameTls (Some evs))
      else ReadFrame evs)"

datatype conn_end = Returned "unit result" | Waiting

lemma read_loop_size:
  "read_loop m f evs len out = Some (Ok bs, evs') \<Longrightarrow>
   events_size evs' + (if length out < len then 1 else 0) \<le> events_size evs"
proof (induction m f evs len out rule: read_loop.induct)
  case (1 m f evs len out)
  note res = "1.prems" [unfolded read_loop.simps [of m f evs len out]]
  show ?case
  proof (cases "length out \<ge> len")
    case True
    with res show ?thesis by simp
  next
    case False
    with res obtain e es where evs: "evs = e # es" by (cases evs) auto
    show ?thesis
    proof (cases e)
      case (Data b)
      let ?n = "min (length b) (len - length out)"
      let ?evs = "if ?n = length b then es else Data (drop ?n b) # es"
      have b: "b \<noteq> []" using res False by (auto simp: evs Data)
      have r: "read_loop m f ?evs len (out @ take ?n b) = Some (Ok bs, evs')"
        using res False b by (simp add: evs Data Let_def)
      have "events_size ?evs < events_size evs" using b False by (auto simp: evs Data min_def)
      with "1.IH"(1) [OF False evs Data b refl r] False show ?thesis by (simp split: if_splits)
    next
      case Again
      with "1.IH"(2) [OF False evs Again] res False show ?thesis by (simp add: evs)
    qed (use res False in \<open>auto simp: evs\<close>)
  qed
qed

lemma read_frame_size:
  assumes "\<And>s n h s'. read s n = Some (Ok h, s') \<Longrightarrow> sz s' + (if 0 < n then 1 else 0) \<le> (sz s :: nat)"
    and "read_frame read s = Some (Ok f, s')"
  shows "sz s' < sz s"
  using assms(2)
  by (auto simp: read_frame_def Let_def split: option.splits result.splits if_splits
      dest!: assms(1) intro: le_less_trans)

lemma read_conn_size: "read_conn tls evs = Some (Ok f, evs') \<Longrightarrow> events_size evs' < events_size evs"
proof (cases tls)
  case True
  let ?size = "\<lambda>s. events_size (case s of None \<Rightarrow> [] | Some es \<Rightarrow> es)"
  assume "read_conn tls evs = Some (Ok f, evs')"
  with True obtain s' where r: "read_frame ReadExactTls (Some evs) = Some (Ok f, s')"
    and evs': "evs' = (case s' of None \<Rightarrow> [] | Some es \<Rightarrow> es)"
    by (auto simp: read_conn_def ReadFrameTls_def)
  have "?size s' < ?size (Some evs)"
    using _ r
    by (rule read_frame_size [where sz = ?size and read = ReadExactTls])
      (auto simp: ReadExactTls_def split: option.splits dest!: read_loop_size)
  with evs' show ?thesis by simp
next
  case False
  assume "read_conn tls evs = Some (Ok f, evs')"
  with False have r: "read_frame ReadExact evs = Some (Ok f, evs')" by (simp add: read_conn_def ReadFrame_def)
  show ?thesis
    using _ r
    by (rule read_frame_size [where sz = events_size and read = ReadExact])
      (auto simp: ReadExact_def dest!: read_loop_size)
qed

text \<open>
  \<^verbatim>\<open>HandleConnection\<close>: what it returns (or that it waits for the peer), the responses in order
  and the final state. The \<open>i\<close>-th frame is handled under \<open>envs i\<close>.
\<close>

function HandleConnection ::
    "'s IServerApi \<Rightarrow> PreAuthRateLimitConfig \<Rightarrow> (nat \<Rightarrow> frame_env) \<Rightarrow> nat \<Rightarrow> bool \<Rightarrow> string \<Rightarrow>
     recv_event list \<Rightarrow> TcpServer \<times> 's \<Rightarrow> conn_end \<times> response list \<times> TcpServer \<times> 's" where
  "HandleConnection api cfg envs i tls peer_addr evs w =
     (case read_conn tls evs of
        None \<Rightarrow> (Waiting, [], w)
      | Some (Err e, _) \<Rightarrow> (Returned (if e = ''eof'' then Ok () else Err e), [], w)
      | Some (Ok (command, payload), evs') \<Rightarrow>
          (let (response, w) = handle_frame api cfg (envs i) peer_addr command payload w;
               (final, responses, w) = HandleConnection api cfg envs (Suc i) tls peer_addr evs' w
           in (final, response # responses, w)))"
  by pat_completeness auto

termination HandleConnection
  by (relation "measure (\<lambda>(_, _, _, _, _, _, evs, _). events_size evs)")
    (auto dest: read_conn_size)

declare HandleConnection.simps [simp del]

section \<open>The two limiters agree\<close>

lemma check_keyed_eq: "check_keyed m k now w lim e = EnforceRateLimit m k now lim w e"
  by (simp add: check_keyed_def EnforceRateLimit_def CheckAndRecord_def Let_def)

lemma IsValidUserIdForRateLimit_eq: "IsValidUserIdForRateLimit u = IsValidUserId u"
  by (simp add: IsValidUserIdForRateLimit_def IsValidUserId_def kMaxUserIdBytes_def)

definition register_attempt :: "PreAuthRateLimitConfig \<Rightarrow> string \<Rightarrow> u64 \<Rightarrow> buckets \<Rightarrow> bool \<times> buckets" where
  "register_attempt cfg addr now m =
     (let r = check_keyed (trim_buckets now (rl_window_seconds cfg) m) addr now (rl_window_seconds cfg)
            (rl_register_per_addr cfg) ''register rate limit exceeded (source address)''
      in (ok (fst r), snd r))"

interpretation register_limiter: rate_limiter "register_attempt cfg"
    "\<lambda>now. trim_buckets now (rl_window_seconds cfg)" bucket_of
    "rl_register_per_addr cfg" "rl_window_seconds cfg" for cfg
  by unfold_locales (auto simp: register_attempt_def check_keyed_eq EnforceRateLimit_def Let_def)

text \<open>A sequence of frames as the limiter sees them: time, command, source address.\<close>

type_synonym arrival = "u64 \<times> u32 \<times> string"

fun register_admitted :: "PreAuthRateLimitConfig \<Rightarrow> string \<Rightarrow> arrival list \<Rightarrow> TcpServer \<Rightarrow> u64 list" where
  "register_admitted cfg a [] st = []"
| "register_admitted cfg a ((now, command, addr) # as) st =
     (let (r, st') = EnforcePreAuthRateLimit cfg st now command addr
      in (if command = command_code kRegisterTransportIdentity \<and> addr = a \<and> r = Ok () then [now] else []) @
         register_admitted cfg a as st')"

fun arrival_events :: "arrival list \<Rightarrow> (string option \<times> u64) list" where
  "arrival_events [] = []"
| "arrival_events ((now, command, addr) # as) =
     (if command = command_code kRegisterTransportIdentity then [(Some addr, now)]
      else if is_preauth command then [(None, now)] else []) @ arrival_events as"

lemma enforce_register:
  "EnforcePreAuthRateLimit cfg st now (command_code kRegisterTransportIdentity) addr = (r, st') \<Longrightarrow>
   preauth_register_by_addr st' = snd (register_attempt cfg addr now (preauth_register_by_addr st)) \<and>
   (r = Ok () \<longrightarrow> fst (register_attempt cfg addr now (preauth_register_by_addr st)))"
  by (auto simp: EnforcePreAuthRateLimit_def is_preauth_def register_attempt_def trim_by_addr_def
      check_keyed_eq EnforceRateLimit_def CheckAndRecord_def Let_def split: if_splits result.splits)

lemma enforce_other:
  "command \<noteq> command_code kRegisterTransportIdentity \<Longrightarrow>
   preauth_register_by_addr (snd (EnforcePreAuthRateLimit cfg st now command addr)) =
     (if is_preauth command then trim_buckets now (rl_window_seconds cfg) (preauth_register_by_addr st)
      else preauth_register_by_addr st)"
  by (auto simp: EnforcePreAuthRateLimit_def trim_by_addr_def Let_def case_prod_beta
      split: result.splits)

lemma register_admitted_le:
  "length (filter P (register_admitted cfg a as st)) \<le>
   length (filter P (register_limiter.accepted cfg a (arrival_events as) (preauth_register_by_addr st)))"
proof (induction "as" arbitrary: st)
  case (Cons x "as")
  obtain now command addr where x: "x = (now, command, addr)" by (cases x)
  obtain r st' where e: "EnforcePreAuthRateLimit cfg st now command addr = (r, st')" by force
  show ?case
  proof (cases "command = command_code kRegisterTransportIdentity")
    case True
    with enforce_register [of cfg st now addr r st'] e Cons [of st'] show ?thesis
      by (auto simp: x Let_def le_SucI)
  next
    case False
    with enforce_other [OF False, of cfg st now addr] e Cons [of st'] show ?thesis
      by (auto simp: x)
  qed
qed simp

theorem registrations_per_address_bounded:
  assumes "sorted (map snd (arrival_events as))"
    and "\<forall>x\<in>set (arrival_events as). no_wrap (rl_window_seconds cfg) (snd x)"
  shows "length (in_window (rl_window_seconds cfg) p (register_admitted cfg a as TcpServer_init)) \<le>
    rl_register_per_addr cfg"
proof -
  have "length (in_window (rl_window_seconds cfg) p
      (register_limiter.accepted cfg a (arrival_events as) (preauth_register_by_addr TcpServer_init))) \<le>
      rl_register_per_addr cfg"
    using assms by (intro register_limiter.at_most_limit_per_window) (simp_all add: TcpServer_init_def)
  then show ?thesis using register_admitted_le unfolding in_window_def by (rule le_trans [rotated])
qed

section \<open>What a frame may change in the store\<close>

abbreviation "im_api ssl \<equiv> in_memory_api ssl"

text \<open>The user as whom a frame is authenticated.\<close>

definition session_of :: "InMemoryServer \<Rightarrow> frame_env \<Rightarrow> bytes \<Rightarrow> string option" where
  "session_of s env payload =
     (case DeserializeAuthenticatedPayload payload of
        Err _ \<Rightarrow> None
      | Ok ap \<Rightarrow>
          (case fst (AuthenticateSessionToken s (env_now (fe_auth env)) (ap_session_token ap)) of
             Ok u \<Rightarrow> Some u | Err _ \<Rightarrow> None))"

text \<open>The parts of the store that calls of the authentication protocol leave alone.\<close>

definition same_mail :: "InMemoryServer \<Rightarrow> InMemoryServer \<Rightarrow> bool" where
  "same_mail s s' \<longleftrightarrow> bundles s' = bundles s \<and> inbox s' = inbox s \<and>
     next_inbox_id_by_user s' = next_inbox_id_by_user s"

lemma same_mail_refl [simp]: "same_mail s s"
  by (simp add: same_mail_def)

lemma same_mail_cleanup [simp]: "same_mail s (CleanupAuthState now s)"
  by (simp add: same_mail_def)

lemma same_mail_calls:
  "same_mail s (snd (RegisterTransportIdentity ssl s r))"
  "same_mail s (snd (BeginTransportAuthentication s now ri rn bq))"
  "same_mail s (snd (FinishTransportAuthentication ssl s now rt fq))"
  "same_mail s (snd (AuthenticateSessionToken s now tok))"
  "same_mail s (snd (RevokeSessionToken s tok))"
proof -
  show "same_mail s (snd (RegisterTransportIdentity ssl s r))"
    using register_frame(1-3) [of ssl s r] by (simp add: same_mail_def prod_eq_iff)
  show "same_mail s (snd (BeginTransportAuthentication s now ri rn bq))"
    by (simp add: same_mail_def begin_defs)
  show "same_mail s (snd (FinishTransportAuthentication ssl s now rt fq))"
    by (simp add: same_mail_def finish_defs split: option.splits)
  show "same_mail s (snd (AuthenticateSessionToken s now tok))"
    "same_mail s (snd (RevokeSessionToken s tok))"
    by (auto simp: same_mail_def other_defs split: option.splits)
qed

lemmas api_simps = in_memory_api_def IServerApi.simps

lemma preauth_same_mail:
  "same_mail (snd w) (snd (snd (handle_register (im_api ssl) cfg env peer command payload w)))"
  "same_mail (snd w) (snd (snd (handle_auth_begin (im_api ssl) cfg env peer command payload w)))"
  "same_mail (snd w) (snd (snd (handle_auth_finish (im_api ssl) cfg env peer command payload w)))"
  unfolding handle_register_def handle_auth_begin_def handle_auth_finish_def or_error_def api_simps
  by (auto simp: case_prod_beta Let_def same_mail_calls split: result.splits)

text \<open>An authenticated frame runs one of the five commands on the store after authentication.\<close>

lemma handle_authenticated_cases:
  assumes "handle_authenticated (im_api ssl) env command payload s = (r, s')"
  obtains (rejected) "session_of s env payload = None" "same_mail s s'"
  | (run) ap u s1 where "DeserializeAuthenticatedPayload payload = Ok ap"
      "session_of s env payload = Some u" "same_mail s s1" "length (ap_session_token ap) = 32"
      "(r, s') = (if command = command_code kLogout then handle_logout (im_api ssl) env (ap_session_token ap) s1
         else if command = command_code kPublishBundle then handle_publish (im_api ssl) env u (ap_payload ap) s1
         else if command = command_code kAcquireBundle then handle_acquire (im_api ssl) env (ap_payload ap) s1
         else if command = command_code kEnqueueEnvelope then handle_enqueue (im_api ssl) env u (ap_payload ap) s1
         else if command = command_code kDrainInbox then handle_drain (im_api ssl) env u (ap_payload ap) s1
         else (send_error ''unknown command'', s1))"
proof (cases "DeserializeAuthenticatedPayload payload")
  case (Err e)
  with assms show ?thesis by (intro rejected) (auto simp: handle_authenticated_def session_of_def)
next
  case (Ok ap)
  let ?auth = "AuthenticateSessionToken s (env_now (fe_auth env)) (ap_session_token ap)"
  have s1: "same_mail s (snd ?auth)" by (rule same_mail_calls)
  show ?thesis
  proof (cases "fst ?auth")
    case (Err e)
    with assms Ok s1 show ?thesis
      by (intro rejected) (auto simp: handle_authenticated_def session_of_def api_simps case_prod_beta)
  next
    fix u assume u: "fst ?auth = result.Ok u"
    then have "length (ap_session_token ap) = 32"
      by (simp add: authenticate_iff_session kExpectedSessionTokenBytes_def)
    with assms Ok s1 u show ?thesis
      by (intro run [of ap u "snd ?auth"])
        (auto simp: handle_authenticated_def session_of_def api_simps case_prod_beta)
  qed
qed

lemma handle_frame_split:
  assumes "handle_frame (im_api ssl) cfg env peer command payload (t, s) = (r, t', s')"
  shows "same_mail s s' \<or>
    (\<not> is_preauth command \<and> handle_authenticated (im_api ssl) env command payload s = (r, s'))"
proof (cases "is_preauth command")
  case True
  then show ?thesis
    using assms preauth_same_mail [of "(_, s)"]
    unfolding handle_frame_def is_preauth_def or_error_def
    by (auto simp: Let_def case_prod_beta prod_eq_iff split: result.splits if_splits)
next
  case False
  then have "fst (EnforcePreAuthRateLimit cfg t (fe_now_addr env) command peer) = Ok ()"
    by (simp add: EnforcePreAuthRateLimit_def)
  with False assms show ?thesis
    by (auto simp: handle_frame_def Let_def case_prod_beta is_preauth_def prod_eq_iff)
qed

lemma handle_enqueue_effect:
  assumes "handle_enqueue (im_api ssl) env u payload s = (r, s')"
  shows "s' = s \<or> (\<exists>q. DeserializeEnqueueRequest payload = Ok q \<and>
    envelope_parties (eq_envelope q) = Some (u, eq_user_id q) \<and>
    s' = snd (EnqueueEnvelope s (eq_user_id q) (eq_envelope q)))"
  using assms
  by (auto simp: handle_enqueue_def or_error_def api_simps case_prod_beta EnqueueEnvelope_def Let_def
      split: result.splits option.splits if_splits)

lemma handle_drain_effect:
  assumes "handle_drain (im_api ssl) env u payload s = (r, s')"
  shows "(s' = s \<and> fst r = status_code kError) \<or> (\<exists>ack. s' = snd (DrainInbox s u ack) \<and>
    (fst r = status_code kOk \<longrightarrow> (\<exists>xs. fst (DrainInbox s u ack) = Ok xs \<and>
      SerializeInboxEnvelopeVector xs = Ok (snd r))))"
proof (cases "DeserializeDrainInboxRequest payload")
  case (Err e)
  with assms show ?thesis by (auto simp: handle_drain_def send_error_def)
next
  case (Ok q)
  show ?thesis
  proof (cases "dr_user_id q = u")
    case False
    with assms Ok show ?thesis by (auto simp: handle_drain_def send_error_def)
  next
    case True
    let ?d = "DrainInbox s u (dr_ack_up_to_inbox_id q)"
    have "(r, s') = or_error (fst ?d) (\<lambda>xs.
        or_error (SerializeInboxEnvelopeVector xs) (\<lambda>encoded. (ok_response encoded, snd ?d)) (snd ?d)) (snd ?d)"
      using assms Ok True by (simp add: handle_drain_def api_simps case_prod_beta)
    then have "s' = snd ?d \<and> (fst r = status_code kOk \<longrightarrow> (\<exists>xs. fst ?d = result.Ok xs \<and>
        SerializeInboxEnvelopeVector xs = result.Ok (snd r)))"
      by (auto simp: or_error_def ok_response_def send_error_def split: result.splits)
    then show ?thesis by blast
  qed
qed

lemma PublishBundle_Err: "PublishBundle ssl s b = (Err e, s') \<Longrightarrow> s' = s"
  by (simp add: PublishBundle_def split: result.splits if_splits)

lemma handle_publish_effect:
  assumes "handle_publish (im_api ssl) env u payload s = (r, s')"
  shows "s' = s \<or> (\<exists>b. DeserializePrekeyBundle payload = Ok b \<and> pb_user_id b = u \<and>
    PublishBundle ssl s b = (Ok (), s'))"
proof (cases "DeserializePrekeyBundle payload")
  case (Err e)
  with assms show ?thesis by (simp add: handle_publish_def)
next
  case (Ok b)
  obtain x s1 where x: "PublishBundle ssl s b = (x, s1)" by force
  show ?thesis
  proof (cases x)
    case (Err e)
    with assms Ok x PublishBundle_Err show ?thesis
      by (auto simp: handle_publish_def api_simps split: if_splits)
  qed (use assms Ok x in \<open>auto simp: handle_publish_def api_simps split: if_splits\<close>)
qed

lemma acquire_takes_a_pair:
  assumes "bundles (snd (AcquireBundleForSession s w)) v \<noteq> bundles s v"
  shows "\<exists>b ec ecs pq pqs.
    bundles s v = Some \<lparr>base_bundle = b, one_time_ec_pool = ec # ecs, one_time_pq_pool = pq # pqs\<rparr> \<and>
    bundles (snd (AcquireBundleForSession s w)) v =
      Some \<lparr>base_bundle = b, one_time_ec_pool = ecs, one_time_pq_pool = pqs\<rparr>"
proof (cases "bundles s w")
  case None
  with assms show ?thesis by (simp add: AcquireBundleForSession_def)
next
  case (Some store)
  obtain b ecs pqs where store: "store = \<lparr>base_bundle = b, one_time_ec_pool = ecs, one_time_pq_pool = pqs\<rparr>"
    by (cases store)
  with assms Some show ?thesis
    by (cases ecs; cases pqs) (auto simp: AcquireBundleForSession_def Let_def split: if_splits)
qed

lemma handle_acquire_effect:
  assumes "handle_acquire (im_api ssl) env payload s = (r, s')"
  shows "s' = s \<or> (\<exists>v. s' = snd (AcquireBundleForSession s v))"
  using assms
  by (auto simp: handle_acquire_def or_error_def api_simps case_prod_beta split: result.splits)

lemma handle_logout_mail:
  "handle_logout (im_api ssl) env tok s = (r, s') \<Longrightarrow> same_mail s s'"
  using same_mail_calls(5) [of s tok]
  by (auto simp: handle_logout_def or_error_def api_simps case_prod_beta split: result.splits)

lemma mail_keeps_bundles:
  "handle_logout (im_api ssl) env tok s = (r, s') \<Longrightarrow> bundles s' = bundles s"
  "handle_enqueue (im_api ssl) env u payload s = (r, s') \<Longrightarrow> bundles s' = bundles s"
  "handle_drain (im_api ssl) env u payload s = (r, s') \<Longrightarrow> bundles s' = bundles s"
proof -
  have calls: "bundles (snd (EnqueueEnvelope s x y)) = bundles s"
    "bundles (snd (DrainInbox s x z)) = bundles s" for x y z
    by (auto simp: EnqueueEnvelope_def DrainInbox_def Let_def split: option.splits)
  show "handle_logout (im_api ssl) env tok s = (r, s') \<Longrightarrow> bundles s' = bundles s"
    by (auto dest!: handle_logout_mail simp: same_mail_def)
  show "handle_enqueue (im_api ssl) env u payload s = (r, s') \<Longrightarrow> bundles s' = bundles s"
    by (auto dest!: handle_enqueue_effect simp: calls)
  show "handle_drain (im_api ssl) env u payload s = (r, s') \<Longrightarrow> bundles s' = bundles s"
    by (auto dest!: handle_drain_effect simp: calls)
qed

lemma same_mail_pending:
  "same_mail s s' \<Longrightarrow> pending_envelopes s' = pending_envelopes s \<and> next_id s' = next_id s"
  by (auto simp: same_mail_def pending_envelopes_def next_id_def fun_eq_iff)

lemma acquire_keeps_inbox:
  "inbox (snd (AcquireBundleForSession s v)) = inbox s"
  by (auto simp: AcquireBundleForSession_def Let_def split: option.splits list.splits)

lemma publish_keeps_inbox: "PublishBundle ssl s b = (x, s') \<Longrightarrow> inbox s' = inbox s"
  by (auto simp: PublishBundle_def split: result.splits if_splits)

lemma inbox_pending: "inbox s' = inbox s \<Longrightarrow> pending_envelopes s' = pending_envelopes s"
  by (simp add: pending_envelopes_def fun_eq_iff)

lemma pending_drain_other:
  "v \<noteq> u \<Longrightarrow> pending_envelopes (snd (DrainInbox s u ack)) v = pending_envelopes s v"
  by (auto simp: DrainInbox_def pending_envelopes_def Let_def split: option.splits)

text \<open>
C4. A frame changes an inbox only with a valid session token: an enqueue appends one
envelope, under the next id, whose sender is the session user and whose recipient is the
owner of the inbox; a drain touches only the inbox of the session user.
\<close>

theorem inbox_changes_are_authorized:
  assumes "handle_frame (in_memory_api ssl) cfg env peer command payload (t, s) = (r, t', s')"
    and "pending_envelopes s' v \<noteq> pending_envelopes s v"
  shows "\<exists>u. session_of s env payload = Some u \<and>
    ((command = command_code kEnqueueEnvelope \<and>
      (\<exists>e. envelope_parties e = Some (u, v) \<and>
        pending_envelopes s' v =
          pending_envelopes s v @ [\<lparr>ie_inbox_id = next_id s v + 1, ie_envelope = e\<rparr>])) \<or>
     (command = command_code kDrainInbox \<and> v = u))"
proof -
  have "\<not> same_mail s s'" using assms(2) same_mail_pending by metis
  with handle_frame_split [OF assms(1)]
  have "handle_authenticated (im_api ssl) env command payload s = (r, s')" by blast
  then show ?thesis
  proof (cases rule: handle_authenticated_cases)
    case rejected
    with \<open>\<not> same_mail s s'\<close> show ?thesis by blast
  next
    case (run ap u s1)
    have p: "pending_envelopes s1 = pending_envelopes s" "next_id s1 = next_id s"
      using run(3) same_mail_pending by auto
    consider (logout) "same_mail s1 s'" | (other) "inbox s' = inbox s1"
      | (enq) "command = command_code kEnqueueEnvelope" "handle_enqueue (im_api ssl) env u (ap_payload ap) s1 = (r, s')"
      | (drain) "command = command_code kDrainInbox" "handle_drain (im_api ssl) env u (ap_payload ap) s1 = (r, s')"
      using run(5) handle_logout_mail handle_publish_effect handle_acquire_effect
        acquire_keeps_inbox publish_keeps_inbox
      by (metis (no_types, lifting) Pair_inject)
    then show ?thesis
    proof cases
      case logout
      with assms(2) p same_mail_pending show ?thesis by metis
    next
      case other
      with assms(2) p inbox_pending show ?thesis by metis
    next
      case enq
      have "s' \<noteq> s1" using assms(2) p(1) by metis
      with handle_enqueue_effect [OF enq(2)] obtain q :: EnqueueRequest where
        q: "envelope_parties (eq_envelope q) = Some (u, eq_user_id q)"
        "s' = snd (EnqueueEnvelope s1 (eq_user_id q) (eq_envelope q))" by blast
      with assms(2) p have "v = eq_user_id q" by (auto simp: enqueue_pending split: if_splits)
      with q run(2) enq(1) p show ?thesis by (auto simp: enqueue_pending)
    next
      case drain
      from handle_drain_effect [OF drain(2)] assms(2) p have "v = u" using pending_drain_other by metis
      with run(2) drain(1) show ?thesis by blast
    qed
  qed
qed

theorem bundle_changes_are_authorized:
  assumes "handle_frame (in_memory_api ssl) cfg env peer command payload (t, s) = (r, t', s')"
    and "bundles s' v \<noteq> bundles s v"
  shows "\<exists>u. session_of s env payload = Some u \<and>
    ((command = command_code kPublishBundle \<and> v = u \<and>
      (\<exists>b. pb_user_id b = u \<and> VerifyPrekeyBundleSignatures ssl b = Ok () \<and>
        bundles s' v = Some \<lparr>base_bundle = b, one_time_ec_pool = pb_one_time_ec b,
          one_time_pq_pool = pb_one_time_pq b\<rparr>)) \<or>
     (command = command_code kAcquireBundle \<and>
      (\<exists>b ec ecs pq pqs.
        bundles s v = Some \<lparr>base_bundle = b, one_time_ec_pool = ec # ecs, one_time_pq_pool = pq # pqs\<rparr> \<and>
        bundles s' v = Some \<lparr>base_bundle = b, one_time_ec_pool = ecs, one_time_pq_pool = pqs\<rparr>)))"
proof -
  have "\<not> same_mail s s'" using assms(2) by (auto simp: same_mail_def)
  with handle_frame_split [OF assms(1)]
  have "handle_authenticated (im_api ssl) env command payload s = (r, s')" by blast
  then show ?thesis
  proof (cases rule: handle_authenticated_cases)
    case rejected
    with \<open>\<not> same_mail s s'\<close> show ?thesis by blast
  next
    case (run ap u s1)
    have p: "bundles s1 = bundles s" using run(3) by (simp add: same_mail_def)
    consider (same) "bundles s' = bundles s1"
      | (pub) "command = command_code kPublishBundle" "handle_publish (im_api ssl) env u (ap_payload ap) s1 = (r, s')"
      | (acq) "command = command_code kAcquireBundle" "handle_acquire (im_api ssl) env (ap_payload ap) s1 = (r, s')"
      using run(5) mail_keeps_bundles [where s = s1 and r = r and s' = s']
      by (auto split: if_splits)
    then show ?thesis
    proof cases
      case same
      with assms(2) p show ?thesis by simp
    next
      case pub
      from handle_publish_effect [OF pub(2)] assms(2) p obtain b where
        b: "pb_user_id b = u" "PublishBundle ssl s1 b = (Ok (), s')" by auto
      with run(2) pub(1) assms(2) p show ?thesis
        by (auto simp: PublishBundle_def split: result.splits if_splits)
    next
      case acq
      from handle_acquire_effect [OF acq(2)] assms(2) p obtain w where
        "s' = snd (AcquireBundleForSession s1 w)" by auto
      with acquire_takes_a_pair [of s1 w v] run(2) acq(1) assms(2) p show ?thesis by auto
    qed
  qed
qed

theorem unauthenticated_frames_rejected:
  assumes "\<not> is_preauth command" and "session_of s env payload = None"
    and "handle_frame (in_memory_api ssl) cfg env peer command payload (t, s) = (r, t', s')"
  shows "fst r = status_code kError \<and> t' = t \<and> same_mail s s' \<and>
    transport_identities s' = transport_identities s"
proof -
  have e: "EnforcePreAuthRateLimit cfg t (fe_now_addr env) command peer = (Ok (), t)"
    using assms(1) by (simp add: EnforcePreAuthRateLimit_def)
  have "handle_authenticated (im_api ssl) env command payload s = (r, s') \<and> t' = t"
    using assms(1,3) e by (auto simp: handle_frame_def is_preauth_def case_prod_beta prod_eq_iff)
  with assms(2) same_mail_calls(4) show ?thesis
    by (auto simp: handle_authenticated_def session_of_def or_error_def api_simps case_prod_beta
        send_error_def AuthenticateSessionToken_def Let_def split: result.splits option.splits if_splits)
qed

section \<open>Responses fit into frames\<close>

text \<open>
  What reaches the store over TCP came in a frame of at most 1 MiB, inside an authenticated
  payload with a 32-byte token: there is room for the 48 bytes that a drain response adds.
\<close>

definition envelope_fits :: "Envelope \<Rightarrow> bool" where
  "envelope_fits e \<longleftrightarrow> Envelope_ok e \<and> length (Envelope_bytes e) + 48 \<le> 1048576"

definition bundle_fits :: "BundleStore \<Rightarrow> bool" where
  "bundle_fits store \<longleftrightarrow>
     length (PrekeyBundle_bytes ((base_bundle store)\<lparr>pb_one_time_ec := [], pb_one_time_pq := []\<rparr>)) \<le> 1048576 \<and>
     (\<forall>ec\<in>set (one_time_ec_pool store). \<forall>pq\<in>set (one_time_pq_pool store).
        length (PrekeyBundle_bytes ((base_bundle store)\<lparr>pb_one_time_ec := [ec], pb_one_time_pq := [pq]\<rparr>)) \<le> 1048576)"

definition mail_fits :: "InMemoryServer \<Rightarrow> bool" where
  "mail_fits s \<longleftrightarrow>
     (\<forall>u. \<forall>i\<in>set (pending_envelopes s u). envelope_fits (ie_envelope i)) \<and>
     (\<forall>u store. bundles s u = Some store \<longrightarrow> bundle_fits store)"

definition response_fits :: "response \<Rightarrow> bool" where
  "response_fits r \<longleftrightarrow> fst r = status_code kError \<or> length (snd r) \<le> 1048576"

lemma mail_fits_init: "mail_fits (InMemoryServer_init token)"
  by (simp add: mail_fits_def InMemoryServer_init_def pending_envelopes_def)

lemma same_mail_fits: "same_mail s s' \<Longrightarrow> mail_fits s \<Longrightarrow> mail_fits s'"
  by (auto simp: mail_fits_def same_mail_def pending_envelopes_def)

lemma response_fits_simps [simp]: "response_fits (send_error e)" "response_fits (ok_response [])"
  by (simp_all add: response_fits_def send_error_def ok_response_def)

lemma length_Writer_simps [simp]:
  "length (Writer_U8 a) = 1" "length (Writer_U32 b) = 4" "length (Writer_U64 c) = 8"
  "length (Writer_Bytes d) = length d + 4" "length (Writer_String e) = length e + 4"
  by (simp_all add: Writer_U8_def Writer_U32_def Writer_U64_def Writer_Bytes_def Writer_String_def)

lemma authenticated_payload_size:
  "DeserializeAuthenticatedPayload payload = Ok ap \<Longrightarrow>
   length payload = length (ap_session_token ap) + length (ap_payload ap) + 8"
  by (auto simp: DeserializeAuthenticatedPayload_def authenticated_payload_codec.decode_whole_iff
      AuthenticatedPayload_bytes_def)

lemma enqueue_envelope_fits:
  "DeserializeEnqueueRequest inner = Ok q \<Longrightarrow> length inner + 40 \<le> 1048576 \<Longrightarrow> envelope_fits (eq_envelope q)"
  by (auto simp: DeserializeEnqueueRequest_iff EnqueueRequest_ok_def embedded_ok_def envelope_fits_def
      enqueue_fields_bytes_def)

lemma one_time_list_mono:
  "x \<in> set xs \<Longrightarrow> length (Writer_counted f [x]) \<le> length (Writer_counted f xs)"
  by (auto simp: Writer_counted_def dest!: split_list)

lemma published_bundle_fits:
  assumes "DeserializePrekeyBundle inner = Ok b" and "length inner \<le> 1048576"
  shows "bundle_fits \<lparr>base_bundle = b, one_time_ec_pool = pb_one_time_ec b, one_time_pq_pool = pb_one_time_pq b\<rparr>"
proof -
  have len: "length (PrekeyBundle_bytes b) \<le> 1048576"
    using assms by (auto simp: DeserializePrekeyBundle_def bundle_codec.decode_whole_iff)
  have "length (PrekeyBundle_bytes (b\<lparr>pb_one_time_ec := [], pb_one_time_pq := []\<rparr>)) \<le> length (PrekeyBundle_bytes b)"
    by (simp add: PrekeyBundle_bytes_def WriteOneTimeEc_def WriteOneTimePq_def Writer_counted_def)
  moreover have "length (PrekeyBundle_bytes (b\<lparr>pb_one_time_ec := [ec], pb_one_time_pq := [pq]\<rparr>)) \<le>
      length (PrekeyBundle_bytes b)"
    if "ec \<in> set (pb_one_time_ec b)" "pq \<in> set (pb_one_time_pq b)" for ec pq
    using one_time_list_mono [OF that(1), of Write_ote] one_time_list_mono [OF that(2), of Write_otp]
    by (simp add: PrekeyBundle_bytes_def WriteOneTimeEc_def WriteOneTimePq_def)
  ultimately show ?thesis using len by (auto simp: bundle_fits_def intro: le_trans)
qed

lemma drain_mail_fits: "mail_fits s \<Longrightarrow> mail_fits (snd (DrainInbox s u ack))"
proof -
  have "set (pending_envelopes (snd (DrainInbox s u ack)) v) \<subseteq> set (pending_envelopes s v)" for v
    by (auto simp: DrainInbox_def pending_envelopes_def Let_def split: option.splits if_splits
        dest: set_dropWhileD)
  moreover have "bundles (snd (DrainInbox s u ack)) = bundles s"
    by (simp add: DrainInbox_def Let_def split: option.splits)
  ultimately show "mail_fits s \<Longrightarrow> ?thesis" by (auto simp: mail_fits_def)
qed

lemma acquire_mail_fits:
  assumes "mail_fits s" shows "mail_fits (snd (AcquireBundleForSession s w))"
proof -
  have "bundle_fits store" if "bundles (snd (AcquireBundleForSession s w)) v = Some store" for v store
  proof (cases "bundles (snd (AcquireBundleForSession s w)) v = bundles s v")
    case True
    with assms that show ?thesis by (auto simp: mail_fits_def)
  next
    case False
    from acquire_takes_a_pair [OF False] that assms show ?thesis
      by (fastforce simp: mail_fits_def bundle_fits_def)
  qed
  with assms acquire_keeps_inbox show ?thesis by (auto simp: mail_fits_def pending_envelopes_def)
qed

lemma acquire_response_fits:
  assumes "mail_fits s" and "fst (AcquireBundleForSession s w) = Ok b"
  shows "length (PrekeyBundle_bytes b) \<le> 1048576"
proof (cases "bundles s w")
  case None
  with assms show ?thesis by (simp add: AcquireBundleForSession_def)
next
  case (Some store)
  with assms have "bundle_fits store" by (auto simp: mail_fits_def)
  with assms(2) Some show ?thesis
    by (auto simp: AcquireBundleForSession_def Let_def bundle_fits_def split: list.splits)
qed

lemma drain_response_size:
  assumes "\<forall>i\<in>set xs. envelope_fits (ie_envelope i)" and "batch_ok xs"
    and "SerializeInboxEnvelopeVector xs = Ok enc"
  shows "length enc \<le> 1048576"
proof -
  have "\<forall>i\<in>set xs. embedded_ok (ie_envelope i)"
    using assms(1) by (auto simp: envelope_fits_def embedded_ok_def field_ok_def)
  with assms(3) have enc: "length enc = 4 + length (concat (map inbox_item_bytes xs))"
    by (auto simp: SerializeInboxEnvelopeVector_def write_inbox_envelopes_ok)
  have "length (concat (map inbox_item_bytes xs)) \<le> batch_bytes xs"
    by (induction xs) (auto simp: batch_bytes_def inbox_item_bytes_def)
  moreover have "batch_bytes xs \<le> 1048576 - 32" if "length xs \<le> 1"
    using that assms(1) by (cases xs) (auto simp: batch_bytes_def envelope_fits_def)
  ultimately show ?thesis
    using assms(2) enc by (auto simp: batch_ok_def kMaxDrainInboxBatchBytes_def)
qed

lemma drain_result_subset:
  assumes "fst (DrainInbox s u ack) = Ok xs" shows "set xs \<subseteq> set (pending_envelopes s u)"
proof (cases "inbox s u")
  case None
  with assms show ?thesis by (simp add: DrainInbox_def)
next
  case (Some es)
  define es' where "es' = (case ack of None \<Rightarrow> es | Some a \<Rightarrow> dropWhile (\<lambda>e. en_inbox_id e \<le> a) es)"
  have sub: "set es' \<subseteq> set es" by (auto simp: es'_def split: option.splits dest: set_dropWhileD)
  have "drain_loop es' [] 0 = Ok xs" using assms Some by (simp add: DrainInbox_def es'_def Let_def)
  from drain_loop_prefix [OF this] obtain k where "xs = take k (map to_inbox_envelope es')" by auto
  with sub Some show ?thesis by (fastforce simp: pending_envelopes_def dest: in_set_takeD)
qed

lemma handle_authenticated_fits:
  assumes "handle_authenticated (im_api ssl) env command payload s = (r, s')"
    and fits: "mail_fits s" and len: "length payload \<le> 1048576"
  shows "mail_fits s' \<and> response_fits r"
  using assms(1)
proof (cases rule: handle_authenticated_cases)
  case rejected
  with assms(1) same_mail_fits [OF _ fits] show ?thesis
    by (auto simp: handle_authenticated_def session_of_def api_simps or_error_def case_prod_beta
        split: result.splits)
next
  case (run ap u s1)
  have s1: "mail_fits s1" using run(3) fits by (rule same_mail_fits)
  have inner: "length (ap_payload ap) + 40 \<le> 1048576"
    using authenticated_payload_size [OF run(1)] run(4) len by simp
  consider (logout) "handle_logout (im_api ssl) env (ap_session_token ap) s1 = (r, s')"
    | (pub) "handle_publish (im_api ssl) env u (ap_payload ap) s1 = (r, s')"
    | (acq) "handle_acquire (im_api ssl) env (ap_payload ap) s1 = (r, s')"
    | (enq) "handle_enqueue (im_api ssl) env u (ap_payload ap) s1 = (r, s')"
    | (drain) "handle_drain (im_api ssl) env u (ap_payload ap) s1 = (r, s')"
    | (unknown) "r = send_error ''unknown command''" "s' = s1"
    using run(5) by (auto split: if_splits)
  then show ?thesis
  proof cases
    case logout
    then have "mail_fits s'" using handle_logout_mail same_mail_fits s1 by blast
    moreover from logout have "response_fits r"
      by (auto simp: handle_logout_def or_error_def case_prod_beta split: result.splits)
    ultimately show ?thesis ..
  next
    case pub
    have "mail_fits s'"
      using handle_publish_effect [OF pub]
    proof (elim disjE exE conjE)
      fix b assume b: "DeserializePrekeyBundle (ap_payload ap) = Ok b" "PublishBundle ssl s1 b = (Ok (), s')"
      have "bundle_fits \<lparr>base_bundle = b, one_time_ec_pool = pb_one_time_ec b, one_time_pq_pool = pb_one_time_pq b\<rparr>"
        using b(1) inner by (intro published_bundle_fits) auto
      moreover have "pending_envelopes s' = pending_envelopes s1"
        using publish_keeps_inbox [OF b(2)] by (rule inbox_pending)
      ultimately show ?thesis
        using b(2) s1 by (auto simp: mail_fits_def PublishBundle_def split: if_splits result.splits)
    qed (simp add: s1)
    moreover from pub have "response_fits r"
      by (auto simp: handle_publish_def or_error_def case_prod_beta split: result.splits if_splits)
    ultimately show ?thesis ..
  next
    case acq
    have "mail_fits s'" using handle_acquire_effect [OF acq] acquire_mail_fits s1 by auto
    moreover from acq acquire_response_fits [OF s1] have "response_fits r"
      by (auto simp: handle_acquire_def or_error_def case_prod_beta api_simps SerializePrekeyBundle_def
          response_fits_def ok_response_def send_error_def split: result.splits if_splits)
    ultimately show ?thesis ..
  next
    case enq
    have "mail_fits s'"
      using handle_enqueue_effect [OF enq]
    proof (elim disjE exE conjE)
      fix q assume q: "DeserializeEnqueueRequest (ap_payload ap) = Ok q"
        "s' = snd (EnqueueEnvelope s1 (eq_user_id q) (eq_envelope q))"
      have "bundles s' = bundles s1" by (simp add: q(2) EnqueueEnvelope_def Let_def)
      with enqueue_envelope_fits [OF q(1) inner] s1 q(2) show ?thesis
        by (auto simp: mail_fits_def enqueue_pending)
    qed (simp add: s1)
    moreover from enq have "response_fits r"
      by (auto simp: handle_enqueue_def or_error_def case_prod_beta split: result.splits if_splits option.splits)
    ultimately show ?thesis ..
  next
    case drain
    from handle_drain_effect [OF drain] show ?thesis
    proof (elim disjE exE conjE)
      fix ack assume d: "s' = snd (DrainInbox s1 u ack)"
        "fst r = status_code kOk \<longrightarrow> (\<exists>xs. fst (DrainInbox s1 u ack) = Ok xs \<and>
          SerializeInboxEnvelopeVector xs = Ok (snd r))"
      have "length (snd r) \<le> 1048576" if "fst r = status_code kOk"
      proof -
        from d(2) that obtain xs where xs: "fst (DrainInbox s1 u ack) = Ok xs"
          "SerializeInboxEnvelopeVector xs = Ok (snd r)" by blast
        have "\<forall>i\<in>set xs. envelope_fits (ie_envelope i)"
          using drain_result_subset [OF xs(1)] s1 by (auto simp: mail_fits_def)
        from drain_response_size [OF this DrainInbox_batch_ok [OF xs(1)] xs(2)] show ?thesis .
      qed
      moreover have "fst r = status_code kOk \<or> fst r = status_code kError"
        using drain by (auto simp: handle_drain_def or_error_def case_prod_beta ok_response_def
            send_error_def split: result.splits if_splits)
      ultimately show ?thesis using d(1) drain_mail_fits [OF s1] by (auto simp: response_fits_def)
    qed (simp add: s1 response_fits_def)
  next
    case unknown
    with s1 show ?thesis by simp
  qed
qed

lemma auth_response_sizes:
  "fst (BeginTransportAuthentication s now ri rn bq) = Ok br \<Longrightarrow> length (AuthBeginResponse_bytes br) \<le> 1048576"
  "fst (FinishTransportAuthentication ssl s now rt fq) = Ok fr \<Longrightarrow> length (AuthFinishResponse_bytes fr) \<le> 1048576"
proof -
  have len: "length (RandomBytes 32 r) \<le> 32" "length (RandomHex 16 r) \<le> 32" for r
    by (auto simp: RandomHex_def RandomBytes_def Let_def split: option.splits)
  show "fst (BeginTransportAuthentication s now ri rn bq) = Ok br \<Longrightarrow> length (AuthBeginResponse_bytes br) \<le> 1048576"
    using len(2) [of ri] len(1) [of rn]
    by (auto simp: begin_defs AuthBeginResponse_bytes_def split: if_splits)
  show "fst (FinishTransportAuthentication ssl s now rt fq) = Ok fr \<Longrightarrow> length (AuthFinishResponse_bytes fr) \<le> 1048576"
    using len(1) [of rt]
    by (auto simp: finish_defs AuthFinishResponse_bytes_def split: if_splits option.splits)
qed

lemma handle_preauth_fits:
  "response_fits (fst (handle_register (im_api ssl) cfg env peer command payload w))"
  "response_fits (fst (handle_auth_begin (im_api ssl) cfg env peer command payload w))"
  "response_fits (fst (handle_auth_finish (im_api ssl) cfg env peer command payload w))"
  unfolding handle_register_def handle_auth_begin_def handle_auth_finish_def or_error_def api_simps
    SerializeAuthBeginResponse_def SerializeAuthFinishResponse_def
  by (auto simp: case_prod_beta response_fits_def ok_response_def send_error_def auth_response_sizes
      split: result.splits)

lemma handle_frame_fits:
  assumes "handle_frame (im_api ssl) cfg env peer command payload (t, s) = (r, t', s')"
    and "mail_fits s" and "length payload \<le> 1048576"
  shows "mail_fits s' \<and> response_fits r"
proof (cases "is_preauth command")
  case True
  have "response_fits (fst (handle_frame (im_api ssl) cfg env peer command payload (t, s)))"
    using True unfolding handle_frame_def is_preauth_def or_error_def
    by (auto simp: Let_def case_prod_beta handle_preauth_fits split: result.splits)
  then have "response_fits r" by (simp add: assms(1))
  moreover have "same_mail s s'" using handle_frame_split [OF assms(1)] True by blast
  ultimately show ?thesis using same_mail_fits assms(2) by blast
next
  case False
  then have "fst (EnforcePreAuthRateLimit cfg t (fe_now_addr env) command peer) = Ok ()"
    by (simp add: EnforcePreAuthRateLimit_def)
  with False assms(1) have "handle_authenticated (im_api ssl) env command payload s = (r, s')"
    by (auto simp: handle_frame_def Let_def case_prod_beta is_preauth_def prod_eq_iff)
  then show ?thesis using assms(2,3) by (rule handle_authenticated_fits)
qed

lemma read_loop_length:
  "read_loop m f evs len out = Some (Ok bs, evs') \<Longrightarrow> length out \<le> len \<Longrightarrow> length bs = len"
proof (induction m f evs len out rule: read_loop.induct)
  case (1 m f evs len out)
  note res = "1.prems"(1) [unfolded read_loop.simps [of m f evs len out]]
  show ?case
  proof (cases "length out \<ge> len")
    case True
    with res "1.prems"(2) show ?thesis by simp
  next
    case False
    with res obtain e es where evs: "evs = e # es" by (cases evs) auto
    show ?thesis
    proof (cases e)
      case (Data b)
      have b: "b \<noteq> []" using res False by (auto simp: evs Data)
      show ?thesis
        using "1.IH"(1) [OF False evs Data b refl] res False b by (auto simp: evs Data Let_def)
    next
      case Again
      with "1.IH"(2) [OF False evs Again] res "1.prems"(2) False show ?thesis by (simp add: evs)
    qed (use res False in \<open>auto simp: evs\<close>)
  qed
qed

lemma read_frame_payload:
  assumes "\<And>s n h s'. read s n = Some (Ok h, s') \<Longrightarrow> length h = n"
    and "read_frame read s = Some (Ok (c, p), s')"
  shows "length p \<le> 1048576"
  using assms(2)
  by (auto simp: read_frame_def Let_def word_less_nat_alt not_less
      split: option.splits result.splits if_splits dest!: assms(1))

lemma read_conn_payload: "read_conn tls evs = Some (Ok (c, p), evs') \<Longrightarrow> length p \<le> 1048576"
proof (cases tls)
  case True
  assume "read_conn tls evs = Some (Ok (c, p), evs')"
  with True obtain s' where "read_frame ReadExactTls (Some evs) = Some (Ok (c, p), s')"
    by (auto simp: read_conn_def ReadFrameTls_def)
  then show ?thesis
    by (rule read_frame_payload [where read = ReadExactTls, rotated])
      (auto simp: ReadExactTls_def split: option.splits dest!: read_loop_length)
next
  case False
  assume "read_conn tls evs = Some (Ok (c, p), evs')"
  with False have "read_frame ReadExact evs = Some (Ok (c, p), evs')"
    by (simp add: read_conn_def ReadFrame_def)
  then show ?thesis
    by (rule read_frame_payload [where read = ReadExact, rotated])
      (auto simp: ReadExact_def dest!: read_loop_length)
qed


section \<open>Concrete frames\<close>

text \<open>Alice, logged in as in \<open>demo_session\<close>, sends Bob an envelope and publishes a bundle.\<close>

definition demo_env :: frame_env where
  "demo_env = \<lparr>fe_now_addr = 120, fe_now_user = 120,
     fe_auth = \<lparr>env_now = 120, env_rnd1 = None, env_rnd2 = None\<rparr>,
     fe_call = \<lparr>env_now = 120, env_rnd1 = None, env_rnd2 = None\<rparr>\<rparr>"

definition demo_payload :: "bytes \<Rightarrow> bytes" where
  "demo_payload inner = AuthenticatedPayload_bytes \<lparr>ap_session_token = demo_token, ap_payload = inner\<rparr>"

definition demo_enqueue_bytes :: bytes where
  "demo_enqueue_bytes = enqueue_fields_bytes (''bob'', Envelope_bytes (FromChat demo_chat))"

definition demo_authenticated :: InMemoryServer where
  "demo_authenticated = snd (AuthenticateSessionToken demo_session 120 demo_token)"

lemma demo_payload_decodes:
  assumes "length inner \<le> 100000"
  shows "DeserializeAuthenticatedPayload (demo_payload inner) =
    Ok \<lparr>ap_session_token = demo_token, ap_payload = inner\<rparr>"
proof -
  have "length demo_token = 32" by (simp add: demo_token_def RandomBytes_def)
  with assms show ?thesis
    by (simp add: DeserializeAuthenticatedPayload_def authenticated_payload_codec.decode_whole_iff
        demo_payload_def AuthenticatedPayload_ok_def field_ok_def AuthenticatedPayload_bytes_def
        kMaxSerializedInputBytes_def)
qed

lemma demo_frame:
  assumes "\<not> is_preauth command" and "length inner \<le> 100000"
  shows "handle_frame (im_api toy_ssl) default_rate_limits demo_env ''10.0.0.1'' command
      (demo_payload inner) (TcpServer_init, demo_session) =
    (let (r, s) = handle_authenticated (im_api toy_ssl) demo_env command (demo_payload inner) demo_session
     in (r, TcpServer_init, s)) \<and>
    session_of demo_session demo_env (demo_payload inner) = Some ''alice''"
  using assms(1) demo_payload_decodes [OF assms(2)] demo_auth
  by (auto simp: handle_frame_def EnforcePreAuthRateLimit_def is_preauth_def session_of_def demo_env_def
      case_prod_beta)

lemma demo_enqueue_size: "length demo_enqueue_bytes \<le> 100000"
  by (simp add: demo_enqueue_bytes_def enqueue_fields_bytes_def Writer_OptionalBytes_def
      WriteChatMessage_def WriteMessageHeader_def demo_chat_def)

lemma demo_enqueue:
  "handle_frame (im_api toy_ssl) default_rate_limits demo_env ''10.0.0.1'' (command_code kEnqueueEnvelope)
     (demo_payload demo_enqueue_bytes) (TcpServer_init, demo_session) =
   (ok_response [], TcpServer_init, snd (EnqueueEnvelope demo_authenticated ''bob'' (FromChat demo_chat)))"
proof -
  have "DeserializeEnqueueRequest demo_enqueue_bytes =
      Ok \<lparr>eq_user_id = ''bob'', eq_envelope = FromChat demo_chat\<rparr>"
    using demo_enqueue_size
    by (simp add: DeserializeEnqueueRequest_iff demo_enqueue_bytes_def EnqueueRequest_ok_def string_ok_def
        embedded_ok_def ChatMessage_ok_def demo_chat_def MessageHeader_ok_def
        opt_field_ok_def field_ok_def kMaxSerializedInputBytes_def enqueue_fields_bytes_def)
  moreover have "envelope_parties (FromChat demo_chat) = Some (''alice'', ''bob'')"
    by (simp add: envelope_parties_def FromChat_def demo_chat_def)
  moreover have "fst (AuthenticateSessionToken demo_session 120 demo_token) = Ok ''alice''" by (rule demo_auth)
  ultimately show ?thesis
    using demo_frame [OF _ demo_enqueue_size, of "command_code kEnqueueEnvelope"]
      demo_payload_decodes [OF demo_enqueue_size]
    by (simp add: is_preauth_def handle_authenticated_def handle_enqueue_def demo_env_def api_simps
        case_prod_beta demo_authenticated_def EnqueueEnvelope_def Let_def)
qed

theorem inbox_changes_are_authorized_witness:
  "\<exists>u e. session_of demo_session demo_env (demo_payload demo_enqueue_bytes) = Some u \<and>
     envelope_parties e = Some (u, ''bob'')"
proof -
  have "pending_envelopes (snd (EnqueueEnvelope demo_authenticated ''bob'' (FromChat demo_chat))) ''bob'' \<noteq>
      pending_envelopes demo_session ''bob''"
    using same_mail_pending [OF same_mail_calls(4), of demo_session 120 demo_token]
    by (simp add: enqueue_pending demo_authenticated_def)
  from inbox_changes_are_authorized [OF demo_enqueue this] show ?thesis by auto
qed

definition demo_alice_bundle :: PrekeyBundle where
  "demo_alice_bundle = demo_bundle\<lparr>pb_user_id := ''alice''\<rparr>"

lemma demo_bundle_size: "length (PrekeyBundle_bytes demo_alice_bundle) \<le> 100000"
  by (simp add: PrekeyBundle_bytes_def demo_alice_bundle_def demo_bundle_def WriteSignedPrekeyEc_def
      WriteSignedPrekeyPq_def WriteOneTimeEc_def WriteOneTimePq_def Writer_counted_def Write_ote_def
      Write_otp_def kProtocolVersion_def kCipherSuite_def)

lemma demo_publish:
  "handle_frame (im_api toy_ssl) default_rate_limits demo_env ''10.0.0.1'' (command_code kPublishBundle)
     (demo_payload (PrekeyBundle_bytes demo_alice_bundle)) (TcpServer_init, demo_session) =
   (ok_response [], TcpServer_init, snd (PublishBundle toy_ssl demo_authenticated demo_alice_bundle))"
proof -
  have "DeserializePrekeyBundle (PrekeyBundle_bytes demo_alice_bundle) = Ok demo_alice_bundle"
    using demo_bundle_size
    by (simp add: DeserializePrekeyBundle_def bundle_codec.decode_whole_iff PrekeyBundle_ok_def
        kMaxSerializedInputBytes_def demo_alice_bundle_def demo_bundle_def string_ok_def field_ok_def
        SignedPrekeyEc_ok_def SignedPrekeyPq_ok_def one_time_ec_ok_def one_time_pq_ok_def
        kProtocolVersion_def kCipherSuite_def)
  moreover have "fst (PublishBundle toy_ssl demo_authenticated demo_alice_bundle) = Ok ()" by code_simp
  moreover have "pb_user_id demo_alice_bundle = ''alice''" by (simp add: demo_alice_bundle_def)
  ultimately show ?thesis
    using demo_frame [OF _ demo_bundle_size, of "command_code kPublishBundle"] demo_auth
      demo_payload_decodes [OF demo_bundle_size]
    by (simp add: is_preauth_def handle_authenticated_def handle_publish_def demo_env_def api_simps
        case_prod_beta demo_authenticated_def)
qed

theorem bundle_changes_are_authorized_witness:
  "\<exists>b. pb_user_id b = ''alice'' \<and> VerifyPrekeyBundleSignatures toy_ssl b = Ok ()"
proof -
  have "bundles demo_session ''alice'' = None" by code_simp
  moreover have "bundles (snd (PublishBundle toy_ssl demo_authenticated demo_alice_bundle)) ''alice'' \<noteq> None"
    by code_simp
  ultimately have "bundles (snd (PublishBundle toy_ssl demo_authenticated demo_alice_bundle)) ''alice'' \<noteq>
      bundles demo_session ''alice''" by simp
  from bundle_changes_are_authorized [OF demo_publish this] show ?thesis by auto
qed

theorem unauthenticated_frames_rejected_witness:
  "fst (fst (handle_frame (in_memory_api toy_ssl) default_rate_limits demo_env ''10.0.0.1'' 3 []
     (TcpServer_init, demo_session))) = status_code kError"
proof -
  have "\<not> is_preauth 3" by (simp add: is_preauth_def)
  moreover have "session_of demo_session demo_env [] = None"
  proof (cases "DeserializeAuthenticatedPayload []")
    case (Ok ap)
    from authenticated_payload_size [OF this] show ?thesis by simp
  qed (simp add: session_of_def)
  ultimately show ?thesis
    using unauthenticated_frames_rejected [of 3 demo_session demo_env "[]"] by (metis prod.collapse)
qed

theorem registrations_per_address_bounded_witness:
  "length (in_window 60 100 (register_admitted default_rate_limits ''10.0.0.1''
     [(100, 5, ''10.0.0.1''), (101, 6, ''10.0.0.2'')] TcpServer_init)) \<le> 20"
  using registrations_per_address_bounded [of "[(100, 5, ''10.0.0.1''), (101, 6, ''10.0.0.2'')]"
      default_rate_limits 100 "''10.0.0.1''"]
  by (simp add: default_rate_limits_def is_preauth_def no_wrap_def)


end
