(* ===== verification/Tcp_Client.thy ===== *)
theory Tcp_Client
  imports Tcp_Server
begin

text \<open>
  The client's side of the TCP transport: certificate pins (\<^verbatim>\<open>src/client/tls_pinning.cpp\<close>) and
  the class \<open>TcpServerApi\<close> (\<^verbatim>\<open>src/client/tcp_server_api.cpp\<close>), which offers the interface of
  the server and forwards every call as a frame over a connection it opens and logs in on demand.

  The state is the record \<open>TcpServerApi\<close> together with the peer, of any type \<open>'w\<close>, and the count
  of the values read from outside. What the operating system, the TLS library, the clock, the
  random generator and the peer return is the record \<open>network\<close>. An operation returns \<open>None\<close> when
  the C++ does not return: it waits for the peer, or it takes the value out of a \<^verbatim>\<open>Result\<close> that
  holds none (an error with an empty text).
\<close>

section \<open>Certificate pins\<close>

definition IsHex :: "char \<Rightarrow> bool" where
  "IsHex ch \<longleftrightarrow>
     (let c = (of_char ch :: nat)
      in (48 \<le> c \<and> c \<le> 57) \<or> (97 \<le> c \<and> c \<le> 102) \<or> (65 \<le> c \<and> c \<le> 70))"

definition HexValue_pin :: "char \<Rightarrow> int" where
  "HexValue_pin ch =
     (let c = (of_char ch :: int)
      in if 48 \<le> c \<and> c \<le> 57 then c - 48
         else if 97 \<le> c \<and> c \<le> 102 then 10 + (c - 97)
         else if 65 \<le> c \<and> c \<le> 70 then 10 + (c - 65)
         else -1)"

text \<open>Colon, dash, space, tab, newline, carriage return.\<close>

definition pin_separator :: "char \<Rightarrow> bool" where
  "pin_separator ch \<longleftrightarrow> (of_char ch :: nat) \<in> {58, 45, 32, 9, 10, 13}"

fun normalize_pin :: "string \<Rightarrow> string result" where
  "normalize_pin [] = Ok []"
| "normalize_pin (c # cs) =
     (if pin_separator c then normalize_pin cs
      else if \<not> IsHex c then Err ''pin contains non-hex characters''
      else rbind (normalize_pin cs) (\<lambda>normalized. Ok (c # normalized)))"

fun decode_pin :: "string \<Rightarrow> bytes result" where
  "decode_pin (h # l # rest) =
     (let hi = HexValue_pin h; lo = HexValue_pin l
      in if hi < 0 \<or> lo < 0 then Err ''invalid pin hex''
         else rbind (decode_pin rest) (\<lambda>out. Ok (word_of_int (push_bit 4 hi OR lo) # out)))"
| "decode_pin _ = Ok []"

definition ParseSha256PinHex :: "string \<Rightarrow> bytes result" where
  "ParseSha256PinHex pin_hex =
     rbind (normalize_pin pin_hex) (\<lambda>normalized.
       if length normalized \<noteq> 64
       then Err ''pin must be exactly 32-byte SHA-256 (64 hex chars)''
       else decode_pin normalized)"

text \<open>The loop over the pins; \<open>any_valid_pin\<close> is set once a pin was parsed.\<close>

fun check_pins :: "bytes \<Rightarrow> bool \<Rightarrow> string list \<Rightarrow> unit result" where
  "check_pins fingerprint any_valid_pin [] =
     (if \<not> any_valid_pin then Err ''no valid TLS pins configured''
      else Err ''server certificate pin mismatch'')"
| "check_pins fingerprint any_valid_pin (pin_hex # pins) =
     (case ParseSha256PinHex pin_hex of
        Err e \<Rightarrow> Err (''invalid configured TLS pin: '' @ e)
      | Ok pin \<Rightarrow>
          if length pin = length fingerprint \<and> pin = fingerprint then Ok ()
          else check_pins fingerprint True pins)"

definition VerifyPinnedSha256Fingerprint :: "bytes \<Rightarrow> string list \<Rightarrow> unit result" where
  "VerifyPinnedSha256Fingerprint fingerprint allowed_pins_hex =
     (if allowed_pins_hex = [] then Ok ()
      else if length fingerprint \<noteq> 32 then Err ''unexpected certificate fingerprint size''
      else check_pins fingerprint False allowed_pins_hex)"

section \<open>The connection\<close>

type_synonym u16 = "16 word"

record TlsClientConfig =
  tc_enabled :: bool
  tc_ca_file :: string
  tc_server_name :: string
  tc_client_cert_file :: string
  tc_client_key_file :: string
  tc_pinned_server_cert_sha256_hex :: "string list"

text \<open>
  What the TLS library is told before the handshake: the least version, whether the peer has to
  present a certificate that verifies, the trusted authorities (\<open>None\<close> for the default paths),
  the own certificate and key, and the name the certificate has to carry.
\<close>

datatype tls_name = NoName | IpName string | HostName string

record tls_params =
  tp_min_tls13 :: bool
  tp_verify_peer :: bool
  tp_ca_file :: "string option"
  tp_cert_file :: "string option"
  tp_key_file :: "string option"
  tp_verify_name :: tls_name

text \<open>
  An \<^verbatim>\<open>SSL*\<close>: the parameters it was set up with and, after the handshake, the SHA-256 digest of
  the certificate of the peer (\<open>Inl 0\<close> when there is none, \<open>Inl 1\<close> when the digest fails).
\<close>

record SSL =
  ssl_params :: tls_params
  ssl_connected :: bool
  ssl_peer_digest :: "nat + bytes"

text \<open>What the system and the library return while a connection is opened.\<close>

datatype attempt = NoSocket | Refused | Connected

record connect_env =
  ce_getaddrinfo :: "string \<Rightarrow> u16 \<Rightarrow> string + attempt list"
  ce_strerror :: string
  ce_ctx_new :: bool
  ce_min_version :: bool
  ce_default_paths :: bool
  ce_load_ca :: "string \<Rightarrow> bool"
  ce_use_cert :: "string \<Rightarrow> bool"
  ce_use_key :: "string \<Rightarrow> bool"
  ce_check_key :: bool
  ce_ssl_new :: bool
  ce_is_ip :: "string \<Rightarrow> bool"
  ce_set_ip :: bool
  ce_set_sni :: bool
  ce_set_host :: bool
  ce_handshake :: "tls_params \<Rightarrow> bool"
  ce_peer_digest :: "nat + bytes"
  ce_ssl_error :: "string option"

text \<open>A closed descriptor (\<^verbatim>\<open>fd_ = -1\<close>) is \<open>None\<close>; an open one holds what \<^verbatim>\<open>recv\<close> still returns.\<close>

record TcpServerApi =
  ta_host :: string
  ta_port :: u16
  ta_user_id :: string
  ta_transport_auth_public_key :: bytes
  ta_sign_fn :: "(entropy \<Rightarrow> bytes \<Rightarrow> bytes result) option"
  ta_registration_token :: string
  ta_tls_config :: TlsClientConfig
  ta_fd :: "recv_event list option"
  ta_tls_ctx :: "tls_params option"
  ta_tls_ssl :: "SSL option"
  ta_session_token :: bytes
  ta_session_expires_at_unix :: u64

definition TcpServerApi_init ::
    "string \<Rightarrow> u16 \<Rightarrow> string \<Rightarrow> bytes \<Rightarrow> (entropy \<Rightarrow> bytes \<Rightarrow> bytes result) option \<Rightarrow> string \<Rightarrow>
     TlsClientConfig \<Rightarrow> TcpServerApi" where
  "TcpServerApi_init host port user_id transport_auth_public_key sign_fn registration_token tls_config =
     \<lparr>ta_host = host, ta_port = port, ta_user_id = user_id,
      ta_transport_auth_public_key = transport_auth_public_key, ta_sign_fn = sign_fn,
      ta_registration_token = registration_token, ta_tls_config = tls_config,
      ta_fd = None, ta_tls_ctx = None, ta_tls_ssl = None,
      ta_session_token = [], ta_session_expires_at_unix = 0\<rparr>"

definition PeerCertificateSha256 :: "SSL option \<Rightarrow> bytes result" where
  "PeerCertificateSha256 ssl =
     (case ssl of
        None \<Rightarrow> Err ''SSL pointer is null''
      | Some s \<Rightarrow> run_calls [''server did not present a certificate'',
          ''failed computing server cert fingerprint''] (ssl_peer_digest s))"

fun connect_loop :: "string \<Rightarrow> attempt list \<Rightarrow> unit result" where
  "connect_loop errno_text [] = Err (''connect failed: '' @ errno_text)"
| "connect_loop errno_text (NoSocket # ais) = connect_loop errno_text ais"
| "connect_loop errno_text (Connected # ais) = Ok ()"
| "connect_loop errno_text (Refused # ais) = connect_loop errno_text ais"

definition ConnectTcp :: "connect_env \<Rightarrow> string \<Rightarrow> u16 \<Rightarrow> unit result" where
  "ConnectTcp env host port =
     (case ce_getaddrinfo env host port of
        Inl e \<Rightarrow> Err (''getaddrinfo failed: '' @ e)
      | Inr ais \<Rightarrow> connect_loop (ce_strerror env) ais)"

text \<open>\<^verbatim>\<open>ERR_get_error\<close> returns 0 (\<open>None\<close>) or the error whose text is used.\<close>

definition SslErrorString :: "connect_env \<Rightarrow> string" where
  "SslErrorString env =
     (case ce_ssl_error env of None \<Rightarrow> ''unknown SSL error'' | Some text \<Rightarrow> text)"

definition CreateClientTlsContext :: "connect_env \<Rightarrow> TlsClientConfig \<Rightarrow> tls_params result" where
  "CreateClientTlsContext env config =
     (let cert = tc_client_cert_file config; key = tc_client_key_file config; ca = tc_ca_file config
      in if \<not> ce_ctx_new env then Err (''SSL_CTX_new failed: '' @ SslErrorString env)
      else if \<not> ce_min_version env then Err (''failed to set TLS min version: '' @ SslErrorString env)
      else if ca = [] \<and> \<not> ce_default_paths env
      then Err (''failed to load default CA paths: '' @ SslErrorString env)
      else if ca \<noteq> [] \<and> \<not> ce_load_ca env ca
      then Err (''failed to load CA file: '' @ SslErrorString env)
      else if cert \<noteq> [] \<and> \<not> ce_use_cert env cert
      then Err (''failed to load TLS client certificate: '' @ SslErrorString env)
      else if key \<noteq> [] \<and> \<not> ce_use_key env key
      then Err (''failed to load TLS client key: '' @ SslErrorString env)
      else if (cert \<noteq> [] \<or> key \<noteq> []) \<and> \<not> ce_check_key env
      then Err ''TLS client key does not match certificate''
      else Ok \<lparr>tp_min_tls13 = True, tp_verify_peer = True,
               tp_ca_file = (if ca = [] then None else Some ca),
               tp_cert_file = (if cert = [] then None else Some cert),
               tp_key_file = (if key = [] then None else Some key),
               tp_verify_name = NoName\<rparr>)"

definition CloseConnection :: "TcpServerApi \<Rightarrow> TcpServerApi" where
  "CloseConnection a = a\<lparr>ta_tls_ssl := None, ta_tls_ctx := None, ta_fd := None\<rparr>"

text \<open>The part of \<^verbatim>\<open>EnsureConnected\<close> that sets the name to verify.\<close>

definition verify_name_of :: "TcpServerApi \<Rightarrow> string" where
  "verify_name_of a =
     (if tc_server_name (ta_tls_config a) = [] then ta_host a else tc_server_name (ta_tls_config a))"

definition set_verify_name :: "connect_env \<Rightarrow> string \<Rightarrow> tls_name result" where
  "set_verify_name env verify_name =
     (if verify_name = [] then Ok NoName
      else if ce_is_ip env verify_name
      then if \<not> ce_set_ip env then Err ''failed to set TLS verify IP'' else Ok (IpName verify_name)
      else if \<not> ce_set_sni env then Err ''failed to set TLS SNI hostname''
      else if \<not> ce_set_host env then Err ''failed to set TLS verify hostname''
      else Ok (HostName verify_name))"

text \<open>The TLS part of \<^verbatim>\<open>EnsureConnected\<close>, up to the check of the pins.\<close>

definition open_tls :: "connect_env \<Rightarrow> TcpServerApi \<Rightarrow> (tls_params \<times> SSL) result" where
  "open_tls env a =
     rbind (CreateClientTlsContext env (ta_tls_config a)) (\<lambda>ctx.
     if \<not> ce_ssl_new env then Err (''SSL_new failed: '' @ SslErrorString env)
     else rbind (set_verify_name env (verify_name_of a)) (\<lambda>name.
     let params = ctx\<lparr>tp_verify_name := name\<rparr>;
         ssl = \<lparr>ssl_params = params, ssl_connected = True, ssl_peer_digest = ce_peer_digest env\<rparr>
     in if \<not> ce_handshake env params then Err (''TLS handshake failed: '' @ SslErrorString env)
        else if tc_pinned_server_cert_sha256_hex (ta_tls_config a) = [] then Ok (ctx, ssl)
        else rbind (PeerCertificateSha256 (Some ssl)) (\<lambda>fingerprint.
             rbind (VerifyPinnedSha256Fingerprint fingerprint
               (tc_pinned_server_cert_sha256_hex (ta_tls_config a))) (\<lambda>_. Ok (ctx, ssl)))))"

definition EnsureConnected :: "connect_env \<Rightarrow> TcpServerApi \<Rightarrow> unit result \<times> TcpServerApi" where
  "EnsureConnected env a =
     (if ta_fd a \<noteq> None then (Ok (), a)
      else case ConnectTcp env (ta_host a) (ta_port a) of
        Err e \<Rightarrow> (Err e, a)
      | Ok _ \<Rightarrow>
          (let a = a\<lparr>ta_fd := Some []\<rparr>
           in if \<not> tc_enabled (ta_tls_config a) then (Ok (), a)
              else case open_tls env a of
                Err e \<Rightarrow> (Err e, CloseConnection a)
              | Ok (ctx, ssl) \<Rightarrow> (Ok (), a\<lparr>ta_tls_ctx := Some ctx, ta_tls_ssl := Some ssl\<rparr>)))"

section \<open>Requests\<close>

text \<open>
  Everything outside of the object: the connection attempts, what \<^verbatim>\<open>send\<close> returns, clock, random
  generator and the entropy of signing, each as a stream, and the peer, which answers the bytes
  it was sent with what \<^verbatim>\<open>recv\<close> will return.
\<close>

record 'w network =
  nw_connect :: "nat \<Rightarrow> connect_env"
  nw_sends :: "nat \<Rightarrow> send_event list"
  nw_now :: "nat \<Rightarrow> u64"
  nw_rand :: "nat \<Rightarrow> bytes option"
  nw_entropy :: "nat \<Rightarrow> entropy"
  nw_answer :: "bytes \<Rightarrow> 'w \<Rightarrow> recv_event list \<times> 'w"

record 'w tcp_sys =
  ts_api :: TcpServerApi
  ts_peer :: 'w
  ts_tick :: nat

type_synonym ('w, 'a) tact = "'w tcp_sys \<Rightarrow> ('a result \<times> 'w tcp_sys) option"

definition treturn :: "'a result \<Rightarrow> ('w, 'a) tact" where
  "treturn r s = Some (r, s)"

text \<open>
  \<^verbatim>\<open>if (!r.ok()) return Err(r.error()); ... r.value() ...\<close>. An error with an empty text passes the
  test, and there is no value to take.
\<close>

definition tbind :: "('w, 'a) tact \<Rightarrow> ('a \<Rightarrow> ('w, 'b) tact) \<Rightarrow> ('w, 'b) tact" where
  "tbind m k s =
     (case m s of
        None \<Rightarrow> None
      | Some (Ok x, s') \<Rightarrow> k x s'
      | Some (Err e, s') \<Rightarrow> if e = [] then None else Some (Err e, s'))"

text \<open>\<^verbatim>\<open>if (!r.ok()) return Err(r.error()); ...\<close> where the value is not used.\<close>

definition tseq :: "('w, 'a) tact \<Rightarrow> ('w, 'b) tact \<Rightarrow> ('w, 'b) tact" where
  "tseq m k s =
     (case m s of
        None \<Rightarrow> None
      | Some (r, s') \<Rightarrow> if \<not> ok r then Some (Err (error r), s') else k s')"

definition draw :: "(nat \<Rightarrow> 'a) \<Rightarrow> ('w, 'a) tact" where
  "draw f s = Some (Ok (f (ts_tick s)), s\<lparr>ts_tick := Suc (ts_tick s)\<rparr>)"

definition this_api :: "('w, TcpServerApi) tact" where
  "this_api s = Some (Ok (ts_api s), s)"

definition update_api :: "(TcpServerApi \<Rightarrow> TcpServerApi) \<Rightarrow> ('w, unit) tact" where
  "update_api f s = Some (Ok (), s\<lparr>ts_api := f (ts_api s)\<rparr>)"

text \<open>\<^verbatim>\<open>WriteFrame\<close> or \<^verbatim>\<open>WriteFrameTls\<close>: the result and the bytes sent.\<close>

definition write_request ::
    "TcpServerApi \<Rightarrow> send_event list \<Rightarrow> u32 \<Rightarrow> bytes \<Rightarrow> (unit result \<times> bytes) option" where
  "write_request a evs command payload =
     (if tc_enabled (ta_tls_config a)
      then map_option (\<lambda>(r, sent, _). (r, sent))
        (WriteFrameTls (map_option (\<lambda>_. evs) (ta_tls_ssl a)) command payload)
      else map_option (\<lambda>(r, sent, _). (r, sent)) (WriteFrame evs command payload))"

text \<open>\<^verbatim>\<open>ReadFrame\<close> or \<^verbatim>\<open>ReadFrameTls\<close>: the result and what the connection still holds.\<close>

definition read_response ::
    "TcpServerApi \<Rightarrow> recv_event list \<Rightarrow> ((u32 \<times> bytes) result \<times> recv_event list) option" where
  "read_response a evs =
     (if tc_enabled (ta_tls_config a)
      then map_option (\<lambda>(r, rest). (r, case rest of None \<Rightarrow> evs | Some es \<Rightarrow> es))
        (ReadFrameTls (map_option (\<lambda>_. evs) (ta_tls_ssl a)))
      else ReadFrame evs)"

text \<open>The value of the response frame that \<^verbatim>\<open>Request\<close> hands on.\<close>

definition response_value :: "u32 \<times> bytes \<Rightarrow> bytes result" where
  "response_value response =
     (let (status, response_payload) = response
      in if status = status_code kOk then Ok response_payload
         else case DeserializeString response_payload of
           Err _ \<Rightarrow> Err ''server returned error''
         | Ok error_message \<Rightarrow> Err error_message)"

text \<open>Sending on an open connection and reading the response.\<close>

definition exchange :: "'w network \<Rightarrow> TcpCommand \<Rightarrow> bytes \<Rightarrow> ('w, bytes) tact" where
  "exchange net command payload s =
     (let a = ts_api s
      in case write_request a (nw_sends net (ts_tick s)) (command_code command) payload of
           None \<Rightarrow> None
         | Some (Err e, sent) \<Rightarrow>
             Some (Err e, s\<lparr>ts_api := CloseConnection a,
                            ts_peer := snd (nw_answer net sent (ts_peer s))\<rparr>)
         | Some (Ok _, sent) \<Rightarrow>
             (let (evs, peer) = nw_answer net sent (ts_peer s);
                  held = (case ta_fd a of None \<Rightarrow> [] | Some es \<Rightarrow> es);
                  s = s\<lparr>ts_peer := peer\<rparr>
              in case read_response a (held @ evs) of
                   None \<Rightarrow> None
                 | Some (Err e, _) \<Rightarrow> Some (Err e, s\<lparr>ts_api := CloseConnection a\<rparr>)
                 | Some (Ok response, rest) \<Rightarrow>
                     Some (response_value response, s\<lparr>ts_api := a\<lparr>ta_fd := Some rest\<rparr>\<rparr>)))"

definition Request :: "'w network \<Rightarrow> TcpCommand \<Rightarrow> bytes \<Rightarrow> ('w, bytes) tact" where
  "Request net command payload s =
     (let (connected, a) = EnsureConnected (nw_connect net (ts_tick s)) (ts_api s);
          s = s\<lparr>ts_api := a, ts_tick := Suc (ts_tick s)\<rparr>
      in case connected of
           Err e \<Rightarrow> Some (Err e, s)
         | Ok _ \<Rightarrow> exchange net command payload s)"

definition RequestAuthenticated :: "'w network \<Rightarrow> TcpCommand \<Rightarrow> bytes \<Rightarrow> ('w, bytes) tact" where
  "RequestAuthenticated net command payload =
     tbind this_api (\<lambda>a.
     tbind (treturn (SerializeAuthenticatedPayload
       \<lparr>ap_session_token = ta_session_token a, ap_payload = payload\<rparr>)) (\<lambda>encoded.
     Request net command encoded))"

section \<open>Registration and login\<close>

definition RegisterTransportIdentity_tcp :: "'w network \<Rightarrow> RegisterRequest \<Rightarrow> ('w, unit) tact" where
  "RegisterTransportIdentity_tcp net request =
     tbind (treturn (SerializeRegisterRequest request)) (\<lambda>payload.
     tseq (Request net kRegisterTransportIdentity payload) (treturn (Ok ())))"

definition BeginTransportAuthentication_tcp ::
    "'w network \<Rightarrow> AuthBeginRequest \<Rightarrow> ('w, AuthBeginResponse) tact" where
  "BeginTransportAuthentication_tcp net request =
     tbind (treturn (SerializeAuthBeginRequest request)) (\<lambda>payload.
     tbind (Request net kAuthBegin payload) (\<lambda>response.
     treturn (DeserializeAuthBeginResponse response)))"

definition FinishTransportAuthentication_tcp ::
    "'w network \<Rightarrow> AuthFinishRequest \<Rightarrow> ('w, AuthFinishResponse) tact" where
  "FinishTransportAuthentication_tcp net request =
     tbind (treturn (SerializeAuthFinishRequest request)) (\<lambda>payload.
     tbind (Request net kAuthFinish payload) (\<lambda>response.
     treturn (DeserializeAuthFinishResponse response)))"

definition AuthenticateSessionToken_tcp :: "bytes \<Rightarrow> ('w, string) tact" where
  "AuthenticateSessionToken_tcp session_token = treturn (Err ''not supported on client adapter'')"

definition RevokeSessionToken_tcp :: "'w network \<Rightarrow> bytes \<Rightarrow> ('w, unit) tact" where
  "RevokeSessionToken_tcp net session_token =
     tbind (treturn (SerializeAuthenticatedPayload
       \<lparr>ap_session_token = session_token, ap_payload = []\<rparr>)) (\<lambda>encoded.
     tseq (Request net kLogout encoded)
       (update_api (\<lambda>a. CloseConnection
          (if ta_session_token a = session_token
           then a\<lparr>ta_session_token := [], ta_session_expires_at_unix := 0\<rparr> else a))))"

definition RandomBytes_tcp :: "nat \<Rightarrow> bytes option \<Rightarrow> bytes result" where
  "RandomBytes_tcp len rnd =
     (case rnd of None \<Rightarrow> Err ''RAND_bytes failed'' | Some bs \<Rightarrow> Ok (fill len bs))"

text \<open>The registration in \<^verbatim>\<open>EnsureAuthenticated\<close>, without a rotation signature.\<close>

definition register_self ::
    "'w network \<Rightarrow> (entropy \<Rightarrow> bytes \<Rightarrow> bytes result) \<Rightarrow> TcpServerApi \<Rightarrow> ('w, unit) tact" where
  "register_self net sign a =
     tbind (draw (nw_entropy net)) (\<lambda>ent.
     tbind (treturn (sign ent (BuildTransportRegisterSignInput (ta_user_id a)
       (ta_transport_auth_public_key a)))) (\<lambda>register_signature.
     RegisterTransportIdentity_tcp net
       \<lparr>rr_user_id = ta_user_id a,
        rr_transport_auth_public_key = ta_transport_auth_public_key a,
        rr_registration_token = ta_registration_token a,
        rr_proof_signature_mldsa65 = register_signature,
        rr_rotation_signature_mldsa65 = None\<rparr>))"

text \<open>The login: nonce, challenge, signature, session.\<close>

definition log_in ::
    "'w network \<Rightarrow> (entropy \<Rightarrow> bytes \<Rightarrow> bytes result) \<Rightarrow> TcpServerApi \<Rightarrow> ('w, AuthFinishResponse) tact" where
  "log_in net sign a =
     tbind (draw (nw_rand net)) (\<lambda>rnd.
     tbind (treturn (RandomBytes_tcp 32 rnd)) (\<lambda>client_nonce.
     tbind (BeginTransportAuthentication_tcp net
       \<lparr>abq_user_id = ta_user_id a, abq_client_nonce = client_nonce\<rparr>) (\<lambda>b.
     tbind (draw (nw_entropy net)) (\<lambda>ent.
     tbind (treturn (sign ent (BuildTransportAuthSignInput (ta_user_id a) client_nonce
       (abr_server_nonce b) (abr_challenge_id b) (abr_expires_at_unix b)))) (\<lambda>signature.
     FinishTransportAuthentication_tcp net
       \<lparr>afq_user_id = ta_user_id a, afq_challenge_id = abr_challenge_id b,
        afq_client_nonce = client_nonce, afq_server_nonce = abr_server_nonce b,
        afq_expires_at_unix = abr_expires_at_unix b, afq_signature_mldsa65 = signature\<rparr>)))))"

definition EnsureAuthenticated :: "'w network \<Rightarrow> ('w, unit) tact" where
  "EnsureAuthenticated net =
     tbind this_api (\<lambda>a.
     case ta_sign_fn a of
       None \<Rightarrow> treturn (Err ''transport auth signer is not configured'')
     | Some sign \<Rightarrow>
         tbind (draw (nw_now net)) (\<lambda>now.
         if ta_session_token a \<noteq> [] \<and> now + 5 < ta_session_expires_at_unix a then treturn (Ok ())
         else
           tseq (register_self net sign a)
           (tbind (log_in net sign a) (\<lambda>f.
            update_api (\<lambda>a. a\<lparr>ta_session_token := afr_session_token f,
                              ta_session_expires_at_unix := afr_expires_at_unix f\<rparr>)))))"

section \<open>The calls of a session\<close>

definition LogoutCurrentSession :: "'w network \<Rightarrow> ('w, unit) tact" where
  "LogoutCurrentSession net =
     tseq (EnsureAuthenticated net)
     (tbind this_api (\<lambda>a. RevokeSessionToken_tcp net (ta_session_token a)))"

definition PublishBundle_tcp :: "'w network \<Rightarrow> PrekeyBundle \<Rightarrow> ('w, unit) tact" where
  "PublishBundle_tcp net bundle =
     tseq (EnsureAuthenticated net)
     (tbind (treturn (SerializePrekeyBundle bundle)) (\<lambda>payload.
      tseq (RequestAuthenticated net kPublishBundle payload) (treturn (Ok ()))))"

definition AcquireBundleForSession_tcp :: "'w network \<Rightarrow> string \<Rightarrow> ('w, PrekeyBundle) tact" where
  "AcquireBundleForSession_tcp net user_id =
     tseq (EnsureAuthenticated net)
     (tbind (treturn (SerializeString user_id)) (\<lambda>payload.
      tbind (RequestAuthenticated net kAcquireBundle payload) (\<lambda>response.
      treturn (DeserializePrekeyBundle response))))"

definition EnqueueEnvelope_tcp :: "'w network \<Rightarrow> string \<Rightarrow> Envelope \<Rightarrow> ('w, unit) tact" where
  "EnqueueEnvelope_tcp net user_id envelope =
     tseq (EnsureAuthenticated net)
     (tbind (treturn (SerializeEnqueueRequest
        \<lparr>eq_user_id = user_id, eq_envelope = envelope\<rparr>)) (\<lambda>payload.
      tseq (RequestAuthenticated net kEnqueueEnvelope payload) (treturn (Ok ()))))"

definition DrainInbox_tcp ::
    "'w network \<Rightarrow> string \<Rightarrow> u64 option \<Rightarrow> ('w, InboxEnvelope list) tact" where
  "DrainInbox_tcp net user_id ack_up_to_inbox_id =
     tseq (EnsureAuthenticated net)
     (tbind (treturn (SerializeDrainInboxRequest
        \<lparr>dr_user_id = user_id, dr_ack_up_to_inbox_id = ack_up_to_inbox_id\<rparr>)) (\<lambda>payload.
      tbind (RequestAuthenticated net kDrainInbox payload) (\<lambda>response.
      treturn (DeserializeInboxEnvelopeVector response))))"

section \<open>Which pins are accepted\<close>

definition to_lower :: "char \<Rightarrow> char" where
  "to_lower ch =
     (let c = (of_char ch :: nat) in if 65 \<le> c \<and> c \<le> 90 then char_of (c + 32) else ch)"

lemma HexValue_pin_eq: "HexValue_pin = HexValue"
  by (simp add: HexValue_pin_def HexValue_def fun_eq_iff)

lemma decode_pin_decode_hex: "decode_pin s = Ok bs \<longleftrightarrow> decode_hex_pairs s = Ok bs"
  by (induction s arbitrary: bs rule: decode_pin.induct)
    (auto simp: HexValue_pin_eq Let_def result_inv)

lemma normalize_pin_iff:
  "normalize_pin s = Ok n \<longleftrightarrow>
     n = filter (\<lambda>c. \<not> pin_separator c) s \<and> (\<forall>c\<in>set n. IsHex c)"
  by (induction s arbitrary: n) (auto simp: result_inv)

lemma of_char_to_lower:
  "(of_char (to_lower c) :: nat) =
     (let n = of_char c in if 65 \<le> n \<and> n \<le> 90 then n + 32 else n)"
  by (simp add: to_lower_def Let_def)

lemma of_char_hex_digit:
  "n < 16 \<Longrightarrow> (of_char (hex_digit n) :: nat) = (if n < 10 then 48 + n else 87 + n)"
  by (drule less_16_cases) (auto simp: hex_digit_def)

lemma char_eq_code: "c = d \<longleftrightarrow> (of_char c :: nat) = of_char d"
  by simp

lemma HexValue_nat:
  "HexValue c = (let n = (of_char c :: nat) in
     if 48 \<le> n \<and> n \<le> 57 then int (n - 48)
     else if 97 \<le> n \<and> n \<le> 102 then int (n - 87)
     else if 65 \<le> n \<and> n \<le> 70 then int (n - 55) else -1)"
proof -
  have "(of_char c :: int) = int (of_char c)" by (cases c) (simp add: horner_sum_simps)
  then show ?thesis unfolding HexValue_def Let_def by (simp only:) auto
qed

lemma IsHex_value:
  assumes "IsHex c"
  obtains n where "n < 16" "HexValue c = int n" "to_lower c = hex_digit n"
proof
  let ?n = "nat (HexValue c)"
  show "?n < 16" "HexValue c = int ?n"
    using assms by (auto simp: IsHex_def HexValue_nat Let_def)
  then have "(of_char (to_lower c) :: nat) = of_char (hex_digit ?n)"
    using assms by (auto simp: of_char_to_lower of_char_hex_digit IsHex_def HexValue_nat Let_def)
  then show "to_lower c = hex_digit ?n" by (simp only: char_eq_code)
qed

lemma to_lower_hex_digit:
  assumes "to_lower c = hex_digit n" "n < 16" shows "IsHex c" "HexValue c = int n"
proof -
  have "(of_char (to_lower c) :: nat) = (if n < 10 then 48 + n else 87 + n)"
    using assms by (simp add: of_char_hex_digit)
  then show "IsHex c"
    using assms(2) by (auto simp: of_char_to_lower IsHex_def Let_def split: if_splits)
  then obtain m where m: "m < 16" "HexValue c = int m" "to_lower c = hex_digit m" by (rule IsHex_value)
  then have "HexValue (hex_digit m) = HexValue (hex_digit n)" using assms(1) by simp
  then show "HexValue c = int n" using m assms(2) by (simp add: HexValue_hex_digit)
qed

lemma hex_byte:
  assumes "hi < 16" "lo < 16"
  shows "unat (word_of_int (push_bit 4 (int hi) OR int lo) :: u8) = 16 * hi + lo"
proof -
  have "push_bit 4 (int hi) OR int lo = int (16 * hi + lo)" using assms by (simp add: hex_pair_value)
  then have "(word_of_int (push_bit 4 (int hi) OR int lo) :: u8) = word_of_nat (16 * hi + lo)"
    by (simp only: of_int_of_nat_eq)
  then show ?thesis using assms by (simp only: unsigned_of_nat) (simp add: take_bit_nat_eq_self_iff)
qed

lemma decode_hex_iff:
  "even (length s) \<Longrightarrow> \<forall>c\<in>set s. IsHex c \<Longrightarrow>
   decode_hex_pairs s = Ok bs \<longleftrightarrow> map to_lower s = hex_string bs"
proof (induction s arbitrary: bs rule: decode_hex_pairs.induct)
  case (1 h l rest)
  from "1.prems"(2) obtain m n where m: "m < 16" "HexValue h = int m" "to_lower h = hex_digit m"
    and n: "n < 16" "HexValue l = int n" "to_lower l = hex_digit n"
    by (meson IsHex_value list.set_intros)
  let ?b = "word_of_int (push_bit 4 (int m) OR int n) :: u8"
  have b: "unat ?b div 16 = m" "unat ?b mod 16 = n" using hex_byte [OF m(1) n(1)] n(1) by simp_all
  have inj: "hex_digit x = hex_digit y \<longleftrightarrow> x = y" if "x < 16" "y < 16" for x y
    using that HexValue_hex_digit by (metis of_nat_eq_iff)
  have digits: "?b = a \<longleftrightarrow> hex_digit m = hex_digit (unat a div 16) \<and> hex_digit n = hex_digit (unat a mod 16)"
    for a :: u8
  proof -
    have "unat a div 16 < 16" using u8_less_256 [of a] by simp
    then have "hex_digit m = hex_digit (unat a div 16) \<longleftrightarrow> m = unat a div 16"
      "hex_digit n = hex_digit (unat a mod 16) \<longleftrightarrow> n = unat a mod 16"
      using inj m(1) n(1) by simp_all
    moreover have "?b = a" if "unat ?b div 16 = unat a div 16" "unat ?b mod 16 = unat a mod 16"
      using that by (metis div_mult_mod_eq unsigned_word_eqI)
    ultimately show ?thesis using b by auto
  qed
  show ?case
    using "1.IH" [of "int m" "int n"] "1.prems" m n
    by (cases bs) (auto simp: Let_def result_inv digits)
next
  case "2_1"
  then show ?case by (cases bs) auto
qed auto

text \<open>
The parser of pins accepts a text exactly if, without separators and in lower case, it is the
hexadecimal form of 32 bytes, and returns those bytes.
\<close>

lemma ParseSha256PinHex_iff:
  "ParseSha256PinHex s = Ok fp \<longleftrightarrow>
     length fp = 32 \<and> map to_lower (filter (\<lambda>c. \<not> pin_separator c) s) = hex_string fp"
  (is "_ \<longleftrightarrow> _ \<and> map to_lower ?n = _")
proof
  assume "ParseSha256PinHex s = Ok fp"
  then have "decode_hex_pairs ?n = Ok fp" "length ?n = 64" "\<forall>c\<in>set ?n. IsHex c"
    by (auto simp: ParseSha256PinHex_def result_inv normalize_pin_iff decode_pin_decode_hex)
  then show "length fp = 32 \<and> map to_lower ?n = hex_string fp"
    using length_decode_hex_pairs [of ?n fp] decode_hex_iff [of ?n fp] by simp
next
  assume fp: "length fp = 32 \<and> map to_lower ?n = hex_string fp"
  then have len: "length ?n = 64" by (metis length_map length_hex_string mult_2 numeral_Bit0)
  have "IsHex c" if "c \<in> set ?n" for c
  proof -
    from that have "to_lower c \<in> set (hex_string fp)" using fp by (metis image_eqI list.set_map)
    then obtain b :: u8 where "to_lower c = hex_digit (unat b div 16) \<or> to_lower c = hex_digit (unat b mod 16)"
      by (fastforce simp: hex_string_def)
    moreover have "unat b div 16 < 16" "unat b mod 16 < 16" using u8_less_256 [of b] by simp_all
    ultimately obtain n where "n < 16" "to_lower c = hex_digit n" by blast
    then show ?thesis using to_lower_hex_digit by blast
  qed
  then show "ParseSha256PinHex s = Ok fp"
    using fp len decode_hex_iff [of ?n fp]
    by (auto simp: ParseSha256PinHex_def result_inv normalize_pin_iff decode_pin_decode_hex)
qed

lemma check_pins_iff:
  "length fp = 32 \<Longrightarrow> check_pins fp b pins = Ok () \<longleftrightarrow>
     (\<exists>k<length pins. ParseSha256PinHex (pins ! k) = Ok fp \<and>
        (\<forall>j<k. \<exists>p. ParseSha256PinHex (pins ! j) = Ok p))"
proof (induction pins arbitrary: b)
  case (Cons pin pins)
  have ex: "(\<exists>k<length (pin # pins). P k) \<longleftrightarrow> P 0 \<or> (\<exists>k<length pins. P (Suc k))" for P
    by (auto simp: less_Suc_eq_0_disj)
  have all: "(\<forall>j<Suc k. Q j) \<longleftrightarrow> Q 0 \<and> (\<forall>j<k. Q (Suc j))" for k Q
    by (auto simp: less_Suc_eq_0_disj)
  show ?case unfolding ex by (cases "ParseSha256PinHex pin") (auto simp: Cons all)
qed simp

section \<open>What every operation keeps\<close>

datatype tcp_op = OpRegister RegisterRequest | OpBegin AuthBeginRequest | OpFinish AuthFinishRequest
  | OpRevoke bytes | OpLogout | OpPublish PrekeyBundle | OpAcquire string
  | OpEnqueue string Envelope | OpDrain string "u64 option"

fun tcp_step :: "'w network \<Rightarrow> tcp_op \<Rightarrow> 'w tcp_sys \<Rightarrow> 'w tcp_sys option" where
  "tcp_step net (OpRegister q) s = map_option snd (RegisterTransportIdentity_tcp net q s)"
| "tcp_step net (OpBegin q) s = map_option snd (BeginTransportAuthentication_tcp net q s)"
| "tcp_step net (OpFinish q) s = map_option snd (FinishTransportAuthentication_tcp net q s)"
| "tcp_step net (OpRevoke t) s = map_option snd (RevokeSessionToken_tcp net t s)"
| "tcp_step net OpLogout s = map_option snd (LogoutCurrentSession net s)"
| "tcp_step net (OpPublish b) s = map_option snd (PublishBundle_tcp net b s)"
| "tcp_step net (OpAcquire u) s = map_option snd (AcquireBundleForSession_tcp net u s)"
| "tcp_step net (OpEnqueue u e) s = map_option snd (EnqueueEnvelope_tcp net u e s)"
| "tcp_step net (OpDrain u a) s = map_option snd (DrainInbox_tcp net u a s)"

text \<open>Calls one after the other, on a network that may change from call to call.\<close>

inductive tcp_reach :: "'w tcp_sys \<Rightarrow> 'w tcp_sys \<Rightarrow> bool" for s where
  tcp_reach_refl: "tcp_reach s s"
| tcp_reach_step: "tcp_reach s s1 \<Longrightarrow> tcp_step net op s1 = Some s2 \<Longrightarrow> tcp_reach s s2"

definition keeps :: "(TcpServerApi \<Rightarrow> bool) \<Rightarrow> ('w, 'a) tact \<Rightarrow> bool" where
  "keeps P m \<longleftrightarrow> (\<forall>s r s'. m s = Some (r, s') \<longrightarrow> P (ts_api s) \<longrightarrow> P (ts_api s'))"

lemma keepsD: "keeps P m \<Longrightarrow> m s = Some (r, s') \<Longrightarrow> P (ts_api s) \<Longrightarrow> P (ts_api s')"
  by (auto simp: keeps_def)

named_theorems keeps_intros

lemma keeps_basic [keeps_intros]:
  "keeps P (treturn r)" "keeps P (draw f)" "keeps P this_api"
  by (auto simp: keeps_def treturn_def draw_def this_api_def)

lemma keeps_update_api [keeps_intros]: "(\<And>a. P a \<Longrightarrow> P (f a)) \<Longrightarrow> keeps P (update_api f)"
  by (auto simp: keeps_def update_api_def)

lemma keeps_tbind [keeps_intros]:
  "keeps P m \<Longrightarrow> (\<And>x. keeps P (k x)) \<Longrightarrow> keeps P (tbind m k)"
  unfolding keeps_def tbind_def by (auto split: option.splits result.splits if_splits)

lemma keeps_tseq [keeps_intros]: "keeps P m \<Longrightarrow> keeps P k \<Longrightarrow> keeps P (tseq m k)"
  unfolding keeps_def tseq_def by (auto split: option.splits if_splits)

lemma EnsureConnected_open: "EnsureConnected env a = (Ok (), a') \<Longrightarrow> ta_fd a' \<noteq> None"
  by (auto simp: EnsureConnected_def Let_def split: if_splits result.splits)

locale tcp_law =
  fixes P :: "TcpServerApi \<Rightarrow> bool"
  assumes connect_law: "P a \<Longrightarrow> P (snd (EnsureConnected env a))"
    and close_law: "P a \<Longrightarrow> P (CloseConnection a)"
    and read_law: "P a \<Longrightarrow> ta_fd a \<noteq> None \<Longrightarrow> P (a\<lparr>ta_fd := Some evs\<rparr>)"
    and session_law: "P a \<Longrightarrow> P (a\<lparr>ta_session_token := tok, ta_session_expires_at_unix := t\<rparr>)"
begin

lemma keeps_Request [keeps_intros]: "keeps P (Request net command payload)"
  unfolding keeps_def
proof (intro allI impI)
  fix s r s'
  assume req: "Request net command payload s = Some (r, s')" and P: "P (ts_api s)"
  obtain c a where e: "EnsureConnected (nw_connect net (ts_tick s)) (ts_api s) = (c, a)" by force
  have a: "P a" using connect_law [OF P, of "nw_connect net (ts_tick s)"] e by simp
  show "P (ts_api s')"
  proof (cases c)
    case (Ok u)
    with e have "ta_fd a \<noteq> None" using EnsureConnected_open by (metis unit.exhaust)
    with req e Ok show ?thesis
      using close_law [OF a] read_law [OF a]
      by (auto simp: Request_def exchange_def Let_def split: option.splits result.splits prod.splits)
  next
    case (Err x)
    with req e a show ?thesis by (auto simp: Request_def Let_def)
  qed
qed

lemma keeps_RequestAuthenticated [keeps_intros]: "keeps P (RequestAuthenticated net command payload)"
  unfolding RequestAuthenticated_def by (intro keeps_intros)

lemma keeps_Register [keeps_intros]: "keeps P (RegisterTransportIdentity_tcp net q)"
  unfolding RegisterTransportIdentity_tcp_def by (intro keeps_intros)

lemma keeps_Begin [keeps_intros]: "keeps P (BeginTransportAuthentication_tcp net bq)"
  unfolding BeginTransportAuthentication_tcp_def by (intro keeps_intros)

lemma keeps_Finish [keeps_intros]: "keeps P (FinishTransportAuthentication_tcp net fq)"
  unfolding FinishTransportAuthentication_tcp_def by (intro keeps_intros)

lemma keeps_Revoke [keeps_intros]: "keeps P (RevokeSessionToken_tcp net t)"
  unfolding RevokeSessionToken_tcp_def by (intro keeps_intros) (simp add: session_law close_law)

lemma keeps_EnsureAuthenticated [keeps_intros]: "keeps P (EnsureAuthenticated net)"
  unfolding EnsureAuthenticated_def register_self_def log_in_def
  by (intro keeps_intros) (auto split: option.splits intro!: keeps_intros session_law)

lemma step_keeps: "tcp_step net op s = Some s' \<Longrightarrow> P (ts_api s) \<Longrightarrow> P (ts_api s')"
  by (cases op)
    (auto simp: LogoutCurrentSession_def PublishBundle_tcp_def AcquireBundleForSession_tcp_def
      EnqueueEnvelope_tcp_def DrainInbox_tcp_def elim!: keepsD [rotated] intro!: keeps_intros)

lemma reach_keeps: "tcp_reach s s' \<Longrightarrow> P (ts_api s) \<Longrightarrow> P (ts_api s')"
  by (induction rule: tcp_reach.induct) (auto intro: step_keeps)

end

section \<open>Verified connections\<close>

text \<open>
  With TLS, an open connection has gone through a handshake of version 1.3 or later in which the
  certificate was verified against the configured authorities and name; and if there are pins,
  the digest of the certificate is one of them.
\<close>

definition pin_of :: "string \<Rightarrow> bytes \<Rightarrow> bool" where
  "pin_of pin fp \<longleftrightarrow>
     length fp = 32 \<and> map to_lower (filter (\<lambda>c. \<not> pin_separator c) pin) = hex_string fp"

definition verified_ssl :: "TlsClientConfig \<Rightarrow> string \<Rightarrow> SSL \<Rightarrow> bool" where
  "verified_ssl cfg name ssl \<longleftrightarrow> ssl_connected ssl \<and>
     tp_min_tls13 (ssl_params ssl) \<and> tp_verify_peer (ssl_params ssl) \<and>
     tp_ca_file (ssl_params ssl) = (if tc_ca_file cfg = [] then None else Some (tc_ca_file cfg)) \<and>
     (name \<noteq> [] \<longrightarrow> tp_verify_name (ssl_params ssl) \<in> {IpName name, HostName name}) \<and>
     (tc_pinned_server_cert_sha256_hex cfg \<noteq> [] \<longrightarrow>
       (\<exists>fp pin. ssl_peer_digest ssl = Inr fp \<and> pin \<in> set (tc_pinned_server_cert_sha256_hex cfg) \<and>
          pin_of pin fp))"

definition verified_connection :: "TcpServerApi \<Rightarrow> bool" where
  "verified_connection a \<longleftrightarrow>
     (tc_enabled (ta_tls_config a) \<and> ta_fd a \<noteq> None \<longrightarrow>
        (\<exists>ssl. ta_tls_ssl a = Some ssl \<and> verified_ssl (ta_tls_config a) (verify_name_of a) ssl))"

lemma pins_accepted:
  assumes "VerifyPinnedSha256Fingerprint fp pins = Ok ()" and "pins \<noteq> []"
  shows "\<exists>pin\<in>set pins. pin_of pin fp"
proof -
  from assms have "length fp = 32" "check_pins fp False pins = Ok ()"
    by (auto simp: VerifyPinnedSha256Fingerprint_def split: if_splits)
  then obtain k where "k < length pins" "ParseSha256PinHex (pins ! k) = Ok fp"
    using check_pins_iff by blast
  then show ?thesis by (auto simp: ParseSha256PinHex_iff pin_of_def intro: nth_mem)
qed

theorem pin_check_accepts:
  "VerifyPinnedSha256Fingerprint fp pins = Ok () \<longleftrightarrow>
     pins = [] \<or> length fp = 32 \<and>
       (\<exists>k<length pins. pin_of (pins ! k) fp \<and> list_all (\<lambda>pin. \<exists>p. pin_of pin p) (take k pins))"
  using check_pins_iff [of fp False pins]
  by (auto simp: VerifyPinnedSha256Fingerprint_def ParseSha256PinHex_iff pin_of_def list_all_length)

lemma context_params:
  assumes "CreateClientTlsContext env cfg = Ok ctx"
  shows "tp_min_tls13 ctx" "tp_verify_peer ctx"
    "tp_ca_file ctx = (if tc_ca_file cfg = [] then None else Some (tc_ca_file cfg))"
  using assms by (auto simp: CreateClientTlsContext_def Let_def split: if_splits)

lemma set_verify_name_Ok:
  "set_verify_name env name = Ok n \<Longrightarrow> name \<noteq> [] \<Longrightarrow> n \<in> {IpName name, HostName name}"
  by (auto simp: set_verify_name_def split: if_splits)

lemma open_tls_verified:
  assumes "open_tls env a = Ok (ctx, ssl)"
  shows "verified_ssl (ta_tls_config a) (verify_name_of a) ssl"
proof -
  let ?pins = "tc_pinned_server_cert_sha256_hex (ta_tls_config a)"
  from assms obtain n where ctx: "CreateClientTlsContext env (ta_tls_config a) = Ok ctx"
    and n: "set_verify_name env (verify_name_of a) = Ok n"
    and ssl: "ssl = \<lparr>ssl_params = ctx\<lparr>tp_verify_name := n\<rparr>, ssl_connected = True,
      ssl_peer_digest = ce_peer_digest env\<rparr>"
    and pins: "?pins = [] \<or> (\<exists>fp. ce_peer_digest env = Inr fp \<and>
      VerifyPinnedSha256Fingerprint fp ?pins = Ok ())"
    by (auto simp: open_tls_def PeerCertificateSha256_def Let_def result_inv split: if_splits)
  then have "?pins \<noteq> [] \<longrightarrow> (\<exists>fp pin. ce_peer_digest env = Inr fp \<and> pin \<in> set ?pins \<and> pin_of pin fp)"
    using pins_accepted by blast
  then show ?thesis
    unfolding verified_ssl_def ssl using context_params [OF ctx] set_verify_name_Ok [OF n] by auto
qed

definition account :: "TcpServerApi \<Rightarrow> string \<times> u16 \<times> string \<times> bytes \<times> string \<times> TlsClientConfig" where
  "account a = (ta_host a, ta_port a, ta_user_id a, ta_transport_auth_public_key a,
     ta_registration_token a, ta_tls_config a)"

lemma verified_connection_frame:
  assumes "verified_connection a" and "ta_fd a \<noteq> None"
    and "account a' = account a" "ta_tls_ssl a' = ta_tls_ssl a"
  shows "verified_connection a'"
proof -
  have "verify_name_of a' = verify_name_of a" using assms(3) by (simp add: account_def verify_name_of_def)
  then show ?thesis using assms by (simp add: verified_connection_def account_def)
qed

lemma verified_when_closed: "ta_fd a = None \<Longrightarrow> verified_connection a"
  by (simp add: verified_connection_def)

lemma EnsureConnected_verified:
  assumes "verified_connection a" shows "verified_connection (snd (EnsureConnected env a))"
proof (cases "EnsureConnected env a")
  case (Pair r a')
  have name: "verify_name_of (a\<lparr>ta_fd := x\<rparr>) = verify_name_of a" for x
    by (simp add: verify_name_of_def)
  show ?thesis
    using assms open_tls_verified [of env "a\<lparr>ta_fd := Some []\<rparr>"]
    by (auto simp: EnsureConnected_def Let_def CloseConnection_def verified_connection_def
        verify_name_of_def name split: result.splits)
qed

interpretation tls_law: tcp_law verified_connection
proof
  fix a :: TcpServerApi and env tok t evs
  assume a: "verified_connection a"
  then show "verified_connection (snd (EnsureConnected env a))" by (rule EnsureConnected_verified)
  show "verified_connection (CloseConnection a)"
    by (rule verified_when_closed) (simp add: CloseConnection_def)
  show "verified_connection (a\<lparr>ta_session_token := tok, ta_session_expires_at_unix := t\<rparr>)"
    using a verified_when_closed by (cases "ta_fd a") (auto intro: verified_connection_frame simp: account_def)
  show "verified_connection (a\<lparr>ta_fd := Some evs\<rparr>)" if "ta_fd a \<noteq> None"
    using a that by (rule verified_connection_frame) (simp_all add: account_def)
qed

interpretation account_law: tcp_law "\<lambda>a. account a = c" for c
  by unfold_locales (auto simp: account_def EnsureConnected_def CloseConnection_def Let_def
      split: result.splits if_splits)


end
