(* ===== verification/Remote.thy ===== *)
theory Remote
  imports Tcp_Client
begin

text \<open>
  The two ends of the transport together: a \<open>TcpServerApi\<close> whose peer is a connection handler of
  the TCP server. The locale \<open>frame_link\<close> is what a request needs of its peer, that each frame is
  answered by one frame; it is provided by \<open>HandleConnection\<close> over any store and any splitting of
  the byte stream into packets. With it, a call on the client object is the same call on the store.
\<close>

section \<open>Open connections\<close>

lemma stream_append:
  "stream_end a = None \<Longrightarrow> stream (a @ b) = stream a @ stream b \<and> stream_end (a @ b) = stream_end b"
  by (induction a rule: stream.induct) (auto split: if_splits)

lemma read_loop_waits:
  "stream evs = [] \<Longrightarrow> stream_end evs = None \<Longrightarrow> length out < len \<Longrightarrow>
   read_loop m f evs len out = None"
proof (induction evs)
  case (Cons e es)
  then show ?case by (cases e) (auto simp: read_loop.simps [of m f "Again # es"] split: if_splits)
qed (simp add: read_loop.simps)

definition tls_open :: "recv_event list option \<Rightarrow> bool" where
  "tls_open ssl \<longleftrightarrow> (case ssl of None \<Rightarrow> False | Some evs \<Rightarrow> stream_end evs = None)"

interpretation open_plain: exact_reader ReadExact "\<lambda>evs. stream_end evs = None" stream "\<lambda>_. False"
  by unfold_locales (use read_loop_enough [of _ "[]"] in \<open>fastforce simp: ReadExact_def\<close>)+

interpretation open_ssl: exact_reader ReadExactTls tls_open tls_stream "\<lambda>_. False"
proof
  show "\<exists>s'. ReadExactTls s len = Some (Ok (take len (tls_stream s)), s') \<and> tls_open s' \<and>
      tls_stream s' = drop len (tls_stream s) \<and> (False \<longleftrightarrow> False)"
    if "tls_open s" "len \<le> length (tls_stream s)" for s len
  proof -
    from that(1) obtain evs where [simp]: "s = Some evs" and "stream_end evs = None"
      by (auto simp: tls_open_def split: option.splits)
    with read_loop_enough [of len "[]" evs] that(2) show ?thesis
      by (fastforce simp: ReadExactTls_def tls_stream_def tls_open_def)
  qed
qed simp

definition frame_of :: "response \<Rightarrow> bytes" where
  "frame_of r = frame_header (fst r) (snd r) @ snd r"

lemma read_conn_frame:
  assumes "stream evs = frame_of (t, p)" "stream_end evs = None" and "length p \<le> 1048576"
  shows "\<exists>evs'. read_conn tls evs = Some (Ok (t, p), evs') \<and> stream evs' = [] \<and> stream_end evs' = None"
proof (cases tls)
  case True
  have "\<exists>s'. read_frame ReadExactTls (Some evs) = Some (Ok (t, p), s') \<and> tls_open s' \<and> tls_stream s' = []"
    using assms by (intro open_ssl.frame_read) (simp_all add: tls_open_def tls_stream_def frame_of_def)
  then obtain s' where s': "ReadFrameTls (Some evs) = Some (Ok (t, p), s')" "tls_open s'" "tls_stream s' = []"
    unfolding ReadFrameTls_def by blast
  then obtain es where "s' = Some es" by (cases s') (auto simp: tls_open_def)
  with s' True show ?thesis by (simp add: read_conn_def tls_open_def tls_stream_def)
next
  case False
  with assms open_plain.frame_read [of evs t p "[]"] show ?thesis
    by (auto simp: read_conn_def ReadFrame_def frame_of_def)
qed

lemma read_conn_waits:
  "stream evs = [] \<Longrightarrow> stream_end evs = None \<Longrightarrow> read_conn tls evs = None"
  by (simp add: read_conn_def ReadFrame_def ReadFrameTls_def read_frame_def ReadExact_def
      ReadExactTls_def read_loop_waits)

section \<open>A server as the peer\<close>

text \<open>
  The bytes the client sends arrive at a connection handler; its responses that fit into a frame
  come back, split into packets. The peer counts the frames it has handled.
\<close>

definition served ::
    "'s IServerApi \<Rightarrow> PreAuthRateLimitConfig \<Rightarrow> (nat \<Rightarrow> frame_env) \<Rightarrow> bool \<Rightarrow> string \<Rightarrow>
     (bytes \<Rightarrow> recv_event list) \<Rightarrow> bytes \<Rightarrow> nat \<times> TcpServer \<times> 's \<Rightarrow>
     recv_event list \<times> nat \<times> TcpServer \<times> 's" where
  "served api cfg envs tls addr split sent iw =
     (let (i, w) = iw;
          (final, responses, w') = HandleConnection api cfg envs i tls addr [Data sent] w
      in (split (concat (map frame_of (filter (\<lambda>r. length (snd r) \<le> unat kMaxFramePayloadBytes) responses))),
          i + length responses, w'))"

definition serve ::
    "'s IServerApi \<Rightarrow> PreAuthRateLimitConfig \<Rightarrow> (nat \<Rightarrow> frame_env) \<Rightarrow> string \<Rightarrow> u32 \<Rightarrow> bytes \<Rightarrow>
     nat \<times> TcpServer \<times> 's \<Rightarrow> response \<times> nat \<times> TcpServer \<times> 's" where
  "serve api cfg envs addr command payload iw =
     (let (i, w) = iw; (r, w') = handle_frame api cfg (envs i) addr command payload w in (r, Suc i, w'))"

definition splits :: "(bytes \<Rightarrow> recv_event list) \<Rightarrow> bool" where
  "splits split \<longleftrightarrow> (\<forall>bs. stream (split bs) = bs \<and> stream_end (split bs) = None)"

locale frame_link =
  fixes answer :: "bytes \<Rightarrow> 'w \<Rightarrow> recv_event list \<times> 'w"
    and handle :: "u32 \<Rightarrow> bytes \<Rightarrow> 'w \<Rightarrow> response \<times> 'w"
  assumes answered: "handle c p w = (r, w') \<Longrightarrow> length p \<le> 1048576 \<Longrightarrow> length (snd r) \<le> 1048576 \<Longrightarrow>
    \<exists>evs. answer (frame_of (c, p)) w = (evs, w') \<and> stream evs = frame_of r \<and> stream_end evs = None"

lemma frame_of_nonempty: "frame_of r \<noteq> []"
  by (simp add: frame_of_def frame_header_def StoreU32_def be32_def)

lemma served_answers:
  assumes "splits split"
  shows "frame_link (served api cfg envs tls addr split) (serve api cfg envs addr)"
proof
  fix c p iw r iw'
  assume h: "serve api cfg envs addr c p iw = (r, iw')"
    and p: "length p \<le> 1048576" and r: "length (snd r) \<le> 1048576"
  obtain i w where iw: "iw = (i, w)" by (cases iw)
  obtain w' where w': "handle_frame api cfg (envs i) addr c p w = (r, w')" and iw': "iw' = (Suc i, w')"
    using h iw by (auto simp: serve_def split: prod.splits)
  have "stream [Data (frame_of (c, p))] = frame_of (c, p)" "stream_end [Data (frame_of (c, p))] = None"
    by (simp_all add: frame_of_nonempty)
  from read_conn_frame [OF this p] obtain es where
    es: "read_conn tls [Data (frame_of (c, p))] = Some (Ok (c, p), es)" "stream es = []" "stream_end es = None"
    by blast
  have "HandleConnection api cfg envs i tls addr [Data (frame_of (c, p))] w = (Waiting, [r], w')"
    using es read_conn_waits [of es tls] w'
    by (simp add: HandleConnection.simps [of _ _ _ i] HandleConnection.simps [of _ _ _ "Suc i"])
  then have "served api cfg envs tls addr split (frame_of (c, p)) iw = (split (frame_of r), iw')"
    using r by (simp add: served_def iw iw')
  with assms show "\<exists>evs. served api cfg envs tls addr split (frame_of (c, p)) iw = (evs, iw') \<and>
      stream evs = frame_of r \<and> stream_end evs = None"
    by (simp add: splits_def)
qed

text \<open>Packets of at most \<open>n + 1\<close> bytes.\<close>

fun packets :: "nat \<Rightarrow> bytes \<Rightarrow> recv_event list" where
  "packets n [] = []"
| "packets n (b # bs) = Data (b # take n bs) # packets n (drop n bs)"

lemma splits_packets: "splits (packets n)"
proof -
  have "stream (packets n bs) = bs \<and> stream_end (packets n bs) = None" for bs
    by (induction n bs rule: packets.induct) auto
  then show ?thesis by (simp add: splits_def)
qed

interpretation packet_link:
    frame_link "served api cfg envs tls addr (packets n)" "serve api cfg envs addr" for api cfg envs tls addr n
  by (rule served_answers [OF splits_packets])

section \<open>Requests that are answered\<close>

text \<open>
  The network works: the server can be reached, with TLS its certificate is accepted, and a frame
  within the limit is sent completely.
\<close>

definition network_up :: "'w network \<Rightarrow> TcpServerApi \<Rightarrow> bool" where
  "network_up net a \<longleftrightarrow>
     (\<forall>t. ConnectTcp (nw_connect net t) (ta_host a) (ta_port a) = Ok () \<and>
        (tc_enabled (ta_tls_config a) \<longrightarrow> (\<exists>x. open_tls (nw_connect net t) a = Ok x))) \<and>
     (\<forall>t c p. length p \<le> 1048576 \<longrightarrow>
        (\<exists>evs. WriteFrame (nw_sends net t) c p = Some (Ok (), frame_of (c, p), evs)) \<and>
        (\<exists>evs. WriteFrameTls (Some (nw_sends net t)) c p = Some (Ok (), frame_of (c, p), evs)))"

text \<open>The connection is closed, or open with nothing left to read.\<close>

definition idle :: "TcpServerApi \<Rightarrow> bool" where
  "idle a \<longleftrightarrow> (case ta_fd a of None \<Rightarrow> True
     | Some evs \<Rightarrow> stream evs = [] \<and> stream_end evs = None \<and>
         (tc_enabled (ta_tls_config a) \<longrightarrow> ta_tls_ssl a \<noteq> None))"

text \<open>Two states of the object that agree in all but the connection.\<close>

lemma CloseConnection_eq_iff:
  "CloseConnection a = CloseConnection a' \<longleftrightarrow>
     ta_host a = ta_host a' \<and> ta_port a = ta_port a' \<and> ta_user_id a = ta_user_id a' \<and>
     ta_transport_auth_public_key a = ta_transport_auth_public_key a' \<and> ta_sign_fn a = ta_sign_fn a' \<and>
     ta_registration_token a = ta_registration_token a' \<and> ta_tls_config a = ta_tls_config a' \<and>
     ta_session_token a = ta_session_token a' \<and>
     ta_session_expires_at_unix a = ta_session_expires_at_unix a'"
  by (cases a; cases a') (auto simp: CloseConnection_def)

lemma open_tls_cong:
  assumes "ta_host a = ta_host a'" "ta_tls_config a = ta_tls_config a'"
  shows "open_tls env a = open_tls env a'"
  unfolding open_tls_def verify_name_of_def assms ..

lemma network_up_cong:
  "ta_host a = ta_host a' \<Longrightarrow> ta_port a = ta_port a' \<Longrightarrow> ta_tls_config a = ta_tls_config a' \<Longrightarrow>
   network_up net a = network_up net a'"
  unfolding network_up_def by (simp add: open_tls_cong [of a a'])

lemma EnsureConnected_up:
  assumes "network_up net a" and "idle a"
  shows "\<exists>a' evs. EnsureConnected (nw_connect net t) a = (Ok (), a') \<and> idle a' \<and> ta_fd a' = Some evs \<and>
    CloseConnection a' = CloseConnection a"
proof (cases "ta_fd a")
  case None
  have "open_tls env (a\<lparr>ta_fd := x\<rparr>) = open_tls env a" for env x
    by (rule open_tls_cong) simp_all
  moreover have "ConnectTcp (nw_connect net t) (ta_host a) (ta_port a) = Ok ()"
    "tc_enabled (ta_tls_config a) \<Longrightarrow> \<exists>ctx ssl. open_tls (nw_connect net t) a = Ok (ctx, ssl)"
    using assms(1) by (auto simp: network_up_def)
  ultimately show ?thesis using None
    by (cases "tc_enabled (ta_tls_config a)")
      (auto simp: EnsureConnected_def idle_def Let_def CloseConnection_eq_iff)
next
  case (Some evs)
  with assms show ?thesis by (auto simp: EnsureConnected_def)
qed

lemma write_request_up:
  assumes "network_up net a" "idle a" "ta_fd a = Some evs" "length p \<le> 1048576"
  shows "write_request a (nw_sends net t) c p = Some (Ok (), frame_of (c, p))"
proof -
  from assms(1,4) obtain e1 e2 where
    "WriteFrame (nw_sends net t) c p = Some (Ok (), frame_of (c, p), e1)"
    "WriteFrameTls (Some (nw_sends net t)) c p = Some (Ok (), frame_of (c, p), e2)"
    unfolding network_up_def by meson
  with assms(2,3) show ?thesis by (auto simp: write_request_def idle_def)
qed

lemma read_response_up:
  assumes "idle a" "ta_fd a = Some held" and "stream evs = frame_of (t, p)" "stream_end evs = None"
    and "length p \<le> 1048576"
  shows "\<exists>rest. read_response a (held @ evs) = Some (Ok (t, p), rest) \<and> idle (a\<lparr>ta_fd := Some rest\<rparr>)"
proof -
  let ?tls = "tc_enabled (ta_tls_config a)"
  have "stream (held @ evs) = frame_of (t, p)" "stream_end (held @ evs) = None"
    using assms stream_append [of held evs] by (simp_all add: idle_def)
  from read_conn_frame [OF this assms(5), of ?tls] obtain rest where
    rest: "read_conn ?tls (held @ evs) = Some (Ok (t, p), rest)" "stream rest = []" "stream_end rest = None"
    by blast
  show ?thesis
  proof (cases ?tls)
    case False
    with rest assms(2) show ?thesis by (auto simp: read_conn_def read_response_def idle_def)
  next
    case True
    with assms(1,2) obtain ssl where ssl: "ta_tls_ssl a = Some ssl" by (auto simp: idle_def)
    from True rest(1) obtain r where r: "ReadFrameTls (Some (held @ evs)) = Some (Ok (t, p), r)"
      and "rest = (case r of None \<Rightarrow> [] | Some es \<Rightarrow> es)"
      by (auto simp: read_conn_def)
    moreover have "r \<noteq> None"
      using r tls.frame_read [of "Some (held @ evs)" t p "[]"] \<open>stream (held @ evs) = _\<close> assms(5)
      by (auto simp: ReadFrameTls_def tls_stream_def frame_of_def)
    ultimately show ?thesis using True ssl rest by (auto simp: read_response_def idle_def)
  qed
qed

context frame_link
begin

lemma Request_answered:
  assumes up: "network_up net (ts_api s)" "idle (ts_api s)" and net: "nw_answer net = answer"
    and h: "handle (command_code c) p (ts_peer s) = (r, w')"
    and len: "length p \<le> 1048576" "length (snd r) \<le> 1048576"
  shows "\<exists>a'. Request net c p s =
      Some (response_value r, \<lparr>ts_api = a', ts_peer = w', ts_tick = Suc (ts_tick s)\<rparr>) \<and>
    idle a' \<and> CloseConnection a' = CloseConnection (ts_api s) \<and> ta_fd a' \<noteq> None"
proof -
  from EnsureConnected_up [OF up, of "ts_tick s"] obtain a held where
    a: "EnsureConnected (nw_connect net (ts_tick s)) (ts_api s) = (Ok (), a)" "idle a" "ta_fd a = Some held"
    and same: "CloseConnection a = CloseConnection (ts_api s)" by blast
  have "network_up net a" using up(1) same network_up_cong by (metis CloseConnection_eq_iff)
  from write_request_up [OF this a(2,3) len(1)]
  have wr: "write_request a (nw_sends net t) (command_code c) p = Some (Ok (), frame_of (command_code c, p))" for t .
  from answered [OF h len] obtain evs where
    evs: "answer (frame_of (command_code c, p)) (ts_peer s) = (evs, w')" "stream evs = frame_of (fst r, snd r)"
      "stream_end evs = None" by auto
  from read_response_up [OF a(2,3) evs(2,3) len(2)] obtain rest where
    rest: "read_response a (held @ evs) = Some (Ok r, rest)" "idle (a\<lparr>ta_fd := Some rest\<rparr>)" by auto
  have "Request net c p s = Some (response_value r,
      \<lparr>ts_api = a\<lparr>ta_fd := Some rest\<rparr>, ts_peer = w', ts_tick = Suc (ts_tick s)\<rparr>)"
    using a wr evs(1) rest(1) by (simp add: Request_def exchange_def net Let_def)
  moreover have "CloseConnection (a\<lparr>ta_fd := Some rest\<rparr>) = CloseConnection (ts_api s)"
    using same by (simp add: CloseConnection_eq_iff)
  ultimately show ?thesis using rest(2) by (intro exI [of _ "a\<lparr>ta_fd := Some rest\<rparr>"]) simp
qed

end

section \<open>Calls of a session\<close>

lemma response_value_simps [simp]:
  "response_value (ok_response bs) = Ok bs"
  "string_ok e \<Longrightarrow> response_value (send_error e) = Err e"
proof -
  show "response_value (ok_response bs) = Ok bs" by (simp add: response_value_def ok_response_def)
  assume "string_ok e"
  then have "DeserializeString (Writer_String e) = Ok e"
    unfolding DeserializeString_def string_codec.decode_whole_iff
    by (auto simp: string_ok_def kMaxSerializedInputBytes_def)
  then show "response_value (send_error e) = Err e"
    by (simp add: response_value_def send_error_def SerializeString_def)
qed

lemma frame_sizes [simp]:
  "length (snd (ok_response bs)) = length bs"
  "string_ok e \<Longrightarrow> length (snd (send_error e)) \<le> 1048576"
  by (simp_all add: ok_response_def send_error_def SerializeString_def string_ok_def)

text \<open>The object has a session that will not expire within five seconds, on a working network.\<close>

definition session_ready :: "'w network \<Rightarrow> 'w tcp_sys \<Rightarrow> bool" where
  "session_ready net s \<longleftrightarrow> network_up net (ts_api s) \<and> idle (ts_api s) \<and>
     ta_sign_fn (ts_api s) \<noteq> None \<and> ta_session_token (ts_api s) \<noteq> [] \<and>
     length (ta_session_token (ts_api s)) \<le> 32 \<and>
     nw_now net (ts_tick s) + 5 < ta_session_expires_at_unix (ts_api s)"

lemma EnsureAuthenticated_session:
  "session_ready net s \<Longrightarrow> EnsureAuthenticated net s = Some (Ok (), s\<lparr>ts_tick := Suc (ts_tick s)\<rparr>)"
  by (auto simp: session_ready_def EnsureAuthenticated_def tbind_def this_api_def draw_def treturn_def)

text \<open>What a connection handler runs for a command of a session.\<close>

definition session_command ::
    "'s IServerApi \<Rightarrow> frame_env \<Rightarrow> string \<Rightarrow> bytes \<Rightarrow> TcpCommand \<Rightarrow> bytes \<Rightarrow> 's \<Rightarrow> response \<times> 's" where
  "session_command api env u token c inner s =
     (case c of
        kLogout \<Rightarrow> handle_logout api env token s
      | kPublishBundle \<Rightarrow> handle_publish api env u inner s
      | kAcquireBundle \<Rightarrow> handle_acquire api env inner s
      | kEnqueueEnvelope \<Rightarrow> handle_enqueue api env u inner s
      | kDrainInbox \<Rightarrow> handle_drain api env u inner s
      | _ \<Rightarrow> (send_error ''unknown command'', s))"

definition session_commands :: "TcpCommand set" where
  "session_commands = {kLogout, kPublishBundle, kAcquireBundle, kEnqueueEnvelope, kDrainInbox}"

lemma serve_session:
  assumes "c \<in> session_commands" and "length token \<le> 32" "length inner + 48 \<le> 1048576"
    and "api_AuthenticateSessionToken api (fe_auth (envs i)) st token = (Ok u, st1)"
    and "session_command api (envs i) u token c inner st1 = (r, st2)"
  shows "serve api cfg envs addr (command_code c)
    (AuthenticatedPayload_bytes \<lparr>ap_session_token = token, ap_payload = inner\<rparr>) (i, t, st) = (r, Suc i, t, st2)"
proof -
  let ?ap = "\<lparr>ap_session_token = token, ap_payload = inner\<rparr>"
  have "DeserializeAuthenticatedPayload (AuthenticatedPayload_bytes ?ap) = Ok ?ap"
    unfolding DeserializeAuthenticatedPayload_def authenticated_payload_codec.decode_whole_iff
    using assms(2,3) by (auto simp: AuthenticatedPayload_ok_def AuthenticatedPayload_bytes_def field_ok_def
        kMaxSerializedInputBytes_def)
  with assms(1,4,5) show ?thesis
    by (auto simp: serve_def handle_frame_def EnforcePreAuthRateLimit_def is_preauth_def
        handle_authenticated_def session_commands_def session_command_def)
qed

definition forwards ::
    "(nat \<times> TcpServer \<times> 's, 'a) tact \<Rightarrow> (nat \<times> TcpServer \<times> 's) tcp_sys \<Rightarrow> 'a result \<times> 's \<Rightarrow> nat \<Rightarrow> bool" where
  "forwards m s rs k \<longleftrightarrow> (\<exists>a'. m s = Some (fst rs, \<lparr>ts_api = a',
       ts_peer = (Suc (fst (ts_peer s)), fst (snd (ts_peer s)), snd rs), ts_tick = ts_tick s + k\<rparr>) \<and>
     idle a' \<and> CloseConnection a' = CloseConnection (ts_api s))"

lemma RequestAuthenticated_session:
  assumes up: "network_up net (ts_api s)" "idle (ts_api s)" "length (ta_session_token (ts_api s)) \<le> 32"
    and net: "nw_answer net = served api cfg envs tls addr (packets n)"
    and auth: "ts_peer s = (i, t, st)"
      "api_AuthenticateSessionToken api (fe_auth (envs i)) st (ta_session_token (ts_api s)) = (Ok u, st1)"
    and cmd: "session_command api (envs i) u (ta_session_token (ts_api s)) c inner st1 = (r, st2)"
      "c \<in> session_commands"
    and len: "length inner + 48 \<le> 1048576" "length (snd r) \<le> 1048576"
  shows "forwards (RequestAuthenticated net c inner) s (response_value r, st2) 1"
proof -
  let ?p = "AuthenticatedPayload_bytes \<lparr>ap_session_token = ta_session_token (ts_api s), ap_payload = inner\<rparr>"
  have "length ?p \<le> 1048576" using len(1) up(3) by (simp add: AuthenticatedPayload_bytes_def)
  moreover have "serve api cfg envs addr (command_code c) ?p (ts_peer s) = (r, Suc i, t, st2)"
    using serve_session [where envs = envs and i = i, OF cmd(2) up(3) len(1) auth(2) cmd(1)] auth(1) by simp
  ultimately have "\<exists>a'. Request net c ?p s =
      Some (response_value r, \<lparr>ts_api = a', ts_peer = (Suc i, t, st2), ts_tick = Suc (ts_tick s)\<rparr>) \<and>
    idle a' \<and> CloseConnection a' = CloseConnection (ts_api s)"
    using packet_link.Request_answered [OF up(1,2) net] len(2) by blast
  then show ?thesis
    using auth(1) by (auto simp: forwards_def RequestAuthenticated_def tbind_def this_api_def treturn_def
        SerializeAuthenticatedPayload_def)
qed

text \<open>A result whose error, if it is one, can be told from success and fits into a response.\<close>

definition tellable :: "'a result \<Rightarrow> bool" where
  "tellable r \<longleftrightarrow> (\<forall>e. r = Err e \<longrightarrow> e \<noteq> [] \<and> string_ok e)"

lemma string_ok_short: "length e \<le> 100 \<Longrightarrow> string_ok e"
  by (simp add: string_ok_def)

definition in_session ::
    "'s IServerApi \<Rightarrow> PreAuthRateLimitConfig \<Rightarrow> (nat \<Rightarrow> frame_env) \<Rightarrow>
     (nat \<times> TcpServer \<times> 's) network \<Rightarrow> (nat \<times> TcpServer \<times> 's) tcp_sys \<Rightarrow> string \<Rightarrow> 's \<Rightarrow> bool" where
  "in_session api cfg envs net s u st1 \<longleftrightarrow> session_ready net s \<and>
     (\<exists>tls addr n. nw_answer net = served api cfg envs tls addr (packets n)) \<and>
     (case ts_peer s of (i, t, st) \<Rightarrow>
        api_AuthenticateSessionToken api (fe_auth (envs i)) st (ta_session_token (ts_api s)) = (Ok u, st1))"

lemma session_request:
  assumes "in_session api cfg envs net s u st1" and "c \<in> session_commands"
    and "session_command api (envs (fst (ts_peer s))) u (ta_session_token (ts_api s)) c inner st1 = (r, st2)"
    and "length inner + 48 \<le> 1048576" "length (snd r) \<le> 1048576"
  shows "forwards (tseq (EnsureAuthenticated net) (RequestAuthenticated net c inner)) s (response_value r, st2) 2"
proof -
  obtain i t st where peer: "ts_peer s = (i, t, st)" by (cases "ts_peer s")
  from assms(1) obtain tls addr n where ready: "session_ready net s"
    and net: "nw_answer net = served api cfg envs tls addr (packets n)"
    and auth: "api_AuthenticateSessionToken api (fe_auth (envs i)) st (ta_session_token (ts_api s)) = (Ok u, st1)"
    unfolding in_session_def using peer by auto
  let ?s = "s\<lparr>ts_tick := Suc (ts_tick s)\<rparr>"
  have "forwards (RequestAuthenticated net c inner) ?s (response_value r, st2) 1"
    using ready assms(2-5) auth peer net
    by (intro RequestAuthenticated_session [where i = i and t = t and st = st and envs = envs and u = u])
      (simp_all add: session_ready_def)
  then show ?thesis
    using EnsureAuthenticated_session [OF ready] by (auto simp: forwards_def tseq_def)
qed

lemma forwards_unit:
  assumes "forwards (tseq m k) s (response_value r, st2) j"
    and "response_value r = (case q of Ok _ \<Rightarrow> Ok [] | Err e \<Rightarrow> Err e)" "tellable q"
  shows "forwards (tseq m (tseq k (treturn (Ok ())))) s (q, st2) j"
proof -
  have "q = Ok () \<and> response_value r = Ok [] \<or> (\<exists>e. q = Err e \<and> e \<noteq> [] \<and> response_value r = Err e)"
    using assms(2,3) by (cases q) (auto simp: tellable_def)
  with assms(1) show ?thesis
    by (auto simp: forwards_def tseq_def treturn_def split: option.splits if_splits)
qed

lemma forwards_bind:
  assumes "forwards (tseq m k) s (response_value r, st2) j"
    and "(\<exists>bs. response_value r = Ok bs \<and> f bs = q) \<or> (\<exists>e. response_value r = Err e \<and> e \<noteq> [] \<and> q = Err e)"
  shows "forwards (tseq m (tbind k (\<lambda>x. treturn (f x)))) s (q, st2) j"
  using assms
  by (auto simp: forwards_def tseq_def tbind_def treturn_def split: option.splits if_splits)

lemma tbind_treturn [simp]: "tbind (treturn (Ok x)) k = k x"
  by (simp add: fun_eq_iff tbind_def treturn_def)

lemma remote_publish:
  assumes "in_session api cfg envs net s u st1" and "pb_user_id b = u" "PrekeyBundle_ok b"
    and "length (PrekeyBundle_bytes b) + 48 \<le> 1048576"
    and "api_PublishBundle api (fe_call (envs (fst (ts_peer s)))) st1 b = (q, st2)" "tellable q"
  shows "forwards (PublishBundle_tcp net b) s (q, st2) 2"
proof -
  let ?r = "case q of Ok _ \<Rightarrow> ok_response [] | Err e \<Rightarrow> send_error e"
  have "DeserializePrekeyBundle (PrekeyBundle_bytes b) = Ok b"
    unfolding DeserializePrekeyBundle_def bundle_codec.decode_whole_iff
    using assms(3,4) by (simp add: kMaxSerializedInputBytes_def)
  then have "session_command api (envs (fst (ts_peer s))) u (ta_session_token (ts_api s)) kPublishBundle
      (PrekeyBundle_bytes b) st1 = (?r, st2)"
    using assms(2,5) by (auto simp: session_command_def handle_publish_def split: result.splits)
  from session_request [OF assms(1) _ this assms(4)]
  have "forwards (tseq (EnsureAuthenticated net) (RequestAuthenticated net kPublishBundle (PrekeyBundle_bytes b)))
      s (response_value ?r, st2) 2"
    using assms(6) by (auto simp: session_commands_def tellable_def split: result.splits)
  from forwards_unit [OF this _ assms(6)] show ?thesis
    using assms(6) by (auto simp: PublishBundle_tcp_def SerializePrekeyBundle_def tellable_def split: result.splits)
qed

lemma remote_enqueue:
  assumes "in_session api cfg envs net s u st1" and "envelope_parties e = Some (u, v)"
    and "EnqueueRequest_ok \<lparr>eq_user_id = v, eq_envelope = e\<rparr>"
    and "length (enqueue_fields_bytes (v, Envelope_bytes e)) + 48 \<le> 1048576"
    and "api_EnqueueEnvelope api (fe_call (envs (fst (ts_peer s)))) st1 v e = (q, st2)" "tellable q"
  shows "forwards (EnqueueEnvelope_tcp net v e) s (q, st2) 2"
proof -
  let ?r = "case q of Ok _ \<Rightarrow> ok_response [] | Err e \<Rightarrow> send_error e"
  let ?p = "enqueue_fields_bytes (v, Envelope_bytes e)"
  have "DeserializeEnqueueRequest ?p = Ok \<lparr>eq_user_id = v, eq_envelope = e\<rparr>"
    unfolding DeserializeEnqueueRequest_iff using assms(3,4) by (simp add: kMaxSerializedInputBytes_def)
  then have "session_command api (envs (fst (ts_peer s))) u (ta_session_token (ts_api s)) kEnqueueEnvelope
      ?p st1 = (?r, st2)"
    using assms(2,5) by (auto simp: session_command_def handle_enqueue_def split: result.splits)
  from session_request [OF assms(1) _ this assms(4)]
  have "forwards (tseq (EnsureAuthenticated net) (RequestAuthenticated net kEnqueueEnvelope ?p))
      s (response_value ?r, st2) 2"
    using assms(6) by (auto simp: session_commands_def tellable_def split: result.splits)
  moreover have "SerializeEnqueueRequest \<lparr>eq_user_id = v, eq_envelope = e\<rparr> = Ok ?p"
    using SerializeEnqueueRequest_Ok_iff [OF assms(3)] by simp
  ultimately show ?thesis
    using forwards_unit [OF _ _ assms(6), of _ _ s ?r st2 2] assms(6)
    by (auto simp: EnqueueEnvelope_tcp_def tellable_def split: result.splits)
qed

lemma remote_acquire:
  assumes "in_session api cfg envs net s u st1" and "string_ok v"
    and "api_AcquireBundleForSession api (fe_call (envs (fst (ts_peer s)))) st1 v = (q, st2)" "tellable q"
    and "\<And>b. q = Ok b \<Longrightarrow> PrekeyBundle_ok b \<and> length (PrekeyBundle_bytes b) \<le> 1048576"
  shows "forwards (AcquireBundleForSession_tcp net v) s (q, st2) 2"
proof -
  let ?r = "case q of Ok b \<Rightarrow> ok_response (PrekeyBundle_bytes b) | Err e \<Rightarrow> send_error e"
  have "DeserializeString (Writer_String v) = Ok v"
    unfolding DeserializeString_def string_codec.decode_whole_iff
    using assms(2) by (auto simp: string_ok_def kMaxSerializedInputBytes_def)
  then have "session_command api (envs (fst (ts_peer s))) u (ta_session_token (ts_api s)) kAcquireBundle
      (Writer_String v) st1 = (?r, st2)"
    using assms(3)
    by (auto simp: session_command_def handle_acquire_def SerializePrekeyBundle_def split: result.splits)
  moreover have "length (Writer_String v) + 48 \<le> 1048576" using assms(2) by (simp add: string_ok_def)
  moreover have "length (snd ?r) \<le> 1048576"
    using assms(4,5) by (auto simp: tellable_def split: result.splits)
  ultimately have "forwards (tseq (EnsureAuthenticated net)
      (RequestAuthenticated net kAcquireBundle (Writer_String v))) s (response_value ?r, st2) 2"
    by (intro session_request [OF assms(1)]) (simp_all add: session_commands_def)
  moreover have "DeserializePrekeyBundle (PrekeyBundle_bytes b) = q" if "q = Ok b" for b
    unfolding DeserializePrekeyBundle_def
    using assms(5) [OF that] that by (simp add: bundle_codec.decode_whole_iff kMaxSerializedInputBytes_def)
  ultimately show ?thesis
    unfolding AcquireBundleForSession_tcp_def SerializeString_def tbind_treturn using assms(4)
    by (intro forwards_bind) (auto simp: tellable_def split: result.splits)
qed

lemma remote_drain:
  assumes "in_session api cfg envs net s u st1" and "string_ok u"
    and "api_DrainInbox api (fe_call (envs (fst (ts_peer s)))) st1 u ack = (q, st2)" "tellable q"
    and "\<And>xs. q = Ok xs \<Longrightarrow> inbox_envelopes_ok xs \<and> length (Writer_counted inbox_item_bytes xs) \<le> 1048576"
  shows "forwards (DrainInbox_tcp net u ack) s (q, st2) 2"
proof -
  let ?r = "case q of Ok xs \<Rightarrow> ok_response (Writer_counted inbox_item_bytes xs) | Err e \<Rightarrow> send_error e"
  let ?q = "\<lparr>dr_user_id = u, dr_ack_up_to_inbox_id = ack\<rparr>" let ?p = "DrainInboxRequest_bytes ?q"
  have len: "length ?p + 48 \<le> 1048576"
    using assms(2) by (auto simp: DrainInboxRequest_bytes_def string_ok_def split: option.splits)
  then have "DeserializeDrainInboxRequest ?p = Ok ?q"
    unfolding DeserializeDrainInboxRequest_def drain_request_codec.decode_whole_iff
    using assms(2) by (auto simp: DrainInboxRequest_ok_def kMaxSerializedInputBytes_def)
  moreover have "SerializeInboxEnvelopeVector xs = Ok (Writer_counted inbox_item_bytes xs)" if "q = Ok xs" for xs
    using assms(5) [OF that] SerializeInboxEnvelopeVector_Ok_iff by blast
  ultimately have "session_command api (envs (fst (ts_peer s))) u (ta_session_token (ts_api s)) kDrainInbox
      ?p st1 = (?r, st2)"
    using assms(3) by (auto simp: session_command_def handle_drain_def split: result.splits)
  moreover have "length (snd ?r) \<le> 1048576"
    using assms(4,5) by (auto simp: tellable_def split: result.splits)
  ultimately have "forwards (tseq (EnsureAuthenticated net) (RequestAuthenticated net kDrainInbox ?p))
      s (response_value ?r, st2) 2"
    using len by (intro session_request [OF assms(1)]) (simp_all add: session_commands_def)
  moreover have "DeserializeInboxEnvelopeVector (Writer_counted inbox_item_bytes xs) = q" if "q = Ok xs" for xs
    unfolding DeserializeInboxEnvelopeVector_def
    using assms(5) [OF that] that by (simp add: inbox_vector_codec.decode_framed_iff kMaxSerializedInputBytes_def)
  ultimately show ?thesis
    unfolding DrainInbox_tcp_def SerializeDrainInboxRequest_def tbind_treturn using assms(4)
    by (intro forwards_bind) (auto simp: tellable_def split: result.splits)
qed

section \<open>The in-memory server behind the transport\<close>

definition short :: "nat \<Rightarrow> 'a result \<Rightarrow> bool" where
  "short n r \<longleftrightarrow> (\<forall>e. r = Err e \<longrightarrow> length e \<le> n)"

lemma short_bind: "short n r \<Longrightarrow> (\<And>x. short n (f x)) \<Longrightarrow> short n (rbind r f)"
  by (cases r) (auto simp: short_def)

lemma short_context: "short 60 r \<Longrightarrow> length c \<le> 60 \<Longrightarrow> short 120 (with_context c r)"
  by (cases r) (auto simp: short_def)

lemma short_run_calls:
  "texts \<noteq> [] \<Longrightarrow> \<forall>t\<in>set texts. length t \<le> n \<Longrightarrow> short n (run_calls texts x)"
  using call_error_in by (auto simp: run_calls_def short_def split: sum.splits)

lemma short_verify: "short 60 (Ed25519_Verify ssl pk m sig)" "short 60 (MlDsa65_Verify ssl pk m sig)"
  unfolding Ed25519_Verify_def MlDsa65_Verify_def by (rule short_run_calls; simp)+

lemma short_bundle_verification: "short 120 (VerifyPrekeyBundleSignatures ssl b)"
  unfolding VerifyPrekeyBundleSignatures_def Let_def
  by (auto intro!: short_bind short_context short_verify simp: short_def [of _ "Err _"] short_def [of _ "Ok _"])

lemma tellable_publish: "tellable (fst (PublishBundle ssl st b))"
  using short_bundle_verification [of ssl b]
  by (auto simp: PublishBundle_def tellable_def short_def string_ok_def split: result.splits)

lemma drain_never_fails:
  assumes "\<forall>i\<in>set (pending_envelopes st u). envelope_fits (ie_envelope i)"
  shows "\<exists>xs. fst (DrainInbox st u ack) = Ok xs"
proof (cases "inbox st u")
  case (Some es)
  with assms have "\<forall>e\<in>set es. \<exists>b. SerializeEnvelope (en_envelope e) = Ok b"
    by (auto simp: pending_envelopes_def to_inbox_envelope_def envelope_fits_def SerializeEnvelope_ok)
  then show ?thesis
    using Some by (auto simp: DrainInbox_def Let_def split: option.splits
        intro!: drain_loop_total dest!: set_dropWhileD)
qed (simp add: DrainInbox_def)

text \<open>
C22. With a session of user u at a TCP server over the in-memory store, a call of
TcpServerApi (publish, acquire, enqueue, drain) returns the result of the same call on the
store after the token was authenticated, and leaves that store, whatever the packet size,
with or without TLS; the envelope or bundle must name u and fit into a frame, and the stored
mail must fit, which the server maintains.
\<close>

theorem remote_calls_are_store_calls:
  assumes session: "in_session (in_memory_api ssl) cfg envs net s u st"
    and fits: "mail_fits st" and user: "string_ok u"
  shows "(pb_user_id b = u \<and> PrekeyBundle_ok b \<and> length (PrekeyBundle_bytes b) + 48 \<le> unat kMaxFramePayloadBytes \<longrightarrow>
      forwards (PublishBundle_tcp net b) s (PublishBundle ssl st b) 2) \<and>
    (string_ok v \<and> (\<forall>b. fst (AcquireBundleForSession st v) = Ok b \<longrightarrow> PrekeyBundle_ok b) \<longrightarrow>
      forwards (AcquireBundleForSession_tcp net v) s (AcquireBundleForSession st v) 2) \<and>
    (envelope_parties e = Some (u, v) \<and> EnqueueRequest_ok \<lparr>eq_user_id = v, eq_envelope = e\<rparr> \<and>
      length (enqueue_fields_bytes (v, Envelope_bytes e)) + 48 \<le> unat kMaxFramePayloadBytes \<longrightarrow>
      forwards (EnqueueEnvelope_tcp net v e) s (EnqueueEnvelope st v e) 2) \<and>
    forwards (DrainInbox_tcp net u ack) s (DrainInbox st u ack) 2"
proof (intro conjI impI; (elim conjE)?)
  assume b: "pb_user_id b = u" "PrekeyBundle_ok b" "length (PrekeyBundle_bytes b) + 48 \<le> unat kMaxFramePayloadBytes"
  show "forwards (PublishBundle_tcp net b) s (PublishBundle ssl st b) 2"
    using remote_publish [OF session b(1,2), of "fst (PublishBundle ssl st b)" "snd (PublishBundle ssl st b)"]
      b(3) tellable_publish [of ssl st b] by (simp add: api_simps)
next
  assume v: "string_ok v" "\<forall>b. fst (AcquireBundleForSession st v) = Ok b \<longrightarrow> PrekeyBundle_ok b"
  have "tellable (fst (AcquireBundleForSession st v))"
    by (auto simp: AcquireBundleForSession_def tellable_def string_ok_def Let_def split: option.splits list.splits)
  then show "forwards (AcquireBundleForSession_tcp net v) s (AcquireBundleForSession st v) 2"
    using remote_acquire [OF session v(1), of "fst (AcquireBundleForSession st v)" "snd (AcquireBundleForSession st v)"]
      v(2) acquire_response_fits [OF fits, of v] by (simp add: api_simps)
next
  assume e: "envelope_parties e = Some (u, v)" "EnqueueRequest_ok \<lparr>eq_user_id = v, eq_envelope = e\<rparr>"
    "length (enqueue_fields_bytes (v, Envelope_bytes e)) + 48 \<le> unat kMaxFramePayloadBytes"
  have "tellable (fst (EnqueueEnvelope st v e))" by (simp add: EnqueueEnvelope_def tellable_def Let_def)
  then show "forwards (EnqueueEnvelope_tcp net v e) s (EnqueueEnvelope st v e) 2"
    using remote_enqueue [OF session e(1,2), of "fst (EnqueueEnvelope st v e)" "snd (EnqueueEnvelope st v e)"] e(3)
    by (simp add: api_simps)
next
  have ok: "\<forall>i\<in>set (pending_envelopes st u). envelope_fits (ie_envelope i)" using fits by (simp add: mail_fits_def)
  have "inbox_envelopes_ok xs \<and> length (Writer_counted inbox_item_bytes xs) \<le> 1048576"
    if xs: "fst (DrainInbox st u ack) = Ok xs" for xs
  proof -
    have fit: "\<forall>i\<in>set xs. envelope_fits (ie_envelope i)" using drain_result_subset [OF xs] ok by auto
    have "length xs \<le> 128" using DrainInbox_batch_ok [OF xs] by (simp add: batch_ok_def kMaxDrainInboxBatchItems_def)
    with fit have "inbox_envelopes_ok xs"
      by (auto simp: inbox_envelopes_ok_def envelope_fits_def embedded_ok_def field_ok_def)
    with drain_response_size [OF fit DrainInbox_batch_ok [OF xs]] show ?thesis
      using SerializeInboxEnvelopeVector_Ok_iff by blast
  qed
  moreover have "tellable (fst (DrainInbox st u ack))"
    using drain_never_fails [OF ok, of ack] by (auto simp: tellable_def)
  ultimately show "forwards (DrainInbox_tcp net u ack) s (DrainInbox st u ack) 2"
    using remote_drain [OF session user, of ack "fst (DrainInbox st u ack)" "snd (DrainInbox st u ack)"]
    by (simp add: api_simps)
qed

section \<open>Logging in\<close>

text \<open>Room in the buckets of a command, by address and in all, and by address and user.\<close>

primrec room_addr :: "PreAuthRateLimitConfig \<Rightarrow> string \<Rightarrow> TcpServer \<Rightarrow> TcpCommand \<Rightarrow> bool" where
  "room_addr cfg addr t kRegisterTransportIdentity \<longleftrightarrow>
     length (bucket_of addr (preauth_register_by_addr t)) < rl_register_per_addr cfg \<and>
     length (preauth_register_global t) < rl_register_global cfg"
| "room_addr cfg addr t kAuthBegin \<longleftrightarrow>
     length (bucket_of addr (preauth_auth_begin_by_addr t)) < rl_auth_begin_per_addr cfg \<and>
     length (preauth_auth_begin_global t) < rl_auth_begin_global cfg"
| "room_addr cfg addr t kAuthFinish \<longleftrightarrow>
     length (bucket_of addr (preauth_auth_finish_by_addr t)) < rl_auth_finish_per_addr cfg \<and>
     length (preauth_auth_finish_global t) < rl_auth_finish_global cfg"
| "room_addr cfg addr t kPublishBundle = True"
| "room_addr cfg addr t kAcquireBundle = True"
| "room_addr cfg addr t kEnqueueEnvelope = True"
| "room_addr cfg addr t kDrainInbox = True"
| "room_addr cfg addr t kLogout = True"

primrec room_user :: "PreAuthRateLimitConfig \<Rightarrow> string \<Rightarrow> TcpServer \<Rightarrow> TcpCommand \<Rightarrow> bool" where
  "room_user cfg key t kRegisterTransportIdentity \<longleftrightarrow>
     length (bucket_of key (preauth_register_by_addr_user t)) < rl_register_per_addr_user cfg"
| "room_user cfg key t kAuthBegin \<longleftrightarrow>
     length (bucket_of key (preauth_auth_begin_by_addr_user t)) < rl_auth_begin_per_addr_user cfg"
| "room_user cfg key t kAuthFinish \<longleftrightarrow>
     length (bucket_of key (preauth_auth_finish_by_addr_user t)) < rl_auth_finish_per_addr_user cfg"
| "room_user cfg key t kPublishBundle = True"
| "room_user cfg key t kAcquireBundle = True"
| "room_user cfg key t kEnqueueEnvelope = True"
| "room_user cfg key t kDrainInbox = True"
| "room_user cfg key t kLogout = True"

lemma length_TrimWindow_less: "length b < n \<Longrightarrow> length (TrimWindow now w b) < n"
  unfolding TrimWindow_def by (rule le_less_trans [OF length_dropWhile_le])

lemma bucket_of_trim: "bucket_of k (trim_buckets now w m) = TrimWindow now w (bucket_of k m)"
  by (simp add: bucket_of_def trim_buckets_def Let_def split: option.splits)

lemma CheckAndRecord_room:
  "length b < limit \<Longrightarrow> CheckAndRecord b now w limit e = (Ok (), TrimWindow now w b @ [now])"
  using length_TrimWindow_less [of b limit now w] by (simp add: CheckAndRecord_def Let_def)

lemma check_keyed_room:
  "length (bucket_of k m) < limit \<Longrightarrow>
   check_keyed m k now w limit e = (Ok (), m(k \<mapsto> TrimWindow now w (bucket_of k m) @ [now]))"
  by (simp add: check_keyed_def CheckAndRecord_room)

lemma room_addr_trim:
  "room_addr cfg addr t c \<Longrightarrow> room_addr cfg addr (trim_by_addr now w t) c"
  by (cases c) (simp_all add: trim_by_addr_def bucket_of_trim length_TrimWindow_less)

lemma room_user_trim: "room_user cfg key (trim_by_addr now w t) c = room_user cfg key t c"
  by (cases c) (simp_all add: trim_by_addr_def)

lemma admitted_by_address:
  assumes "room_addr cfg addr t c"
  shows "\<exists>t'. EnforcePreAuthRateLimit cfg t now (command_code c) addr = (Ok (), t') \<and>
    (\<forall>c'. c' \<noteq> c \<longrightarrow> room_addr cfg addr t c' \<longrightarrow> room_addr cfg addr t' c') \<and>
    (\<forall>c' key. room_user cfg key t c' \<longrightarrow> room_user cfg key t' c')"
proof -
  let ?w = "rl_window_seconds cfg" let ?t = "trim_by_addr now ?w t"
  have room: "room_addr cfg addr ?t c" using assms by (rule room_addr_trim)
  obtain t' where t': "EnforcePreAuthRateLimit cfg t now (command_code c) addr = (Ok (), t')"
    and "\<forall>c'. c' \<noteq> c \<longrightarrow> room_addr cfg addr t c' \<longrightarrow> room_addr cfg addr t' c'"
    and "\<forall>c' key. room_user cfg key t' c' = room_user cfg key t c'"
  proof (cases "is_preauth (command_code c)")
    case False
    then show ?thesis using that [of t] by (simp add: EnforcePreAuthRateLimit_def)
  next
    case True
    define t' where "t' = snd (EnforcePreAuthRateLimit cfg t now (command_code c) addr)"
    note defs = is_preauth_def EnforcePreAuthRateLimit_def check_keyed_room CheckAndRecord_room Let_def t'_def
    have "EnforcePreAuthRateLimit cfg t now (command_code c) addr = (Ok (), t')"
      using True room by (cases c) (simp_all add: defs)
    moreover have "c' \<noteq> c \<Longrightarrow> room_addr cfg addr t' c' = room_addr cfg addr ?t c'" for c'
      using True room by (cases c; cases c') (simp_all add: defs)
    moreover have "room_user cfg key t' c' = room_user cfg key ?t c'" for c' key
      using True room by (cases c; cases c') (simp_all add: defs)
    ultimately show ?thesis using that [of t'] room_addr_trim room_user_trim by blast
  qed
  then show ?thesis using t' by blast
qed

lemma admitted_by_user:
  assumes "room_user cfg (addr @ ''|'' @ u) t c"
  shows "\<exists>t'. EnforcePreAuthUserRateLimit cfg t now (command_code c) addr u = (Ok (), t') \<and>
    (\<forall>c'. room_addr cfg addr t' c' = room_addr cfg addr t c') \<and>
    (\<forall>c'. c' \<noteq> c \<longrightarrow> room_user cfg (addr @ ''|'' @ u) t c' \<longrightarrow> room_user cfg (addr @ ''|'' @ u) t' c')"
proof (cases "\<not> is_preauth (command_code c) \<or> \<not> IsValidUserIdForRateLimit u")
  case True
  then show ?thesis by (simp add: EnforcePreAuthUserRateLimit_def)
next
  case False
  define t' where "t' = snd (EnforcePreAuthUserRateLimit cfg t now (command_code c) addr u)"
  note defs = is_preauth_def EnforcePreAuthUserRateLimit_def check_keyed_room bucket_of_trim
    length_TrimWindow_less Let_def t'_def
  have "EnforcePreAuthUserRateLimit cfg t now (command_code c) addr u = (Ok (), t')"
    using False assms by (cases c) (simp_all add: defs)
  moreover have "room_addr cfg addr t' c' = room_addr cfg addr t c'" for c'
    using False assms by (cases c; cases c') (simp_all add: defs)
  moreover have "c' \<noteq> c \<Longrightarrow> room_user cfg (addr @ ''|'' @ u) t c' \<Longrightarrow> room_user cfg (addr @ ''|'' @ u) t' c'" for c'
    using False assms by (cases c; cases c') (simp_all add: defs)
  ultimately show ?thesis by blast
qed

definition rooms ::
    "PreAuthRateLimitConfig \<Rightarrow> string \<Rightarrow> string \<Rightarrow> TcpServer \<Rightarrow> TcpCommand set \<Rightarrow> bool" where
  "rooms cfg addr u t C \<longleftrightarrow> (\<forall>c\<in>C. room_addr cfg addr t c \<and> room_user cfg (addr @ ''|'' @ u) t c)"

lemma admitted:
  assumes "rooms cfg addr u t (insert c C)" "c \<notin> C"
  shows "\<exists>t1 t2. EnforcePreAuthRateLimit cfg t now (command_code c) addr = (Ok (), t1) \<and>
    EnforcePreAuthUserRateLimit cfg t1 now' (command_code c) addr u = (Ok (), t2) \<and> rooms cfg addr u t2 C"
proof -
  from assms have room: "room_addr cfg addr t c" "room_user cfg (addr @ ''|'' @ u) t c"
    and rest: "\<forall>c'\<in>C. c' \<noteq> c \<and> room_addr cfg addr t c' \<and> room_user cfg (addr @ ''|'' @ u) t c'"
    by (auto simp: rooms_def)
  from admitted_by_address [OF room(1), of now] obtain t1 where
    t1: "EnforcePreAuthRateLimit cfg t now (command_code c) addr = (Ok (), t1)"
      "\<forall>c'. c' \<noteq> c \<longrightarrow> room_addr cfg addr t c' \<longrightarrow> room_addr cfg addr t1 c'"
      "\<forall>c' key. room_user cfg key t c' \<longrightarrow> room_user cfg key t1 c'" by blast
  with room(2) have "room_user cfg (addr @ ''|'' @ u) t1 c" by blast
  from admitted_by_user [OF this, of now'] obtain t2 where
    t2: "EnforcePreAuthUserRateLimit cfg t1 now' (command_code c) addr u = (Ok (), t2)"
      "\<forall>c'. room_addr cfg addr t2 c' = room_addr cfg addr t1 c'"
      "\<forall>c'. c' \<noteq> c \<longrightarrow> room_user cfg (addr @ ''|'' @ u) t1 c' \<longrightarrow> room_user cfg (addr @ ''|'' @ u) t2 c'"
    by blast
  have "rooms cfg addr u t2 C" unfolding rooms_def using rest t1(2,3) t2(2,3) by blast
  with t1(1) t2(1) show ?thesis by blast
qed

text \<open>A request before authentication that passes the limits reaches the store.\<close>

definition reaches_store ::
    "(nat \<times> TcpServer \<times> 's, 'a) tact \<Rightarrow> (nat \<times> TcpServer \<times> 's) tcp_sys \<Rightarrow> 'a result \<times> 's \<Rightarrow>
     (TcpServer \<Rightarrow> bool) \<Rightarrow> bool" where
  "reaches_store m s rs ok_limits \<longleftrightarrow> (\<exists>a' t'. m s = Some (fst rs, \<lparr>ts_api = a',
       ts_peer = (Suc (fst (ts_peer s)), t', snd rs), ts_tick = Suc (ts_tick s)\<rparr>) \<and>
     idle a' \<and> CloseConnection a' = CloseConnection (ts_api s) \<and> ok_limits t')"

locale login_link =
  fixes api :: "'s IServerApi" and cfg :: PreAuthRateLimitConfig and envs :: "nat \<Rightarrow> frame_env"
    and tls :: bool and addr :: string and n :: nat and net :: "(nat \<times> TcpServer \<times> 's) network"
  assumes net: "nw_answer net = served api cfg envs tls addr (packets n)"
begin

lemma request_reaches_store:
  assumes "network_up net (ts_api s)" "idle (ts_api s)" and "ts_peer s = (i, t, st)"
    and "serve api cfg envs addr (command_code c) p (i, t, st) = (ok_response bs, Suc i, t', st')"
    and "length p \<le> 1048576" "length bs \<le> 1048576" "L t'"
  shows "reaches_store (Request net c p) s (Ok bs, st') L"
  using packet_link.Request_answered [OF assms(1,2) net, of c p "ok_response bs"] assms(3-7)
  by (fastforce simp: reaches_store_def)

lemma register_reaches_store:
  assumes up: "network_up net (ts_api s)" "idle (ts_api s)" "ts_peer s = (i, t, st)"
    and rooms: "rooms cfg addr (rr_user_id q) t (insert kRegisterTransportIdentity C)"
      "kRegisterTransportIdentity \<notin> C"
    and q: "RegisterRequest_ok q" "length (RegisterRequest_bytes q) \<le> 1048576"
    and call: "api_RegisterTransportIdentity api (fe_call (envs i)) st q = (Ok (), st')"
  shows "reaches_store (RegisterTransportIdentity_tcp net q) s (Ok (), st')
    (\<lambda>t'. rooms cfg addr (rr_user_id q) t' C)"
proof -
  from admitted [OF rooms, of "fe_now_addr (envs i)" "fe_now_user (envs i)"] obtain t1 t2 where
    lim: "EnforcePreAuthRateLimit cfg t (fe_now_addr (envs i)) (command_code kRegisterTransportIdentity) addr = (Ok (), t1)"
      "EnforcePreAuthUserRateLimit cfg t1 (fe_now_user (envs i)) (command_code kRegisterTransportIdentity) addr
        (rr_user_id q) = (Ok (), t2)" "rooms cfg addr (rr_user_id q) t2 C" by blast
  have "DeserializeRegisterRequest (RegisterRequest_bytes q) = Ok q"
    unfolding DeserializeRegisterRequest_def register_codec.decode_whole_iff
    using q by (simp add: kMaxSerializedInputBytes_def)
  with lim call have "serve api cfg envs addr (command_code kRegisterTransportIdentity) (RegisterRequest_bytes q)
      (i, t, st) = (ok_response [], Suc i, t2, st')"
    by (simp add: serve_def handle_frame_def handle_register_def)
  from request_reaches_store [OF up this q(2), of "\<lambda>t'. rooms cfg addr (rr_user_id q) t' C"] lim(3)
  show ?thesis
    by (auto simp: reaches_store_def RegisterTransportIdentity_tcp_def SerializeRegisterRequest_def tseq_def
        treturn_def)
qed

lemma begin_reaches_store:
  assumes up: "network_up net (ts_api s)" "idle (ts_api s)" "ts_peer s = (i, t, st)"
    and rooms: "rooms cfg addr (abq_user_id q) t (insert kAuthBegin C)" "kAuthBegin \<notin> C"
    and q: "AuthBeginRequest_ok q" "length (AuthBeginRequest_bytes q) \<le> 1048576"
    and call: "api_BeginTransportAuthentication api (fe_call (envs i)) st q = (Ok r, st')"
    and r: "AuthBeginResponse_ok r" "length (AuthBeginResponse_bytes r) \<le> 1048576"
  shows "reaches_store (BeginTransportAuthentication_tcp net q) s (Ok r, st')
    (\<lambda>t'. rooms cfg addr (abq_user_id q) t' C)"
proof -
  from admitted [OF rooms, of "fe_now_addr (envs i)" "fe_now_user (envs i)"] obtain t1 t2 where
    lim: "EnforcePreAuthRateLimit cfg t (fe_now_addr (envs i)) (command_code kAuthBegin) addr = (Ok (), t1)"
      "EnforcePreAuthUserRateLimit cfg t1 (fe_now_user (envs i)) (command_code kAuthBegin) addr
        (abq_user_id q) = (Ok (), t2)" "rooms cfg addr (abq_user_id q) t2 C" by blast
  have "DeserializeAuthBeginRequest (AuthBeginRequest_bytes q) = Ok q"
    unfolding DeserializeAuthBeginRequest_def auth_begin_request_codec.decode_whole_iff
    using q by (simp add: kMaxSerializedInputBytes_def)
  with lim call have "serve api cfg envs addr (command_code kAuthBegin) (AuthBeginRequest_bytes q)
      (i, t, st) = (ok_response (AuthBeginResponse_bytes r), Suc i, t2, st')"
    by (simp add: serve_def handle_frame_def handle_auth_begin_def SerializeAuthBeginResponse_def)
  from request_reaches_store [OF up this q(2) r(2), of "\<lambda>t'. rooms cfg addr (abq_user_id q) t' C"] lim(3)
  have "reaches_store (Request net kAuthBegin (AuthBeginRequest_bytes q)) s (Ok (AuthBeginResponse_bytes r), st')
      (\<lambda>t'. rooms cfg addr (abq_user_id q) t' C)" by blast
  moreover have "DeserializeAuthBeginResponse (AuthBeginResponse_bytes r) = Ok r"
    unfolding DeserializeAuthBeginResponse_def auth_begin_response_codec.decode_whole_iff
    using r by (simp add: kMaxSerializedInputBytes_def)
  ultimately show ?thesis
    by (auto simp: reaches_store_def BeginTransportAuthentication_tcp_def SerializeAuthBeginRequest_def
        tbind_def treturn_def)
qed

lemma finish_reaches_store:
  assumes up: "network_up net (ts_api s)" "idle (ts_api s)" "ts_peer s = (i, t, st)"
    and rooms: "rooms cfg addr (afq_user_id q) t (insert kAuthFinish C)" "kAuthFinish \<notin> C"
    and q: "AuthFinishRequest_ok q" "length (AuthFinishRequest_bytes q) \<le> 1048576"
    and call: "api_FinishTransportAuthentication api (fe_call (envs i)) st q = (Ok r, st')"
    and r: "AuthFinishResponse_ok r" "length (AuthFinishResponse_bytes r) \<le> 1048576"
  shows "reaches_store (FinishTransportAuthentication_tcp net q) s (Ok r, st')
    (\<lambda>t'. rooms cfg addr (afq_user_id q) t' C)"
proof -
  from admitted [OF rooms, of "fe_now_addr (envs i)" "fe_now_user (envs i)"] obtain t1 t2 where
    lim: "EnforcePreAuthRateLimit cfg t (fe_now_addr (envs i)) (command_code kAuthFinish) addr = (Ok (), t1)"
      "EnforcePreAuthUserRateLimit cfg t1 (fe_now_user (envs i)) (command_code kAuthFinish) addr
        (afq_user_id q) = (Ok (), t2)" "rooms cfg addr (afq_user_id q) t2 C" by blast
  have "DeserializeAuthFinishRequest (AuthFinishRequest_bytes q) = Ok q"
    unfolding DeserializeAuthFinishRequest_def auth_finish_request_codec.decode_whole_iff
    using q by (simp add: kMaxSerializedInputBytes_def)
  with lim call have "serve api cfg envs addr (command_code kAuthFinish) (AuthFinishRequest_bytes q)
      (i, t, st) = (ok_response (AuthFinishResponse_bytes r), Suc i, t2, st')"
    by (simp add: serve_def handle_frame_def handle_auth_finish_def SerializeAuthFinishResponse_def)
  from request_reaches_store [OF up this q(2) r(2), of "\<lambda>t'. rooms cfg addr (afq_user_id q) t' C"] lim(3)
  have "reaches_store (Request net kAuthFinish (AuthFinishRequest_bytes q)) s (Ok (AuthFinishResponse_bytes r), st')
      (\<lambda>t'. rooms cfg addr (afq_user_id q) t' C)" by blast
  moreover have "DeserializeAuthFinishResponse (AuthFinishResponse_bytes r) = Ok r"
    unfolding DeserializeAuthFinishResponse_def auth_finish_response_codec.decode_whole_iff
    using r by (simp add: kMaxSerializedInputBytes_def)
  ultimately show ?thesis
    by (auto simp: reaches_store_def FinishTransportAuthentication_tcp_def SerializeAuthFinishRequest_def
        tbind_def treturn_def)
qed

end

text \<open>A network whose peer is a connection handler of a server.\<close>

definition to_server ::
    "'s IServerApi \<Rightarrow> PreAuthRateLimitConfig \<Rightarrow> (nat \<Rightarrow> frame_env) \<Rightarrow> bool \<Rightarrow> string \<Rightarrow> nat \<Rightarrow>
     (nat \<times> TcpServer \<times> 's) network \<Rightarrow> (nat \<times> TcpServer \<times> 's) network" where
  "to_server api cfg envs tls addr n net = net\<lparr>nw_answer := served api cfg envs tls addr (packets n)\<rparr>"

interpretation server_login:
    login_link api cfg envs tls addr n "to_server api cfg envs tls addr n net" for api cfg envs tls addr n net
  by unfold_locales (simp add: to_server_def)


subsection \<open>What the store does\<close>

lemma EnforceRateLimit_room:
  "length (bucket_of u (trim_buckets now w m)) < k \<Longrightarrow> fst (EnforceRateLimit (trim_buckets now w m) u now k w e) = Ok ()"
  using length_TrimWindow_less [of "bucket_of u (trim_buckets now w m)" k now w]
  by (simp add: EnforceRateLimit_def Let_def)

text \<open>The account of the object can log in: its key is that of the user, or the user is new and may register.\<close>

definition can_log_in ::
    "openssl \<Rightarrow> InMemoryServer \<Rightarrow> TcpServerApi \<Rightarrow> (entropy \<Rightarrow> bytes \<Rightarrow> bytes result) \<Rightarrow> bool" where
  "can_log_in ssl st a sign \<longleftrightarrow> IsValidUserId (ta_user_id a) \<and>
     ta_transport_auth_public_key a \<noteq> [] \<and> length (ta_transport_auth_public_key a) \<le> 8192 \<and>
     (\<forall>ent m. \<exists>sig. sign ent m = Ok sig \<and> 64 \<le> length sig \<and> length sig \<le> 8192 \<and>
        MlDsa65_Verify ssl (ta_transport_auth_public_key a) m sig = Ok ()) \<and>
     string_ok (ta_registration_token a) \<and>
     (transport_identities st (ta_user_id a) = Some (ta_transport_auth_public_key a) \<or>
      transport_identities st (ta_user_id a) = None \<and>
        (required_registration_token st \<noteq> [] \<longrightarrow>
           VerifyProvisioningToken ssl (required_registration_token st) (ta_user_id a)
             (ta_registration_token a) = Ok ())) \<and>
     length (bucket_of (ta_user_id a) (auth_begin_attempts st)) < kMaxAuthBeginAttemptsPerWindow \<and>
     length (bucket_of (ta_user_id a) (auth_finish_attempts st)) < kMaxAuthFinishAttemptsPerWindow"

lemma store_registers:
  assumes "can_log_in ssl st a sign" and "q = \<lparr>rr_user_id = ta_user_id a,
      rr_transport_auth_public_key = ta_transport_auth_public_key a,
      rr_registration_token = ta_registration_token a, rr_proof_signature_mldsa65 = sig,
      rr_rotation_signature_mldsa65 = None\<rparr>"
    and "sign ent (BuildTransportRegisterSignInput (ta_user_id a) (ta_transport_auth_public_key a)) = Ok sig"
  shows "RegisterTransportIdentity ssl st q = (Ok (), st\<lparr>transport_identities :=
      (transport_identities st)(ta_user_id a \<mapsto> ta_transport_auth_public_key a)\<rparr>)"
proof -
  have sig: "64 \<le> length sig \<and> length sig \<le> 8192 \<and>
      MlDsa65_Verify ssl (ta_transport_auth_public_key a)
        (BuildTransportRegisterSignInput (ta_user_id a) (ta_transport_auth_public_key a)) sig = Ok ()"
    using assms(1,3) unfolding can_log_in_def by (metis result.inject(1))
  with assms(1) show ?thesis
    by (auto simp: RegisterTransportIdentity_def can_log_in_def assms(2) kMaxTransportAuthPublicKeyBytes_def
        kMinMlDsaSignatureBytes_def kMaxMlDsaSignatureBytes_def map_upd_triv)
qed

lemma store_begins:
  assumes "IsValidUserId u" "length nonce = 32" "transport_identities st u = Some pk"
    and "length (bucket_of u (auth_begin_attempts st)) < kMaxAuthBeginAttemptsPerWindow"
  obtains st' where "BeginTransportAuthentication st now (Some ri) (Some rn) \<lparr>abq_user_id = u, abq_client_nonce = nonce\<rparr> =
      (Ok \<lparr>abr_challenge_id = RandomHex 16 (Some ri), abr_server_nonce = RandomBytes 32 (Some rn),
           abr_expires_at_unix = now + 60\<rparr>, st')"
    "challenges st' (RandomHex 16 (Some ri)) = Some \<lparr>ch_user_id = u, ch_client_nonce = nonce,
       ch_server_nonce = RandomBytes 32 (Some rn), ch_expires_at_unix = now + 60, ch_used = False\<rparr>"
    "transport_identities st' = transport_identities st"
    "auth_finish_attempts st' = trim_buckets now kAuthRateWindowSeconds (auth_finish_attempts st)"
proof -
  have "fst (EnforceRateLimit (trim_buckets now kAuthRateWindowSeconds (auth_begin_attempts st)) u now
      kMaxAuthBeginAttemptsPerWindow kAuthRateWindowSeconds e) = Ok ()" for e
    using assms(4) by (intro EnforceRateLimit_room) (simp add: bucket_of_trim length_TrimWindow_less)
  moreover have "RandomHex 16 (Some ri) \<noteq> []" "RandomBytes 32 (Some rn) \<noteq> []"
    using RandomHex_valid [of ri] by (auto simp: IsValidChallengeId_def kChallengeIdHexBytes_def RandomBytes_empty_iff)
  ultimately show thesis
    using assms(1-3) that
    by (simp add: BeginTransportAuthentication_def CleanupAuthState_def kExpectedAuthNonceBytes_def Let_def
        case_prod_beta)
qed

lemma store_finishes:
  assumes "IsValidUserId u" "length cn = 32" "length sn = 32" "IsValidChallengeId cid"
    and "challenges st cid = Some \<lparr>ch_user_id = u, ch_client_nonce = cn, ch_server_nonce = sn,
      ch_expires_at_unix = exp, ch_used = False\<rparr>"
    and "transport_identities st u = Some pk" and "now \<le> exp"
    and "64 \<le> length sig" "length sig \<le> 8192"
    and "MlDsa65_Verify ssl pk (BuildTransportAuthSignInput u cn sn cid exp) sig = Ok ()"
    and "length (bucket_of u (auth_finish_attempts st)) < kMaxAuthFinishAttemptsPerWindow"
  obtains st' where "FinishTransportAuthentication ssl st now (Some rt)
      \<lparr>afq_user_id = u, afq_challenge_id = cid, afq_client_nonce = cn, afq_server_nonce = sn,
       afq_expires_at_unix = exp, afq_signature_mldsa65 = sig\<rparr> =
      (Ok \<lparr>afr_session_token = RandomBytes 32 (Some rt), afr_expires_at_unix = now + 900\<rparr>, st')"
    "sessions st' (hex_string (RandomBytes 32 (Some rt))) = Some \<lparr>ss_user_id = u, ss_expires_at_unix = now + 900\<rparr>"
proof -
  have "fst (EnforceRateLimit (trim_buckets now kAuthRateWindowSeconds (auth_finish_attempts st)) u now
      kMaxAuthFinishAttemptsPerWindow kAuthRateWindowSeconds e) = Ok ()" for e
    using assms(11) by (intro EnforceRateLimit_room) (simp add: bucket_of_trim length_TrimWindow_less)
  then show thesis
    using assms that
    by (simp add: FinishTransportAuthentication_def issue_session_def CleanupAuthState_def erase_if_def
        kExpectedAuthNonceBytes_def kMinMlDsaSignatureBytes_def kMaxMlDsaSignatureBytes_def Let_def
        case_prod_beta RandomBytes_empty_iff not_less)
qed

lemma session_authenticates:
  "sessions st (hex_string token) = Some \<lparr>ss_user_id = u, ss_expires_at_unix = exp\<rparr> \<Longrightarrow> length token = 32 \<Longrightarrow>
   now \<le> exp \<Longrightarrow> fst (AuthenticateSessionToken st now token) = Ok u"
  by (simp add: AuthenticateSessionToken_def CleanupAuthState_def erase_if_def kExpectedSessionTokenBytes_def
      Let_def not_less)

subsection \<open>The login of the client object\<close>

text \<open>The generators work, and the login takes less than a minute on a clock that does not wrap.\<close>

definition login_env :: "(nat \<Rightarrow> frame_env) \<Rightarrow> 'w network \<Rightarrow> nat \<Rightarrow> bool" where
  "login_env envs net i \<longleftrightarrow> (\<forall>t. nw_rand net t \<noteq> None) \<and>
     env_rnd1 (fe_call (envs (i + 1))) \<noteq> None \<and> env_rnd2 (fe_call (envs (i + 1))) \<noteq> None \<and>
     env_rnd1 (fe_call (envs (i + 2))) \<noteq> None \<and>
     env_now (fe_call (envs (i + 2))) \<le> env_now (fe_call (envs (i + 1))) + 60"

lemma to_server_sel [simp]:
  "nw_connect (to_server api cfg envs tls addr n net) = nw_connect net"
  "nw_sends (to_server api cfg envs tls addr n net) = nw_sends net"
  "nw_now (to_server api cfg envs tls addr n net) = nw_now net"
  "nw_rand (to_server api cfg envs tls addr n net) = nw_rand net"
  "nw_entropy (to_server api cfg envs tls addr n net) = nw_entropy net"
  "network_up (to_server api cfg envs tls addr n net) a = network_up net a"
  by (simp_all add: to_server_def network_up_def)

lemma network_up_close:
  "CloseConnection a' = CloseConnection a \<Longrightarrow> network_up net a \<Longrightarrow> network_up net a'"
  using network_up_cong [of a' a net] by (simp add: CloseConnection_eq_iff)

lemma user_id_short: "IsValidUserId u \<Longrightarrow> length u \<le> 64"
  by (auto simp: IsValidUserId_def kMaxUserIdBytes_def split: if_splits)

lemma length_RandomHex [simp]: "length (RandomHex 16 (Some r)) = 32"
  using RandomHex_valid [of r] by (simp add: IsValidChallengeId_def kChallengeIdHexBytes_def)

abbreviation login_commands :: "TcpCommand set" where
  "login_commands \<equiv> {kRegisterTransportIdentity, kAuthBegin, kAuthFinish}"

lemma register_self_succeeds:
  fixes net :: "(nat \<times> TcpServer \<times> InMemoryServer) network"
  assumes nt_def: "nt = to_server (in_memory_api ssl) cfg envs tls addr n net"
    and up: "network_up net (ts_api s)" "idle (ts_api s)" "ts_peer s = (i, t, st)"
    and can: "can_log_in ssl st a sign" and rooms: "rooms cfg addr (ta_user_id a) t login_commands"
  shows "\<exists>a' t'. register_self nt sign a s = Some (Ok (), \<lparr>ts_api = a', ts_peer = (Suc i, t',
      st\<lparr>transport_identities := (transport_identities st)(ta_user_id a \<mapsto> ta_transport_auth_public_key a)\<rparr>),
      ts_tick = ts_tick s + 2\<rparr>) \<and> idle a' \<and> CloseConnection a' = CloseConnection (ts_api s) \<and>
    rooms cfg addr (ta_user_id a) t' {kAuthBegin, kAuthFinish}"
proof -
  let ?m = "BuildTransportRegisterSignInput (ta_user_id a) (ta_transport_auth_public_key a)"
  obtain sig where sig: "sign (nw_entropy net (ts_tick s)) ?m = Ok sig" "length sig \<le> 8192"
    using can unfolding can_log_in_def by blast
  let ?q = "\<lparr>rr_user_id = ta_user_id a, rr_transport_auth_public_key = ta_transport_auth_public_key a,
      rr_registration_token = ta_registration_token a, rr_proof_signature_mldsa65 = sig,
      rr_rotation_signature_mldsa65 = None\<rparr>"
  let ?s = "s\<lparr>ts_tick := Suc (ts_tick s)\<rparr>"
  have "string_ok (ta_registration_token a)" "length (ta_transport_auth_public_key a) \<le> 8192"
    "length (ta_user_id a) \<le> 64" using can user_id_short by (auto simp: can_log_in_def)
  then have "RegisterRequest_ok ?q" "length (RegisterRequest_bytes ?q) \<le> 1048576"
    using sig(2) by (auto simp: RegisterRequest_ok_def RegisterRequest_bytes_def string_ok_def field_ok_def
        opt_field_ok_def Writer_OptionalBytes_def)
  then have "reaches_store (RegisterTransportIdentity_tcp nt ?q) ?s (Ok (), st\<lparr>transport_identities :=
      (transport_identities st)(ta_user_id a \<mapsto> ta_transport_auth_public_key a)\<rparr>)
      (\<lambda>t'. rooms cfg addr (rr_user_id ?q) t' {kAuthBegin, kAuthFinish})"
    unfolding nt_def using up rooms store_registers [OF can refl sig(1)]
    by (intro server_login.register_reaches_store [where i = i and t = t and st = st]) (simp_all add: api_simps)
  then show ?thesis
    using sig(1) up(3) by (auto simp: nt_def reaches_store_def register_self_def tbind_def draw_def treturn_def)
qed

lemma log_in_succeeds:
  fixes net :: "(nat \<times> TcpServer \<times> InMemoryServer) network"
  assumes nt_def: "nt = to_server (in_memory_api ssl) cfg envs tls addr n net"
    and up: "network_up net (ts_api s)" "idle (ts_api s)" "ts_peer s = (i, t, st)"
    and can: "can_log_in ssl st a sign"
      "transport_identities st (ta_user_id a) = Some (ta_transport_auth_public_key a)"
    and rooms: "rooms cfg addr (ta_user_id a) t {kAuthBegin, kAuthFinish}"
    and env: "nw_rand net (ts_tick s) = Some rnd"
      "env_rnd1 (fe_call (envs i)) = Some r1" "env_rnd2 (fe_call (envs i)) = Some r2"
      "env_rnd1 (fe_call (envs (Suc i))) = Some r3"
      "env_now (fe_call (envs (Suc i))) \<le> env_now (fe_call (envs i)) + 60"
  shows "\<exists>a' t' st'. log_in nt sign a s = Some (Ok \<lparr>afr_session_token = RandomBytes 32 (Some r3),
      afr_expires_at_unix = env_now (fe_call (envs (Suc i))) + 900\<rparr>,
      \<lparr>ts_api = a', ts_peer = (i + 2, t', st'), ts_tick = ts_tick s + 4\<rparr>) \<and> idle a' \<and>
    CloseConnection a' = CloseConnection (ts_api s) \<and>
    sessions st' (hex_string (RandomBytes 32 (Some r3))) = Some \<lparr>ss_user_id = ta_user_id a,
      ss_expires_at_unix = env_now (fe_call (envs (Suc i))) + 900\<rparr>"
proof -
  let ?u = "ta_user_id a" let ?cn = "fill 32 rnd" let ?sn = "RandomBytes 32 (Some r2)"
  let ?cid = "RandomHex 16 (Some r1)" let ?exp = "env_now (fe_call (envs i)) + 60"
  let ?bq = "\<lparr>abq_user_id = ?u, abq_client_nonce = ?cn\<rparr>"
  let ?br = "\<lparr>abr_challenge_id = ?cid, abr_server_nonce = ?sn, abr_expires_at_unix = ?exp\<rparr>"
  have u: "IsValidUserId ?u" "length ?u \<le> 64" using can user_id_short by (auto simp: can_log_in_def)
  obtain st1 where b: "BeginTransportAuthentication st (env_now (fe_call (envs i))) (Some r1) (Some r2) ?bq = (Ok ?br, st1)"
    and ch: "challenges st1 ?cid = Some \<lparr>ch_user_id = ?u, ch_client_nonce = ?cn, ch_server_nonce = ?sn,
      ch_expires_at_unix = ?exp, ch_used = False\<rparr>"
    and st1: "transport_identities st1 = transport_identities st"
      "auth_finish_attempts st1 = trim_buckets (env_now (fe_call (envs i))) kAuthRateWindowSeconds (auth_finish_attempts st)"
    using can by (elim store_begins [OF u(1) _ can(2), rotated 2]) (auto simp: can_log_in_def)
  let ?s0 = "s\<lparr>ts_tick := Suc (ts_tick s)\<rparr>"
  have "reaches_store (BeginTransportAuthentication_tcp nt ?bq) ?s0 (Ok ?br, st1)
      (\<lambda>t'. rooms cfg addr (abq_user_id ?bq) t' {kAuthFinish})"
    unfolding nt_def using up rooms b env(2,3) u(2)
    by (intro server_login.begin_reaches_store [where i = i and t = t and st = st])
      (simp_all add: api_simps AuthBeginRequest_ok_def AuthBeginResponse_ok_def AuthBeginRequest_bytes_def
        AuthBeginResponse_bytes_def string_ok_def field_ok_def length_RandomBytes)
  then obtain a1 t1 where r1: "BeginTransportAuthentication_tcp nt ?bq ?s0 =
      Some (Ok ?br, \<lparr>ts_api = a1, ts_peer = (Suc i, t1, st1), ts_tick = ts_tick s + 2\<rparr>)"
    and a1: "idle a1" "CloseConnection a1 = CloseConnection (ts_api s)"
      "rooms cfg addr ?u t1 {kAuthFinish}"
    using up(3) by (auto simp: reaches_store_def)
  obtain sig where sig: "sign (nw_entropy net (ts_tick s + 2)) (BuildTransportAuthSignInput ?u ?cn ?sn ?cid ?exp) = Ok sig"
    "64 \<le> length sig" "length sig \<le> 8192"
    "MlDsa65_Verify ssl (ta_transport_auth_public_key a) (BuildTransportAuthSignInput ?u ?cn ?sn ?cid ?exp) sig = Ok ()"
    using can(1) unfolding can_log_in_def by blast
  let ?fq = "\<lparr>afq_user_id = ?u, afq_challenge_id = ?cid, afq_client_nonce = ?cn, afq_server_nonce = ?sn,
      afq_expires_at_unix = ?exp, afq_signature_mldsa65 = sig\<rparr>"
  let ?fr = "\<lparr>afr_session_token = RandomBytes 32 (Some r3),
      afr_expires_at_unix = env_now (fe_call (envs (Suc i))) + 900\<rparr>"
  have room: "length (bucket_of ?u (auth_finish_attempts st1)) < kMaxAuthFinishAttemptsPerWindow"
    using can(1) by (simp add: st1 bucket_of_trim length_TrimWindow_less can_log_in_def)
  have ident: "transport_identities st1 ?u = Some (ta_transport_auth_public_key a)" using can(2) st1 by simp
  obtain st2 where f: "FinishTransportAuthentication ssl st1 (env_now (fe_call (envs (Suc i)))) (Some r3) ?fq = (Ok ?fr, st2)"
    and sess: "sessions st2 (hex_string (RandomBytes 32 (Some r3))) = Some \<lparr>ss_user_id = ?u,
      ss_expires_at_unix = env_now (fe_call (envs (Suc i))) + 900\<rparr>"
    by (rule store_finishes [OF u(1) _ _ RandomHex_valid ch ident env(5) sig(2,3,4) room])
      (simp_all add: length_RandomBytes)
  let ?s2 = "\<lparr>ts_api = a1, ts_peer = (Suc i, t1, st1), ts_tick = ts_tick s + 3\<rparr>"
  have "reaches_store (FinishTransportAuthentication_tcp nt ?fq) ?s2 (Ok ?fr, st2)
      (\<lambda>t'. rooms cfg addr (afq_user_id ?fq) t' {})"
    unfolding nt_def using a1 f env(4) u(2) sig(3) network_up_close [OF a1(2) up(1)]
    by (intro server_login.finish_reaches_store [where i = "Suc i" and t = t1 and st = st1])
      (simp_all add: api_simps AuthFinishRequest_ok_def AuthFinishResponse_ok_def AuthFinishRequest_bytes_def
        AuthFinishResponse_bytes_def string_ok_def field_ok_def length_RandomBytes)
  then obtain a2 t2 where r2: "FinishTransportAuthentication_tcp nt ?fq ?s2 =
      Some (Ok ?fr, \<lparr>ts_api = a2, ts_peer = (i + 2, t2, st2), ts_tick = ts_tick s + 4\<rparr>)"
    and "idle a2" "CloseConnection a2 = CloseConnection (ts_api s)"
    using a1(2) by (auto simp: reaches_store_def)
  then show ?thesis
    using r1 r2 sig(1) env(1) sess
    by (auto simp: log_in_def tbind_def draw_def treturn_def RandomBytes_tcp_def nt_def eval_nat_numeral)
qed

text \<open>
C24. EnsureAuthenticated of an object without a session, whose user is registered with its
key or may register, against the TCP server over the in-memory store, with a working
network, signer and random generators, room in all rate limits and less than a minute
between challenge and answer: it returns success, the token has 32 bytes, expires 900
seconds after the server clock of the last frame, and authenticates as the user until then.
\<close>

theorem login_gives_a_session:
  assumes up: "network_up net (ts_api s)" "idle (ts_api s)" "ts_peer s = (i, t, st)"
    and account: "ta_sign_fn (ts_api s) = Some sign" "ta_session_token (ts_api s) = []"
      "can_log_in ssl st (ts_api s) sign" "rooms cfg addr (ta_user_id (ts_api s)) t login_commands"
    and env: "login_env envs net i"
    and later: "now \<le> env_now (fe_call (envs (i + 2))) + 900"
  shows "\<exists>s' t' st'. EnsureAuthenticated (to_server (in_memory_api ssl) cfg envs tls addr n net) s = Some (Ok (), s') \<and>
    account (ts_api s') = account (ts_api s) \<and> idle (ts_api s') \<and> ts_peer s' = (i + 3, t', st') \<and>
    length (ta_session_token (ts_api s')) = 32 \<and>
    ta_session_expires_at_unix (ts_api s') = env_now (fe_call (envs (i + 2))) + 900 \<and>
    fst (AuthenticateSessionToken st' now (ta_session_token (ts_api s'))) = Ok (ta_user_id (ts_api s))"
proof -
  let ?net = "to_server (in_memory_api ssl) cfg envs tls addr n net"
  let ?s0 = "s\<lparr>ts_tick := Suc (ts_tick s)\<rparr>" let ?a = "ts_api s"
  let ?st = "st\<lparr>transport_identities := (transport_identities st)(ta_user_id ?a \<mapsto> ta_transport_auth_public_key ?a)\<rparr>"
  obtain a1 t1 where reg: "register_self ?net sign ?a ?s0 =
      Some (Ok (), \<lparr>ts_api = a1, ts_peer = (Suc i, t1, ?st), ts_tick = ts_tick s + 3\<rparr>)"
    and a1: "idle a1" "CloseConnection a1 = CloseConnection ?a"
      "rooms cfg addr (ta_user_id ?a) t1 {kAuthBegin, kAuthFinish}"
    using register_self_succeeds [OF refl, of net ?s0 i t st ssl ?a sign cfg addr envs tls n] up account
    by (auto simp: eval_nat_numeral)
  have can: "can_log_in ssl ?st ?a sign" using account(3) by (auto simp: can_log_in_def)
  let ?s1 = "\<lparr>ts_api = a1, ts_peer = (Suc i, t1, ?st), ts_tick = ts_tick s + 3\<rparr>"
  obtain rnd r1 r2 r3 where rands: "nw_rand net (ts_tick ?s1) = Some rnd"
    "env_rnd1 (fe_call (envs (Suc i))) = Some r1" "env_rnd2 (fe_call (envs (Suc i))) = Some r2"
    "env_rnd1 (fe_call (envs (Suc (Suc i)))) = Some r3"
    "env_now (fe_call (envs (Suc (Suc i)))) \<le> env_now (fe_call (envs (Suc i))) + 60"
    using env unfolding login_env_def by (auto simp: not_None_eq)  meson
  obtain a2 t2 st2 where log: "log_in ?net sign ?a ?s1 = Some (Ok \<lparr>afr_session_token = RandomBytes 32 (Some r3),
      afr_expires_at_unix = env_now (fe_call (envs (i + 2))) + 900\<rparr>,
      \<lparr>ts_api = a2, ts_peer = (i + 3, t2, st2), ts_tick = ts_tick s + 7\<rparr>)"
    and a2: "idle a2" "CloseConnection a2 = CloseConnection ?a"
    and sess: "sessions st2 (hex_string (RandomBytes 32 (Some r3))) = Some \<lparr>ss_user_id = ta_user_id ?a,
      ss_expires_at_unix = env_now (fe_call (envs (i + 2))) + 900\<rparr>"
    using log_in_succeeds [where net = net and s = ?s1 and i = "Suc i" and t = t1 and st = ?st and a = ?a
        and envs = envs and ssl = ssl and cfg = cfg and addr = addr and tls = tls and n = n and sign = sign,
        OF refl _ _ _ can _ _ rands] up(1) a1
    by (auto simp: network_up_close eval_nat_numeral)
  let ?a' = "a2\<lparr>ta_session_token := RandomBytes 32 (Some r3),
      ta_session_expires_at_unix := env_now (fe_call (envs (i + 2))) + 900\<rparr>"
  let ?s' = "\<lparr>ts_api = ?a', ts_peer = (i + 3, t2, st2), ts_tick = ts_tick s + 7\<rparr>"
  have "EnsureAuthenticated ?net s = Some (Ok (), ?s')"
    using account(1,2) reg log
    by (simp add: EnsureAuthenticated_def tbind_def tseq_def this_api_def draw_def update_api_def)
  moreover have "account ?a' = account ?a" using a2(2) by (simp add: account_def CloseConnection_eq_iff)
  moreover have "idle ?a'" using a2(1) by (simp add: idle_def split: option.splits)
  moreover have "fst (AuthenticateSessionToken st2 now (RandomBytes 32 (Some r3))) = Ok (ta_user_id ?a)"
    using sess later by (intro session_authenticates) (simp_all add: length_RandomBytes)
  ultimately show ?thesis
    by (intro exI [of _ ?s'] exI [of _ t2] exI [of _ st2]) (simp add: length_RandomBytes)
qed

subsection \<open>Logging out\<close>

lemma store_revokes:
  assumes "AuthenticateSessionToken st0 now token = (Ok u, st)"
  shows "\<exists>st'. RevokeSessionToken st token = (Ok (), st') \<and>
    fst (AuthenticateSessionToken st' now' token) = Err ''invalid session''"
proof -
  from assms have "length token = 32" "sessions st (hex_string token) \<noteq> None"
    by (auto simp: AuthenticateSessionToken_def Let_def kExpectedSessionTokenBytes_def
        split: if_splits option.splits)
  then show ?thesis
    by (auto simp: RevokeSessionToken_def AuthenticateSessionToken_def kExpectedSessionTokenBytes_def
        erase_if_def Let_def)
qed

theorem logout_ends_the_session:
  assumes "in_session (in_memory_api ssl) cfg envs net s u st"
  shows "\<exists>s'. LogoutCurrentSession net s = Some (Ok (), s') \<and>
    ta_session_token (ts_api s') = [] \<and> ta_session_expires_at_unix (ts_api s') = 0 \<and> ta_fd (ts_api s') = None \<and>
    fst (AuthenticateSessionToken (snd (snd (ts_peer s'))) now (ta_session_token (ts_api s))) =
      Err ''invalid session''"
proof -
  let ?tok = "ta_session_token (ts_api s)"
  obtain i t st0 where peer: "ts_peer s = (i, t, st0)" by (cases "ts_peer s")
  have ready: "session_ready net s" using assms by (simp add: in_session_def)
  have "AuthenticateSessionToken st0 (env_now (fe_auth (envs i))) ?tok = (Ok u, st)"
    using assms peer by (simp add: in_session_def api_simps)
  from store_revokes [OF this] obtain st' where st': "RevokeSessionToken st ?tok = (Ok (), st')"
    "fst (AuthenticateSessionToken st' now ?tok) = Err ''invalid session''" by blast
  have "session_command (in_memory_api ssl) (envs i) u ?tok kLogout [] st = (ok_response [], st')"
    using st'(1) by (simp add: session_command_def handle_logout_def api_simps)
  from session_request [OF assms, of kLogout "[]" "ok_response []" st'] this peer
  have "forwards (tseq (EnsureAuthenticated net) (RequestAuthenticated net kLogout [])) s (Ok [], st') 2"
    by (simp add: session_commands_def)
  then obtain a' where req: "Request net kLogout
      (AuthenticatedPayload_bytes \<lparr>ap_session_token = ?tok, ap_payload = []\<rparr>) (s\<lparr>ts_tick := Suc (ts_tick s)\<rparr>) =
      Some (Ok [], \<lparr>ts_api = a', ts_peer = (Suc i, t, st'), ts_tick = ts_tick s + 2\<rparr>)"
    and "CloseConnection a' = CloseConnection (ts_api s)"
    using peer EnsureAuthenticated_session [OF ready]
    by (auto simp: forwards_def RequestAuthenticated_def tseq_def tbind_def this_api_def treturn_def
        SerializeAuthenticatedPayload_def)
  then have tok: "ta_session_token a' = ?tok" by (simp add: CloseConnection_eq_iff)
  show ?thesis
    using req st'(2) EnsureAuthenticated_session [OF ready]
    by (simp add: LogoutCurrentSession_def RevokeSessionToken_tcp_def tseq_def tbind_def this_api_def treturn_def
        update_api_def SerializeAuthenticatedPayload_def tok CloseConnection_def)
qed

section \<open>A refusal without a text\<close>

text \<open>A peer that answers every frame with an error response whose text is empty.\<close>

definition refuses :: "nat \<Rightarrow> bytes \<Rightarrow> 'w \<Rightarrow> recv_event list \<times> 'w" where
  "refuses n sent w = (packets n (frame_of (send_error [])), w)"

interpretation refusing: frame_link "refuses n" "\<lambda>c p w. (send_error [], w)" for n
  by unfold_locales (use splits_packets in \<open>auto simp: refuses_def splits_def\<close>)

lemma refused_request:
  assumes "network_up net (ts_api s)" "idle (ts_api s)" "nw_answer net = refuses n" "length p \<le> 1048576"
  shows "\<exists>s'. Request net c p s = Some (Err [], s') \<and> ta_fd (ts_api s') \<noteq> None"
  using refusing.Request_answered [OF assms(1-3) refl assms(4), of c] by (auto simp: string_ok_def)

text \<open>
C34. Against a peer that answers every frame with an error response with an empty text,
RegisterTransportIdentity of TcpServerApi reports success, and BeginTransportAuthentication
takes the value of a result that has none.
\<close>

theorem empty_refusal_counts_as_success:
  assumes "network_up net (ts_api s)" "idle (ts_api s)" "nw_answer net = refuses n"
    and "length (RegisterRequest_bytes q) \<le> unat kMaxFramePayloadBytes"
    and "length (AuthBeginRequest_bytes bq) \<le> unat kMaxFramePayloadBytes"
  shows "(\<exists>s'. RegisterTransportIdentity_tcp net q s = Some (Ok (), s')) \<and>
    BeginTransportAuthentication_tcp net bq s = None"
  using refused_request [OF assms(1-3), of "RegisterRequest_bytes q" kRegisterTransportIdentity]
    refused_request [OF assms(1-3), of "AuthBeginRequest_bytes bq" kAuthBegin] assms(4,5)
  by (auto simp: RegisterTransportIdentity_tcp_def BeginTransportAuthentication_tcp_def tbind_def tseq_def
      treturn_def SerializeRegisterRequest_def SerializeAuthBeginRequest_def)

section \<open>Concrete runs\<close>

definition demo_connect :: connect_env where
  "demo_connect = \<lparr>ce_getaddrinfo = (\<lambda>_ _. Inr [Refused, Connected]), ce_strerror = ''refused'',
     ce_ctx_new = True, ce_min_version = True, ce_default_paths = True, ce_load_ca = (\<lambda>_. True),
     ce_use_cert = (\<lambda>_. True), ce_use_key = (\<lambda>_. True), ce_check_key = True, ce_ssl_new = True,
     ce_is_ip = (\<lambda>_. False), ce_set_ip = True, ce_set_sni = True, ce_set_host = True,
     ce_handshake = tp_verify_peer, ce_peer_digest = Inr (replicate 32 7), ce_ssl_error = None\<rparr>"

definition demo_tls :: TlsClientConfig where
  "demo_tls = \<lparr>tc_enabled = True, tc_ca_file = ''ca.pem'', tc_server_name = [], tc_client_cert_file = [],
     tc_client_key_file = [],
     tc_pinned_server_cert_sha256_hex = [hex_string (replicate 32 9), CHR '':'' # hex_string (replicate 32 7)]\<rparr>"

definition demo_sign :: "entropy \<Rightarrow> bytes \<Rightarrow> bytes result" where
  "demo_sign ent m = Ok ([1] @ replicate 64 0)"

definition demo_object :: TcpServerApi where
  "demo_object = TcpServerApi_init ''chat.example'' 9443 ''alice'' [1] (Some demo_sign) [] demo_tls"

definition demo_network :: "(bytes \<Rightarrow> 'w \<Rightarrow> recv_event list \<times> 'w) \<Rightarrow> 'w network" where
  "demo_network answer = \<lparr>nw_connect = (\<lambda>_. demo_connect), nw_sends = (\<lambda>_. [Sent 8, Sent 1048576]),
     nw_now = (\<lambda>_. 100), nw_rand = (\<lambda>_. Some [7]), nw_entropy = (\<lambda>_. []), nw_answer = answer\<rparr>"

lemma demo_network_sel [simp]:
  "nw_answer (demo_network answer) = answer" "nw_rand (demo_network answer) t = Some [7]"
  "nw_now (demo_network answer) t = 100"
  by (simp_all add: demo_network_def)

lemma demo_open: "\<exists>x. open_tls demo_connect demo_object = Ok x"
proof -
  have "(case open_tls demo_connect demo_object of Ok _ \<Rightarrow> True | Err _ \<Rightarrow> False)" by code_simp
  then show ?thesis by (simp split: result.splits)
qed

lemma write_loop_two: "write_loop f (Sent n # evs) d = Some (Ok (), d, evs)" if "length d \<le> n" "d \<noteq> []"
  using that by (cases d) simp_all

lemma demo_writes:
  assumes "length p \<le> 1048576"
  shows "\<exists>evs. WriteFrame [Sent 8, Sent 1048576] c p = Some (Ok (), frame_of (c, p), evs)"
    "\<exists>evs. WriteFrameTls (Some [Sent 8, Sent 1048576]) c p = Some (Ok (), frame_of (c, p), evs)"
proof -
  have h: "length (frame_header c p) \<le> 8" "frame_header c p \<noteq> []"
    by (simp_all add: frame_header_def StoreU32_def be32_def)
  show "\<exists>evs. WriteFrame [Sent 8, Sent 1048576] c p = Some (Ok (), frame_of (c, p), evs)"
    "\<exists>evs. WriteFrameTls (Some [Sent 8, Sent 1048576]) c p = Some (Ok (), frame_of (c, p), evs)"
    using assms write_loop_two [OF h] write_loop_two [of p 1048576]
    by (auto simp: WriteFrame_def WriteFrameTls_def write_frame_def WriteExact_def WriteExactTls_def frame_of_def)
qed

lemma demo_network_up: "network_up (demo_network answer) demo_object"
proof -
  have "ConnectTcp demo_connect (ta_host demo_object) (ta_port demo_object) = Ok ()"
    by (simp add: ConnectTcp_def demo_connect_def)
  then show ?thesis using demo_open demo_writes by (simp add: network_up_def demo_network_def)
qed

lemma demo_idle: "idle demo_object"
  by (simp add: idle_def demo_object_def TcpServerApi_init_def)

abbreviation demo_peered :: "'w \<Rightarrow> 'w tcp_sys" where
  "demo_peered w \<equiv> \<lparr>ts_api = demo_object, ts_peer = w, ts_tick = 0\<rparr>"

lemma demo_refused: "\<exists>s'. Request (demo_network (refuses 2)) c [] (demo_peered ()) = Some (Err [], s') \<and>
    ta_fd (ts_api s') \<noteq> None"
  by (rule refused_request [where n = 2]) (simp_all add: demo_network_up demo_idle)

theorem empty_refusal_counts_as_success_witness:
  "(\<exists>s'. RegisterTransportIdentity_tcp (demo_network (refuses 2)) demo_register (demo_peered ()) = Some (Ok (), s')) \<and>
   BeginTransportAuthentication_tcp (demo_network (refuses 2)) demo_begin (demo_peered ()) = None"
  by (rule empty_refusal_counts_as_success [where n = 2])
    (simp_all add: demo_network_up demo_idle demo_register_def demo_begin_def
      RegisterRequest_bytes_def AuthBeginRequest_bytes_def Writer_OptionalBytes_def)


text \<open>Alice logs in to a new server, and has a session there.\<close>

definition demo_envs :: "nat \<Rightarrow> frame_env" where
  "demo_envs i = \<lparr>fe_now_addr = 100, fe_now_user = 100,
     fe_auth = \<lparr>env_now = 100, env_rnd1 = None, env_rnd2 = None\<rparr>,
     fe_call = \<lparr>env_now = 100, env_rnd1 = Some [5], env_rnd2 = Some [9]\<rparr>\<rparr>"

abbreviation demo_server_net :: "(nat \<times> TcpServer \<times> InMemoryServer) network" where
  "demo_server_net \<equiv> to_server (in_memory_api toy_ssl) default_rate_limits demo_envs True ''10.0.0.1'' 2 (demo_network (refuses 2))"

lemma demo_can_log_in: "can_log_in toy_ssl (InMemoryServer_init []) demo_object demo_sign"
  by (simp add: can_log_in_def demo_object_def TcpServerApi_init_def demo_sign_def MlDsa65_Verify_def toy_ssl_def
      InMemoryServer_init_def IsValidUserId_def kMaxUserIdBytes_def user_id_char_def string_ok_def bucket_of_def
      kMaxAuthBeginAttemptsPerWindow_def kMaxAuthFinishAttemptsPerWindow_def)

theorem login_gives_a_session_witness:
  "\<exists>s' t' st'. EnsureAuthenticated demo_server_net (demo_peered (0, TcpServer_init, InMemoryServer_init [])) = Some (Ok (), s') \<and>
    account (ts_api s') = account demo_object \<and> idle (ts_api s') \<and> ts_peer s' = (3, t', st') \<and>
    length (ta_session_token (ts_api s')) = 32 \<and> ta_session_expires_at_unix (ts_api s') = 1000 \<and>
    fst (AuthenticateSessionToken st' 500 (ta_session_token (ts_api s'))) = Ok ''alice''"
proof -
  have "rooms default_rate_limits ''10.0.0.1'' (ta_user_id demo_object) TcpServer_init login_commands"
    by (simp add: rooms_def default_rate_limits_def TcpServer_init_def bucket_of_def)
  moreover have "login_env demo_envs (demo_network (refuses 2)) 0"
    by (simp add: login_env_def demo_envs_def)
  ultimately show ?thesis
    using login_gives_a_session [of "demo_network (refuses 2)" "demo_peered (0, TcpServer_init, InMemoryServer_init [])"
        0 TcpServer_init "InMemoryServer_init []" demo_sign toy_ssl default_rate_limits "''10.0.0.1''" demo_envs 500 True 2]
    by (simp add: demo_network_up demo_idle demo_can_log_in demo_envs_def)
      (simp add: demo_object_def TcpServerApi_init_def)
qed

text \<open>Alice with the session of \<open>demo_session\<close>.\<close>

definition demo_logged_in :: "(nat \<times> TcpServer \<times> InMemoryServer) tcp_sys" where
  "demo_logged_in = \<lparr>ts_api = demo_object\<lparr>ta_session_token := demo_token, ta_session_expires_at_unix := 1010\<rparr>,
     ts_peer = (0, TcpServer_init, demo_session), ts_tick = 0\<rparr>"

abbreviation demo_session_net :: "(nat \<times> TcpServer \<times> InMemoryServer) network" where
  "demo_session_net \<equiv> to_server (in_memory_api toy_ssl) default_rate_limits (\<lambda>_. demo_env) True ''10.0.0.1'' 2
     (demo_network (refuses 2))"

lemma demo_in_session:
  "in_session (in_memory_api toy_ssl) default_rate_limits (\<lambda>_. demo_env) demo_session_net demo_logged_in
     ''alice'' demo_authenticated"
proof -
  let ?a = "ts_api demo_logged_in"
  have "network_up (demo_network (refuses 2)) ?a"
    using demo_network_up by (rule network_up_cong [THEN iffD1, rotated 3]) (simp_all add: demo_logged_in_def)
  moreover have "idle ?a" using demo_idle by (simp add: idle_def demo_logged_in_def demo_object_def TcpServerApi_init_def)
  moreover have "length demo_token = 32" by (simp add: demo_token_def length_RandomBytes)
  ultimately have "session_ready demo_session_net demo_logged_in"
    by (auto simp: session_ready_def demo_logged_in_def demo_object_def TcpServerApi_init_def)
  moreover have "AuthenticateSessionToken demo_session 120 demo_token = (Ok ''alice'', demo_authenticated)"
    using demo_auth by (simp add: demo_authenticated_def prod_eq_iff)
  ultimately show ?thesis
    by (auto simp: in_session_def to_server_def demo_logged_in_def demo_env_def api_simps)
qed

lemma demo_mail_fits: "mail_fits demo_authenticated"
proof -
  have "mail_fits demo_session"
    unfolding demo_session_def demo_state_def demo_ops_def server_run_simps
    by (intro same_mail_fits [OF same_mail_calls(3)])
      (auto intro!: same_mail_fits [OF same_mail_calls(2)] same_mail_fits [OF same_mail_calls(1)] mail_fits_init)
  then show ?thesis unfolding demo_authenticated_def by (rule same_mail_fits [OF same_mail_calls(4)])
qed

theorem remote_calls_are_store_calls_witness:
  "forwards (EnqueueEnvelope_tcp demo_session_net ''bob'' (FromChat demo_chat)) demo_logged_in
     (EnqueueEnvelope demo_authenticated ''bob'' (FromChat demo_chat)) 2 \<and>
   forwards (DrainInbox_tcp demo_session_net ''alice'' None) demo_logged_in
     (DrainInbox demo_authenticated ''alice'' None) 2"
proof -
  have "EnqueueRequest_ok \<lparr>eq_user_id = ''bob'', eq_envelope = FromChat demo_chat\<rparr>"
    using demo_enqueue_size
    by (simp add: demo_enqueue_bytes_def EnqueueRequest_ok_def string_ok_def embedded_ok_def ChatMessage_ok_def
        demo_chat_def MessageHeader_ok_def opt_field_ok_def field_ok_def enqueue_fields_bytes_def)
  moreover have "envelope_parties (FromChat demo_chat) = Some (''alice'', ''bob'')"
    by (simp add: envelope_parties_def FromChat_def demo_chat_def)
  moreover have "string_ok ''alice''" by (simp add: string_ok_def)
  ultimately show ?thesis
    using remote_calls_are_store_calls [OF demo_in_session demo_mail_fits,
        where v = "''bob''" and e = "FromChat demo_chat" and ack = None] demo_enqueue_size
    by (simp add: demo_enqueue_bytes_def)
qed

theorem logout_ends_the_session_witness:
  "\<exists>s'. LogoutCurrentSession demo_session_net demo_logged_in = Some (Ok (), s') \<and>
    ta_session_token (ts_api s') = [] \<and> ta_session_expires_at_unix (ts_api s') = 0 \<and> ta_fd (ts_api s') = None \<and>
    fst (AuthenticateSessionToken (snd (snd (ts_peer s'))) 130 demo_token) = Err ''invalid session''"
  using logout_ends_the_session [OF demo_in_session, of 130] by (simp add: demo_logged_in_def)

end
