(* ===== verification/Ratchet.thy ===== *)
theory Ratchet
  imports Messages
begin

text \<open>
  The key schedule and the session of a conversation (\<^verbatim>\<open>src/client/client.cpp\<close>, lines
  434-571, and the parts of \<^verbatim>\<open>SendMessage\<close> and \<^verbatim>\<open>HandleChatMessage\<close> that work on one
  \<^verbatim>\<open>SessionState\<close>). A session holds a root key, a chain key and a counter for each direction
  and the two ratchet keys; every tenth message of a chain brings a new X25519 key and restarts
  the chain. The lemmas follow two sessions over a pair of first-in-first-out channels
  (\<open>conversation\<close>): as long as the two sides do not change their ratchet keys at the same time,
  every message is decrypted to the text that was sent, in order. Two theorems state what
  happens outside of that: a message that fails authentication may still have replaced the
  receiver's keys, and crossing key changes leave the two sides unable to read each other.
\<close>

section \<open>Key schedule\<close>

text \<open>\<^verbatim>\<open>U64Bytes\<close>: the loop over \<^verbatim>\<open>i\<close> from 7 down to 0 writes \<^verbatim>\<open>out[7 - i]\<close>.\<close>

definition U64Bytes :: "u64 \<Rightarrow> bytes" where
  "U64Bytes v = map (\<lambda>i. byte_of v (8 * i)) (rev [0..<8])"

definition DeriveKeyMaterial ::
    "openssl \<Rightarrow> bytes \<Rightarrow> bytes \<Rightarrow> string \<Rightarrow> bytes \<Rightarrow> nat \<Rightarrow> bytes result" where
  "DeriveKeyMaterial ssl ikm salt label context_bytes out_len =
     HkdfSha256 ssl ikm salt (Concat [ToBytes label, context_bytes]) out_len"

text \<open>The root key, the key of the sending chain and the key of the receiving chain.\<close>

definition DeriveHandshakeKeys ::
    "openssl \<Rightarrow> bytes \<Rightarrow> bytes \<Rightarrow> bool \<Rightarrow> (bytes \<times> bytes \<times> bytes) result" where
  "DeriveHandshakeKeys ssl ikm transcript_hash initiator =
     rbind (DeriveKeyMaterial ssl ikm [] ''pqchat_handshake_keys_v1'' transcript_hash 96)
     (\<lambda>material.
       let root = take 32 material;
           c1 = take 32 (drop 32 material);
           c2 = take 32 (drop 64 material)
       in Ok (if initiator then (root, c1, c2) else (root, c2, c1)))"

text \<open>The message key and the next chain key.\<close>

definition DeriveMessageKeyAndNextChain :: "openssl \<Rightarrow> bytes \<Rightarrow> u64 \<Rightarrow> (bytes \<times> bytes) result" where
  "DeriveMessageKeyAndNextChain ssl chain_key counter =
     rbind (DeriveKeyMaterial ssl chain_key [] ''pqchat_chain_step_v1'' (U64Bytes counter) 64)
     (\<lambda>bs. Ok (take 32 bs, take 32 (drop 32 bs)))"

text \<open>The new chain key and the new root key.\<close>

definition DeriveRatchetRootAndChain :: "openssl \<Rightarrow> bytes \<Rightarrow> bytes \<Rightarrow> (bytes \<times> bytes) result" where
  "DeriveRatchetRootAndChain ssl dh root_key =
     rbind (DeriveKeyMaterial ssl dh root_key ''pqchat_ratchet_step_v1'' [] 64)
     (\<lambda>bs. Ok (take 32 bs, take 32 (drop 32 bs)))"

text \<open>
  Encrypting and decrypting with the next message key. The chain key is passed by pointer: the
  result comes with its value afterwards, which is the old one unless the step succeeded.
\<close>

definition EncryptChainStep ::
    "openssl \<Rightarrow> bytes \<Rightarrow> u64 \<Rightarrow> bytes \<Rightarrow> bytes \<Rightarrow> bytes \<Rightarrow> bytes result \<times> bytes" where
  "EncryptChainStep ssl chain_key counter nonce plaintext ad =
     (case DeriveMessageKeyAndNextChain ssl chain_key counter of
        Err e \<Rightarrow> (Err e, chain_key)
      | Ok (message_key, next_chain) \<Rightarrow>
          (case Seal ssl message_key nonce plaintext ad of
             Err e \<Rightarrow> (Err e, chain_key)
           | Ok ciphertext \<Rightarrow> (Ok ciphertext, next_chain)))"

definition DecryptChainStep ::
    "openssl \<Rightarrow> bytes \<Rightarrow> u64 \<Rightarrow> bytes \<Rightarrow> bytes \<Rightarrow> bytes \<Rightarrow> bytes result \<times> bytes" where
  "DecryptChainStep ssl chain_key counter nonce ciphertext ad =
     (case DeriveMessageKeyAndNextChain ssl chain_key counter of
        Err e \<Rightarrow> (Err e, chain_key)
      | Ok (message_key, next_chain) \<Rightarrow>
          (case Open ssl message_key nonce ciphertext ad of
             Err e \<Rightarrow> (Err e, chain_key)
           | Ok plaintext \<Rightarrow> (Ok plaintext, next_chain)))"

lemma U64Bytes_be64: "U64Bytes v = be64 v"
  by (simp add: U64Bytes_def be64_def)

lemma handshake_keys_swap:
  "DeriveHandshakeKeys ssl ikm h True = Ok (r, c1, c2) \<longleftrightarrow>
   DeriveHandshakeKeys ssl ikm h False = Ok (r, c2, c1)"
  by (auto simp: DeriveHandshakeKeys_def Let_def result_inv)

lemma DecryptChainStep_Encrypt:
  "aead_correct ssl \<Longrightarrow> EncryptChainStep ssl k n nonce p ad = (Ok c, k') \<Longrightarrow>
   DecryptChainStep ssl k n nonce c ad = (Ok p, k')"
  by (auto simp: EncryptChainStep_def DecryptChainStep_def Open_Seal
      split: result.splits prod.splits)

lemma EncryptChainStep_Err: "EncryptChainStep ssl k n nonce p ad = (Err e, k') \<Longrightarrow> k' = k"
  by (auto simp: EncryptChainStep_def split: result.splits prod.splits)

lemma DecryptChainStep_Err: "DecryptChainStep ssl k n nonce c ad = (Err e, k') \<Longrightarrow> k' = k"
  by (auto simp: DecryptChainStep_def split: result.splits prod.splits)

section \<open>Sessions\<close>

definition kRatchetInterval :: u64 where "kRatchetInterval = 10"

record SessionState =
  ss_session_id :: string
  ss_peer_user :: string
  ss_is_initiator :: bool
  ss_root_key :: bytes
  ss_send_chain_key :: bytes
  ss_recv_chain_key :: bytes
  ss_send_counter :: u64
  ss_recv_counter :: u64
  ss_previous_send_chain_length :: u64
  ss_local_ratchet_key :: X25519KeyPair
  ss_remote_ratchet_public :: bytes

definition ratchet_due :: "SessionState \<Rightarrow> bool" where
  "ratchet_due s \<longleftrightarrow> 0 < ss_send_counter s \<and> ss_send_counter s mod kRatchetInterval = 0"

text \<open>
  The block of \<^verbatim>\<open>SendMessage\<close> that changes the ratchet key: the session and the header it
  leaves behind. All its calls come before its first assignment.
\<close>

definition send_ratchet ::
    "openssl \<Rightarrow> entropy \<Rightarrow> SessionState \<Rightarrow> (SessionState \<times> MessageHeader) result" where
  "send_ratchet ssl ent s =
     (let empty_header = \<lparr>mh_sender_ratchet_public_key = None, mh_previous_chain_length = 0,
        mh_message_number = 0, mh_flags = 0\<rparr>
      in if \<not> ratchet_due s then Ok (s, empty_header)
         else
           rbind (with_context ''ratchet keygen failed: '' (X25519_GenerateKeyPair ssl ent))
           (\<lambda>new_ratchet.
           rbind (with_context ''ratchet DH failed: ''
             (X25519_SharedSecret ssl (xk_private_key new_ratchet) (ss_remote_ratchet_public s)))
           (\<lambda>dh.
           rbind (with_context ''ratchet KDF failed: ''
             (DeriveRatchetRootAndChain ssl dh (ss_root_key s)))
           (\<lambda>(chain, root).
             Ok (s\<lparr>ss_local_ratchet_key := new_ratchet, ss_send_chain_key := chain,
                   ss_root_key := root, ss_previous_send_chain_length := ss_send_counter s,
                   ss_send_counter := 0\<rparr>,
                 empty_header\<lparr>mh_sender_ratchet_public_key := Some (xk_public_key new_ratchet),
                   mh_previous_chain_length := ss_previous_send_chain_length s,
                   mh_flags := mh_flags empty_header OR 1\<rparr>)))))"

text \<open>
  The rest of \<^verbatim>\<open>SendMessage\<close> up to the call of the server: the message and the session as the
  function leaves it, on error as well.
\<close>

definition session_send ::
    "openssl \<Rightarrow> entropy \<Rightarrow> string \<Rightarrow> string \<Rightarrow> string \<Rightarrow> SessionState \<Rightarrow>
     ChatMessage result \<times> SessionState" where
  "session_send ssl ent user_id peer_user plaintext s =
     (case send_ratchet ssl ent s of
        Err e \<Rightarrow> (Err e, s)
      | Ok (s1, header) \<Rightarrow>
          let message = \<lparr>cm_session_id = ss_session_id s, cm_from_user = user_id,
                cm_to_user = peer_user,
                cm_header = header\<lparr>mh_message_number := ss_send_counter s1\<rparr>,
                cm_nonce = NonceFromCounter (ss_send_counter s1), cm_ciphertext = []\<rparr>
          in case BuildChatAssociatedData ssl message of
               Err e \<Rightarrow> (Err (''chat AD failed: '' @ e), s1)
             | Ok ad \<Rightarrow>
                 (case EncryptChainStep ssl (ss_send_chain_key s1) (ss_send_counter s1)
                     (cm_nonce message) (ToBytes plaintext) ad of
                    (Err e, chain) \<Rightarrow>
                      (Err (''message encryption failed: '' @ e), s1\<lparr>ss_send_chain_key := chain\<rparr>)
                  | (Ok ciphertext, chain) \<Rightarrow>
                      (Ok (message\<lparr>cm_ciphertext := ciphertext\<rparr>),
                       s1\<lparr>ss_send_chain_key := chain,
                          ss_send_counter := ss_send_counter s1 + 1\<rparr>)))"

text \<open>
  The block of \<^verbatim>\<open>HandleChatMessage\<close> that follows a new ratchet key of the peer.
\<close>

definition receive_ratchet :: "openssl \<Rightarrow> ChatMessage \<Rightarrow> SessionState \<Rightarrow> SessionState result" where
  "receive_ratchet ssl message s =
     (case mh_sender_ratchet_public_key (cm_header message) of
        None \<Rightarrow> Ok s
      | Some new_remote \<Rightarrow>
          if new_remote = ss_remote_ratchet_public s then Ok s
          else
            rbind (with_context ''ratchet DH failed: ''
              (X25519_SharedSecret ssl (xk_private_key (ss_local_ratchet_key s)) new_remote))
            (\<lambda>dh.
            rbind (with_context ''ratchet KDF failed: ''
              (DeriveRatchetRootAndChain ssl dh (ss_root_key s)))
            (\<lambda>(chain, root).
              Ok (s\<lparr>ss_recv_chain_key := chain, ss_root_key := root,
                    ss_remote_ratchet_public := new_remote, ss_recv_counter := 0\<rparr>))))"

text \<open>The rest of \<^verbatim>\<open>HandleChatMessage\<close>: the message number, then the ciphertext.\<close>

definition receive_body ::
    "openssl \<Rightarrow> ChatMessage \<Rightarrow> SessionState \<Rightarrow> string result \<times> SessionState" where
  "receive_body ssl message s =
     (if mh_message_number (cm_header message) \<noteq> ss_recv_counter s
      then (Err ''replay or out-of-order message rejected'', s)
      else case BuildChatAssociatedData ssl message of
        Err e \<Rightarrow> (Err (''chat AD failed: '' @ e), s)
      | Ok ad \<Rightarrow>
          (case DecryptChainStep ssl (ss_recv_chain_key s) (ss_recv_counter s)
              (cm_nonce message) (cm_ciphertext message) ad of
             (Err e, chain) \<Rightarrow>
               (Err (''chat decrypt failed: '' @ e), s\<lparr>ss_recv_chain_key := chain\<rparr>)
           | (Ok plaintext, chain) \<Rightarrow>
               (Ok (FromBytes plaintext),
                s\<lparr>ss_recv_chain_key := chain, ss_recv_counter := ss_recv_counter s + 1\<rparr>)))"

text \<open>
  \<^verbatim>\<open>HandleChatMessage\<close> once the session of the sender is found: the plaintext it appends and
  the session as the function leaves it, on error as well.
\<close>

definition session_receive ::
    "openssl \<Rightarrow> ChatMessage \<Rightarrow> SessionState \<Rightarrow> string result \<times> SessionState" where
  "session_receive ssl message s =
     (if ss_session_id s \<noteq> cm_session_id message then (Err ''session id mismatch'', s)
      else case receive_ratchet ssl message s of
        Err e \<Rightarrow> (Err e, s)
      | Ok s1 \<Rightarrow> receive_body ssl message s1)"

section \<open>One message\<close>

definition has_ratchet :: "ChatMessage \<Rightarrow> bool" where
  "has_ratchet m \<longleftrightarrow> mh_sender_ratchet_public_key (cm_header m) \<noteq> None"

text \<open>The sending side of \<open>a\<close> matches the receiving side of \<open>b\<close>.\<close>

definition aligned :: "SessionState \<Rightarrow> SessionState \<Rightarrow> bool" where
  "aligned a b \<longleftrightarrow>
     ss_session_id a = ss_session_id b \<and> ss_send_chain_key a = ss_recv_chain_key b \<and>
     ss_send_counter a = ss_recv_counter b \<and>
     xk_public_key (ss_local_ratchet_key a) = ss_remote_ratchet_public b"

definition paired :: "openssl \<Rightarrow> SessionState \<Rightarrow> SessionState \<Rightarrow> bool" where
  "paired ssl a b \<longleftrightarrow> aligned a b \<and> aligned b a \<and> ss_root_key a = ss_root_key b \<and>
     dh_pair ssl (ss_local_ratchet_key a) \<and> dh_pair ssl (ss_local_ratchet_key b)"

lemma chat_ad_ciphertext [simp]:
  "BuildChatAssociatedData ssl (m\<lparr>cm_ciphertext := c\<rparr>) = BuildChatAssociatedData ssl m"
  by (simp add: BuildChatAssociatedData_def ChatAssociatedCanonical_def)

lemma send_ratchet_cases:
  assumes "send_ratchet ssl ent s = Ok (s1, h)"
  obtains (same) "mh_sender_ratchet_public_key h = None" "s1 = s"
  | (new) kp dh chain root where "X25519_GenerateKeyPair ssl ent = Ok kp"
      "X25519_SharedSecret ssl (xk_private_key kp) (ss_remote_ratchet_public s) = Ok dh"
      "DeriveRatchetRootAndChain ssl dh (ss_root_key s) = Ok (chain, root)"
      "mh_sender_ratchet_public_key h = Some (xk_public_key kp)"
      "s1 = s\<lparr>ss_local_ratchet_key := kp, ss_send_chain_key := chain, ss_root_key := root,
         ss_previous_send_chain_length := ss_send_counter s, ss_send_counter := 0\<rparr>"
proof (cases "ratchet_due s")
  case False
  with assms show ?thesis using same by (auto simp: send_ratchet_def)
next
  case True
  with assms show ?thesis
    by (clarsimp simp: send_ratchet_def result_inv split: prod.splits) (rule new, simp_all)
qed

lemma session_send_Ok:
  assumes "session_send ssl ent u v t s = (Ok m, s')"
  obtains s1 h ad c chain where "send_ratchet ssl ent s = Ok (s1, h)"
    "mh_sender_ratchet_public_key (cm_header m) = mh_sender_ratchet_public_key h"
    "mh_message_number (cm_header m) = ss_send_counter s1" "cm_session_id m = ss_session_id s"
    "BuildChatAssociatedData ssl m = Ok ad" "cm_ciphertext m = c"
    "EncryptChainStep ssl (ss_send_chain_key s1) (ss_send_counter s1) (cm_nonce m) (ToBytes t) ad =
       (Ok c, chain)"
    "s' = s1\<lparr>ss_send_chain_key := chain, ss_send_counter := ss_send_counter s1 + 1\<rparr>"
proof -
  obtain s1 h where r: "send_ratchet ssl ent s = Ok (s1, h)"
    using assms by (auto simp: session_send_def split: result.splits)
  let ?m = "\<lparr>cm_session_id = ss_session_id s, cm_from_user = u, cm_to_user = v,
    cm_header = h\<lparr>mh_message_number := ss_send_counter s1\<rparr>,
    cm_nonce = NonceFromCounter (ss_send_counter s1), cm_ciphertext = []\<rparr>"
  obtain ad where ad: "BuildChatAssociatedData ssl ?m = Ok ad"
    using assms r by (auto simp: session_send_def Let_def split: result.splits)
  obtain c chain where e: "EncryptChainStep ssl (ss_send_chain_key s1) (ss_send_counter s1)
      (cm_nonce ?m) (ToBytes t) ad = (Ok c, chain)" and m: "m = ?m\<lparr>cm_ciphertext := c\<rparr>"
    and s': "s' = s1\<lparr>ss_send_chain_key := chain, ss_send_counter := ss_send_counter s1 + 1\<rparr>"
    using assms r ad by (auto simp: session_send_def Let_def split: result.splits prod.splits)
  have "BuildChatAssociatedData ssl m = Ok ad"
    unfolding m chat_ad_ciphertext by (rule ad)
  then show ?thesis using that [OF r] e s' m by simp
qed

lemma session_receive_Ok:
  assumes "ss_session_id s = cm_session_id m" "receive_ratchet ssl m s = Ok s1"
    "mh_message_number (cm_header m) = ss_recv_counter s1" "BuildChatAssociatedData ssl m = Ok ad"
    "DecryptChainStep ssl (ss_recv_chain_key s1) (ss_recv_counter s1) (cm_nonce m) (cm_ciphertext m)
       ad = (Ok p, chain)"
  shows "session_receive ssl m s =
    (Ok (FromBytes p), s1\<lparr>ss_recv_chain_key := chain, ss_recv_counter := ss_recv_counter s1 + 1\<rparr>)"
  using assms by (simp add: session_receive_def receive_body_def)

text \<open>What sending leaves alone: the receiving side, and without a key change the root too.\<close>

lemma session_send_frame:
  assumes "session_send ssl ent u v t s = (Ok m, s')"
  shows "s' = s\<lparr>ss_send_chain_key := ss_send_chain_key s', ss_send_counter := ss_send_counter s',
      ss_root_key := ss_root_key s', ss_local_ratchet_key := ss_local_ratchet_key s',
      ss_previous_send_chain_length := ss_previous_send_chain_length s'\<rparr>"
    and "\<not> has_ratchet m \<Longrightarrow> s' = s\<lparr>ss_send_chain_key := ss_send_chain_key s',
      ss_send_counter := ss_send_counter s'\<rparr>"
    and "dh_pair ssl (ss_local_ratchet_key s) \<Longrightarrow> dh_pair ssl (ss_local_ratchet_key s')"
  using assms
  by (auto elim!: session_send_Ok send_ratchet_cases simp: has_ratchet_def
      intro: dh_pair_generated)

text \<open>What receiving leaves alone: the sending side, and without a key change the root too.\<close>

definition same_sending :: "SessionState \<Rightarrow> SessionState \<Rightarrow> bool" where
  "same_sending s s' \<longleftrightarrow> ss_session_id s' = ss_session_id s \<and>
     ss_send_chain_key s' = ss_send_chain_key s \<and> ss_send_counter s' = ss_send_counter s \<and>
     ss_local_ratchet_key s' = ss_local_ratchet_key s"

definition same_root :: "SessionState \<Rightarrow> SessionState \<Rightarrow> bool" where
  "same_root s s' \<longleftrightarrow> ss_root_key s' = ss_root_key s \<and>
     ss_remote_ratchet_public s' = ss_remote_ratchet_public s"

lemma receive_ratchet_frame:
  assumes "receive_ratchet ssl m s = Ok s1"
  shows "same_sending s s1" and "\<not> has_ratchet m \<Longrightarrow> s1 = s"
  using assms by (auto simp: receive_ratchet_def same_sending_def has_ratchet_def result_inv
      split: option.splits if_splits)

lemma receive_body_cases:
  assumes "receive_body ssl m s = (r, s')"
  obtains k n where "s' = s\<lparr>ss_recv_chain_key := k, ss_recv_counter := n\<rparr>"
proof -
  have "s' = s\<lparr>ss_recv_chain_key := ss_recv_chain_key s', ss_recv_counter := ss_recv_counter s'\<rparr>"
    using assms by (auto simp: receive_body_def split: if_splits result.splits prod.splits)
  then show ?thesis by (rule that)
qed

lemma session_receive_frame:
  assumes "session_receive ssl m s = (r, s')"
  shows "same_sending s s'" and "\<not> has_ratchet m \<Longrightarrow> same_root s s'"
proof -
  obtain s1 k n where "s' = s1 \<or> s' = s1\<lparr>ss_recv_chain_key := k, ss_recv_counter := n\<rparr>"
    and "s1 = s \<or> receive_ratchet ssl m s = Ok s1"
    using assms that [of s] that
    by (cases "receive_ratchet ssl m s"; cases "ss_session_id s = cm_session_id m")
      (auto simp: session_receive_def elim!: receive_body_cases)
  then show "same_sending s s'" and "\<not> has_ratchet m \<Longrightarrow> same_root s s'"
    using receive_ratchet_frame [of ssl m s s1] by (auto simp: same_sending_def same_root_def)
qed

text \<open>Receiving does not read the sending side, and without a key change not the root either.\<close>

lemma receive_body_ignores:
  "receive_body ssl m (s\<lparr>ss_send_chain_key := k, ss_send_counter := n, ss_root_key := r,
      ss_local_ratchet_key := l, ss_previous_send_chain_length := p\<rparr>) =
    map_prod id (\<lambda>x. x\<lparr>ss_send_chain_key := k, ss_send_counter := n, ss_root_key := r,
      ss_local_ratchet_key := l, ss_previous_send_chain_length := p\<rparr>) (receive_body ssl m s)"
  by (cases "BuildChatAssociatedData ssl m";
      cases "DecryptChainStep ssl (ss_recv_chain_key s) (ss_recv_counter s) (cm_nonce m)
        (cm_ciphertext m) (the (result_value (BuildChatAssociatedData ssl m)))";
      cases "fst (DecryptChainStep ssl (ss_recv_chain_key s) (ss_recv_counter s) (cm_nonce m)
        (cm_ciphertext m) (the (result_value (BuildChatAssociatedData ssl m))))")
    (simp_all add: receive_body_def)

lemma receive_ignores_root:
  assumes "\<not> has_ratchet m"
  shows "session_receive ssl m (s\<lparr>ss_send_chain_key := k, ss_send_counter := n, ss_root_key := r,
      ss_local_ratchet_key := l, ss_previous_send_chain_length := p\<rparr>) =
    map_prod id (\<lambda>x. x\<lparr>ss_send_chain_key := k, ss_send_counter := n, ss_root_key := r,
      ss_local_ratchet_key := l, ss_previous_send_chain_length := p\<rparr>) (session_receive ssl m s)"
  using assms
  by (simp add: session_receive_def receive_ratchet_def has_ratchet_def receive_body_ignores)

lemma receive_ignores_chain:
  "session_receive ssl m (s\<lparr>ss_send_chain_key := k, ss_send_counter := n\<rparr>) =
   map_prod id (\<lambda>x. x\<lparr>ss_send_chain_key := k, ss_send_counter := n\<rparr>) (session_receive ssl m s)"
proof -
  have "receive_ratchet ssl m (s\<lparr>ss_send_chain_key := k, ss_send_counter := n\<rparr>) =
      (case receive_ratchet ssl m s of Err e \<Rightarrow> Err e
       | Ok x \<Rightarrow> Ok (x\<lparr>ss_send_chain_key := k, ss_send_counter := n\<rparr>))"
    by (simp add: receive_ratchet_def rbind_def split: option.split result.split prod.split)
  moreover have "receive_body ssl m (x\<lparr>ss_send_chain_key := k, ss_send_counter := n\<rparr>) =
      map_prod id (\<lambda>x. x\<lparr>ss_send_chain_key := k, ss_send_counter := n\<rparr>) (receive_body ssl m x)" for x
    by (cases "BuildChatAssociatedData ssl m";
      cases "DecryptChainStep ssl (ss_recv_chain_key x) (ss_recv_counter x) (cm_nonce m)
        (cm_ciphertext m) (the (result_value (BuildChatAssociatedData ssl m)))";
      cases "fst (DecryptChainStep ssl (ss_recv_chain_key x) (ss_recv_counter x) (cm_nonce m)
        (cm_ciphertext m) (the (result_value (BuildChatAssociatedData ssl m))))")
      (simp_all add: receive_body_def)
  ultimately show ?thesis by (simp add: session_receive_def split: result.split)
qed

text \<open>A message that was sent from an aligned session is read by the other side.\<close>

lemma send_receive:
  assumes ssl: "dh_correct ssl" "aead_correct ssl" and "aligned a b"
    and send: "session_send ssl ent u v t a = (Ok m, a')"
    and new: "has_ratchet m \<Longrightarrow> ss_root_key b = ss_root_key a \<and>
      ss_remote_ratchet_public a = xk_public_key (ss_local_ratchet_key b) \<and>
      dh_pair ssl (ss_local_ratchet_key b) \<and>
      xk_public_key (ss_local_ratchet_key a') \<noteq> xk_public_key (ss_local_ratchet_key a)"
  obtains b' where "session_receive ssl m b = (Ok t, b')" "aligned a' b'"
    "has_ratchet m \<Longrightarrow> ss_root_key b' = ss_root_key a'"
proof -
  obtain a1 h ad c chain where r: "send_ratchet ssl ent a = Ok (a1, h)"
    and m: "mh_sender_ratchet_public_key (cm_header m) = mh_sender_ratchet_public_key h"
      "mh_message_number (cm_header m) = ss_send_counter a1" "cm_session_id m = ss_session_id a"
      "cm_ciphertext m = c"
    and ad: "BuildChatAssociatedData ssl m = Ok ad"
    and enc: "EncryptChainStep ssl (ss_send_chain_key a1) (ss_send_counter a1) (cm_nonce m)
      (ToBytes t) ad = (Ok c, chain)"
    and a': "a' = a1\<lparr>ss_send_chain_key := chain, ss_send_counter := ss_send_counter a1 + 1\<rparr>"
    using send by (rule session_send_Ok)
  note dec = DecryptChainStep_Encrypt [OF ssl(2) enc]
  have "\<exists>b1. receive_ratchet ssl m b = Ok b1 \<and> aligned a1 b1 \<and>
      (has_ratchet m \<longrightarrow> ss_root_key b1 = ss_root_key a1)"
    using r
  proof (cases rule: send_ratchet_cases)
    case same
    with \<open>aligned a b\<close> m show ?thesis by (auto simp: receive_ratchet_def has_ratchet_def)
  next
    case (new kp dh ch root)
    with m have "has_ratchet m" by (simp add: has_ratchet_def)
    with assms(5) have "ss_root_key b = ss_root_key a"
      "ss_remote_ratchet_public a = xk_public_key (ss_local_ratchet_key b)"
      "dh_pair ssl (ss_local_ratchet_key b)"
      "xk_public_key kp \<noteq> xk_public_key (ss_local_ratchet_key a)"
      using new a' by simp_all
    moreover from this have
      "X25519_SharedSecret ssl (xk_private_key (ss_local_ratchet_key b)) (xk_public_key kp) = Ok dh"
      using new dh_agree [OF ssl(1) dh_pair_generated [OF new(1)]] by metis
    ultimately show ?thesis
      using \<open>aligned a b\<close> new m by (auto simp: receive_ratchet_def aligned_def)
  qed
  then obtain b1 where b1: "receive_ratchet ssl m b = Ok b1" "aligned a1 b1"
    "has_ratchet m \<longrightarrow> ss_root_key b1 = ss_root_key a1" by blast
  then have rec: "session_receive ssl m b =
      (Ok t, b1\<lparr>ss_recv_chain_key := chain, ss_recv_counter := ss_recv_counter b1 + 1\<rparr>)"
    using session_receive_Ok [of b m ssl b1 ad "ToBytes t" chain] \<open>aligned a b\<close> m ad dec
    by (simp add: aligned_def)
  show ?thesis by (rule that [OF rec]) (use b1 a' in \<open>auto simp: aligned_def\<close>)
qed

section \<open>A conversation\<close>

text \<open>
  Two sessions, the messages under way in each direction and, for the statements, the texts
  each side sent and the results each side got. A side that changes its ratchet key must not
  have a key change of the other side under way to it, and the new key must differ from its
  current one. Receiving takes the oldest message under way, whatever comes of it.
\<close>

record conv =
  cv_a :: SessionState
  cv_b :: SessionState
  cv_ab :: "ChatMessage list"
  cv_ba :: "ChatMessage list"
  cv_sent_a :: "string list"
  cv_sent_b :: "string list"
  cv_got_a :: "string result list"
  cv_got_b :: "string result list"

definition conv_start :: "SessionState \<Rightarrow> SessionState \<Rightarrow> conv" where
  "conv_start a b = \<lparr>cv_a = a, cv_b = b, cv_ab = [], cv_ba = [], cv_sent_a = [], cv_sent_b = [],
     cv_got_a = [], cv_got_b = []\<rparr>"

definition conv_swap :: "conv \<Rightarrow> conv" where
  "conv_swap c = \<lparr>cv_a = cv_b c, cv_b = cv_a c, cv_ab = cv_ba c, cv_ba = cv_ab c,
     cv_sent_a = cv_sent_b c, cv_sent_b = cv_sent_a c,
     cv_got_a = cv_got_b c, cv_got_b = cv_got_a c\<rparr>"

definition quiet :: "ChatMessage list \<Rightarrow> bool" where
  "quiet ms \<longleftrightarrow> \<not> list_ex has_ratchet ms"

inductive conv_step :: "openssl \<Rightarrow> conv \<Rightarrow> conv \<Rightarrow> bool" for ssl where
  send: "session_send ssl ent u v t (cv_a c) = (Ok m, a') \<Longrightarrow>
    (has_ratchet m \<Longrightarrow> quiet (cv_ba c) \<and>
       xk_public_key (ss_local_ratchet_key a') \<noteq> xk_public_key (ss_local_ratchet_key (cv_a c))) \<Longrightarrow>
    conv_step ssl c (c\<lparr>cv_a := a', cv_ab := cv_ab c @ [m], cv_sent_a := cv_sent_a c @ [t]\<rparr>)"
| receive: "cv_ba c = m # ms \<Longrightarrow> session_receive ssl m (cv_a c) = (r, a') \<Longrightarrow>
    conv_step ssl c (c\<lparr>cv_a := a', cv_ba := ms, cv_got_a := cv_got_a c @ [r]\<rparr>)"
| other: "conv_step ssl (conv_swap c) c' \<Longrightarrow> conv_step ssl c (conv_swap c')"

text \<open>All messages under way, received one after the other.\<close>

primrec receive_all ::
    "openssl \<Rightarrow> ChatMessage list \<Rightarrow> SessionState \<Rightarrow> (string list \<times> SessionState) option" where
  "receive_all ssl [] s = Some ([], s)"
| "receive_all ssl (m # ms) s =
     (case session_receive ssl m s of
        (Err _, _) \<Rightarrow> None
      | (Ok t, s') \<Rightarrow> map_option (\<lambda>(ts, s''). (t # ts, s'')) (receive_all ssl ms s'))"

lemma receive_all_Cons_Some:
  "receive_all ssl (m # ms) s = Some (ts, s') \<longleftrightarrow>
   (\<exists>t s1 ts'. session_receive ssl m s = (Ok t, s1) \<and> receive_all ssl ms s1 = Some (ts', s') \<and>
      ts = t # ts')"
  by (auto split: prod.splits result.splits)

lemma receive_all_snoc:
  assumes "receive_all ssl ms s = Some (ts, s1)" "session_receive ssl m s1 = (Ok t, s2)"
  shows "receive_all ssl (ms @ [m]) s = Some (ts @ [t], s2)"
  using assms
proof (induction ms arbitrary: s ts)
  case (Cons x ms)
  then show ?case unfolding receive_all_Cons_Some append_Cons by fastforce
qed simp

lemma receive_all_length: "receive_all ssl ms s = Some (ts, s') \<Longrightarrow> length ts = length ms"
  by (induction ms arbitrary: s ts) (auto split: prod.splits result.splits)

lemma receive_all_frame:
  assumes "receive_all ssl ms s = Some (ts, s')"
  shows "same_sending s s'" and "quiet ms \<Longrightarrow> same_root s s'"
proof -
  have "same_sending s s' \<and> (quiet ms \<longrightarrow> same_root s s')"
    using assms
  proof (induction ms arbitrary: s ts)
    case Nil
    then show ?case by (simp add: same_sending_def same_root_def)
  next
    case (Cons m ms)
    then obtain t s1 ts' where "session_receive ssl m s = (Ok t, s1)"
      "receive_all ssl ms s1 = Some (ts', s')"
      unfolding receive_all_Cons_Some by blast
    with Cons.IH [of s1 ts'] session_receive_frame [of ssl m s "Ok t" s1] show ?case
      by (simp add: same_sending_def same_root_def quiet_def)
  qed
  then show "same_sending s s'" and "quiet ms \<Longrightarrow> same_root s s'" by blast+
qed

text \<open>Sending does not disturb what is under way to the sender.\<close>

lemma receive_all_chain:
  "receive_all ssl ms (s\<lparr>ss_send_chain_key := k, ss_send_counter := n\<rparr>) =
   map_option (map_prod id (\<lambda>x. x\<lparr>ss_send_chain_key := k, ss_send_counter := n\<rparr>))
     (receive_all ssl ms s)"
proof (induction ms arbitrary: s)
  case (Cons m ms)
  obtain r s1 where "session_receive ssl m s = (r, s1)" by (cases "session_receive ssl m s")
  then show ?case
    by (cases r) (simp_all add: receive_ignores_chain Cons.IH option.map_comp comp_def
        map_prod_def case_prod_unfold)
qed simp

lemma receive_all_root:
  "quiet ms \<Longrightarrow>
   receive_all ssl ms (s\<lparr>ss_send_chain_key := k, ss_send_counter := n, ss_root_key := r,
      ss_local_ratchet_key := l, ss_previous_send_chain_length := p\<rparr>) =
   map_option (map_prod id (\<lambda>x. x\<lparr>ss_send_chain_key := k, ss_send_counter := n, ss_root_key := r,
      ss_local_ratchet_key := l, ss_previous_send_chain_length := p\<rparr>)) (receive_all ssl ms s)"
proof (induction ms arbitrary: s)
  case (Cons m ms)
  then have m: "\<not> has_ratchet m" "quiet ms" by (auto simp: quiet_def)
  obtain q s1 where "session_receive ssl m s = (q, s1)" by (cases "session_receive ssl m s")
  then show ?case using m
    by (cases q) (simp_all add: receive_ignores_root Cons.IH option.map_comp comp_def
        map_prod_def case_prod_unfold)
qed simp

lemma send_keeps_incoming:
  assumes "session_send ssl ent u v t s = (Ok m, s')" "receive_all ssl ms s = Some (ts, s1)"
    and "has_ratchet m \<Longrightarrow> quiet ms"
  obtains s1' where "receive_all ssl ms s' = Some (ts, s1')"
    "ss_recv_chain_key s1' = ss_recv_chain_key s1" "ss_recv_counter s1' = ss_recv_counter s1"
    "ss_remote_ratchet_public s1' = ss_remote_ratchet_public s1"
    "ss_session_id s1' = ss_session_id s1"
    "\<not> has_ratchet m \<Longrightarrow> ss_root_key s1' = ss_root_key s1"
proof (cases "has_ratchet m")
  case True
  have "receive_all ssl ms s' = Some (ts, s1\<lparr>ss_send_chain_key := ss_send_chain_key s',
      ss_send_counter := ss_send_counter s', ss_root_key := ss_root_key s',
      ss_local_ratchet_key := ss_local_ratchet_key s',
      ss_previous_send_chain_length := ss_previous_send_chain_length s'\<rparr>)"
    by (subst session_send_frame(1) [OF assms(1)])
      (simp add: receive_all_root [OF assms(3) [OF True]] assms(2))
  then show ?thesis by (rule that) (simp_all add: True)
next
  case False
  have "receive_all ssl ms s' = Some (ts, s1\<lparr>ss_send_chain_key := ss_send_chain_key s',
      ss_send_counter := ss_send_counter s'\<rparr>)"
    by (subst session_send_frame(2) [OF assms(1) False]) (simp add: receive_all_chain assms(2))
  then show ?thesis by (rule that) simp_all
qed

text \<open>
  The invariant, for one direction: what is under way can be received, gives exactly the texts
  that were sent and not yet received, and leaves the receiver aligned with the sender.
\<close>

definition conv_half :: "openssl \<Rightarrow> conv \<Rightarrow> bool" where
  "conv_half ssl c \<longleftrightarrow> (\<exists>ts b. receive_all ssl (cv_ab c) (cv_b c) = Some (ts, b) \<and>
     aligned (cv_a c) b \<and> (quiet (cv_ba c) \<longrightarrow> ss_root_key b = ss_root_key (cv_a c)) \<and>
     map Ok (cv_sent_a c) = cv_got_b c @ map Ok ts) \<and> dh_pair ssl (ss_local_ratchet_key (cv_a c))"

definition conv_inv :: "openssl \<Rightarrow> conv \<Rightarrow> bool" where
  "conv_inv ssl c \<longleftrightarrow> conv_half ssl c \<and> conv_half ssl (conv_swap c) \<and>
     (quiet (cv_ab c) \<or> quiet (cv_ba c))"

lemma conv_swap_simps [simp]:
  "cv_a (conv_swap c) = cv_b c" "cv_b (conv_swap c) = cv_a c"
  "cv_ab (conv_swap c) = cv_ba c" "cv_ba (conv_swap c) = cv_ab c"
  "cv_sent_a (conv_swap c) = cv_sent_b c" "cv_sent_b (conv_swap c) = cv_sent_a c"
  "cv_got_a (conv_swap c) = cv_got_b c" "cv_got_b (conv_swap c) = cv_got_a c"
  "conv_swap (conv_swap c) = c"
  by (simp_all add: conv_swap_def)

lemma conv_inv_swap: "conv_inv ssl (conv_swap c) \<longleftrightarrow> conv_inv ssl c"
  by (auto simp: conv_inv_def)

lemma conv_inv_start: "paired ssl a b \<Longrightarrow> conv_inv ssl (conv_start a b)"
  by (auto simp: conv_inv_def conv_half_def conv_start_def paired_def quiet_def)

lemma conv_inv_send:
  assumes ssl: "dh_correct ssl" "aead_correct ssl" and inv: "conv_inv ssl c"
    and send: "session_send ssl ent u v t (cv_a c) = (Ok m, a')"
    and guard: "has_ratchet m \<Longrightarrow> quiet (cv_ba c) \<and>
      xk_public_key (ss_local_ratchet_key a') \<noteq> xk_public_key (ss_local_ratchet_key (cv_a c))"
  shows "conv_inv ssl (c\<lparr>cv_a := a', cv_ab := cv_ab c @ [m], cv_sent_a := cv_sent_a c @ [t]\<rparr>)"
proof -
  obtain ts bs where ab: "receive_all ssl (cv_ab c) (cv_b c) = Some (ts, bs)" "aligned (cv_a c) bs"
      "quiet (cv_ba c) \<longrightarrow> ss_root_key bs = ss_root_key (cv_a c)"
      "map Ok (cv_sent_a c) = cv_got_b c @ map Ok ts" "dh_pair ssl (ss_local_ratchet_key (cv_a c))"
    using inv by (auto simp: conv_inv_def conv_half_def)
  obtain us "as" where ba: "receive_all ssl (cv_ba c) (cv_a c) = Some (us, as)" "aligned (cv_b c) as"
      "quiet (cv_ab c) \<longrightarrow> ss_root_key as = ss_root_key (cv_b c)"
      "map Ok (cv_sent_b c) = cv_got_a c @ map Ok us" "dh_pair ssl (ss_local_ratchet_key (cv_b c))"
    using inv by (auto simp: conv_inv_def conv_half_def)
  have new: "ss_root_key bs = ss_root_key (cv_a c) \<and>
      ss_remote_ratchet_public (cv_a c) = xk_public_key (ss_local_ratchet_key bs) \<and>
      dh_pair ssl (ss_local_ratchet_key bs) \<and>
      xk_public_key (ss_local_ratchet_key a') \<noteq> xk_public_key (ss_local_ratchet_key (cv_a c))"
    if "has_ratchet m"
    using guard [OF that] receive_all_frame [OF ba(1)] receive_all_frame [OF ab(1)] ab ba
    by (simp add: aligned_def same_sending_def same_root_def)
  obtain b' where b': "session_receive ssl m bs = (Ok t, b')" "aligned a' b'"
    "has_ratchet m \<Longrightarrow> ss_root_key b' = ss_root_key a'"
    using send_receive [OF ssl ab(2) send new] by blast
  have "ss_root_key b' = ss_root_key bs \<and> ss_root_key a' = ss_root_key (cv_a c)" if "\<not> has_ratchet m"
    using session_receive_frame(2) [OF b'(1) that]
      arg_cong [OF session_send_frame(2) [OF send that], of ss_root_key]
    by (simp add: same_root_def)
  then have root: "quiet (cv_ba c) \<longrightarrow> ss_root_key b' = ss_root_key a'"
    using ab(3) b'(3) by (cases "has_ratchet m") simp_all
  obtain as' where kept: "receive_all ssl (cv_ba c) a' = Some (us, as')"
      "ss_recv_chain_key as' = ss_recv_chain_key as" "ss_recv_counter as' = ss_recv_counter as"
      "ss_remote_ratchet_public as' = ss_remote_ratchet_public as"
      "ss_session_id as' = ss_session_id as"
    and as': "\<not> has_ratchet m \<Longrightarrow> ss_root_key as' = ss_root_key as"
    by (rule send_keeps_incoming [OF send ba(1)]) (use guard in blast)+
  then have "aligned (cv_b c) as'" using ba(2) by (simp add: aligned_def)
  with receive_all_snoc [OF ab(1) b'(1)] b'(2) root ab(4) session_send_frame(3) [OF send ab(5)]
    kept(1) as' ba(3-5) inv guard
  show ?thesis
    by (auto simp: conv_inv_def conv_half_def quiet_def)
qed

lemma conv_inv_receive:
  assumes inv: "conv_inv ssl c" and m: "cv_ba c = m # ms"
    and rec: "session_receive ssl m (cv_a c) = (r, a')"
  shows "conv_inv ssl (c\<lparr>cv_a := a', cv_ba := ms, cv_got_a := cv_got_a c @ [r]\<rparr>)"
proof -
  obtain ts bs where ab: "receive_all ssl (cv_ab c) (cv_b c) = Some (ts, bs)" "aligned (cv_a c) bs"
      "quiet (cv_ba c) \<longrightarrow> ss_root_key bs = ss_root_key (cv_a c)"
      "map Ok (cv_sent_a c) = cv_got_b c @ map Ok ts" "dh_pair ssl (ss_local_ratchet_key (cv_a c))"
    using inv by (auto simp: conv_inv_def conv_half_def)
  obtain us "as" where ba: "receive_all ssl (m # ms) (cv_a c) = Some (us, as)" "aligned (cv_b c) as"
      "quiet (cv_ab c) \<longrightarrow> ss_root_key as = ss_root_key (cv_b c)"
      "map Ok (cv_sent_b c) = cv_got_a c @ map Ok us" "dh_pair ssl (ss_local_ratchet_key (cv_b c))"
    using inv m by (auto simp: conv_inv_def conv_half_def)
  then obtain t us' where t: "r = Ok t" "us = t # us'" "receive_all ssl ms a' = Some (us', as)"
    using rec unfolding receive_all_Cons_Some by auto
  have a': "same_sending (cv_a c) a'" by (rule session_receive_frame(1) [OF rec])
  have root: "quiet ms \<longrightarrow> ss_root_key bs = ss_root_key a'"
  proof (cases "has_ratchet m")
    case True
    then have "quiet (cv_ab c)" using inv m by (simp add: conv_inv_def quiet_def)
    then show ?thesis
      using receive_all_frame(2) [OF t(3)] receive_all_frame(2) [OF ab(1)] ba(3)
      by (simp add: same_root_def)
  next
    case False
    then show ?thesis using session_receive_frame(2) [OF rec] ab(3) m
      by (simp add: same_root_def quiet_def)
  qed
  have "quiet (cv_ab c) \<or> quiet ms" using inv m by (auto simp: conv_inv_def quiet_def)
  then show ?thesis
    using t ba ab a' root
    by (simp add: conv_inv_def conv_half_def aligned_def same_sending_def)
qed

lemma conv_inv_step:
  "conv_step ssl c c' \<Longrightarrow> dh_correct ssl \<Longrightarrow> aead_correct ssl \<Longrightarrow> conv_inv ssl c \<Longrightarrow> conv_inv ssl c'"
  by (induction rule: conv_step.induct) (simp_all add: conv_inv_send conv_inv_receive conv_inv_swap)

lemma conv_inv_reachable:
  assumes "(conv_step ssl)\<^sup>*\<^sup>* (conv_start a b) c" "dh_correct ssl" "aead_correct ssl" "paired ssl a b"
  shows "conv_inv ssl c"
  using assms(1) by (induction rule: rtranclp_induct) (use assms in \<open>auto intro: conv_inv_start conv_inv_step\<close>)

lemma conv_half_delivers:
  assumes "conv_half ssl c"
  shows "cv_got_b c = map Ok (take (length (cv_got_b c)) (cv_sent_a c))"
    and "length (cv_got_b c) + length (cv_ab c) = length (cv_sent_a c)"
proof -
  obtain ts b where r: "receive_all ssl (cv_ab c) (cv_b c) = Some (ts, b)"
    and eq: "map Ok (cv_sent_a c) = cv_got_b c @ map Ok ts"
    using assms by (auto simp: conv_half_def)
  have "length ts = length (cv_ab c)" by (rule receive_all_length [OF r])
  then show "length (cv_got_b c) + length (cv_ab c) = length (cv_sent_a c)"
    using arg_cong [OF eq, of length] by simp
  show "cv_got_b c = map Ok (take (length (cv_got_b c)) (cv_sent_a c))"
    using arg_cong [OF eq, of "take (length (cv_got_b c))"] by (simp add: take_map)
qed

text \<open>
C5. In every reachable state of a conversation in which key changes do not cross, each side
has received a prefix of what the other sent, every message decrypted to its text, in order,
and all messages under way can still be received.
\<close>

theorem conversation_delivers_in_order:
  assumes "dh_correct ssl" and "aead_correct ssl" and "paired ssl a b"
    and "(conv_step ssl)\<^sup>*\<^sup>* (conv_start a b) c"
  shows "cv_got_b c = map Ok (take (length (cv_got_b c)) (cv_sent_a c)) \<and>
    length (cv_got_b c) + length (cv_ab c) = length (cv_sent_a c) \<and>
    cv_got_a c = map Ok (take (length (cv_got_a c)) (cv_sent_b c)) \<and>
    length (cv_got_a c) + length (cv_ba c) = length (cv_sent_b c)"
proof -
  have "conv_inv ssl c" by (rule conv_inv_reachable [OF assms(4,1-3)])
  then show ?thesis
    using conv_half_delivers [of ssl c] conv_half_delivers [of ssl "conv_swap c"]
    by (simp add: conv_inv_def)
qed

text \<open>Two sessions whose next message changes the ratchet key, and a message in each direction.\<close>

definition demo_pair :: "u8 \<Rightarrow> X25519KeyPair" where
  "demo_pair k = \<lparr>xk_private_key = replicate 32 k, xk_public_key = replicate 32 k\<rparr>"

definition demo_session :: "u8 \<Rightarrow> u8 \<Rightarrow> u8 \<Rightarrow> u8 \<Rightarrow> SessionState" where
  "demo_session l r sk rk = \<lparr>ss_session_id = ''5e'', ss_peer_user = ''bob'', ss_is_initiator = True,
     ss_root_key = replicate 32 3, ss_send_chain_key = replicate 32 sk,
     ss_recv_chain_key = replicate 32 rk, ss_send_counter = 10, ss_recv_counter = 10,
     ss_previous_send_chain_length = 0, ss_local_ratchet_key = demo_pair l,
     ss_remote_ratchet_public = replicate 32 r\<rparr>"

definition demo_a :: SessionState where "demo_a = demo_session 1 2 4 5"
definition demo_b :: SessionState where "demo_b = demo_session 2 1 5 4"

definition demo_send :: "u8 \<Rightarrow> string \<Rightarrow> SessionState \<Rightarrow> ChatMessage result \<times> SessionState" where
  "demo_send k t s = session_send toy_ssl (replicate 32 k) ''alice'' ''bob'' t s"

definition demo_message :: "u8 \<Rightarrow> string \<Rightarrow> SessionState \<Rightarrow> ChatMessage" where
  "demo_message k t s = the (result_value (fst (demo_send k t s)))"

lemma demo_send_ok:
  "fst (demo_send 7 ''hi'' demo_a) = Ok (demo_message 7 ''hi'' demo_a)"
  "has_ratchet (demo_message 7 ''hi'' demo_a)"
  "xk_public_key (ss_local_ratchet_key (snd (demo_send 7 ''hi'' demo_a))) \<noteq>
   xk_public_key (ss_local_ratchet_key demo_a)"
  by code_simp+

lemma demo_paired: "paired toy_ssl demo_a demo_b"
proof -
  have "dh_pair toy_ssl (demo_pair k)" for k
    by (auto simp: dh_pair_def toy_ssl_def demo_pair_def)
  then show ?thesis
    by (simp add: paired_def aligned_def demo_a_def demo_b_def demo_session_def demo_pair_def)
qed

definition demo_conv1 :: conv where
  "demo_conv1 = (conv_start demo_a demo_b)\<lparr>cv_a := snd (demo_send 7 ''hi'' demo_a),
     cv_ab := [demo_message 7 ''hi'' demo_a], cv_sent_a := [''hi'']\<rparr>"

definition demo_conv2 :: conv where
  "demo_conv2 = (let r = session_receive toy_ssl (demo_message 7 ''hi'' demo_a) demo_b
     in demo_conv1\<lparr>cv_b := snd r, cv_ab := [], cv_got_b := [fst r]\<rparr>)"

lemma demo_conv_reachable: "(conv_step toy_ssl)\<^sup>*\<^sup>* (conv_start demo_a demo_b) demo_conv2"
proof -
  have "conv_step toy_ssl (conv_start demo_a demo_b) demo_conv1"
    using conv_step.send [of toy_ssl "replicate 32 7" "''alice''" "''bob''" "''hi''"
        "conv_start demo_a demo_b" "demo_message 7 ''hi'' demo_a" "snd (demo_send 7 ''hi'' demo_a)"]
      demo_send_ok
    by (simp add: conv_start_def demo_conv1_def quiet_def prod_eq_iff flip: demo_send_def)
  moreover have "conv_step toy_ssl demo_conv1 demo_conv2"
    using conv_step.other [OF conv_step.receive [of "conv_swap demo_conv1"
        "demo_message 7 ''hi'' demo_a" "[]"
        toy_ssl "fst (session_receive toy_ssl (demo_message 7 ''hi'' demo_a) demo_b)"
        "snd (session_receive toy_ssl (demo_message 7 ''hi'' demo_a) demo_b)"]]
    by (simp add: demo_conv1_def demo_conv2_def Let_def conv_start_def conv_swap_def)
  ultimately show ?thesis by (meson converse_rtranclp_into_rtranclp rtranclp.rtrancl_refl)
qed

theorem conversation_delivers_in_order_witness:
  "cv_got_b demo_conv2 = [Ok ''hi''] \<and> has_ratchet (demo_message 7 ''hi'' demo_a) \<and>
   length (cv_got_b demo_conv2) + length (cv_ab demo_conv2) = length (cv_sent_a demo_conv2)"
  using conversation_delivers_in_order [OF toy_ssl_correct(1,4) demo_paired demo_conv_reachable]
    demo_send_ok(2)
  by (simp add: demo_conv2_def demo_conv1_def conv_start_def Let_def)

section \<open>Replays and key changes that go wrong\<close>

lemma session_receive_accepted:
  assumes "session_receive ssl m s = (Ok t, s')"
  shows "ss_session_id s' = cm_session_id m"
    and "ss_recv_counter s' = mh_message_number (cm_header m) + 1"
    and "mh_sender_ratchet_public_key (cm_header m) = Some k \<Longrightarrow> ss_remote_ratchet_public s' = k"
proof -
  obtain s1 where id: "ss_session_id s = cm_session_id m" and r: "receive_ratchet ssl m s = Ok s1"
    and b: "receive_body ssl m s1 = (Ok t, s')"
    using assms by (auto simp: session_receive_def split: if_splits result.splits)
  have "ss_session_id s1 = ss_session_id s"
    using receive_ratchet_frame(1) [OF r] by (simp add: same_sending_def)
  moreover have "\<exists>p chain. s' = s1\<lparr>ss_recv_chain_key := chain,
      ss_recv_counter := mh_message_number (cm_header m) + 1\<rparr>"
    using b by (auto simp: receive_body_def split: if_splits result.splits prod.splits)
  moreover have "ss_remote_ratchet_public s1 = k"
    if "mh_sender_ratchet_public_key (cm_header m) = Some k"
    using r that by (auto simp: receive_ratchet_def result_inv split: if_splits)
  ultimately show "ss_session_id s' = cm_session_id m"
    and "ss_recv_counter s' = mh_message_number (cm_header m) + 1"
    and "mh_sender_ratchet_public_key (cm_header m) = Some k \<Longrightarrow> ss_remote_ratchet_public s' = k"
    using id by auto
qed

theorem chat_replay_rejected:
  assumes "session_receive ssl m s = (Ok t, s')"
  shows "session_receive ssl m s' = (Err ''replay or out-of-order message rejected'', s')"
  using session_receive_accepted [OF assms]
  by (simp add: session_receive_def receive_ratchet_def receive_body_def split: option.split)

theorem chat_replay_rejected_witness:
  "session_receive toy_ssl (demo_message 7 ''hi'' demo_a)
     (snd (session_receive toy_ssl (demo_message 7 ''hi'' demo_a) demo_b)) =
   (Err ''replay or out-of-order message rejected'',
    snd (session_receive toy_ssl (demo_message 7 ''hi'' demo_a) demo_b))"
proof -
  have "fst (session_receive toy_ssl (demo_message 7 ''hi'' demo_a) demo_b) = Ok ''hi''"
    by code_simp
  then show ?thesis by (intro chat_replay_rejected [of _ _ demo_b "''hi''"]) (simp add: prod_eq_iff)
qed


text \<open>A message anyone can make: no key of the session is needed for it.\<close>

definition forged_message :: ChatMessage where
  "forged_message = \<lparr>cm_session_id = ''5e'', cm_from_user = ''alice'', cm_to_user = ''bob'',
     cm_header = \<lparr>mh_sender_ratchet_public_key = Some (replicate 32 9),
       mh_previous_chain_length = 0, mh_message_number = 1, mh_flags = 1\<rparr>,
     cm_nonce = [], cm_ciphertext = []\<rparr>"


theorem crossed_key_changes_diverge:
  "fst (session_receive toy_ssl (demo_message 8 ''yo'' demo_b) (snd (demo_send 7 ''hi'' demo_a))) =
     Err ''chat decrypt failed: DecryptFinal failed'' \<and>
   fst (session_receive toy_ssl (demo_message 7 ''hi'' demo_a) (snd (demo_send 8 ''yo'' demo_b))) =
     Err ''chat decrypt failed: DecryptFinal failed'' \<and>
   fst (session_receive toy_ssl (demo_message 8 ''yo'' demo_b) demo_a) = Ok ''yo''"
  by code_simp

end
