(* ===== verification/Client_State.thy ===== *)
theory Client_State
  imports Ratchet "HOL-Library.AList"
begin

text \<open>
  The state of a client (\<^verbatim>\<open>include/pqchat/client/client.h\<close>) and its persistence
  (\<^verbatim>\<open>src/client/client.cpp\<close>, lines 38-424 and 1430-1803): the binary format of the state file,
  its encryption under a passphrase, and the two operations \<open>SaveLocalState\<close> and
  \<open>LoadLocalState\<close>. An \<^verbatim>\<open>unordered_map\<close> is an association list in its iteration order, which
  C++ leaves open; an \<^verbatim>\<open>unordered_set\<close> is a set. The file system is a map from paths to
  contents; which of the system calls of a function fails, if any, is an input of the call. The
  invariant \<open>client_wf\<close> says what a client always satisfies and a saved client needs; the main
  theorem is that loading what was saved gives the same client back.
\<close>

section \<open>The client\<close>

record OneTimeEc =
  oe_public_part :: OneTimePrekeyEc
  oe_private_part :: X25519KeyPair

record OneTimePq =
  oq_public_part :: OneTimePrekeyPq
  oq_private_part :: MlKemKeyPair

record PeerIdentity =
  pi_sign_public_key :: bytes
  pi_mldsa_public_key :: bytes
  pi_dh_public_key :: bytes
  pi_verified :: bool

record Client =
  cl_user_id :: string
  cl_local_state_path :: string
  cl_identity_sign_key :: Ed25519KeyPair
  cl_identity_mldsa_key :: MlDsa65KeyPair
  cl_identity_dh_key :: X25519KeyPair
  cl_signed_prekey_ec_public :: SignedPrekeyEc
  cl_signed_prekey_ec_private :: X25519KeyPair
  cl_signed_prekey_pq_public :: SignedPrekeyPq
  cl_signed_prekey_pq_private :: MlKemKeyPair
  cl_one_time_ec_pool :: "OneTimeEc list"
  cl_one_time_pq_pool :: "OneTimePq list"
  cl_prekeys_dirty :: bool
  cl_pending_inbox_ack_up_to_id :: "u64 option"
  cl_trusted_peer_identities :: "(string \<times> PeerIdentity) list"
  cl_sessions_by_peer :: "(string \<times> SessionState) list"
  cl_seen_initial_session_ids :: "string set"
  cl_seen_initial_transcript_hashes :: "string set"
  cl_seen_initial_session_order :: "string list"
  cl_seen_initial_transcript_order :: "string list"

definition kOneTimePrekeyPoolTarget :: nat where "kOneTimePrekeyPoolTarget = 16"
definition kMaxInboxDrainPasses :: nat where "kMaxInboxDrainPasses = 64"
definition kMaxInitialReplayGuards :: nat where "kMaxInitialReplayGuards = 4096"
definition kMaxPersistedSessions :: nat where "kMaxPersistedSessions = 256"
definition kMaxPersistedPeers :: nat where "kMaxPersistedPeers = 1024"

section \<open>The state format\<close>

definition kLocalStatePayloadMagic :: string where
  "kLocalStatePayloadMagic = ''pqchat_client_state_payload_v2''"

definition kLocalStateEncryptedMagic :: string where
  "kLocalStateEncryptedMagic = ''pqchat_client_state_encrypted_v1''"

definition kMaxStateFileBytes :: nat where "kMaxStateFileBytes = 16 * 1024 * 1024"
definition kStateEncryptionSaltBytes :: nat where "kStateEncryptionSaltBytes = 16"
definition kStateEncryptionKeyBytes :: nat where "kStateEncryptionKeyBytes = 32"
definition kStatePbkdf2Iterations :: int where "kStatePbkdf2Iterations = 210000"

text \<open>
  \<^verbatim>\<open>StateWriter\<close> and \<^verbatim>\<open>StateReader\<close> repeat the integer operations and the position arithmetic
  of the wire format's reader and writer; only their byte strings have no size limit.
\<close>

definition StateReader_Bytes :: "bytes rd" where
  "StateReader_Bytes = rd_bind Reader_U32 (\<lambda>len. Reader_take (unat len))"

definition StateReader_String :: "string rd" where
  "StateReader_String = rd_bind StateReader_Bytes (\<lambda>bs. rd_return (FromBytes bs))"

definition StateReader_count :: "string \<Rightarrow> nat \<Rightarrow> string \<Rightarrow> nat rd" where
  "StateReader_count ctx mx label =
     rd_context ctx (rd_bind Reader_U32 (\<lambda>count.
       rd_bind (Reader_LimitU32 count (word_of_nat mx) label) (\<lambda>_. rd_return (unat count))))"

text \<open>A boolean is written as 0 or 1 and read as \<^verbatim>\<open>!= 0\<close>.\<close>

definition Writer_Bool :: "bool \<Rightarrow> bytes" where
  "Writer_Bool b = Writer_U8 (if b then 1 else 0)"

definition StateReader_Bool :: "bool rd" where
  "StateReader_Bool = rd_bind Reader_U8 (\<lambda>v. rd_return (v \<noteq> 0))"

definition strlen32 :: "string \<Rightarrow> bool" where
  "strlen32 s \<longleftrightarrow> length s < 2 ^ 32"

lemma decodes_StateBytes [decodes_intros]:
  "len32 v \<Longrightarrow> decodes StateReader_Bytes (Writer_Bytes v) v"
  unfolding StateReader_Bytes_def Writer_Bytes_def
  by (intro decodes_bind [OF decodes_U32] decodes_take) (simp add: len32_def unat_u32_of_nat)

lemma decodes_StateString [decodes_intros]:
  "strlen32 s \<Longrightarrow> decodes StateReader_String (Writer_String s) s"
  unfolding StateReader_String_def Writer_String_def
  using decodes_bind_return [OF decodes_StateBytes, of "ToBytes s" FromBytes]
  by (simp add: strlen32_def len32_def)

lemma decodes_StateBool [decodes_intros]: "decodes StateReader_Bool (Writer_Bool b) b"
  unfolding StateReader_Bool_def Writer_Bool_def
  by (rule decodes_eq, (rule decodes_bind_return decodes_U8)+) simp

lemma decodes_count:
  assumes "n \<le> mx" "mx < 2 ^ 32"
  shows "decodes (StateReader_count ctx mx label) (Writer_U32 (word_of_nat n)) n"
proof -
  have "unat (word_of_nat n :: u32) = n" "(word_of_nat n :: u32) \<le> word_of_nat mx"
    using assms by (simp_all add: unat_u32_of_nat word_le_nat_alt)
  then have "decodes (rd_bind Reader_U32 (\<lambda>count.
      rd_bind (Reader_LimitU32 count (word_of_nat mx) label) (\<lambda>_. rd_return (unat count))))
      (Writer_U32 (word_of_nat n) @ []) n"
    using decodes_bind_return [OF decodes_Limit, of "word_of_nat n" "word_of_nat mx" label "\<lambda>_. n"]
    by (intro decodes_bind [OF decodes_U32]) simp
  then show ?thesis by (simp add: StateReader_count_def decodes_context)
qed

text \<open>A counted list of entries, each read by \<open>m\<close> and pushed back.\<close>

definition StateReader_list :: "string \<Rightarrow> nat \<Rightarrow> string \<Rightarrow> 'a rd \<Rightarrow> 'a list rd" where
  "StateReader_list ctx mx label m =
     rd_bind (StateReader_count ctx mx label) (\<lambda>count. read_n count m)"

lemma decodes_StateList2:
  assumes "length rs \<le> mx" "mx < 2 ^ 32" "list_all2 (\<lambda>r x. decodes m (f r) x) rs xs"
  shows "decodes (StateReader_list ctx mx label m) (Writer_counted f rs) xs"
proof -
  have "decodes (read_n (length rs) m) (concat (map f rs)) xs"
    using assms(3)
  proof (induction rs xs rule: list_all2_induct)
    case Nil
    show ?case by (simp add: decodes_return)
  next
    case (Cons r rs x xs)
    then show ?case by (auto intro!: decodes_bind [of m "f r" x] decodes_bind_return)
  qed
  then show ?thesis
    unfolding StateReader_list_def Writer_counted_def
    by (rule decodes_bind [OF decodes_count [OF assms(1,2)]])
qed

lemma decodes_StateList:
  "length xs \<le> mx \<Longrightarrow> mx < 2 ^ 32 \<Longrightarrow> (\<And>x. x \<in> set xs \<Longrightarrow> decodes m (f x) x) \<Longrightarrow>
   decodes (StateReader_list ctx mx label m) (Writer_counted f xs) xs"
  by (rule decodes_StateList2) (simp_all add: list_all2_same)

lemma decodes_bind_nil:
  "decodes m w x \<Longrightarrow> decodes (k x) [] y \<Longrightarrow> decodes (rd_bind m k) w y"
  using decodes_bind [of m w x k "[]" y] by simp

section \<open>Reading and writing the parts\<close>

definition Write_pair :: "bytes \<Rightarrow> bytes \<Rightarrow> bytes" where
  "Write_pair a b = Writer_Bytes a @ Writer_Bytes b"

definition Read_pair :: "string \<Rightarrow> (bytes \<times> bytes) rd" where
  "Read_pair ctx = rd_context ctx (rd_bind StateReader_Bytes (\<lambda>a.
     rd_bind StateReader_Bytes (\<lambda>b. rd_return (a, b))))"

definition Write_header :: "string \<Rightarrow> bytes" where
  "Write_header user_id = Writer_String kLocalStatePayloadMagic @ Writer_String user_id @
     Writer_String kProtocolVersion"

definition Read_header :: "string \<Rightarrow> unit rd" where
  "Read_header user_id =
     rd_bind (rd_context ''decode local state header failed: ''
       (rd_bind StateReader_String (\<lambda>magic. rd_bind StateReader_String (\<lambda>stored_user.
        rd_bind StateReader_String (\<lambda>stored_version. rd_return (magic, stored_user, stored_version))))))
     (\<lambda>(magic, stored_user, stored_version).
       if magic \<noteq> kLocalStatePayloadMagic then rd_fail ''unsupported local state format''
       else if stored_user \<noteq> user_id then rd_fail ''local state user mismatch''
       else if stored_version \<noteq> kProtocolVersion
       then rd_fail ''local state protocol version mismatch''
       else rd_return ())"

definition Write_spk :: "u32 \<Rightarrow> bytes \<Rightarrow> bytes \<Rightarrow> bytes \<Rightarrow> bytes \<Rightarrow> bytes" where
  "Write_spk i pub sig_ed sig_ml priv = Writer_U32 i @ Writer_Bytes pub @ Writer_Bytes sig_ed @
     Writer_Bytes sig_ml @ Writer_Bytes priv"

definition Read_spk :: "string \<Rightarrow> (u32 \<times> bytes \<times> bytes \<times> bytes \<times> bytes) rd" where
  "Read_spk ctx = rd_context ctx (rd_bind Reader_U32 (\<lambda>i. rd_bind StateReader_Bytes (\<lambda>pub.
     rd_bind StateReader_Bytes (\<lambda>sig_ed. rd_bind StateReader_Bytes (\<lambda>sig_ml.
     rd_bind StateReader_Bytes (\<lambda>priv. rd_return (i, pub, sig_ed, sig_ml, priv)))))))"

definition Write_one_time :: "u32 \<times> bytes \<times> bytes \<Rightarrow> bytes" where
  "Write_one_time = (\<lambda>(i, pub, priv). Writer_U32 i @ Writer_Bytes pub @ Writer_Bytes priv)"

definition Read_one_time :: "string \<Rightarrow> (u32 \<times> bytes \<times> bytes) rd" where
  "Read_one_time ctx = rd_context ctx (rd_bind Reader_U32 (\<lambda>i. rd_bind StateReader_Bytes (\<lambda>pub.
     rd_bind StateReader_Bytes (\<lambda>priv. rd_return (i, pub, priv)))))"

definition Write_ack :: "u64 option \<Rightarrow> bytes" where
  "Write_ack v = Writer_U8 (if v \<noteq> None then 1 else 0) @
     (case v of Some x \<Rightarrow> Writer_U64 x | None \<Rightarrow> [])"

definition Read_ack :: "u64 option rd" where
  "Read_ack =
     rd_bind (rd_context ''decode local state pending ack tag failed: '' Reader_U8)
     (\<lambda>has_pending_ack.
       if has_pending_ack = 1
       then rd_bind (rd_context ''decode local state pending ack failed: '' Reader_U64)
         (\<lambda>v. rd_return (Some v))
       else if has_pending_ack = 0 then rd_return None
       else rd_fail ''decode local state pending ack tag invalid'')"

definition Write_peer :: "string \<times> PeerIdentity \<Rightarrow> bytes" where
  "Write_peer = (\<lambda>(user, peer). Writer_String user @ Writer_Bytes (pi_sign_public_key peer) @
     Writer_Bytes (pi_mldsa_public_key peer) @ Writer_Bytes (pi_dh_public_key peer) @
     Writer_Bool (pi_verified peer))"

definition Read_peer :: "(string \<times> PeerIdentity) rd" where
  "Read_peer = rd_context ''decode local state trusted peer failed: ''
     (rd_bind StateReader_String (\<lambda>user. rd_bind StateReader_Bytes (\<lambda>sign.
      rd_bind StateReader_Bytes (\<lambda>mldsa. rd_bind StateReader_Bytes (\<lambda>dh.
      rd_bind StateReader_Bool (\<lambda>verified.
      rd_return (user, \<lparr>pi_sign_public_key = sign, pi_mldsa_public_key = mldsa,
        pi_dh_public_key = dh, pi_verified = verified\<rparr>)))))))"

definition Write_session :: "string \<times> SessionState \<Rightarrow> bytes" where
  "Write_session = (\<lambda>(user, s). Writer_String user @ Writer_String (ss_session_id s) @
     Writer_String (ss_peer_user s) @ Writer_Bool (ss_is_initiator s) @
     Writer_Bytes (ss_root_key s) @ Writer_Bytes (ss_send_chain_key s) @
     Writer_Bytes (ss_recv_chain_key s) @ Writer_U64 (ss_send_counter s) @
     Writer_U64 (ss_recv_counter s) @ Writer_U64 (ss_previous_send_chain_length s) @
     Writer_Bytes (xk_private_key (ss_local_ratchet_key s)) @
     Writer_Bytes (xk_public_key (ss_local_ratchet_key s)) @
     Writer_Bytes (ss_remote_ratchet_public s))"

definition Read_session :: "(string \<times> SessionState) rd" where
  "Read_session = rd_context ''decode local state session failed: ''
     (rd_bind StateReader_String (\<lambda>user. rd_bind StateReader_String (\<lambda>session_id.
      rd_bind StateReader_String (\<lambda>peer_user. rd_bind StateReader_Bool (\<lambda>initiator.
      rd_bind StateReader_Bytes (\<lambda>root. rd_bind StateReader_Bytes (\<lambda>send_chain.
      rd_bind StateReader_Bytes (\<lambda>recv_chain. rd_bind Reader_U64 (\<lambda>send_counter.
      rd_bind Reader_U64 (\<lambda>recv_counter. rd_bind Reader_U64 (\<lambda>previous.
      rd_bind StateReader_Bytes (\<lambda>priv. rd_bind StateReader_Bytes (\<lambda>pub.
      rd_bind StateReader_Bytes (\<lambda>remote.
      rd_return (user, \<lparr>ss_session_id = session_id, ss_peer_user = peer_user,
        ss_is_initiator = initiator, ss_root_key = root, ss_send_chain_key = send_chain,
        ss_recv_chain_key = recv_chain, ss_send_counter = send_counter,
        ss_recv_counter = recv_counter, ss_previous_send_chain_length = previous,
        ss_local_ratchet_key = \<lparr>xk_private_key = priv, xk_public_key = pub\<rparr>,
        ss_remote_ratchet_public = remote\<rparr>)))))))))))))))"

section \<open>The payload\<close>

text \<open>The private halves of ML keys are exported first; a failed export ends the function.\<close>

fun export_pool :: "openssl \<Rightarrow> OneTimePq list \<Rightarrow> (u32 \<times> bytes \<times> bytes) list result" where
  "export_pool ssl [] = Ok []"
| "export_pool ssl (key # keys) =
     rbind (with_context ''export one-time pq private key failed: ''
       (MlKem768_ExportPrivateKey ssl (kk_private_key (oq_private_part key))))
     (\<lambda>priv. rbind (export_pool ssl keys)
     (\<lambda>rest. Ok ((otp_id (oq_public_part key), otp_public_key (oq_public_part key), priv) # rest)))"

definition StatePayload :: "openssl \<Rightarrow> Client \<Rightarrow> bytes result" where
  "StatePayload ssl c =
     rbind (with_context ''export identity mldsa private key failed: ''
       (MlDsa65_ExportPrivateKey ssl (dk_private_key (cl_identity_mldsa_key c))))
     (\<lambda>identity_mldsa_private.
     rbind (with_context ''export signed prekey pq private key failed: ''
       (MlKem768_ExportPrivateKey ssl (kk_private_key (cl_signed_prekey_pq_private c))))
     (\<lambda>signed_prekey_pq_private.
     rbind (export_pool ssl (cl_one_time_pq_pool c))
     (\<lambda>one_time_pq.
     if kMaxPersistedPeers < length (cl_trusted_peer_identities c)
     then Err ''too many trusted peer identities to persist''
     else if kMaxPersistedSessions < length (cl_sessions_by_peer c)
     then Err ''too many sessions to persist''
     else Ok (
       Write_header (cl_user_id c) @
       Write_pair (ek_private_key (cl_identity_sign_key c)) (ek_public_key (cl_identity_sign_key c)) @
       Write_pair identity_mldsa_private (dk_public_key (cl_identity_mldsa_key c)) @
       Write_pair (xk_private_key (cl_identity_dh_key c)) (xk_public_key (cl_identity_dh_key c)) @
       Write_spk (ske_id (cl_signed_prekey_ec_public c))
         (ske_public_key (cl_signed_prekey_ec_public c))
         (ske_signature_ed25519 (cl_signed_prekey_ec_public c))
         (ske_signature_mldsa65 (cl_signed_prekey_ec_public c))
         (xk_private_key (cl_signed_prekey_ec_private c)) @
       Write_spk (skp_id (cl_signed_prekey_pq_public c))
         (skp_public_key (cl_signed_prekey_pq_public c))
         (skp_signature_ed25519 (cl_signed_prekey_pq_public c))
         (skp_signature_mldsa65 (cl_signed_prekey_pq_public c))
         signed_prekey_pq_private @
       Writer_counted Write_one_time
         (map (\<lambda>key. (ote_id (oe_public_part key), ote_public_key (oe_public_part key),
            xk_private_key (oe_private_part key))) (cl_one_time_ec_pool c)) @
       Writer_counted Write_one_time one_time_pq @
       Writer_Bool (cl_prekeys_dirty c) @
       Write_ack (cl_pending_inbox_ack_up_to_id c) @
       Writer_counted Write_peer (cl_trusted_peer_identities c) @
       Writer_counted Write_session (cl_sessions_by_peer c) @
       Writer_counted Writer_String (cl_seen_initial_session_order c) @
       Writer_counted Writer_String (cl_seen_initial_transcript_order c)))))"

text \<open>
  \<^verbatim>\<open>map[key] = value\<close> for each entry read, in order; the sets are filled from the lists.
\<close>

definition from_entries :: "(string \<times> 'v) list \<Rightarrow> (string \<times> 'v) list" where
  "from_entries es = foldl (\<lambda>m (k, v). AList.update k v m) [] es"

definition Read_mldsa_pair :: "openssl \<Rightarrow> MlDsa65KeyPair rd" where
  "Read_mldsa_pair ssl =
     rd_bind (Read_pair ''decode local state identity mldsa key failed: '')
     (\<lambda>(priv, pub). rd_lift (with_context ''restore identity mldsa key failed: ''
       (MlDsa65_FromPrivateKey ssl priv pub)))"

definition Read_spk_ec :: "(SignedPrekeyEc \<times> X25519KeyPair) rd" where
  "Read_spk_ec =
     rd_bind (Read_spk ''decode local state signed prekey ec failed: '')
     (\<lambda>(i, pub, sig_ed, sig_ml, priv). rd_return
       (\<lparr>ske_id = i, ske_public_key = pub, ske_signature_ed25519 = sig_ed,
          ske_signature_mldsa65 = sig_ml\<rparr>,
        \<lparr>xk_private_key = priv, xk_public_key = pub\<rparr>))"

definition Read_spk_pq :: "openssl \<Rightarrow> (SignedPrekeyPq \<times> MlKemKeyPair) rd" where
  "Read_spk_pq ssl =
     rd_bind (Read_spk ''decode local state signed prekey pq failed: '')
     (\<lambda>(i, pub, sig_ed, sig_ml, priv).
     rd_bind (rd_lift (with_context ''restore signed prekey pq failed: ''
       (MlKem768_FromPrivateKey ssl priv pub)))
     (\<lambda>pair. rd_return
       (\<lparr>skp_id = i, skp_public_key = pub, skp_signature_ed25519 = sig_ed,
          skp_signature_mldsa65 = sig_ml\<rparr>, pair)))"

definition Read_ec_key :: "OneTimeEc rd" where
  "Read_ec_key =
     rd_bind (Read_one_time ''decode local state one-time ec key failed: '')
     (\<lambda>(i, pub, priv). rd_return \<lparr>oe_public_part = \<lparr>ote_id = i, ote_public_key = pub\<rparr>,
        oe_private_part = \<lparr>xk_private_key = priv, xk_public_key = pub\<rparr>\<rparr>)"

definition Read_pq_key :: "openssl \<Rightarrow> OneTimePq rd" where
  "Read_pq_key ssl =
     rd_bind (Read_one_time ''decode local state one-time pq key failed: '')
     (\<lambda>(i, pub, priv).
     rd_bind (rd_lift (with_context ''restore one-time pq key failed: ''
       (MlKem768_FromPrivateKey ssl priv pub)))
     (\<lambda>pair. rd_return \<lparr>oq_public_part = \<lparr>otp_id = i, otp_public_key = pub\<rparr>,
        oq_private_part = pair\<rparr>))"

definition Read_seen_sessions :: "string list rd" where
  "Read_seen_sessions = StateReader_list ''decode local state replay sessions failed: ''
     kMaxInitialReplayGuards ''seen initial session count''
     (rd_context ''decode local state replay session entry failed: '' StateReader_String)"

definition Read_seen_transcripts :: "string list rd" where
  "Read_seen_transcripts = StateReader_list ''decode local state replay transcripts failed: ''
     kMaxInitialReplayGuards ''seen initial transcript count''
     (rd_context ''decode local state replay transcript entry failed: '' StateReader_String)"

definition Read_payload :: "openssl \<Rightarrow> string \<Rightarrow> string \<Rightarrow> Client rd" where
  "Read_payload ssl user_id path =
     rd_bind (Read_header user_id) (\<lambda>_.
     rd_bind (Read_pair ''decode local state identity sign key failed: '') (\<lambda>(sign_sk, sign_pk).
     rd_bind (Read_mldsa_pair ssl) (\<lambda>mldsa.
     rd_bind (Read_pair ''decode local state identity dh key failed: '') (\<lambda>(dh_sk, dh_pk).
     rd_bind Read_spk_ec (\<lambda>(spk_ec, spk_ec_private).
     rd_bind (Read_spk_pq ssl) (\<lambda>(spk_pq, spk_pq_private).
     rd_bind (StateReader_list ''decode local state one-time ec count failed: ''
       (kOneTimePrekeyPoolTarget * 64) ''one-time ec count'' Read_ec_key) (\<lambda>ec_pool.
     rd_bind (StateReader_list ''decode local state one-time pq count failed: ''
       (kOneTimePrekeyPoolTarget * 64) ''one-time pq count'' (Read_pq_key ssl)) (\<lambda>pq_pool.
     rd_bind (rd_context ''decode local state prekeys_dirty failed: '' StateReader_Bool) (\<lambda>dirty.
     rd_bind Read_ack (\<lambda>ack.
     rd_bind (StateReader_list ''decode local state trusted peers failed: ''
       kMaxPersistedPeers ''trusted peer count'' Read_peer) (\<lambda>peers.
     rd_bind (StateReader_list ''decode local state sessions failed: ''
       kMaxPersistedSessions ''session count'' Read_session) (\<lambda>sessions.
     rd_bind Read_seen_sessions (\<lambda>session_ids.
     rd_bind Read_seen_transcripts (\<lambda>transcripts.
     rd_return \<lparr>cl_user_id = user_id, cl_local_state_path = path,
       cl_identity_sign_key = \<lparr>ek_private_key = sign_sk, ek_public_key = sign_pk\<rparr>,
       cl_identity_mldsa_key = mldsa,
       cl_identity_dh_key = \<lparr>xk_private_key = dh_sk, xk_public_key = dh_pk\<rparr>,
       cl_signed_prekey_ec_public = spk_ec, cl_signed_prekey_ec_private = spk_ec_private,
       cl_signed_prekey_pq_public = spk_pq, cl_signed_prekey_pq_private = spk_pq_private,
       cl_one_time_ec_pool = ec_pool, cl_one_time_pq_pool = pq_pool, cl_prekeys_dirty = dirty,
       cl_pending_inbox_ack_up_to_id = ack, cl_trusted_peer_identities = from_entries peers,
       cl_sessions_by_peer = from_entries sessions,
       cl_seen_initial_session_ids = set session_ids,
       cl_seen_initial_transcript_hashes = set transcripts,
       cl_seen_initial_session_order = session_ids,
       cl_seen_initial_transcript_order = transcripts\<rparr>))))))))))))))"

definition LoadPayload :: "openssl \<Rightarrow> string \<Rightarrow> string \<Rightarrow> bytes \<Rightarrow> Client result" where
  "LoadPayload ssl user_id path payload =
     rbind (Read_payload ssl user_id path (Reader_init payload)) (\<lambda>(c, r).
     if \<not> Reader_Finished r then Err ''decode local state failed: trailing bytes'' else Ok c)"

section \<open>Encryption of the payload\<close>

text \<open>
  What one call reads from outside: the environment variable with the passphrase, two draws of
  random bytes, and which system call of a function fails.
\<close>

record save_env =
  se_passphrase :: "string option"
  se_salt :: "bytes option"
  se_nonce :: "bytes option"
  se_dir :: "nat + unit"
  se_write :: "nat + unit"

record load_env =
  le_passphrase :: "string option"
  le_read :: "nat + unit"

definition ReadStatePassphrase :: "string option \<Rightarrow> string result" where
  "ReadStatePassphrase env =
     (if env = None \<or> env = Some [] then
        Err ''PQCHAT_STATE_PASSPHRASE is required for encrypted local state''
      else Ok (the env))"

definition DeriveStateEncryptionKey :: "openssl \<Rightarrow> string \<Rightarrow> bytes \<Rightarrow> bytes result" where
  "DeriveStateEncryptionKey ssl passphrase salt =
     (if length salt \<noteq> kStateEncryptionSaltBytes then Err ''invalid state encryption salt''
      else case ossl_pbkdf2 ssl (ToBytes passphrase) salt kStatePbkdf2Iterations of
        None \<Rightarrow> Err ''PBKDF2 state key derivation failed''
      | Some key \<Rightarrow> Ok (fill kStateEncryptionKeyBytes key))"

definition EncryptStatePayload :: "openssl \<Rightarrow> save_env \<Rightarrow> bytes \<Rightarrow> bytes result" where
  "EncryptStatePayload ssl env payload =
     rbind (ReadStatePassphrase (se_passphrase env)) (\<lambda>passphrase.
     case se_salt env of
       None \<Rightarrow> Err ''RAND_bytes failed''
     | Some salt_bytes \<Rightarrow>
         (let salt = fill kStateEncryptionSaltBytes salt_bytes in
         rbind (DeriveStateEncryptionKey ssl passphrase salt) (\<lambda>key.
         case se_nonce env of
           None \<Rightarrow> Err ''RAND_bytes failed''
         | Some nonce_bytes \<Rightarrow>
             (let nonce = fill (length (NonceFromCounter 0)) nonce_bytes in
             rbind (with_context ''state encryption failed: ''
               (Seal ssl key nonce payload (ToBytes kLocalStateEncryptedMagic)))
             (\<lambda>ciphertext. Ok (Writer_String kLocalStateEncryptedMagic @ Writer_Bytes salt @
               Writer_Bytes nonce @ Writer_Bytes ciphertext))))))"

definition Read_wrapper :: "(bytes \<times> bytes \<times> bytes) rd" where
  "Read_wrapper =
     rd_context ''decode local state wrapper failed: ''
       (rd_bind StateReader_Bytes (\<lambda>salt. rd_bind StateReader_Bytes (\<lambda>nonce.
        rd_bind StateReader_Bytes (\<lambda>ciphertext. rd_return (salt, nonce, ciphertext)))))"

definition UnwrapStatePayload :: "openssl \<Rightarrow> string option \<Rightarrow> bytes \<Rightarrow> bytes result" where
  "UnwrapStatePayload ssl env file_bytes =
     rbind (rd_context ''decode local state wrapper failed: '' StateReader_String
       (Reader_init file_bytes)) (\<lambda>(magic, r).
     if magic = kLocalStatePayloadMagic then Ok file_bytes
     else if magic \<noteq> kLocalStateEncryptedMagic then Err ''unsupported local state format''
     else
       rbind (Read_wrapper r) (\<lambda>((salt, nonce, ciphertext), r').
       if \<not> Reader_Finished r' then Err ''decode local state wrapper failed: trailing bytes''
       else
         rbind (ReadStatePassphrase env) (\<lambda>passphrase.
         rbind (DeriveStateEncryptionKey ssl passphrase salt) (\<lambda>key.
         with_context ''state decryption failed: ''
           (Open ssl key nonce ciphertext (ToBytes kLocalStateEncryptedMagic))))))"

section \<open>The state file\<close>

type_synonym disk = "string \<Rightarrow> bytes option"

text \<open>\<^verbatim>\<open>find_last_of('/')\<close>, and the directory in front of it.\<close>

definition find_last_slash :: "string \<Rightarrow> nat option" where
  "find_last_slash path =
     (if CHR ''/'' \<in> set path
      then Some (length path - 1 - length (takeWhile (\<lambda>c. c \<noteq> CHR ''/'') (rev path))) else None)"

definition EnsureStateDir :: "nat + unit \<Rightarrow> unit result" where
  "EnsureStateDir calls =
     run_calls [''state directory path must not be a symlink'', ''state path is not a directory'',
       ''failed setting state directory permissions'', ''failed creating state directory'',
       ''failed setting state directory permissions''] calls"

text \<open>
  The file appears under its name by the \<^verbatim>\<open>rename\<close>, the seventh call; a failure before leaves
  the old contents, a failure after it (\<^verbatim>\<open>FsyncDirectory\<close>) the new ones.
\<close>

definition write_errors :: "string list" where
  "write_errors = [''state file path must not be a symlink'', ''failed to open state temp file'',
     ''failed setting state temp file permissions'', ''failed writing state file'',
     ''failed syncing state file'', ''failed closing state file'', ''failed committing state file'',
     ''failed opening state directory'', ''failed syncing state directory'',
     ''failed closing state directory'']"

definition WriteAllFileAtomic ::
    "nat + unit \<Rightarrow> string \<Rightarrow> bytes \<Rightarrow> disk \<Rightarrow> unit result \<times> disk" where
  "WriteAllFileAtomic calls path bs disk =
     (case find_last_slash path of
        None \<Rightarrow> (Err ''invalid local state path'', disk)
      | Some slash \<Rightarrow>
          if slash = 0 then (Err ''invalid local state path'', disk)
          else (run_calls write_errors calls,
            case calls of
              Inl i \<Rightarrow> if i < 7 then disk else disk(path \<mapsto> bs)
            | Inr _ \<Rightarrow> disk(path \<mapsto> bs)))"

definition ReadAllFile :: "nat + unit \<Rightarrow> string \<Rightarrow> disk \<Rightarrow> bytes result" where
  "ReadAllFile calls path disk =
     (case disk path of
        None \<Rightarrow> Err ''state file missing''
      | Some bs \<Rightarrow>
          (case calls of
             Inl 0 \<Rightarrow> Err ''state file missing''
           | Inl (Suc 0) \<Rightarrow> Err ''failed to read state size''
           | _ \<Rightarrow>
               if kMaxStateFileBytes < length bs then Err ''state file too large''
               else case calls of Inl _ \<Rightarrow> Err ''state file read truncated'' | Inr _ \<Rightarrow> Ok bs))"

definition sanitize_char :: "char \<Rightarrow> char" where
  "sanitize_char c =
     (let n = (of_char c :: nat)
      in if (97 \<le> n \<and> n \<le> 122) \<or> (65 \<le> n \<and> n \<le> 90) \<or> (48 \<le> n \<and> n \<le> 57) \<or>
            c = CHR ''-'' \<or> c = CHR ''_'' \<or> c = CHR ''.'' then c else CHR ''_'')"

definition SanitizeForFile :: "string \<Rightarrow> string" where
  "SanitizeForFile input = (let out = map sanitize_char input in if out = [] then ''user'' else out)"

text \<open>The three environment variables, \<open>None\<close> when unset.\<close>

record path_env =
  pe_state_dir :: "string option"
  pe_xdg_state_home :: "string option"
  pe_home :: "string option"

definition env_set :: "string option \<Rightarrow> bool" where
  "env_set v \<longleftrightarrow> v \<noteq> None \<and> v \<noteq> Some []"

definition DefaultLocalStatePath :: "path_env \<Rightarrow> string \<Rightarrow> string" where
  "DefaultLocalStatePath env user_id =
     (let dir =
        (if env_set (pe_state_dir env) then the (pe_state_dir env)
         else if env_set (pe_xdg_state_home env) then the (pe_xdg_state_home env) @ ''/pqchat''
         else if env_set (pe_home env) then the (pe_home env) @ ''/.local/state/pqchat''
         else ''/tmp/pqchat_state'')
      in dir @ ''/'' @ SanitizeForFile user_id @ ''.bin'')"

definition SaveLocalState ::
    "openssl \<Rightarrow> save_env \<Rightarrow> Client \<Rightarrow> disk \<Rightarrow> unit result \<times> disk" where
  "SaveLocalState ssl env c disk =
     (case find_last_slash (cl_local_state_path c) of
        None \<Rightarrow> (Err ''invalid local state path'', disk)
      | Some slash \<Rightarrow>
          if slash = 0 then (Err ''invalid local state path'', disk)
          else case rbind (EnsureStateDir (se_dir env)) (\<lambda>_.
                    rbind (StatePayload ssl c) (EncryptStatePayload ssl env)) of
            Err e \<Rightarrow> (Err e, disk)
          | Ok wrapped \<Rightarrow>
              WriteAllFileAtomic (se_write env) (cl_local_state_path c) wrapped disk)"

definition LoadLocalState ::
    "openssl \<Rightarrow> load_env \<Rightarrow> string \<Rightarrow> string \<Rightarrow> disk \<Rightarrow> Client result" where
  "LoadLocalState ssl env user_id path disk =
     rbind (ReadAllFile (le_read env) path disk) (\<lambda>bs.
     rbind (UnwrapStatePayload ssl (le_passphrase env) bs) (\<lambda>payload.
     LoadPayload ssl user_id path payload))"

section \<open>The invariant of a client\<close>

text \<open>
  Every key pair a client holds came from the generator of its kind, the public halves it
  publishes belong to the private halves it keeps, a private ML key is never null, the maps
  have one entry per key, and the two replay guards are bounded lists without repetition beside
  the sets of their elements.
\<close>

definition ed_pair :: "openssl \<Rightarrow> Ed25519KeyPair \<Rightarrow> bool" where
  "ed_pair ssl kp \<longleftrightarrow> (\<exists>e. ossl_ed25519_keygen ssl e = Inr (ek_private_key kp, ek_public_key kp))"

definition mldsa_pair :: "openssl \<Rightarrow> MlDsa65KeyPair \<Rightarrow> bool" where
  "mldsa_pair ssl kp \<longleftrightarrow> (\<exists>e sk. dk_private_key kp = Some sk \<and>
     ossl_mldsa_keygen ssl e = Inr (sk, dk_public_key kp))"

definition kem_pair :: "openssl \<Rightarrow> MlKemKeyPair \<Rightarrow> bool" where
  "kem_pair ssl kp \<longleftrightarrow> (\<exists>e sk. kk_private_key kp = Some sk \<and>
     ossl_mlkem_keygen ssl e = Inr (sk, kk_public_key kp))"

definition ec_key_ok :: "openssl \<Rightarrow> OneTimeEc \<Rightarrow> bool" where
  "ec_key_ok ssl k \<longleftrightarrow> dh_pair ssl (oe_private_part k) \<and>
     xk_public_key (oe_private_part k) = ote_public_key (oe_public_part k)"

definition pq_key_ok :: "openssl \<Rightarrow> OneTimePq \<Rightarrow> bool" where
  "pq_key_ok ssl k \<longleftrightarrow> kem_pair ssl (oq_private_part k) \<and>
     kk_public_key (oq_private_part k) = otp_public_key (oq_public_part k)"

definition keys_wf :: "openssl \<Rightarrow> Client \<Rightarrow> bool" where
  "keys_wf ssl c \<longleftrightarrow>
     ed_pair ssl (cl_identity_sign_key c) \<and> mldsa_pair ssl (cl_identity_mldsa_key c) \<and>
     dh_pair ssl (cl_identity_dh_key c) \<and> dh_pair ssl (cl_signed_prekey_ec_private c) \<and>
     kem_pair ssl (cl_signed_prekey_pq_private c) \<and>
     xk_public_key (cl_signed_prekey_ec_private c) = ske_public_key (cl_signed_prekey_ec_public c) \<and>
     kk_public_key (cl_signed_prekey_pq_private c) = skp_public_key (cl_signed_prekey_pq_public c) \<and>
     list_all (ec_key_ok ssl) (cl_one_time_ec_pool c) \<and>
     list_all (pq_key_ok ssl) (cl_one_time_pq_pool c)"

definition guard_wf :: "string set \<Rightarrow> string list \<Rightarrow> bool" where
  "guard_wf S xs \<longleftrightarrow> S = set xs \<and> distinct xs \<and> length xs \<le> kMaxInitialReplayGuards"

definition one_time_ids :: "Client \<Rightarrow> u32 list" where
  "one_time_ids c = map (ote_id \<circ> oe_public_part) (cl_one_time_ec_pool c) @
     map (otp_id \<circ> oq_public_part) (cl_one_time_pq_pool c)"

definition client_wf :: "openssl \<Rightarrow> Client \<Rightarrow> bool" where
  "client_wf ssl c \<longleftrightarrow> keys_wf ssl c \<and>
     length (cl_one_time_ec_pool c) \<le> 1024 \<and> length (cl_one_time_pq_pool c) \<le> 1024 \<and>
     distinct (one_time_ids c) \<and> 0 \<notin> set (one_time_ids c) \<and>
     distinct (map fst (cl_trusted_peer_identities c)) \<and>
     distinct (map fst (cl_sessions_by_peer c)) \<and>
     guard_wf (cl_seen_initial_session_ids c) (cl_seen_initial_session_order c) \<and>
     guard_wf (cl_seen_initial_transcript_hashes c) (cl_seen_initial_transcript_order c)"

text \<open>No field of a saved client has \<open>2 ^ 32\<close> bytes, so that no length prefix is truncated.\<close>

definition peer_sizes :: "string \<times> PeerIdentity \<Rightarrow> bool" where
  "peer_sizes = (\<lambda>(u, p). strlen32 u \<and> len32 (pi_sign_public_key p) \<and>
     len32 (pi_mldsa_public_key p) \<and> len32 (pi_dh_public_key p))"

definition session_sizes :: "string \<times> SessionState \<Rightarrow> bool" where
  "session_sizes = (\<lambda>(u, s). strlen32 u \<and> strlen32 (ss_session_id s) \<and> strlen32 (ss_peer_user s) \<and>
     len32 (ss_root_key s) \<and> len32 (ss_send_chain_key s) \<and> len32 (ss_recv_chain_key s) \<and>
     len32 (xk_private_key (ss_local_ratchet_key s)) \<and>
     len32 (xk_public_key (ss_local_ratchet_key s)) \<and> len32 (ss_remote_ratchet_public s))"

definition raw_sizes :: "u32 \<times> bytes \<times> bytes \<Rightarrow> bool" where
  "raw_sizes = (\<lambda>(i, pub, priv). len32 pub \<and> len32 priv)"

definition state_sizes :: "openssl \<Rightarrow> Client \<Rightarrow> bool" where
  "state_sizes ssl c \<longleftrightarrow> strlen32 (cl_user_id c) \<and>
     len32 (ek_private_key (cl_identity_sign_key c)) \<and>
     len32 (ek_public_key (cl_identity_sign_key c)) \<and>
     (\<forall>raw. MlDsa65_ExportPrivateKey ssl (dk_private_key (cl_identity_mldsa_key c)) = Ok raw \<longrightarrow>
        len32 raw) \<and>
     len32 (dk_public_key (cl_identity_mldsa_key c)) \<and>
     len32 (xk_private_key (cl_identity_dh_key c)) \<and>
     len32 (xk_public_key (cl_identity_dh_key c)) \<and>
     len32 (ske_public_key (cl_signed_prekey_ec_public c)) \<and>
     len32 (ske_signature_ed25519 (cl_signed_prekey_ec_public c)) \<and>
     len32 (ske_signature_mldsa65 (cl_signed_prekey_ec_public c)) \<and>
     len32 (xk_private_key (cl_signed_prekey_ec_private c)) \<and>
     len32 (skp_public_key (cl_signed_prekey_pq_public c)) \<and>
     len32 (skp_signature_ed25519 (cl_signed_prekey_pq_public c)) \<and>
     len32 (skp_signature_mldsa65 (cl_signed_prekey_pq_public c)) \<and>
     (\<forall>raw. MlKem768_ExportPrivateKey ssl (kk_private_key (cl_signed_prekey_pq_private c)) = Ok raw \<longrightarrow>
        len32 raw) \<and>
     list_all (\<lambda>k. len32 (ote_public_key (oe_public_part k)) \<and>
       len32 (xk_private_key (oe_private_part k))) (cl_one_time_ec_pool c) \<and>
     (\<forall>raws. export_pool ssl (cl_one_time_pq_pool c) = Ok raws \<longrightarrow> list_all raw_sizes raws) \<and>
     list_all peer_sizes (cl_trusted_peer_identities c) \<and>
     list_all session_sizes (cl_sessions_by_peer c) \<and>
     list_all strlen32 (cl_seen_initial_session_order c) \<and>
     list_all strlen32 (cl_seen_initial_transcript_order c)"

text \<open>Restoring the exported octets of a generated pair gives the same key.\<close>

definition raw_keys_correct :: "openssl \<Rightarrow> bool" where
  "raw_keys_correct ssl \<longleftrightarrow>
     (\<forall>e sk pk raw. ossl_mldsa_keygen ssl e = Inr (sk, pk) \<longrightarrow> ossl_mldsa_export ssl sk = Inr raw \<longrightarrow>
        ossl_mldsa_import ssl raw pk = Inr sk) \<and>
     (\<forall>e sk pk raw. ossl_mlkem_keygen ssl e = Inr (sk, pk) \<longrightarrow> ossl_mlkem_export ssl sk = Inr raw \<longrightarrow>
        ossl_mlkem_import ssl raw pk = Inr sk)"

lemma mldsa_restore:
  "raw_keys_correct ssl \<Longrightarrow> mldsa_pair ssl kp \<Longrightarrow>
   MlDsa65_ExportPrivateKey ssl (dk_private_key kp) = Ok raw \<Longrightarrow>
   MlDsa65_FromPrivateKey ssl raw (dk_public_key kp) = Ok kp"
  by (cases kp) (auto simp: raw_keys_correct_def mldsa_pair_def MlDsa65_ExportPrivateKey_def
      MlDsa65_FromPrivateKey_def result_inv)

lemma mlkem_restore:
  "raw_keys_correct ssl \<Longrightarrow> kem_pair ssl kp \<Longrightarrow>
   MlKem768_ExportPrivateKey ssl (kk_private_key kp) = Ok raw \<Longrightarrow>
   MlKem768_FromPrivateKey ssl raw (kk_public_key kp) = Ok kp"
  by (cases kp) (auto simp: raw_keys_correct_def kem_pair_def MlKem768_ExportPrivateKey_def
      MlKem768_FromPrivateKey_def result_inv)

section \<open>Loading what was saved\<close>

lemma update_new: "k \<notin> set (map fst m) \<Longrightarrow> AList.update k v m = m @ [(k, v)]"
  by (induction m) auto

lemma from_entries_distinct: "distinct (map fst es) \<Longrightarrow> from_entries es = es"
proof -
  have "foldl (\<lambda>m (k, v). AList.update k v m) acc es = acc @ es"
    if "distinct (map fst (acc @ es))" for acc
    using that
  proof (induction es arbitrary: acc)
    case (Cons e es)
    obtain k v where "e = (k, v)" by (cases e)
    with Cons show ?case by (simp add: update_new)
  qed simp
  from this [of "[]"] show "distinct (map fst es) \<Longrightarrow> from_entries es = es"
    by (simp add: from_entries_def)
qed

lemmas decode_steps = decodes_intros decodes_bind_return

lemma decodes_pair: "len32 a \<Longrightarrow> len32 b \<Longrightarrow> decodes (Read_pair ctx) (Write_pair a b) (a, b)"
  unfolding Read_pair_def Write_pair_def by (rule decode_steps | assumption)+

lemma decodes_header:
  assumes "strlen32 user" shows "decodes (Read_header user) (Write_header user) ()"
proof -
  have m: "strlen32 kLocalStatePayloadMagic" "strlen32 kProtocolVersion"
    by (simp_all add: strlen32_def kLocalStatePayloadMagic_def kProtocolVersion_def)
  have "decodes (Read_header user) ((Writer_String kLocalStatePayloadMagic @ Writer_String user @
      Writer_String kProtocolVersion) @ []) ()"
    unfolding Read_header_def
    by (rule decodes_bind, (rule decode_steps m assms)+) (simp add: decodes_return)
  then show ?thesis by (simp add: Write_header_def)
qed

lemma decodes_spk:
  "len32 a \<Longrightarrow> len32 b \<Longrightarrow> len32 c \<Longrightarrow> len32 d \<Longrightarrow>
   decodes (Read_spk ctx) (Write_spk i a b c d) (i, a, b, c, d)"
  unfolding Read_spk_def Write_spk_def by (rule decode_steps | assumption)+

lemma decodes_one_time:
  "raw_sizes t \<Longrightarrow> decodes (Read_one_time ctx) (Write_one_time t) t"
  unfolding Read_one_time_def Write_one_time_def raw_sizes_def
  by (cases t) (simp, elim conjE, (rule decode_steps | assumption)+)

lemma decodes_ack: "decodes Read_ack (Write_ack v) v"
  unfolding Read_ack_def Write_ack_def
  by (intro decodes_bind [OF decodes_context [OF decodes_U8]], cases v)
    (auto intro: decodes_return decodes_bind_return decodes_context decodes_U64)

lemma decodes_peer: "peer_sizes p \<Longrightarrow> decodes Read_peer (Write_peer p) p"
  unfolding Read_peer_def Write_peer_def peer_sizes_def
  by (cases p) (simp, elim conjE, rule decodes_eq, (rule decode_steps | assumption)+, simp)

lemma decodes_session: "session_sizes s \<Longrightarrow> decodes Read_session (Write_session s) s"
  unfolding Read_session_def Write_session_def session_sizes_def
  by (cases s) (simp, elim conjE, rule decodes_eq, (rule decode_steps | assumption)+, simp)

lemma decodes_mldsa:
  assumes "raw_keys_correct ssl" "mldsa_pair ssl kp" "len32 raw" "len32 (dk_public_key kp)"
    "MlDsa65_ExportPrivateKey ssl (dk_private_key kp) = Ok raw"
  shows "decodes (Read_mldsa_pair ssl) (Write_pair raw (dk_public_key kp)) kp"
  unfolding Read_mldsa_pair_def
  by (rule decodes_bind_nil, rule decodes_pair [OF assms(3,4)])
    (simp add: decodes_lift mldsa_restore [OF assms(1,2,5)])

lemma decodes_spk_ec:
  assumes "len32 (ske_public_key s)" "len32 (ske_signature_ed25519 s)"
    "len32 (ske_signature_mldsa65 s)" "len32 (xk_private_key kp)" "xk_public_key kp = ske_public_key s"
  shows "decodes Read_spk_ec (Write_spk (ske_id s) (ske_public_key s) (ske_signature_ed25519 s)
    (ske_signature_mldsa65 s) (xk_private_key kp)) (s, kp)"
  unfolding Read_spk_ec_def
  by (rule decodes_bind_nil, rule decodes_spk [OF assms(1-4)])
    (simp, rule decodes_eq, rule decodes_return, simp flip: assms(5))

lemma decodes_spk_pq:
  assumes "len32 (skp_public_key s)" "len32 (skp_signature_ed25519 s)"
    "len32 (skp_signature_mldsa65 s)" "len32 raw" "kk_public_key kp = skp_public_key s"
    "raw_keys_correct ssl" "kem_pair ssl kp" "MlKem768_ExportPrivateKey ssl (kk_private_key kp) = Ok raw"
  shows "decodes (Read_spk_pq ssl) (Write_spk (skp_id s) (skp_public_key s) (skp_signature_ed25519 s)
    (skp_signature_mldsa65 s) raw) (s, kp)"
  unfolding Read_spk_pq_def
  by (rule decodes_bind_nil, rule decodes_spk [OF assms(1-4)], simp,
      rule decodes_bind_nil, rule decodes_lift)
    (simp add: mlkem_restore [OF assms(6-8)] flip: assms(5),
     rule decodes_eq, rule decodes_return, simp)

lemma decodes_ec_key:
  assumes "len32 (ote_public_key (oe_public_part k))" "len32 (xk_private_key (oe_private_part k))"
    "ec_key_ok ssl k"
  shows "decodes Read_ec_key (Write_one_time (ote_id (oe_public_part k),
    ote_public_key (oe_public_part k), xk_private_key (oe_private_part k))) k"
  unfolding Read_ec_key_def
  by (rule decodes_bind_nil, rule decodes_one_time) (use assms in \<open>simp_all add: raw_sizes_def\<close>,
     rule decodes_eq, rule decodes_return, simp add: ec_key_ok_def)

lemma decodes_pq_key:
  assumes "raw_sizes (otp_id (oq_public_part k), otp_public_key (oq_public_part k), raw)"
    "raw_keys_correct ssl" "pq_key_ok ssl k"
    "MlKem768_ExportPrivateKey ssl (kk_private_key (oq_private_part k)) = Ok raw"
  shows "decodes (Read_pq_key ssl) (Write_one_time (otp_id (oq_public_part k),
    otp_public_key (oq_public_part k), raw)) k"
proof -
  have "MlKem768_FromPrivateKey ssl raw (otp_public_key (oq_public_part k)) = Ok (oq_private_part k)"
    using mlkem_restore [OF assms(2) _ assms(4)] assms(3) by (simp add: pq_key_ok_def)
  then show ?thesis
    unfolding Read_pq_key_def
    by (intro decodes_bind_nil [OF decodes_one_time [OF assms(1)]])
      (simp, rule decodes_bind_nil, rule decodes_lift, simp, rule decodes_eq, rule decodes_return, simp)
qed

lemma export_pool_decodes:
  assumes "raw_keys_correct ssl" "list_all (pq_key_ok ssl) pool" "export_pool ssl pool = Ok raws"
    "list_all raw_sizes raws"
  shows "list_all2 (\<lambda>r k. decodes (Read_pq_key ssl) (Write_one_time r) k) raws pool"
  using assms(2-4)
proof (induction pool arbitrary: raws)
  case (Cons k pool)
  then show ?case by (auto simp: result_inv intro!: decodes_pq_key [OF _ assms(1)])
qed simp

lemma decodes_guards:
  "guard_wf S xs \<Longrightarrow> list_all strlen32 xs \<Longrightarrow>
   decodes (StateReader_list ctx kMaxInitialReplayGuards label (rd_context ctx' StateReader_String))
     (Writer_counted Writer_String xs) xs"
  by (auto intro!: decodes_StateList decodes_context decodes_StateString
      simp: guard_wf_def kMaxInitialReplayGuards_def list_all_iff)

lemma decodes_ec_pool:
  assumes wf: "client_wf ssl c" and sz: "state_sizes ssl c"
  shows "decodes (StateReader_list ctx (kOneTimePrekeyPoolTarget * 64) label Read_ec_key)
    (Writer_counted Write_one_time (map (\<lambda>key. (ote_id (oe_public_part key),
       ote_public_key (oe_public_part key), xk_private_key (oe_private_part key)))
       (cl_one_time_ec_pool c))) (cl_one_time_ec_pool c)"
proof -
  have "decodes Read_ec_key (Write_one_time (ote_id (oe_public_part k),
      ote_public_key (oe_public_part k), xk_private_key (oe_private_part k))) k"
    if "k \<in> set (cl_one_time_ec_pool c)" for k
    using wf sz that
    by (intro decodes_ec_key [of _ ssl])
      (auto simp: client_wf_def keys_wf_def state_sizes_def list_all_iff)
  then show ?thesis using wf
    by (intro decodes_StateList2)
      (simp_all add: kOneTimePrekeyPoolTarget_def client_wf_def list_all2_map1 list_all2_same)
qed

lemma decodes_pq_pool:
  assumes wf: "client_wf ssl c" and sz: "state_sizes ssl c" and raw: "raw_keys_correct ssl"
    and raws: "export_pool ssl (cl_one_time_pq_pool c) = Ok raws"
  shows "decodes (StateReader_list ctx (kOneTimePrekeyPoolTarget * 64) label (Read_pq_key ssl))
    (Writer_counted Write_one_time raws) (cl_one_time_pq_pool c)"
proof -
  have "list_all2 (\<lambda>r k. decodes (Read_pq_key ssl) (Write_one_time r) k) raws (cl_one_time_pq_pool c)"
    by (rule export_pool_decodes [OF raw _ raws])
      (use wf sz raws in \<open>auto simp: client_wf_def keys_wf_def state_sizes_def\<close>)
  moreover from this have "length raws \<le> 1024"
    using wf by (auto dest: list_all2_lengthD simp: client_wf_def)
  ultimately show ?thesis
    by (intro decodes_StateList2) (simp_all add: kOneTimePrekeyPoolTarget_def)
qed

lemma decodes_maps:
  assumes "state_sizes ssl c" "length (cl_trusted_peer_identities c) \<le> kMaxPersistedPeers"
    "length (cl_sessions_by_peer c) \<le> kMaxPersistedSessions"
  shows "decodes (StateReader_list ctx kMaxPersistedPeers label Read_peer)
      (Writer_counted Write_peer (cl_trusted_peer_identities c)) (cl_trusted_peer_identities c)"
    and "decodes (StateReader_list ctx kMaxPersistedSessions label Read_session)
      (Writer_counted Write_session (cl_sessions_by_peer c)) (cl_sessions_by_peer c)"
  using assms
  by (auto intro!: decodes_StateList decodes_peer decodes_session
      simp: kMaxPersistedPeers_def kMaxPersistedSessions_def state_sizes_def list_all_iff)

lemma decodes_signed_prekeys:
  assumes "client_wf ssl c" "state_sizes ssl c" "raw_keys_correct ssl"
    "MlKem768_ExportPrivateKey ssl (kk_private_key (cl_signed_prekey_pq_private c)) = Ok pq_raw"
  shows "decodes Read_spk_ec (Write_spk (ske_id (cl_signed_prekey_ec_public c))
      (ske_public_key (cl_signed_prekey_ec_public c))
      (ske_signature_ed25519 (cl_signed_prekey_ec_public c))
      (ske_signature_mldsa65 (cl_signed_prekey_ec_public c))
      (xk_private_key (cl_signed_prekey_ec_private c)))
      (cl_signed_prekey_ec_public c, cl_signed_prekey_ec_private c)"
    and "decodes (Read_spk_pq ssl) (Write_spk (skp_id (cl_signed_prekey_pq_public c))
      (skp_public_key (cl_signed_prekey_pq_public c))
      (skp_signature_ed25519 (cl_signed_prekey_pq_public c))
      (skp_signature_mldsa65 (cl_signed_prekey_pq_public c)) pq_raw)
      (cl_signed_prekey_pq_public c, cl_signed_prekey_pq_private c)"
proof -
  note z = assms(2) [unfolded state_sizes_def] and k = assms(1) [unfolded client_wf_def keys_wf_def]
  show "decodes Read_spk_ec (Write_spk (ske_id (cl_signed_prekey_ec_public c))
      (ske_public_key (cl_signed_prekey_ec_public c))
      (ske_signature_ed25519 (cl_signed_prekey_ec_public c))
      (ske_signature_mldsa65 (cl_signed_prekey_ec_public c))
      (xk_private_key (cl_signed_prekey_ec_private c)))
      (cl_signed_prekey_ec_public c, cl_signed_prekey_ec_private c)"
    by (rule decodes_spk_ec) (use z k in blast)+
  show "decodes (Read_spk_pq ssl) (Write_spk (skp_id (cl_signed_prekey_pq_public c))
      (skp_public_key (cl_signed_prekey_pq_public c))
      (skp_signature_ed25519 (cl_signed_prekey_pq_public c))
      (skp_signature_mldsa65 (cl_signed_prekey_pq_public c)) pq_raw)
      (cl_signed_prekey_pq_public c, cl_signed_prekey_pq_private c)"
    by (rule decodes_spk_pq [OF _ _ _ _ _ assms(3) _ assms(4)]) (use z k assms(4) in blast)+
qed

lemma StatePayload_Ok:
  assumes "StatePayload ssl c = Ok bs"
  obtains mldsa_raw pq_raw raws where
    "MlDsa65_ExportPrivateKey ssl (dk_private_key (cl_identity_mldsa_key c)) = Ok mldsa_raw"
    "MlKem768_ExportPrivateKey ssl (kk_private_key (cl_signed_prekey_pq_private c)) = Ok pq_raw"
    "export_pool ssl (cl_one_time_pq_pool c) = Ok raws"
    "length (cl_trusted_peer_identities c) \<le> kMaxPersistedPeers"
    "length (cl_sessions_by_peer c) \<le> kMaxPersistedSessions"
  using assms by (auto simp: StatePayload_def result_inv)

lemma value_Ok: "result_value (Ok x) = Some x"
  by simp

lemma decodes_payload:
  assumes wf: "client_wf ssl c" and sz: "state_sizes ssl c" and raw: "raw_keys_correct ssl"
    and save: "StatePayload ssl c = Ok bs"
  shows "decodes (Read_payload ssl (cl_user_id c) (cl_local_state_path c)) bs c"
proof -
  obtain mldsa_raw pq_raw raws where
    raws: "MlDsa65_ExportPrivateKey ssl (dk_private_key (cl_identity_mldsa_key c)) = Ok mldsa_raw"
      "MlKem768_ExportPrivateKey ssl (kk_private_key (cl_signed_prekey_pq_private c)) = Ok pq_raw"
      "export_pool ssl (cl_one_time_pq_pool c) = Ok raws"
    and lim: "length (cl_trusted_peer_identities c) \<le> kMaxPersistedPeers"
      "length (cl_sessions_by_peer c) \<le> kMaxPersistedSessions"
    using save by (rule StatePayload_Ok)
  have g: "guard_wf (cl_seen_initial_session_ids c) (cl_seen_initial_session_order c)"
    "guard_wf (cl_seen_initial_transcript_hashes c) (cl_seen_initial_transcript_order c)"
    "distinct (map fst (cl_trusted_peer_identities c))" "distinct (map fst (cl_sessions_by_peer c))"
    using wf by (simp_all add: client_wf_def)
  note z = sz [unfolded state_sizes_def] and k = wf [unfolded client_wf_def keys_wf_def]
  have mldsa: "decodes (Read_mldsa_pair ssl) (Write_pair mldsa_raw
      (dk_public_key (cl_identity_mldsa_key c))) (cl_identity_mldsa_key c)"
    by (rule decodes_mldsa [OF raw _ _ _ raws(1)]) (use z k raws in blast)+
  have simple: "strlen32 (cl_user_id c)" "len32 (ek_private_key (cl_identity_sign_key c))"
    "len32 (ek_public_key (cl_identity_sign_key c))" "len32 (xk_private_key (cl_identity_dh_key c))"
    "len32 (xk_public_key (cl_identity_dh_key c))" "list_all strlen32 (cl_seen_initial_session_order c)"
    "list_all strlen32 (cl_seen_initial_transcript_order c)"
    using z by blast+
  note parts = decodes_header [OF simple(1)] decodes_pair [OF simple(2,3)] mldsa
    decodes_pair [OF simple(4,5)] decodes_signed_prekeys [OF wf sz raw raws(2)]
    decodes_ec_pool [OF wf sz] decodes_pq_pool [OF wf sz raw raws(3)]
    decodes_context [OF decodes_StateBool] decodes_ack decodes_maps [OF sz lim]
    decodes_guards [OF g(1) simple(6)] decodes_guards [OF g(2) simple(7)]
  have "bs = the (result_value (StatePayload ssl c))" using save by simp
  with raws lim show ?thesis
    unfolding Read_payload_def Read_seen_sessions_def Read_seen_transcripts_def
    by (simp only: StatePayload_def rbind_simps with_context_simps not_less [symmetric]
        if_False value_Ok option.sel)
      (rule decodes_eq, (rule parts decodes_bind decodes_bind_return | unfold prod.case)+,
       insert g, simp add: from_entries_distinct guard_wf_def)
qed

lemma LoadPayload_StatePayload:
  assumes "client_wf ssl c" "state_sizes ssl c" "raw_keys_correct ssl" "StatePayload ssl c = Ok bs"
  shows "LoadPayload ssl (cl_user_id c) (cl_local_state_path c) bs = Ok c"
proof -
  have "Read_payload ssl (cl_user_id c) (cl_local_state_path c)
      \<lparr>rd_bytes = [] @ bs @ [], rd_pos = length ([] :: bytes)\<rparr> =
      Ok (c, \<lparr>rd_bytes = [] @ bs @ [], rd_pos = length ([] :: bytes) + length bs\<rparr>)"
    using decodes_payload [OF assms] unfolding decodes_def by blast
  then show ?thesis by (simp add: LoadPayload_def Reader_init_def Reader_Finished_def)
qed

lemma Unwrap_Encrypt:
  assumes "aead_correct ssl" "EncryptStatePayload ssl env payload = Ok bs"
    "le = se_passphrase env" "length bs < 2 ^ 32"
  shows "UnwrapStatePayload ssl le bs = Ok payload"
proof -
  obtain pass salt nonce key c where
    p: "ReadStatePassphrase (se_passphrase env) = Ok pass"
    and key: "DeriveStateEncryptionKey ssl pass salt = Ok key"
    and seal: "Seal ssl key nonce payload (ToBytes kLocalStateEncryptedMagic) = Ok c"
    and bs: "bs = Writer_String kLocalStateEncryptedMagic @ Writer_Bytes salt @
      Writer_Bytes nonce @ Writer_Bytes c"
    using assms(2) by (auto simp: EncryptStatePayload_def Let_def result_inv split: option.splits)
  let ?w = "Writer_Bytes salt @ Writer_Bytes nonce @ Writer_Bytes c"
  let ?m = "Writer_String kLocalStateEncryptedMagic"
  have "len32 salt" "len32 nonce" "len32 c"
    using assms(4) by (simp_all add: bs len32_def Writer_Bytes_def)
  then have w: "decodes Read_wrapper ?w (salt, nonce, c)"
    unfolding Read_wrapper_def by - (rule decode_steps | assumption)+
  have "strlen32 kLocalStateEncryptedMagic"
    by (simp add: strlen32_def kLocalStateEncryptedMagic_def)
  then have m: "decodes StateReader_String ?m kLocalStateEncryptedMagic"
    by (rule decodes_StateString)
  have "StateReader_String (Reader_init bs) =
      Ok (kLocalStateEncryptedMagic, \<lparr>rd_bytes = bs, rd_pos = length ?m\<rparr>)"
    using m [unfolded decodes_def, rule_format, of "[]" ?w] by (simp add: bs Reader_init_def)
  moreover have "Read_wrapper \<lparr>rd_bytes = bs, rd_pos = length ?m\<rparr> =
      Ok ((salt, nonce, c), \<lparr>rd_bytes = bs, rd_pos = length bs\<rparr>)"
    using w [unfolded decodes_def, rule_format, of ?m "[]"] by (simp add: bs)
  moreover have "kLocalStateEncryptedMagic \<noteq> kLocalStatePayloadMagic"
    by (simp add: kLocalStateEncryptedMagic_def kLocalStatePayloadMagic_def)
  ultimately show ?thesis
    using p key assms(3) Open_Seal [OF assms(1) seal]
    by (simp add: UnwrapStatePayload_def rd_context_def Reader_Finished_def)
qed

text \<open>A save either leaves the disk as it was or writes one complete encrypted state.\<close>

lemma SaveLocalState_disk:
  assumes "SaveLocalState ssl env c disk = (r, disk')" "r = Ok () \<or> disk' \<noteq> disk"
  obtains payload bs where "StatePayload ssl c = Ok payload"
    "EncryptStatePayload ssl env payload = Ok bs" "disk' = disk(cl_local_state_path c \<mapsto> bs)"
  using assms
  by (auto simp: SaveLocalState_def WriteAllFileAtomic_def result_inv run_calls_def
      split: option.splits if_splits result.splits sum.splits)

text \<open>
C6. After SaveLocalState reported success, or failed after its rename, LoadLocalState with
the same passphrase gives the same client back, if the file is within the 16 MiB limit of
the loader.
\<close>

theorem saved_state_is_loaded:
  assumes "client_wf ssl c" and "state_sizes ssl c"
    and "raw_keys_correct ssl" and "aead_correct ssl"
    and "SaveLocalState ssl env c disk = (r, disk')"
    and "r = Ok () \<or> disk' \<noteq> disk"
    and "\<forall>bs. disk' (cl_local_state_path c) = Some bs \<longrightarrow> length bs \<le> kMaxStateFileBytes"
  shows "LoadLocalState ssl \<lparr>le_passphrase = se_passphrase env, le_read = Inr ()\<rparr>
    (cl_user_id c) (cl_local_state_path c) disk' = Ok c"
proof -
  obtain payload bs where p: "StatePayload ssl c = Ok payload"
    and e: "EncryptStatePayload ssl env payload = Ok bs"
    and d: "disk' = disk(cl_local_state_path c \<mapsto> bs)"
    using assms(5,6) by (rule SaveLocalState_disk)
  have len: "length bs \<le> kMaxStateFileBytes" using assms(7) d by simp
  then have "length bs < 2 ^ 32" by (simp add: kMaxStateFileBytes_def)
  with len d show ?thesis
    using Unwrap_Encrypt [OF assms(4) e] LoadPayload_StatePayload [OF assms(1-3) p]
    by (simp add: LoadLocalState_def ReadAllFile_def)
qed

end
