(* ===== verification/Client.thy ===== *)
theory Client
  imports Client_State Server_Api
begin

text \<open>
  The client of \<^verbatim>\<open>src/client/client.cpp\<close> (lines 426-432, 576-1428 and 1805-1987): creation,
  prekeys, peer identities and safety numbers, replay guards, the hybrid handshake, messages
  and the inbox loop, over any server that has the interface \<open>IServerApi\<close>.

  Client, state file, server and the count of the inputs drawn so far form one state
  \<open>sys\<close>. An operation maps it to a result and the state it leaves, which includes the changes
  made before an error, as in the C++. The values read from outside (entropy of key generation,
  encapsulation and signing, \<^verbatim>\<open>RAND_bytes\<close>, the environment of a save, the clock and generator
  of the server) come from the streams in \<open>inputs\<close>. A null server pointer is \<open>None\<close>.
\<close>

section \<open>Operations\<close>

record 's sys =
  sy_client :: Client
  sy_disk :: disk
  sy_server :: 's
  sy_tick :: nat

record inputs =
  in_entropy :: "nat \<Rightarrow> bytes"
  in_rand :: "nat \<Rightarrow> bytes option"
  in_save :: "nat \<Rightarrow> save_env"
  in_call :: "nat \<Rightarrow> call_env"

type_synonym ('s, 'a) act = "'s sys \<Rightarrow> 'a result \<times> 's sys"

definition act_return :: "'a \<Rightarrow> ('s, 'a) act" where
  "act_return x s = (Ok x, s)"

definition act_lift :: "'a result \<Rightarrow> ('s, 'a) act" where
  "act_lift r s = (r, s)"

definition act_bind :: "('s, 'a) act \<Rightarrow> ('a \<Rightarrow> ('s, 'b) act) \<Rightarrow> ('s, 'b) act" where
  "act_bind m k s = (case m s of (Ok x, s') \<Rightarrow> k x s' | (Err e, s') \<Rightarrow> (Err e, s'))"

definition act_context :: "string \<Rightarrow> ('s, 'a) act \<Rightarrow> ('s, 'a) act" where
  "act_context c m s = (let (r, s') = m s in (with_context c r, s'))"

definition act_client :: "('s, Client) act" where
  "act_client s = (Ok (sy_client s), s)"

definition act_update :: "(Client \<Rightarrow> Client) \<Rightarrow> ('s, unit) act" where
  "act_update f s = (Ok (), s\<lparr>sy_client := f (sy_client s)\<rparr>)"

definition draw_entropy :: "inputs \<Rightarrow> ('s, bytes) act" where
  "draw_entropy inp s = (Ok (in_entropy inp (sy_tick s)), s\<lparr>sy_tick := sy_tick s + 1\<rparr>)"

definition draw_rand :: "inputs \<Rightarrow> nat \<Rightarrow> ('s, bytes) act" where
  "draw_rand inp n s =
     (case in_rand inp (sy_tick s) of
        None \<Rightarrow> (Err ''RAND_bytes failed'', s\<lparr>sy_tick := sy_tick s + 1\<rparr>)
      | Some bs \<Rightarrow> (Ok (fill n bs), s\<lparr>sy_tick := sy_tick s + 1\<rparr>))"

definition act_save :: "openssl \<Rightarrow> inputs \<Rightarrow> ('s, unit) act" where
  "act_save ssl inp s =
     (let (r, disk) = SaveLocalState ssl (in_save inp (sy_tick s)) (sy_client s) (sy_disk s)
      in (r, s\<lparr>sy_disk := disk, sy_tick := sy_tick s + 1\<rparr>))"

text \<open>A virtual call of the server.\<close>

definition act_call :: "inputs \<Rightarrow> (call_env \<Rightarrow> 's \<Rightarrow> 'a result \<times> 's) \<Rightarrow> ('s, 'a) act" where
  "act_call inp f s =
     (let (r, srv) = f (in_call inp (sy_tick s)) (sy_server s)
      in (r, s\<lparr>sy_server := srv, sy_tick := sy_tick s + 1\<rparr>))"

lemma act_simps [simp]:
  "act_return x s = (Ok x, s)"
  "act_lift r s = (r, s)"
  "act_client s = (Ok (sy_client s), s)"
  "act_update f s = (Ok (), s\<lparr>sy_client := f (sy_client s)\<rparr>)"
  by (simp_all add: act_return_def act_lift_def act_client_def act_update_def)

section \<open>Safety numbers and peer identities\<close>

definition hex_char :: "nat \<Rightarrow> char" where
  "hex_char n = ''0123456789abcdef'' ! n"

definition HexEncode :: "bytes \<Rightarrow> string" where
  "HexEncode bs = concat (map (\<lambda>b. [hex_char (unat b div 16), hex_char (unat b mod 16)]) bs)"

definition SafetyCanonical :: "string \<Rightarrow> bytes \<Rightarrow> bytes \<Rightarrow> bytes \<Rightarrow> bytes" where
  "SafetyCanonical peer_user sign_public_key mldsa_public_key dh_public_key =
     AppendBytes (ToBytes ''pqchat_peer_safety_number_v1'') @ AppendBytes (ToBytes peer_user) @
     AppendBytes sign_public_key @ AppendBytes mldsa_public_key @ AppendBytes dh_public_key"

definition ComputeSafetyNumber ::
    "openssl \<Rightarrow> string \<Rightarrow> bytes \<Rightarrow> bytes \<Rightarrow> bytes \<Rightarrow> string result" where
  "ComputeSafetyNumber ssl peer_user sign_public_key mldsa_public_key dh_public_key =
     rbind (Sha256 ssl (SafetyCanonical peer_user sign_public_key mldsa_public_key dh_public_key))
       (\<lambda>hash. Ok (HexEncode hash))"

definition GetPeerSafetyNumber :: "openssl \<Rightarrow> Client \<Rightarrow> string \<Rightarrow> string result" where
  "GetPeerSafetyNumber ssl c peer_user =
     (case map_of (cl_trusted_peer_identities c) peer_user of
        None \<Rightarrow> Err ''peer identity not known''
      | Some p \<Rightarrow> ComputeSafetyNumber ssl peer_user (pi_sign_public_key p)
          (pi_mldsa_public_key p) (pi_dh_public_key p))"

definition set_peer :: "string \<Rightarrow> PeerIdentity \<Rightarrow> Client \<Rightarrow> Client" where
  "set_peer user p c =
     c\<lparr>cl_trusted_peer_identities := AList.update user p (cl_trusted_peer_identities c)\<rparr>"

definition VerifyPeerSafetyNumber ::
    "openssl \<Rightarrow> inputs \<Rightarrow> string \<Rightarrow> string \<Rightarrow> ('s, unit) act" where
  "VerifyPeerSafetyNumber ssl inp peer_user expected_safety_number =
     act_bind act_client (\<lambda>c.
     case map_of (cl_trusted_peer_identities c) peer_user of
       None \<Rightarrow> act_lift (Err ''peer identity not known'')
     | Some p \<Rightarrow>
         act_bind (act_lift (ComputeSafetyNumber ssl peer_user (pi_sign_public_key p)
           (pi_mldsa_public_key p) (pi_dh_public_key p))) (\<lambda>computed.
         if computed \<noteq> expected_safety_number then act_lift (Err ''peer safety number mismatch'')
         else
           act_bind (act_update (set_peer peer_user (p\<lparr>pi_verified := True\<rparr>))) (\<lambda>_.
           act_context ''persist local state failed: '' (act_save ssl inp))))"

definition VerifyOrRememberPeerIdentity ::
    "openssl \<Rightarrow> inputs \<Rightarrow> string \<Rightarrow> bytes \<Rightarrow> bytes \<Rightarrow> bytes \<Rightarrow> ('s, unit) act" where
  "VerifyOrRememberPeerIdentity ssl inp peer_user sign_public_key mldsa_public_key dh_public_key =
     act_bind (act_lift (ComputeSafetyNumber ssl peer_user sign_public_key mldsa_public_key
       dh_public_key)) (\<lambda>safety_number.
     act_bind act_client (\<lambda>c.
     case map_of (cl_trusted_peer_identities c) peer_user of
       None \<Rightarrow>
         act_bind (act_update (set_peer peer_user \<lparr>pi_sign_public_key = sign_public_key,
           pi_mldsa_public_key = mldsa_public_key, pi_dh_public_key = dh_public_key,
           pi_verified = False\<rparr>)) (\<lambda>_.
         act_bind (act_context ''persist local state failed: '' (act_save ssl inp)) (\<lambda>_.
         act_lift (Err (''peer identity is not verified; safety number: '' @ safety_number))))
     | Some existing \<Rightarrow>
         if pi_sign_public_key existing \<noteq> sign_public_key \<or>
            pi_mldsa_public_key existing \<noteq> mldsa_public_key \<or>
            pi_dh_public_key existing \<noteq> dh_public_key
         then act_lift (Err ''peer identity key mismatch for trusted contact'')
         else if \<not> pi_verified existing
         then act_lift (Err (''peer identity is not verified; safety number: '' @ safety_number))
         else act_return ()))"

section \<open>Replay guards\<close>

text \<open>The \<^verbatim>\<open>while\<close> loop that drops the oldest entries of one guard.\<close>

fun evict :: "string list \<Rightarrow> string set \<Rightarrow> string list \<times> string set" where
  "evict [] ids = ([], ids)"
| "evict (oldest # order) ids =
     (if kMaxInitialReplayGuards < length (oldest # order) then evict order (ids - {oldest})
      else (oldest # order, ids))"

definition RememberInitialReplayGuards :: "string \<Rightarrow> bytes \<Rightarrow> Client \<Rightarrow> unit result \<times> Client" where
  "RememberInitialReplayGuards session_id transcript_hash c =
     (let transcript_key = HexEncode transcript_hash;
          ids = cl_seen_initial_session_ids c; order = cl_seen_initial_session_order c;
          hashes = cl_seen_initial_transcript_hashes c; hash_order = cl_seen_initial_transcript_order c
      in if session_id \<in> ids then (Err ''duplicate initial session id rejected'', c)
         else
           let ids' = insert session_id ids; order' = order @ [session_id]
           in if transcript_key \<in> hashes
              then (Err ''duplicate initial transcript rejected'',
                c\<lparr>cl_seen_initial_session_ids := ids' - {session_id},
                  cl_seen_initial_session_order :=
                    (if order' \<noteq> [] \<and> last order' = session_id then butlast order' else order')\<rparr>)
              else
                let (order'', ids'') = evict order' ids';
                    (hash_order', hashes') =
                      evict (hash_order @ [transcript_key]) (insert transcript_key hashes)
                in (Ok (), c\<lparr>cl_seen_initial_session_ids := ids'',
                      cl_seen_initial_session_order := order'',
                      cl_seen_initial_transcript_hashes := hashes',
                      cl_seen_initial_transcript_order := hash_order'\<rparr>))"

definition HasSeenInitialReplayGuard :: "Client \<Rightarrow> string \<Rightarrow> bytes \<Rightarrow> bool" where
  "HasSeenInitialReplayGuard c session_id transcript_hash \<longleftrightarrow>
     session_id \<in> cl_seen_initial_session_ids c \<or>
     HexEncode transcript_hash \<in> cl_seen_initial_transcript_hashes c"

definition act_remember :: "string \<Rightarrow> bytes \<Rightarrow> ('s, unit) act" where
  "act_remember session_id transcript_hash s =
     (let (r, c) = RememberInitialReplayGuards session_id transcript_hash (sy_client s)
      in (r, s\<lparr>sy_client := c\<rparr>))"

section \<open>Prekeys\<close>

definition id_in_use :: "Client \<Rightarrow> u32 \<Rightarrow> bool" where
  "id_in_use c candidate \<longleftrightarrow>
     list_ex (\<lambda>key. ote_id (oe_public_part key) = candidate) (cl_one_time_ec_pool c) \<or>
     list_ex (\<lambda>key. otp_id (oq_public_part key) = candidate) (cl_one_time_pq_pool c)"

text \<open>The loop of 32 attempts, by the number of attempts left.\<close>

fun unique_id_attempts :: "inputs \<Rightarrow> nat \<Rightarrow> ('s, u32) act" where
  "unique_id_attempts inp 0 = act_lift (Err ''failed to generate unique one-time prekey id'')"
| "unique_id_attempts inp (Suc n) =
     act_bind (draw_rand inp 4) (\<lambda>random.
     act_bind act_client (\<lambda>c.
     let candidate = un_be32 (random ! 0) (random ! 1) (random ! 2) (random ! 3)
     in if candidate = 0 \<or> id_in_use c candidate then unique_id_attempts inp n
        else act_return candidate))"

definition GenerateUniqueOneTimePrekeyId :: "inputs \<Rightarrow> ('s, u32) act" where
  "GenerateUniqueOneTimePrekeyId inp = unique_id_attempts inp 32"

definition push_ec :: "OneTimeEc \<Rightarrow> Client \<Rightarrow> Client" where
  "push_ec key c = c\<lparr>cl_one_time_ec_pool := cl_one_time_ec_pool c @ [key], cl_prekeys_dirty := True\<rparr>"

definition push_pq :: "OneTimePq \<Rightarrow> Client \<Rightarrow> Client" where
  "push_pq key c = c\<lparr>cl_one_time_pq_pool := cl_one_time_pq_pool c @ [key], cl_prekeys_dirty := True\<rparr>"

text \<open>
  The two \<^verbatim>\<open>while\<close> loops. A round adds one key, so \<open>kOneTimePrekeyPoolTarget\<close> rounds are enough
  (\<open>refill_fills_pools\<close> below).
\<close>

fun refill_ec :: "openssl \<Rightarrow> inputs \<Rightarrow> nat \<Rightarrow> ('s, unit) act" where
  "refill_ec ssl inp 0 = act_return ()"
| "refill_ec ssl inp (Suc n) =
     act_bind act_client (\<lambda>c.
     if length (cl_one_time_ec_pool c) < kOneTimePrekeyPoolTarget then
       act_bind (draw_entropy inp) (\<lambda>ent.
       act_bind (act_context ''one-time EC keygen failed: ''
         (act_lift (X25519_GenerateKeyPair ssl ent))) (\<lambda>pair.
       act_bind (GenerateUniqueOneTimePrekeyId inp) (\<lambda>i.
       act_bind (act_update (push_ec \<lparr>oe_public_part = \<lparr>ote_id = i,
         ote_public_key = xk_public_key pair\<rparr>, oe_private_part = pair\<rparr>)) (\<lambda>_.
       refill_ec ssl inp n))))
     else act_return ())"

fun refill_pq :: "openssl \<Rightarrow> inputs \<Rightarrow> nat \<Rightarrow> ('s, unit) act" where
  "refill_pq ssl inp 0 = act_return ()"
| "refill_pq ssl inp (Suc n) =
     act_bind act_client (\<lambda>c.
     if length (cl_one_time_pq_pool c) < kOneTimePrekeyPoolTarget then
       act_bind (draw_entropy inp) (\<lambda>ent.
       act_bind (act_context ''one-time PQ keygen failed: ''
         (act_lift (MlKem768_GenerateKeyPair ssl ent))) (\<lambda>pair.
       act_bind (GenerateUniqueOneTimePrekeyId inp) (\<lambda>i.
       act_bind (act_update (push_pq \<lparr>oq_public_part = \<lparr>otp_id = i,
         otp_public_key = kk_public_key pair\<rparr>, oq_private_part = pair\<rparr>)) (\<lambda>_.
       refill_pq ssl inp n))))
     else act_return ())"

definition RefillOneTimePrekeyPools :: "openssl \<Rightarrow> inputs \<Rightarrow> ('s, unit) act" where
  "RefillOneTimePrekeyPools ssl inp =
     act_bind (refill_ec ssl inp kOneTimePrekeyPoolTarget)
       (\<lambda>_. refill_pq ssl inp kOneTimePrekeyPoolTarget)"

text \<open>A failed signature leaves the field empty.\<close>

definition BuildPrekeyBundle :: "openssl \<Rightarrow> entropy \<Rightarrow> Client \<Rightarrow> PrekeyBundle" where
  "BuildPrekeyBundle ssl ent c =
     (let bundle = \<lparr>pb_user_id = cl_user_id c,
            pb_identity_sign_public_key = ek_public_key (cl_identity_sign_key c),
            pb_identity_mldsa_public_key = dk_public_key (cl_identity_mldsa_key c),
            pb_identity_dh_public_key = xk_public_key (cl_identity_dh_key c),
            pb_signed_prekey_ec = cl_signed_prekey_ec_public c,
            pb_signed_prekey_pq = cl_signed_prekey_pq_public c,
            pb_one_time_ec = map oe_public_part (cl_one_time_ec_pool c),
            pb_one_time_pq = map oq_public_part (cl_one_time_pq_pool c),
            pb_bundle_signature_ed25519 = [], pb_bundle_signature_mldsa65 = [],
            pb_version = kProtocolVersion, pb_cipher_suite = kCipherSuite\<rparr>;
          bundle_sign_input = BuildBundleSignInput bundle
      in bundle\<lparr>pb_bundle_signature_ed25519 :=
             (case Ed25519_Sign ssl (ek_private_key (cl_identity_sign_key c)) bundle_sign_input of
                Ok sig \<Rightarrow> sig | Err _ \<Rightarrow> []),
           pb_bundle_signature_mldsa65 :=
             (case MlDsa65_Sign ssl ent (dk_private_key (cl_identity_mldsa_key c)) bundle_sign_input of
                Ok sig \<Rightarrow> sig | Err _ \<Rightarrow> [])\<rparr>)"

definition SignTransportAuth :: "openssl \<Rightarrow> entropy \<Rightarrow> Client \<Rightarrow> bytes \<Rightarrow> bytes result" where
  "SignTransportAuth ssl ent c message =
     MlDsa65_Sign ssl ent (dk_private_key (cl_identity_mldsa_key c)) message"

definition PublishPrekeys ::
    "openssl \<Rightarrow> inputs \<Rightarrow> 's IServerApi option \<Rightarrow> ('s, unit) act" where
  "PublishPrekeys ssl inp server =
     (case server of
        None \<Rightarrow> act_lift (Err ''server is null'')
      | Some api \<Rightarrow>
          act_bind act_client (\<lambda>c.
          act_bind (draw_entropy inp) (\<lambda>ent.
          act_bind (act_call inp (\<lambda>env srv. api_PublishBundle api env srv (BuildPrekeyBundle ssl ent c)))
          (\<lambda>_.
          act_bind (act_update (\<lambda>c. c\<lparr>cl_prekeys_dirty := False\<rparr>)) (\<lambda>_.
          act_context ''persist local state failed: '' (act_save ssl inp))))))"

section \<open>Creation\<close>

text \<open>
  The identity and the signed prekeys of a new client: five key generations and four signatures,
  the first failure ends the function. \<open>ents\<close> is the entropy they use, in order.
\<close>

definition new_identity :: "openssl \<Rightarrow> (nat \<Rightarrow> entropy) \<Rightarrow> string \<Rightarrow> string \<Rightarrow> Client result" where
  "new_identity ssl ents user_id path =
     rbind (with_context ''identity Ed25519 keygen failed: '' (Ed25519_GenerateKeyPair ssl (ents 0)))
     (\<lambda>id_sign.
     rbind (with_context ''identity ML-DSA keygen failed: '' (MlDsa65_GenerateKeyPair ssl (ents 1)))
     (\<lambda>id_mldsa.
     rbind (with_context ''identity X25519 keygen failed: '' (X25519_GenerateKeyPair ssl (ents 2)))
     (\<lambda>id_dh.
     rbind (with_context ''signed prekey EC keygen failed: '' (X25519_GenerateKeyPair ssl (ents 3)))
     (\<lambda>spk_ec.
     let spk_ec_sig_input = BuildEcPrekeySignInput 1 (xk_public_key spk_ec) in
     rbind (with_context ''signed prekey EC signature failed: ''
       (Ed25519_Sign ssl (ek_private_key id_sign) spk_ec_sig_input))
     (\<lambda>spk_ec_sig.
     rbind (with_context ''signed prekey EC ML-DSA signature failed: ''
       (MlDsa65_Sign ssl (ents 4) (dk_private_key id_mldsa) spk_ec_sig_input))
     (\<lambda>spk_ec_sig_mldsa.
     rbind (with_context ''signed prekey PQ keygen failed: '' (MlKem768_GenerateKeyPair ssl (ents 5)))
     (\<lambda>spk_pq.
     let spk_pq_sig_input = BuildPqPrekeySignInput 1 (kk_public_key spk_pq) in
     rbind (with_context ''signed prekey PQ signature failed: ''
       (Ed25519_Sign ssl (ek_private_key id_sign) spk_pq_sig_input))
     (\<lambda>spk_pq_sig.
     rbind (with_context ''signed prekey PQ ML-DSA signature failed: ''
       (MlDsa65_Sign ssl (ents 6) (dk_private_key id_mldsa) spk_pq_sig_input))
     (\<lambda>spk_pq_sig_mldsa.
     Ok \<lparr>cl_user_id = user_id, cl_local_state_path = path, cl_identity_sign_key = id_sign,
       cl_identity_mldsa_key = id_mldsa, cl_identity_dh_key = id_dh,
       cl_signed_prekey_ec_public = \<lparr>ske_id = 1, ske_public_key = xk_public_key spk_ec,
         ske_signature_ed25519 = spk_ec_sig, ske_signature_mldsa65 = spk_ec_sig_mldsa\<rparr>,
       cl_signed_prekey_ec_private = spk_ec,
       cl_signed_prekey_pq_public = \<lparr>skp_id = 1, skp_public_key = kk_public_key spk_pq,
         skp_signature_ed25519 = spk_pq_sig, skp_signature_mldsa65 = spk_pq_sig_mldsa\<rparr>,
       cl_signed_prekey_pq_private = spk_pq, cl_one_time_ec_pool = [], cl_one_time_pq_pool = [],
       cl_prekeys_dirty = False, cl_pending_inbox_ack_up_to_id = None,
       cl_trusted_peer_identities = [], cl_sessions_by_peer = [],
       cl_seen_initial_session_ids = {}, cl_seen_initial_transcript_hashes = {},
       cl_seen_initial_session_order = [], cl_seen_initial_transcript_order = []\<rparr>)))))))))"

text \<open>
  \<open>Create\<close> works on the client it returns; the state starts with the disk, the server and the
  inputs the process has. After a failed load other than a missing file there is no client.
\<close>

definition Create ::
    "openssl \<Rightarrow> inputs \<Rightarrow> path_env \<Rightarrow> load_env \<Rightarrow> string \<Rightarrow> disk \<Rightarrow> 's \<Rightarrow> nat \<Rightarrow> 's sys result" where
  "Create ssl inp penv lenv user_id disk srv tick =
     (let path = DefaultLocalStatePath penv user_id;
          start = (\<lambda>c n. \<lparr>sy_client = c, sy_disk = disk, sy_server = srv, sy_tick = n\<rparr>)
      in case LoadLocalState ssl lenv user_id path disk of
        Ok c \<Rightarrow>
          (case act_bind (act_context ''state load prekey refill failed: ''
               (RefillOneTimePrekeyPools ssl inp))
             (\<lambda>_. act_context ''state persist failed: '' (act_save ssl inp)) (start c tick) of
             (Ok _, s) \<Rightarrow> Ok s | (Err e, s) \<Rightarrow> Err e)
      | Err load_error \<Rightarrow>
          if load_error \<noteq> ''state file missing''
          then Err (''failed loading local state: '' @ load_error)
          else
            rbind (new_identity ssl (\<lambda>i. in_entropy inp (tick + i)) user_id path) (\<lambda>c.
            (case act_bind (act_context ''one-time prekey pool init failed: ''
                 (RefillOneTimePrekeyPools ssl inp))
               (\<lambda>_. act_context ''state persist failed: '' (act_save ssl inp)) (start c (tick + 7)) of
               (Ok _, s) \<Rightarrow> Ok s | (Err e, s) \<Rightarrow> Err e)))"

section \<open>The handshake\<close>

definition NewSessionId :: "inputs \<Rightarrow> ('s, string) act" where
  "NewSessionId inp = act_bind (draw_rand inp 16) (\<lambda>random. act_return (HexEncode random))"

definition check_bundle :: "openssl \<Rightarrow> string \<Rightarrow> PrekeyBundle \<Rightarrow> unit result" where
  "check_bundle ssl peer_user bundle =
     (if pb_user_id bundle \<noteq> peer_user then Err ''peer bundle user mismatch''
      else if pb_version bundle \<noteq> kProtocolVersion
      then Err ''peer bundle uses unsupported protocol version''
      else if pb_cipher_suite bundle \<noteq> kCipherSuite
      then Err ''peer bundle uses unsupported cipher suite''
      else with_context ''peer bundle verification failed: ''
        (VerifyPrekeyBundleSignatures ssl bundle))"

text \<open>
  The handshake of the initiator, from the ephemeral key to the encrypted first payload
  (\<^verbatim>\<open>InitiateSession\<close> without the calls that change the client): the session and the initial
  message. The entropy is that of the key generation, of the two encapsulations and of the
  ML-DSA signature.
\<close>

definition initiate_transcript ::
    "Client \<Rightarrow> string \<Rightarrow> PrekeyBundle \<Rightarrow> string \<Rightarrow> bytes \<Rightarrow> OneTimePrekeyEc \<Rightarrow> OneTimePrekeyPq \<Rightarrow>
     bytes \<Rightarrow> bytes \<Rightarrow> InitialTranscriptFields" where
  "initiate_transcript c peer_user bundle session_id eph_public one_time_ec one_time_pq ct_spk ct_opk =
     \<lparr>tf_session_id = session_id, tf_from_user = cl_user_id c, tf_to_user = peer_user,
      tf_version = kProtocolVersion, tf_cipher_suite = kCipherSuite,
      tf_initiator_identity_sign_public_key = ek_public_key (cl_identity_sign_key c),
      tf_initiator_identity_mldsa_public_key = dk_public_key (cl_identity_mldsa_key c),
      tf_initiator_identity_dh_public_key = xk_public_key (cl_identity_dh_key c),
      tf_responder_identity_sign_public_key = pb_identity_sign_public_key bundle,
      tf_responder_identity_mldsa_public_key = pb_identity_mldsa_public_key bundle,
      tf_responder_identity_dh_public_key = pb_identity_dh_public_key bundle,
      tf_initiator_ephemeral_ec_public_key = eph_public,
      tf_selected_prekeys = \<lparr>sel_signed_prekey_ec_id = ske_id (pb_signed_prekey_ec bundle),
        sel_signed_prekey_pq_id = skp_id (pb_signed_prekey_pq bundle),
        sel_one_time_ec_id = Some (ote_id one_time_ec), sel_one_time_pq_id = Some (otp_id one_time_pq)\<rparr>,
      tf_kem_ciphertext_signed_pq = ct_spk, tf_kem_ciphertext_one_time_pq = Some ct_opk\<rparr>"

text \<open>The session and the message, once the keys are there.\<close>

definition seal_initial ::
    "openssl \<Rightarrow> Client \<Rightarrow> PrekeyBundle \<Rightarrow> InitialTranscriptFields \<Rightarrow> X25519KeyPair \<Rightarrow> bytes \<Rightarrow> bytes \<Rightarrow>
     bytes \<Rightarrow> string \<Rightarrow> bytes \<times> bytes \<times> bytes \<Rightarrow> (SessionState \<times> InitialMessage) result" where
  "seal_initial ssl c bundle tf eph transcript_hash sig sig_mldsa initial_plaintext keys =
     (let (root, send_chain, recv_chain) = keys in
      case EncryptChainStep ssl send_chain 0 (NonceFromCounter 0) (ToBytes initial_plaintext)
          transcript_hash of
        (Err e, _) \<Rightarrow> Err (''encrypt initial payload failed: '' @ e)
      | (Ok ciphertext, next_chain) \<Rightarrow>
          Ok (\<lparr>ss_session_id = tf_session_id tf, ss_peer_user = tf_to_user tf,
               ss_is_initiator = True, ss_root_key = root, ss_send_chain_key = next_chain,
               ss_recv_chain_key = recv_chain, ss_send_counter = 0 + 1, ss_recv_counter = 0,
               ss_previous_send_chain_length = 0, ss_local_ratchet_key = eph,
               ss_remote_ratchet_public = ske_public_key (pb_signed_prekey_ec bundle)\<rparr>,
             \<lparr>im_session_id = tf_session_id tf, im_from_user = cl_user_id c,
               im_to_user = tf_to_user tf,
               im_version = kProtocolVersion, im_cipher_suite = kCipherSuite,
               im_initiator_identity_sign_public_key = ek_public_key (cl_identity_sign_key c),
               im_initiator_identity_mldsa_public_key = dk_public_key (cl_identity_mldsa_key c),
               im_initiator_identity_dh_public_key = xk_public_key (cl_identity_dh_key c),
               im_initiator_ephemeral_ec_public_key = xk_public_key eph,
               im_selected_prekeys = tf_selected_prekeys tf,
               im_kem_ciphertext_signed_pq = tf_kem_ciphertext_signed_pq tf,
               im_kem_ciphertext_one_time_pq = tf_kem_ciphertext_one_time_pq tf,
               im_transcript_hash = transcript_hash, im_handshake_signature_ed25519 = sig,
               im_handshake_signature_mldsa65 = sig_mldsa,
               im_initial_nonce = NonceFromCounter 0,
               im_initial_ciphertext = ciphertext\<rparr>))"

definition initiate_handshake ::
    "openssl \<Rightarrow> entropy \<times> entropy \<times> entropy \<times> entropy \<Rightarrow> Client \<Rightarrow> string \<Rightarrow> PrekeyBundle \<Rightarrow>
     string \<Rightarrow> string \<Rightarrow> (SessionState \<times> InitialMessage) result" where
  "initiate_handshake ssl ents c peer_user bundle session_id initial_plaintext =
     (let (e_eph, e_spk, e_opk, e_sig) = ents in
      if pb_one_time_ec bundle = [] \<or> pb_one_time_pq bundle = []
      then Err ''peer has no one-time prekeys available''
      else
        let one_time_ec = hd (pb_one_time_ec bundle); one_time_pq = hd (pb_one_time_pq bundle);
            spk_ec = ske_public_key (pb_signed_prekey_ec bundle) in
        rbind (with_context ''ephemeral keygen failed: '' (X25519_GenerateKeyPair ssl e_eph)) (\<lambda>eph.
        rbind (with_context ''dh1 failed: '' (X25519_SharedSecret ssl
          (xk_private_key (cl_identity_dh_key c)) spk_ec)) (\<lambda>dh1.
        rbind (with_context ''dh2 failed: '' (X25519_SharedSecret ssl
          (xk_private_key eph) (pb_identity_dh_public_key bundle))) (\<lambda>dh2.
        rbind (with_context ''dh3 failed: '' (X25519_SharedSecret ssl
          (xk_private_key eph) spk_ec)) (\<lambda>dh3.
        rbind (with_context ''dh4 failed: '' (X25519_SharedSecret ssl
          (xk_private_key eph) (ote_public_key one_time_ec))) (\<lambda>dh4.
        rbind (with_context ''KEM encaps to signed prekey failed: '' (MlKem768_Encapsulate ssl e_spk
          (skp_public_key (pb_signed_prekey_pq bundle)))) (\<lambda>kem_spk.
        rbind (with_context ''KEM encaps to one-time prekey failed: '' (MlKem768_Encapsulate ssl e_opk
          (otp_public_key one_time_pq))) (\<lambda>kem_opk.
        let fields = initiate_transcript c peer_user bundle session_id (xk_public_key eph)
              one_time_ec one_time_pq (er_ciphertext kem_spk) (er_ciphertext kem_opk) in
        rbind (with_context ''transcript hash failed: '' (ComputeInitialTranscriptHash ssl fields))
        (\<lambda>transcript_hash.
        rbind (with_context ''handshake ed25519 signature failed: ''
          (Ed25519_Sign ssl (ek_private_key (cl_identity_sign_key c)) transcript_hash)) (\<lambda>sig.
        rbind (with_context ''handshake mldsa signature failed: ''
          (MlDsa65_Sign ssl e_sig (dk_private_key (cl_identity_mldsa_key c)) transcript_hash))
        (\<lambda>sig_mldsa.
        rbind (with_context ''handshake key schedule failed: '' (DeriveHandshakeKeys ssl
          (Concat [dh1, dh2, dh3, er_shared_secret kem_spk, dh4, er_shared_secret kem_opk])
          transcript_hash True))
        (seal_initial ssl c bundle fields eph transcript_hash sig sig_mldsa initial_plaintext))))))))))))"

definition set_session :: "string \<Rightarrow> SessionState \<Rightarrow> Client \<Rightarrow> Client" where
  "set_session user st c = c\<lparr>cl_sessions_by_peer := AList.update user st (cl_sessions_by_peer c)\<rparr>"

definition InitiateSession ::
    "openssl \<Rightarrow> inputs \<Rightarrow> 's IServerApi option \<Rightarrow> string \<Rightarrow> string \<Rightarrow> ('s, unit) act" where
  "InitiateSession ssl inp server peer_user initial_plaintext =
     (case server of
        None \<Rightarrow> act_lift (Err ''server is null'')
      | Some api \<Rightarrow>
          act_bind (act_context ''failed to fetch peer bundle: ''
            (act_call inp (\<lambda>env srv. api_AcquireBundleForSession api env srv peer_user))) (\<lambda>bundle.
          act_bind (act_lift (check_bundle ssl peer_user bundle)) (\<lambda>_.
          act_bind (VerifyOrRememberPeerIdentity ssl inp peer_user
            (pb_identity_sign_public_key bundle) (pb_identity_mldsa_public_key bundle)
            (pb_identity_dh_public_key bundle)) (\<lambda>_.
          act_bind (NewSessionId inp) (\<lambda>session_id.
          act_bind (draw_entropy inp) (\<lambda>e_eph.
          act_bind (draw_entropy inp) (\<lambda>e_spk.
          act_bind (draw_entropy inp) (\<lambda>e_opk.
          act_bind (draw_entropy inp) (\<lambda>e_sig.
          act_bind act_client (\<lambda>c.
          act_bind (act_lift (initiate_handshake ssl (e_eph, e_spk, e_opk, e_sig) c peer_user bundle
            session_id initial_plaintext)) (\<lambda>(state, message).
          act_bind (act_remember (ss_session_id state) (im_transcript_hash message)) (\<lambda>_.
          act_bind (act_update (set_session peer_user state)) (\<lambda>_.
          act_bind (act_call inp (\<lambda>env srv.
            api_EnqueueEnvelope api env srv peer_user (FromInitial message))) (\<lambda>_.
          act_context ''persist local state failed: '' (act_save ssl inp)))))))))))))))"

text \<open>The checks of \<^verbatim>\<open>HandleInitialMessage\<close> before it looks at the sender's identity.\<close>

definition responder_transcript :: "Client \<Rightarrow> InitialMessage \<Rightarrow> InitialTranscriptFields" where
  "responder_transcript c message =
     \<lparr>tf_session_id = im_session_id message, tf_from_user = im_from_user message,
      tf_to_user = im_to_user message, tf_version = im_version message,
      tf_cipher_suite = im_cipher_suite message,
      tf_initiator_identity_sign_public_key = im_initiator_identity_sign_public_key message,
      tf_initiator_identity_mldsa_public_key = im_initiator_identity_mldsa_public_key message,
      tf_initiator_identity_dh_public_key = im_initiator_identity_dh_public_key message,
      tf_responder_identity_sign_public_key = ek_public_key (cl_identity_sign_key c),
      tf_responder_identity_mldsa_public_key = dk_public_key (cl_identity_mldsa_key c),
      tf_responder_identity_dh_public_key = xk_public_key (cl_identity_dh_key c),
      tf_initiator_ephemeral_ec_public_key = im_initiator_ephemeral_ec_public_key message,
      tf_selected_prekeys = im_selected_prekeys message,
      tf_kem_ciphertext_signed_pq = im_kem_ciphertext_signed_pq message,
      tf_kem_ciphertext_one_time_pq = im_kem_ciphertext_one_time_pq message\<rparr>"

definition check_initial :: "openssl \<Rightarrow> Client \<Rightarrow> InitialMessage \<Rightarrow> unit result" where
  "check_initial ssl c message =
     (if im_to_user message \<noteq> cl_user_id c then Err ''initial message recipient mismatch''
      else if im_version message \<noteq> kProtocolVersion
      then Err ''initial message uses unsupported protocol version''
      else if im_cipher_suite message \<noteq> kCipherSuite
      then Err ''initial message uses unsupported cipher suite''
      else if sel_one_time_ec_id (im_selected_prekeys message) = None \<or>
              sel_one_time_pq_id (im_selected_prekeys message) = None \<or>
              im_kem_ciphertext_one_time_pq message = None
      then Err ''initial message must include one-time EC and PQ prekeys''
      else if HasSeenInitialReplayGuard c (im_session_id message) (im_transcript_hash message)
      then Err ''duplicate initial handshake rejected''
      else if sel_signed_prekey_ec_id (im_selected_prekeys message) \<noteq> ske_id (cl_signed_prekey_ec_public c) \<or>
              sel_signed_prekey_pq_id (im_selected_prekeys message) \<noteq> skp_id (cl_signed_prekey_pq_public c)
      then Err ''initial message selected unknown signed prekey id''
      else
        rbind (with_context ''transcript hash failed: ''
          (ComputeInitialTranscriptHash ssl (responder_transcript c message))) (\<lambda>transcript_hash.
        if transcript_hash \<noteq> im_transcript_hash message then Err ''transcript hash mismatch''
        else
          rbind (with_context ''handshake ed25519 signature invalid: ''
            (Ed25519_Verify ssl (im_initiator_identity_sign_public_key message)
              (im_transcript_hash message) (im_handshake_signature_ed25519 message))) (\<lambda>_.
          with_context ''handshake mldsa signature invalid: ''
            (MlDsa65_Verify ssl (im_initiator_identity_mldsa_public_key message)
              (im_transcript_hash message) (im_handshake_signature_mldsa65 message)))))"

text \<open>
  The key agreement of the responder, up to the decrypted first payload: the session and the
  plaintext. \<open>the\<close> stands for \<^verbatim>\<open>*optional\<close>, behind the check above.
\<close>

definition accept_handshake ::
    "openssl \<Rightarrow> Client \<Rightarrow> InitialMessage \<Rightarrow> (SessionState \<times> bytes) result" where
  "accept_handshake ssl c message =
     (let eph = im_initiator_ephemeral_ec_public_key message;
          spk = xk_private_key (cl_signed_prekey_ec_private c);
          ec_id = the (sel_one_time_ec_id (im_selected_prekeys message));
          pq_id = the (sel_one_time_pq_id (im_selected_prekeys message)) in
      rbind (with_context ''dh1 failed: '' (X25519_SharedSecret ssl spk
        (im_initiator_identity_dh_public_key message))) (\<lambda>dh1.
      rbind (with_context ''dh2 failed: '' (X25519_SharedSecret ssl
        (xk_private_key (cl_identity_dh_key c)) eph)) (\<lambda>dh2.
      rbind (with_context ''dh3 failed: '' (X25519_SharedSecret ssl spk eph)) (\<lambda>dh3.
      case find (\<lambda>key. ote_id (oe_public_part key) = ec_id) (cl_one_time_ec_pool c) of
        None \<Rightarrow> Err ''one-time EC key id unavailable''
      | Some ec_key \<Rightarrow>
          rbind (with_context ''dh4 failed: '' (X25519_SharedSecret ssl
            (xk_private_key (oe_private_part ec_key)) eph)) (\<lambda>dh4.
          rbind (with_context ''decapsulate signed PQ prekey failed: '' (MlKem768_Decapsulate ssl
            (kk_private_key (cl_signed_prekey_pq_private c)) (im_kem_ciphertext_signed_pq message)))
          (\<lambda>ss_spk_pq.
          case find (\<lambda>key. otp_id (oq_public_part key) = pq_id) (cl_one_time_pq_pool c) of
            None \<Rightarrow> Err ''one-time PQ key id unavailable''
          | Some pq_key \<Rightarrow>
              rbind (with_context ''decapsulate one-time PQ prekey failed: '' (MlKem768_Decapsulate ssl
                (kk_private_key (oq_private_part pq_key)) (the (im_kem_ciphertext_one_time_pq message))))
              (\<lambda>ss_opk_pq.
              rbind (with_context ''handshake key schedule failed: '' (DeriveHandshakeKeys ssl
                (Concat [dh1, dh2, dh3, ss_spk_pq, dh4, ss_opk_pq]) (im_transcript_hash message) False))
              (\<lambda>(root, send_chain, recv_chain).
              case DecryptChainStep ssl recv_chain 0 (im_initial_nonce message)
                  (im_initial_ciphertext message) (im_transcript_hash message) of
                (Err e, _) \<Rightarrow> Err (''initial payload decrypt failed: '' @ e)
              | (Ok plaintext, next_chain) \<Rightarrow>
                  Ok (\<lparr>ss_session_id = im_session_id message, ss_peer_user = im_from_user message,
                       ss_is_initiator = False, ss_root_key = root, ss_send_chain_key = send_chain,
                       ss_recv_chain_key = next_chain, ss_send_counter = 0, ss_recv_counter = 0 + 1,
                       ss_previous_send_chain_length = 0,
                       ss_local_ratchet_key = cl_signed_prekey_ec_private c,
                       ss_remote_ratchet_public = eph\<rparr>, plaintext)))))))))"

text \<open>\<^verbatim>\<open>pool.erase(iterator)\<close>: the first entry that matches.\<close>

definition erase_first :: "('a \<Rightarrow> bool) \<Rightarrow> 'a list \<Rightarrow> 'a list" where
  "erase_first P xs = takeWhile (\<lambda>x. \<not> P x) xs @ drop 1 (dropWhile (\<lambda>x. \<not> P x) xs)"

definition use_one_time :: "InitialMessage \<Rightarrow> Client \<Rightarrow> Client" where
  "use_one_time message c =
     c\<lparr>cl_one_time_ec_pool := erase_first (\<lambda>key. ote_id (oe_public_part key) =
         the (sel_one_time_ec_id (im_selected_prekeys message))) (cl_one_time_ec_pool c),
       cl_one_time_pq_pool := erase_first (\<lambda>key. otp_id (oq_public_part key) =
         the (sel_one_time_pq_id (im_selected_prekeys message))) (cl_one_time_pq_pool c),
       cl_prekeys_dirty := True\<rparr>"

definition HandleInitialMessage ::
    "openssl \<Rightarrow> inputs \<Rightarrow> InitialMessage \<Rightarrow> ('s, string) act" where
  "HandleInitialMessage ssl inp message =
     act_bind act_client (\<lambda>c.
     act_bind (act_lift (check_initial ssl c message)) (\<lambda>_.
     act_bind (VerifyOrRememberPeerIdentity ssl inp (im_from_user message)
       (im_initiator_identity_sign_public_key message)
       (im_initiator_identity_mldsa_public_key message)
       (im_initiator_identity_dh_public_key message)) (\<lambda>_.
     act_bind act_client (\<lambda>c.
     act_bind (act_lift (accept_handshake ssl c message)) (\<lambda>(state, plaintext).
     act_bind (act_remember (im_session_id message) (im_transcript_hash message)) (\<lambda>_.
     act_bind (act_update (use_one_time message)) (\<lambda>_.
     act_bind (act_update (set_session (im_from_user message) state)) (\<lambda>_.
     act_return (FromBytes plaintext)))))))))"

section \<open>Messages\<close>

definition SendMessage ::
    "openssl \<Rightarrow> inputs \<Rightarrow> 's IServerApi option \<Rightarrow> string \<Rightarrow> string \<Rightarrow> ('s, unit) act" where
  "SendMessage ssl inp server peer_user plaintext =
     (case server of
        None \<Rightarrow> act_lift (Err ''server is null'')
      | Some api \<Rightarrow>
          act_bind act_client (\<lambda>c.
          case map_of (cl_sessions_by_peer c) peer_user of
            None \<Rightarrow> act_lift (Err ''no active session with peer'')
          | Some session \<Rightarrow>
              act_bind (draw_entropy inp) (\<lambda>ent.
              let (r, session') = session_send ssl ent (cl_user_id c) peer_user plaintext session in
              act_bind (act_update (set_session peer_user session')) (\<lambda>_.
              act_bind (act_lift r) (\<lambda>message.
              act_bind (act_call inp (\<lambda>env srv.
                api_EnqueueEnvelope api env srv peer_user (FromChat message))) (\<lambda>_.
              act_context ''persist local state failed: '' (act_save ssl inp)))))))"

definition HandleChatMessage :: "openssl \<Rightarrow> ChatMessage \<Rightarrow> ('s, string) act" where
  "HandleChatMessage ssl message =
     act_bind act_client (\<lambda>c.
     if cm_to_user message \<noteq> cl_user_id c then act_lift (Err ''chat message recipient mismatch'')
     else case map_of (cl_sessions_by_peer c) (cm_from_user message) of
       None \<Rightarrow> act_lift (Err ''no session for incoming chat message'')
     | Some session \<Rightarrow>
         (let (r, session') = session_receive ssl message session in
          act_bind (act_update (set_session (cm_from_user message) session')) (\<lambda>_. act_lift r)))"

section \<open>The inbox\<close>

definition handle_envelope :: "openssl \<Rightarrow> inputs \<Rightarrow> Envelope \<Rightarrow> ('s, string) act" where
  "handle_envelope ssl inp envelope =
     (if env_type envelope = kInitial \<and> env_initial envelope \<noteq> None
      then HandleInitialMessage ssl inp (the (env_initial envelope))
      else if env_type envelope = kChat \<and> env_chat envelope \<noteq> None
      then HandleChatMessage ssl (the (env_chat envelope))
      else act_lift (Err ''invalid envelope''))"

text \<open>
  The loop over one batch: it stops at the first error. The result is the plaintexts, the last
  id handled and the error, if any.
\<close>

fun process_items ::
    "openssl \<Rightarrow> inputs \<Rightarrow> InboxEnvelope list \<Rightarrow> u64 option \<Rightarrow> 's sys \<Rightarrow>
     (string list \<times> u64 option \<times> string option) \<times> 's sys" where
  "process_items ssl inp [] max_ackable s = (([], max_ackable, None), s)"
| "process_items ssl inp (item # items) max_ackable s =
     (case handle_envelope ssl inp (ie_envelope item) s of
        (Err e, s') \<Rightarrow> (([], max_ackable, Some e), s')
      | (Ok plaintext, s') \<Rightarrow>
          (let ((texts, ack, err), s'') = process_items ssl inp items (Some (ie_inbox_id item)) s'
           in ((plaintext # texts, ack, err), s'')))"

text \<open>
  The passes over the inbox. \<open>texts\<close> and \<open>first_error\<close> are the variables of the function; the
  loop ends with an error to return at once (\<open>Inl\<close>) or with their values.
\<close>

fun inbox_passes ::
    "openssl \<Rightarrow> inputs \<Rightarrow> 's IServerApi \<Rightarrow> nat \<Rightarrow> u64 option \<Rightarrow> string list \<Rightarrow> 's sys \<Rightarrow>
     (string + string list \<times> string) \<times> 's sys" where
  "inbox_passes ssl inp api 0 ack_to_send texts s = (Inr (texts, []), s)"
| "inbox_passes ssl inp api (Suc n) ack_to_send texts s =
     (case act_call inp (\<lambda>env srv. api_DrainInbox api env srv (cl_user_id (sy_client s)) ack_to_send) s of
        (Err e, s1) \<Rightarrow>
          (let s2 = (if ack_to_send \<noteq> None
                then s1\<lparr>sy_client := (sy_client s1)\<lparr>cl_pending_inbox_ack_up_to_id := ack_to_send\<rparr>\<rparr>
                else s1)
           in if texts = [] then (Inl (''drain inbox failed: '' @ e), s2)
              else (Inr (texts, ''drain inbox failed: '' @ e), s2))
      | (Ok inbox_envelopes, s1) \<Rightarrow>
          (let s2 = s1\<lparr>sy_client := (sy_client s1)\<lparr>cl_pending_inbox_ack_up_to_id := None\<rparr>\<rparr>
           in if inbox_envelopes = [] then (Inr (texts, []), s2)
              else
                let ((new_texts, max_ackable, err), s3) =
                      process_items ssl inp inbox_envelopes None s2;
                    s4 = (if max_ackable \<noteq> None
                      then s3\<lparr>sy_client := (sy_client s3)\<lparr>cl_pending_inbox_ack_up_to_id := max_ackable\<rparr>\<rparr>
                      else s3)
                in case err of
                     Some e \<Rightarrow> (Inr (texts @ new_texts, e), s4)
                   | None \<Rightarrow> inbox_passes ssl inp api n max_ackable (texts @ new_texts) s4))"

text \<open>After the passes: new one-time prekeys, if some were used, then the state file.\<close>

definition republish_prekeys ::
    "openssl \<Rightarrow> inputs \<Rightarrow> 's IServerApi \<Rightarrow> string \<Rightarrow> 's sys \<Rightarrow> string \<times> 's sys" where
  "republish_prekeys ssl inp api first_error s =
     (if \<not> cl_prekeys_dirty (sy_client s) then (first_error, s)
      else
        let (refill, s1) = RefillOneTimePrekeyPools ssl inp s
        in if \<not> ok refill \<and> first_error = []
           then (''prekey pool refill failed: '' @ error refill, s1)
           else
             let (publish, s2) = PublishPrekeys ssl inp (Some api) s1
             in if \<not> ok publish \<and> first_error = []
                then (''prekey republish failed: '' @ error publish, s2)
                else if ok publish
                then (first_error, s2\<lparr>sy_client := (sy_client s2)\<lparr>cl_prekeys_dirty := False\<rparr>\<rparr>)
                else (first_error, s2))"

definition ProcessInbox ::
    "openssl \<Rightarrow> inputs \<Rightarrow> 's IServerApi option \<Rightarrow> ('s, string list) act" where
  "ProcessInbox ssl inp server s =
     (case server of
        None \<Rightarrow> (Err ''server is null'', s)
      | Some api \<Rightarrow>
          (case inbox_passes ssl inp api kMaxInboxDrainPasses
               (cl_pending_inbox_ack_up_to_id (sy_client s)) [] s of
             (Inl e, s1) \<Rightarrow> (Err e, s1)
           | (Inr (texts, loop_error), s1) \<Rightarrow>
               (let (first_error, s2) = republish_prekeys ssl inp api loop_error s1
                in if texts = [] \<and> first_error \<noteq> [] then (Err first_error, s2)
                   else
                     let (save, s3) = act_save ssl inp s2
                     in if \<not> ok save \<and> texts = [] \<and> first_error = []
                        then (Err (''persist local state failed: '' @ error save), s3)
                        else
                          let first_error' = (if \<not> ok save \<and> first_error = []
                                then ''persist local state failed: '' @ error save else first_error)
                          in if texts = [] \<and> first_error' \<noteq> [] then (Err first_error', s3)
                             else (Ok texts, s3))))"

end
