(* ===== verification/Client_Laws.thy ===== *)
theory Client_Laws
  imports Client
begin

text \<open>
  What the operations of a client keep, whatever server they talk to and whatever the inputs
  are. The locale \<open>client_law\<close> lists the elementary changes of a client (a key pushed to a pool,
  a peer remembered, a session replaced, a guard recorded); its lemmas show once that a property
  closed under them is kept by every operation, with or without an error. It is interpreted on
  the well-formedness of the client, on the pinning of peer identities and on the set of
  verified peers, and \<open>client_law_verify\<close> adds the one operation that marks a peer as verified.
\<close>

section \<open>Triples\<close>

text \<open>
  From a client with \<open>P\<close>, the operation ends with \<open>Q\<close> if it succeeds and with \<open>E\<close> if it fails.
\<close>

definition triple ::
    "(Client \<Rightarrow> bool) \<Rightarrow> ('s, 'a) act \<Rightarrow> ('a \<Rightarrow> Client \<Rightarrow> bool) \<Rightarrow> (Client \<Rightarrow> bool) \<Rightarrow> bool" where
  "triple P m Q E \<longleftrightarrow> (\<forall>s r s'. m s = (r, s') \<longrightarrow> P (sy_client s) \<longrightarrow>
     (\<forall>x. r = Ok x \<longrightarrow> Q x (sy_client s')) \<and> (\<forall>e. r = Err e \<longrightarrow> E (sy_client s')))"

lemma act_bind_cases:
  assumes "act_bind m k s = (r, s')"
  obtains (step) x s1 where "m s = (Ok x, s1)" "k x s1 = (r, s')"
  | (stop) e where "m s = (Err e, s')" "r = Err e"
  using assms by (auto simp: act_bind_def split: prod.splits result.splits)

lemma act_bind_Ok:
  "act_bind m k s = (Ok y, s') \<longleftrightarrow> (\<exists>x s1. m s = (Ok x, s1) \<and> k x s1 = (Ok y, s'))"
  by (auto simp: act_bind_def split: prod.splits result.splits)

lemma triple_bind:
  assumes "triple P m Q E" "\<And>x. triple (Q x) (k x) Q' E"
  shows "triple P (act_bind m k) Q' E"
  unfolding triple_def
proof (intro allI impI)
  fix s r s'
  assume "act_bind m k s = (r, s')" "P (sy_client s)"
  then show "(\<forall>x. r = Ok x \<longrightarrow> Q' x (sy_client s')) \<and> (\<forall>e. r = Err e \<longrightarrow> E (sy_client s'))"
  proof (cases rule: act_bind_cases)
    case (step x s1)
    with assms(1) \<open>P (sy_client s)\<close> have "Q x (sy_client s1)" unfolding triple_def by blast
    with assms(2) step show ?thesis unfolding triple_def by blast
  next
    case (stop e)
    with assms(1) \<open>P (sy_client s)\<close> show ?thesis unfolding triple_def by blast
  qed
qed

lemma triple_weaken:
  "triple P m Q E \<Longrightarrow> (\<And>c. P' c \<Longrightarrow> P c) \<Longrightarrow> (\<And>x c. Q x c \<Longrightarrow> Q' x c) \<Longrightarrow> (\<And>c. E c \<Longrightarrow> E' c) \<Longrightarrow>
   triple P' m Q' E'"
  unfolding triple_def by blast

lemma triple_context: "triple P m Q E \<Longrightarrow> triple P (act_context c m) Q E"
  by (fastforce simp: triple_def act_context_def with_context_def split: prod.splits result.splits)

lemma triple_option:
  "(v = None \<Longrightarrow> triple P m Q E) \<Longrightarrow> (\<And>x. v = Some x \<Longrightarrow> triple P (k x) Q E) \<Longrightarrow>
   triple P (case v of None \<Rightarrow> m | Some x \<Rightarrow> k x) Q E"
  by (cases v) simp_all

lemma triple_if:
  "(b \<Longrightarrow> triple P m Q E) \<Longrightarrow> (\<not> b \<Longrightarrow> triple P m' Q E) \<Longrightarrow> triple P (if b then m else m') Q E"
  by simp

lemma triple_return: "(\<And>c. P c \<Longrightarrow> Q x c) \<Longrightarrow> triple P (act_return x) Q E"
  by (simp add: triple_def)

lemma triple_fail: "(\<And>c. P c \<Longrightarrow> E c) \<Longrightarrow> triple P (act_lift (Err e)) Q E"
  by (simp add: triple_def)

lemma triple_lift:
  "(\<And>c x. P c \<Longrightarrow> r = Ok x \<Longrightarrow> Q x c) \<Longrightarrow> (\<And>c. P c \<Longrightarrow> E c) \<Longrightarrow> triple P (act_lift r) Q E"
  by (auto simp: triple_def)

lemma triple_client: "(\<And>c. P c \<Longrightarrow> Q c c) \<Longrightarrow> triple P act_client Q E"
  by (simp add: triple_def)

lemma triple_update: "(\<And>c. P c \<Longrightarrow> Q () (f c)) \<Longrightarrow> triple P (act_update f) Q E"
  by (simp add: triple_def)

text \<open>Reading the client: what follows may use the value read as the current one.\<close>

lemma triple_read:
  assumes "\<And>d. triple (\<lambda>c. P c \<and> c = d) (k d) Q E"
  shows "triple P (act_bind act_client k) Q E"
  by (rule triple_bind [OF triple_client [of _ "\<lambda>d c. P c \<and> c = d"]]) (use assms in auto)

text \<open>Operations that do not touch the client.\<close>

definition silent :: "('s, 'a) act \<Rightarrow> bool" where
  "silent m \<longleftrightarrow> (\<forall>s. sy_client (snd (m s)) = sy_client s)"

lemma silent_acts:
  "silent (draw_entropy inp)" "silent (draw_rand inp n)" "silent (act_save ssl inp)"
  "silent (act_call inp f)"
  by (auto simp: silent_def draw_entropy_def draw_rand_def act_save_def act_call_def Let_def
      split: option.split prod.split)

lemma triple_silent:
  "silent m \<Longrightarrow> (\<And>c x. P c \<Longrightarrow> Q x c) \<Longrightarrow> (\<And>c. P c \<Longrightarrow> E c) \<Longrightarrow> triple P m Q E"
  unfolding triple_def silent_def by (metis snd_conv)

text \<open>An operation that keeps \<open>J\<close> on success and on error.\<close>

abbreviation keeps :: "(Client \<Rightarrow> bool) \<Rightarrow> ('s, 'a) act \<Rightarrow> bool" where
  "keeps J m \<equiv> triple J m (\<lambda>_. J) J"

lemma keeps_snd: "keeps J m \<Longrightarrow> J (sy_client s) \<Longrightarrow> J (sy_client (snd (m s)))"
  by (cases "m s"; cases "fst (m s)") (auto simp: triple_def)

lemma keepsI: "(\<And>s. J (sy_client s) \<Longrightarrow> J (sy_client (snd (m s)))) \<Longrightarrow> keeps J m"
  unfolding triple_def by (metis snd_conv)

lemma keeps_silent: "silent m \<Longrightarrow> keeps J m"
  by (rule triple_silent)

lemma keeps_lift: "keeps J (act_lift r)"
  by (rule triple_lift)

lemma keeps_return: "keeps J (act_return x)"
  by (rule triple_return)

lemma keeps_client: "keeps J act_client"
  by (rule triple_client)

lemma keeps_update: "(\<And>c. J c \<Longrightarrow> J (f c)) \<Longrightarrow> keeps J (act_update f)"
  by (rule triple_update)

lemma keeps_bind: "keeps J m \<Longrightarrow> (\<And>x. keeps J (k x)) \<Longrightarrow> keeps J (act_bind m k)"
  by (rule triple_bind)

lemmas keeps_rules = keeps_bind keeps_lift keeps_return keeps_client triple_context
  silent_acts [THEN keeps_silent]

section \<open>Recording a handshake\<close>

lemma remember_cases:
  obtains (rejected) e where "RememberInitialReplayGuards sid h c = (Err e, c)"
    "sid \<in> cl_seen_initial_session_ids c \<or> HexEncode h \<in> cl_seen_initial_transcript_hashes c"
  | (recorded) order ids hash_order hashes where
    "sid \<notin> cl_seen_initial_session_ids c" "HexEncode h \<notin> cl_seen_initial_transcript_hashes c"
    "evict (cl_seen_initial_session_order c @ [sid]) (insert sid (cl_seen_initial_session_ids c)) =
      (order, ids)"
    "evict (cl_seen_initial_transcript_order c @ [HexEncode h])
      (insert (HexEncode h) (cl_seen_initial_transcript_hashes c)) = (hash_order, hashes)"
    "RememberInitialReplayGuards sid h c = (Ok (), c\<lparr>cl_seen_initial_session_ids := ids,
      cl_seen_initial_session_order := order, cl_seen_initial_transcript_hashes := hashes,
      cl_seen_initial_transcript_order := hash_order\<rparr>)"
proof (cases "sid \<in> cl_seen_initial_session_ids c \<or> HexEncode h \<in> cl_seen_initial_transcript_hashes c")
  case True
  then show ?thesis
    using rejected by (fastforce simp: RememberInitialReplayGuards_def Let_def)
next
  case False
  obtain order ids hash_order hashes where e:
    "evict (cl_seen_initial_session_order c @ [sid]) (insert sid (cl_seen_initial_session_ids c)) =
      (order, ids)"
    "evict (cl_seen_initial_transcript_order c @ [HexEncode h])
      (insert (HexEncode h) (cl_seen_initial_transcript_hashes c)) = (hash_order, hashes)"
    by (metis prod.exhaust)
  with False show ?thesis
    by (intro recorded [OF _ _ e]) (simp_all add: RememberInitialReplayGuards_def Let_def)
qed

lemma remember_peers [simp]:
  "cl_trusted_peer_identities (snd (RememberInitialReplayGuards sid h c)) =
   cl_trusted_peer_identities c"
  by (rule remember_cases [of sid h c]) auto

section \<open>Laws of the elementary changes\<close>

text \<open>A session is stored only where there is one already or for a verified peer.\<close>

definition trusted :: "Client \<Rightarrow> string \<Rightarrow> bool" where
  "trusted c u \<longleftrightarrow> (\<exists>p. map_of (cl_trusted_peer_identities c) u = Some p \<and> pi_verified p)"

definition may_hold :: "Client \<Rightarrow> string \<Rightarrow> bool" where
  "may_hold c u \<longleftrightarrow> map_of (cl_sessions_by_peer c) u \<noteq> None \<or> trusted c u"

text \<open>Success of the identity check means that the peer is known by these keys and verified.\<close>

definition trusts :: "Client \<Rightarrow> string \<Rightarrow> bytes \<Rightarrow> bytes \<Rightarrow> bytes \<Rightarrow> bool" where
  "trusts c u k1 k2 k3 \<longleftrightarrow> (\<exists>p. map_of (cl_trusted_peer_identities c) u = Some p \<and> pi_verified p \<and>
     pi_sign_public_key p = k1 \<and> pi_mldsa_public_key p = k2 \<and> pi_dh_public_key p = k3)"

lemma identity_Ok:
  assumes "VerifyOrRememberPeerIdentity ssl inp u k1 k2 k3 s = (Ok x, s')"
  shows "s' = s" and "trusts (sy_client s) u k1 k2 k3"
  using assms
  by (auto simp: VerifyOrRememberPeerIdentity_def act_bind_Ok trusts_def
      split: option.splits if_splits)

lemma trusts_trusted: "trusts c u k1 k2 k3 \<Longrightarrow> trusted c u"
  by (auto simp: trusts_def trusted_def)

locale client_law =
  fixes ssl :: openssl and J :: "Client \<Rightarrow> bool"
  assumes J_new_peer: "J c \<Longrightarrow> map_of (cl_trusted_peer_identities c) u = None \<Longrightarrow>
      \<not> pi_verified p \<Longrightarrow> J (set_peer u p c)"
    and J_remember: "J c \<Longrightarrow> J (snd (RememberInitialReplayGuards sid h c))"
    and J_push_ec: "J c \<Longrightarrow> length (cl_one_time_ec_pool c) < kOneTimePrekeyPoolTarget \<Longrightarrow>
      ec_key_ok ssl k \<Longrightarrow> ote_id (oe_public_part k) \<noteq> 0 \<Longrightarrow>
      \<not> id_in_use c (ote_id (oe_public_part k)) \<Longrightarrow> J (push_ec k c)"
    and J_push_pq: "J c \<Longrightarrow> length (cl_one_time_pq_pool c) < kOneTimePrekeyPoolTarget \<Longrightarrow>
      pq_key_ok ssl q \<Longrightarrow> otp_id (oq_public_part q) \<noteq> 0 \<Longrightarrow>
      \<not> id_in_use c (otp_id (oq_public_part q)) \<Longrightarrow> J (push_pq q c)"
    and J_dirty: "J c \<Longrightarrow> J (c\<lparr>cl_prekeys_dirty := b\<rparr>)"
    and J_ack: "J c \<Longrightarrow> J (c\<lparr>cl_pending_inbox_ack_up_to_id := a\<rparr>)"
    and J_use: "J c \<Longrightarrow> J (use_one_time m c)"
    and J_session: "J c \<Longrightarrow> may_hold c u \<Longrightarrow> J (set_session u st c)"
begin

lemma keeps_identity:
  "keeps J (VerifyOrRememberPeerIdentity ssl inp u k1 k2 k3)"
  unfolding VerifyOrRememberPeerIdentity_def
  by (intro keeps_bind [OF keeps_lift] triple_read triple_option triple_if
      triple_bind [OF triple_update [of _ "\<lambda>_. J"]] keeps_rules)
    (auto simp: J_new_peer intro: triple_fail triple_return)

lemma identity_trusted:
  "triple J (VerifyOrRememberPeerIdentity ssl inp u k1 k2 k3) (\<lambda>_ c. J c \<and> trusted c u) J"
  using keeps_identity [of inp u k1 k2 k3] identity_Ok trusts_trusted
  unfolding triple_def by metis

lemma keeps_remember: "keeps J (act_remember sid h)"
  by (rule keepsI) (simp add: act_remember_def case_prod_unfold Let_def J_remember)

text \<open>What follows the identity check carries its outcome along.\<close>

lemma carry:
  "triple (\<lambda>c. J c \<and> trusted c u) (act_lift r) (\<lambda>_ c. J c \<and> trusted c u) J"
  "triple (\<lambda>c. J c \<and> trusted c u) act_client (\<lambda>_ c. J c \<and> trusted c u) J"
  "triple (\<lambda>c. J c \<and> trusted c u) (draw_entropy inp) (\<lambda>_ c. J c \<and> trusted c u) J"
  "triple (\<lambda>c. J c \<and> trusted c u) (draw_rand inp n) (\<lambda>_ c. J c \<and> trusted c u) J"
  "triple (\<lambda>c. J c \<and> trusted c u) (act_remember sid h) (\<lambda>_ c. J c \<and> trusted c u) J"
  "triple (\<lambda>c. J c \<and> trusted c u) (act_update (use_one_time m)) (\<lambda>_ c. J c \<and> trusted c u) J"
  "triple (\<lambda>c. J c \<and> trusted c u) (act_update (set_session u st)) (\<lambda>_. J) J"
proof -
  show "triple (\<lambda>c. J c \<and> trusted c u) (act_remember sid h) (\<lambda>_ c. J c \<and> trusted c u) J"
    by (auto simp: triple_def act_remember_def case_prod_unfold Let_def J_remember trusted_def)
qed (auto intro!: triple_lift triple_client triple_silent silent_acts triple_update
    simp: J_use J_session may_hold_def, auto simp: trusted_def use_one_time_def)

end

text \<open>One round of the refill loops, for either kind of key.\<close>

lemma unique_id:
  "triple P (unique_id_attempts inp n) (\<lambda>i c. P c \<and> i \<noteq> 0 \<and> \<not> id_in_use c i) P"
proof (induction n)
  case 0
  show ?case unfolding unique_id_attempts.simps by (rule triple_fail)
next
  case (Suc n)
  show ?case
    unfolding unique_id_attempts.simps Let_def
    by (intro triple_bind [OF keeps_silent [OF silent_acts(2)]] triple_read triple_if triple_return
        triple_weaken [OF Suc]) auto
qed

lemma refill_round:
  assumes gen: "\<And>ent pair. G ent = Ok pair \<Longrightarrow> good pair"
    and push: "\<And>c i pair. P c \<Longrightarrow> good pair \<Longrightarrow> i \<noteq> 0 \<Longrightarrow> \<not> id_in_use c i \<Longrightarrow> R (push i pair c)"
    and rest: "triple R m Q E" and err: "\<And>c. P c \<Longrightarrow> E c"
  shows "triple P (act_bind (draw_entropy inp) (\<lambda>ent.
    act_bind (act_context msg (act_lift (G ent))) (\<lambda>pair.
    act_bind (GenerateUniqueOneTimePrekeyId inp) (\<lambda>i.
    act_bind (act_update (push i pair)) (\<lambda>_. m))))) Q E"
proof (intro triple_bind [OF triple_silent [OF silent_acts(1), of P "\<lambda>_. P"]]
    triple_bind [OF triple_context [OF triple_lift [of P _ "\<lambda>pair c. P c \<and> good pair"]]])
  fix pair
  have "triple (\<lambda>c. P c \<and> good pair) (GenerateUniqueOneTimePrekeyId inp)
      (\<lambda>i c. (P c \<and> good pair) \<and> i \<noteq> 0 \<and> \<not> id_in_use c i) E"
    unfolding GenerateUniqueOneTimePrekeyId_def
    by (rule triple_weaken [OF unique_id [of "\<lambda>c. P c \<and> good pair"]]) (use err in auto)
  moreover have "triple (\<lambda>c. (P c \<and> good pair) \<and> i \<noteq> 0 \<and> \<not> id_in_use c i)
      (act_update (push i pair)) (\<lambda>_. R) E" for i
    using push by (intro triple_update) blast
  ultimately show "triple (\<lambda>c. P c \<and> good pair) (act_bind (GenerateUniqueOneTimePrekeyId inp) (\<lambda>i.
      act_bind (act_update (push i pair)) (\<lambda>_. m))) Q E"
    using rest by (blast intro: triple_bind)
qed (use gen err in auto)

lemma kem_pair_generated: "MlKem768_GenerateKeyPair ssl ent = Ok kp \<Longrightarrow> kem_pair ssl kp"
  by (auto simp: MlKem768_GenerateKeyPair_def kem_pair_def result_inv)

context client_law
begin

lemma keeps_refill_ec: "keeps J (refill_ec ssl inp n)"
proof (induction n)
  case 0
  show ?case unfolding refill_ec.simps by (rule keeps_return)
next
  case (Suc n)
  show ?case
    unfolding refill_ec.simps
    by (intro triple_read triple_if triple_return refill_round [OF dh_pair_generated _ Suc])
      (auto simp: ec_key_ok_def intro!: J_push_ec)
qed

lemma keeps_refill_pq: "keeps J (refill_pq ssl inp n)"
proof (induction n)
  case 0
  show ?case unfolding refill_pq.simps by (rule keeps_return)
next
  case (Suc n)
  show ?case
    unfolding refill_pq.simps
    by (intro triple_read triple_if triple_return refill_round [OF kem_pair_generated _ Suc])
      (auto simp: pq_key_ok_def intro!: J_push_pq)
qed

lemma keeps_RefillOneTimePrekeyPools: "keeps J (RefillOneTimePrekeyPools ssl inp)"
  unfolding RefillOneTimePrekeyPools_def by (intro keeps_rules keeps_refill_ec keeps_refill_pq)

lemma keeps_PublishPrekeys: "keeps J (PublishPrekeys ssl inp server)"
  unfolding PublishPrekeys_def by (intro triple_option keeps_rules keeps_update J_dirty)

lemma carry_session_id:
  "triple (\<lambda>c. J c \<and> trusted c u) (NewSessionId inp) (\<lambda>_ c. J c \<and> trusted c u) J"
  unfolding NewSessionId_def by (intro triple_bind [OF carry(4)] triple_return)

lemmas carry_binds = triple_bind [OF identity_trusted] triple_bind [OF carry_session_id]
  triple_bind [OF carry(1)] triple_bind [OF carry(2)] triple_bind [OF carry(3)]
  triple_bind [OF carry(5)] triple_bind [OF carry(6)] triple_bind [OF carry(7)]

lemma keeps_InitiateSession: "keeps J (InitiateSession ssl inp server u t)"
  unfolding InitiateSession_def
  by (intro triple_option keeps_lift
      triple_bind [OF triple_context [OF keeps_silent [OF silent_acts(4)]]]
      triple_bind [OF keeps_lift] carry_binds)
    (auto simp: split_def intro!: carry_binds keeps_rules)

lemma keeps_HandleInitialMessage: "keeps J (HandleInitialMessage ssl inp m)"
  unfolding HandleInitialMessage_def
  by (intro triple_bind [OF keeps_client] triple_bind [OF keeps_lift] carry_binds)
    (auto simp: split_def intro!: carry_binds keeps_rules)

text \<open>The session that a message updates is there already.\<close>

lemma keeps_existing_session:
  "map_of (cl_sessions_by_peer d) u \<noteq> None \<Longrightarrow>
   triple (\<lambda>c. J c \<and> c = d) (act_update (set_session u st)) (\<lambda>_. J) J"
  by (intro triple_update) (auto simp: J_session may_hold_def)

lemma keeps_SendMessage: "keeps J (SendMessage ssl inp server u t)"
  unfolding SendMessage_def
proof (intro triple_option keeps_lift triple_read triple_fail)
  fix api :: "'a IServerApi" and d st
  let ?P = "\<lambda>c. J c \<and> c = d"
  assume "map_of (cl_sessions_by_peer d) u = Some st"
  then show "triple ?P (act_bind (draw_entropy inp) (\<lambda>ent.
      let (r, session') = session_send ssl ent (cl_user_id d) u t st in
      act_bind (act_update (set_session u session')) (\<lambda>_.
      act_bind (act_lift r) (\<lambda>message.
      act_bind (act_call inp (\<lambda>env srv. api_EnqueueEnvelope api env srv u (FromChat message))) (\<lambda>_.
      act_context ''persist local state failed: '' (act_save ssl inp)))))) (\<lambda>_. J) J"
    by (intro triple_bind [OF triple_silent [OF silent_acts(1), of ?P "\<lambda>_. ?P"]])
      (auto simp: Let_def split_def intro!: triple_bind [OF keeps_existing_session] keeps_rules)
qed auto

lemma keeps_HandleChatMessage: "keeps J (HandleChatMessage ssl m)"
  unfolding HandleChatMessage_def
  by (intro triple_read triple_if triple_option triple_fail)
    (auto simp: Let_def split_def intro!: triple_bind [OF keeps_existing_session] keeps_rules)

lemma keeps_handle_envelope: "keeps J (handle_envelope ssl inp e)"
  unfolding handle_envelope_def
  by (intro triple_if keeps_lift keeps_HandleInitialMessage keeps_HandleChatMessage)

lemma process_items_keeps:
  "process_items ssl inp items a s = (out, s') \<Longrightarrow> J (sy_client s) \<Longrightarrow> J (sy_client s')"
proof (induction items arbitrary: a s out s')
  case (Cons item items)
  obtain r s1 where h: "handle_envelope ssl inp (ie_envelope item) s = (r, s1)"
    by (cases "handle_envelope ssl inp (ie_envelope item) s")
  then have "J (sy_client s1)" using keeps_snd [OF keeps_handle_envelope] Cons.prems(2) by (metis snd_conv)
  with Cons.prems(1) h Cons.IH show ?case
    by (cases r) (auto simp: Let_def split: prod.splits)
qed simp

lemma inbox_passes_keeps:
  "inbox_passes ssl inp api n ack texts s = (out, s') \<Longrightarrow> J (sy_client s) \<Longrightarrow> J (sy_client s')"
proof (induction n arbitrary: ack texts s out s')
  case (Suc n)
  obtain r s1 where d: "act_call inp (\<lambda>env srv. api_DrainInbox api env srv
      (cl_user_id (sy_client s)) ack) s = (r, s1)"
    by (cases "act_call inp (\<lambda>env srv. api_DrainInbox api env srv
      (cl_user_id (sy_client s)) ack) s")
  have s1: "J (sy_client s1)"
    using silent_acts(4) d Suc.prems(2) unfolding silent_def by (metis snd_conv)
  show ?case
  proof (cases r)
    case (Err e)
    with Suc.prems(1) d s1 show ?thesis by (auto simp: Let_def J_ack split: if_splits)
  next
    case (Ok es)
    let ?s2 = "s1\<lparr>sy_client := (sy_client s1)\<lparr>cl_pending_inbox_ack_up_to_id := None\<rparr>\<rparr>"
    obtain texts' a err s3 where p: "process_items ssl inp es None ?s2 = ((texts', a, err), s3)"
      by (metis prod.exhaust)
    have "J (sy_client s3)" using process_items_keeps [OF p] s1 by (simp add: J_ack)
    with Suc.prems(1) d s1 Ok p Suc.IH show ?thesis
      by (cases err) (auto simp: Let_def J_ack split: if_splits)
  qed
qed simp

lemma republish_keeps:
  assumes "republish_prekeys ssl inp api e s = (e', s')" "J (sy_client s)"
  shows "J (sy_client s')"
proof -
  obtain r s1 where r: "RefillOneTimePrekeyPools ssl inp s = (r, s1)"
    by (cases "RefillOneTimePrekeyPools ssl inp s")
  obtain p s2 where p: "PublishPrekeys ssl inp (Some api) s1 = (p, s2)"
    by (cases "PublishPrekeys ssl inp (Some api) s1")
  have "J (sy_client s1)" using keeps_snd [OF keeps_RefillOneTimePrekeyPools assms(2)] r by (metis snd_conv)
  moreover from this have "J (sy_client s2)" using keeps_snd [OF keeps_PublishPrekeys] p by (metis snd_conv)
  ultimately show ?thesis
    using assms r p by (auto simp: republish_prekeys_def Let_def J_dirty split: if_splits)
qed

lemma keeps_ProcessInbox: "keeps J (ProcessInbox ssl inp server)"
proof (rule keepsI)
  fix s :: "'a sys"
  assume J: "J (sy_client s)"
  show "J (sy_client (snd (ProcessInbox ssl inp server s)))"
  proof (cases server)
    case (Some api)
    obtain out s1 where i: "inbox_passes ssl inp api kMaxInboxDrainPasses
        (cl_pending_inbox_ack_up_to_id (sy_client s)) [] s = (out, s1)"
      by (metis prod.exhaust)
    note s1 = inbox_passes_keeps [OF i J]
    show ?thesis
    proof (cases out)
      case (Inr res)
      obtain texts e where res: "res = (texts, e)" by (cases res)
      obtain e' s2 where rp: "republish_prekeys ssl inp api e s1 = (e', s2)"
        by (cases "republish_prekeys ssl inp api e s1")
      obtain q s3 where sv: "act_save ssl inp s2 = (q, s3)" by (cases "act_save ssl inp s2")
      have "J (sy_client s2)" by (rule republish_keeps [OF rp s1])
      moreover from this have "J (sy_client s3)"
        using silent_acts(3) sv unfolding silent_def by (metis snd_conv)
      ultimately show ?thesis using Some i Inr res rp sv by (simp add: ProcessInbox_def Let_def)
    qed (use Some i s1 in \<open>simp add: ProcessInbox_def\<close>)
  qed (use J in \<open>simp add: ProcessInbox_def\<close>)
qed

end

section \<open>Sequences of operations\<close>

text \<open>The public operations that change a client, and what a run of them leaves.\<close>

datatype client_op =
    VerifyOp string string
  | PublishOp
  | InitiateOp string string
  | SendOp string string
  | InboxOp

fun client_step ::
    "openssl \<Rightarrow> inputs \<Rightarrow> 's IServerApi option \<Rightarrow> client_op \<Rightarrow> 's sys \<Rightarrow> 's sys" where
  "client_step ssl inp server (VerifyOp u n) s = snd (VerifyPeerSafetyNumber ssl inp u n s)"
| "client_step ssl inp server PublishOp s = snd (PublishPrekeys ssl inp server s)"
| "client_step ssl inp server (InitiateOp u t) s = snd (InitiateSession ssl inp server u t s)"
| "client_step ssl inp server (SendOp u t) s = snd (SendMessage ssl inp server u t s)"
| "client_step ssl inp server InboxOp s = snd (ProcessInbox ssl inp server s)"

definition client_run ::
    "openssl \<Rightarrow> inputs \<Rightarrow> 's IServerApi option \<Rightarrow> client_op list \<Rightarrow> 's sys \<Rightarrow> 's sys" where
  "client_run ssl inp server ops s = foldl (\<lambda>s op. client_step ssl inp server op s) s ops"

definition is_verify :: "client_op \<Rightarrow> bool" where
  "is_verify op \<longleftrightarrow> (case op of VerifyOp _ _ \<Rightarrow> True | _ \<Rightarrow> False)"

context client_law
begin

lemma step_keeps:
  "\<not> is_verify op \<Longrightarrow> J (sy_client s) \<Longrightarrow> J (sy_client (client_step ssl inp server op s))"
  by (cases op) (simp_all add: is_verify_def keeps_snd keeps_PublishPrekeys keeps_InitiateSession
      keeps_SendMessage keeps_ProcessInbox)

lemma run_keeps_unverified:
  "\<not> list_ex is_verify ops \<Longrightarrow> J (sy_client s) \<Longrightarrow> J (sy_client (client_run ssl inp server ops s))"
  by (induction ops arbitrary: s) (simp_all add: client_run_def step_keeps)

end

locale client_law_verify = client_law +
  assumes J_verify: "J c \<Longrightarrow> map_of (cl_trusted_peer_identities c) u = Some p \<Longrightarrow>
    J (set_peer u (p\<lparr>pi_verified := True\<rparr>) c)"
begin

lemma keeps_VerifyPeerSafetyNumber: "keeps J (VerifyPeerSafetyNumber ssl inp u n)"
  unfolding VerifyPeerSafetyNumber_def
proof (intro triple_read triple_option triple_fail)
  fix d p
  let ?P = "\<lambda>c. J c \<and> c = d"
  assume p: "map_of (cl_trusted_peer_identities d) u = Some p"
  show "triple ?P (act_bind (act_lift (ComputeSafetyNumber ssl u (pi_sign_public_key p)
      (pi_mldsa_public_key p) (pi_dh_public_key p))) (\<lambda>computed.
      if computed \<noteq> n then act_lift (Err ''peer safety number mismatch'')
      else act_bind (act_update (set_peer u (p\<lparr>pi_verified := True\<rparr>))) (\<lambda>_.
        act_context ''persist local state failed: '' (act_save ssl inp)))) (\<lambda>_. J) J"
    using p by (intro triple_bind [OF triple_lift [of ?P _ "\<lambda>_. ?P"]] triple_if triple_fail
        triple_bind [OF triple_update [of ?P "\<lambda>_. J"]] keeps_rules) (auto simp: J_verify)
qed auto

lemma run_keeps: "J (sy_client s) \<Longrightarrow> J (sy_client (client_run ssl inp server ops s))"
proof (induction ops arbitrary: s)
  case (Cons op ops)
  have "J (sy_client (client_step ssl inp server op s))"
    using Cons.prems step_keeps [of op]
    by (cases op) (simp_all add: is_verify_def keeps_snd [OF keeps_VerifyPeerSafetyNumber])
  then show ?case using Cons.IH by (simp add: client_run_def)
qed (simp add: client_run_def)

end

section \<open>Well-formedness\<close>

lemma evict_guard:
  "S = set xs \<Longrightarrow> distinct xs \<Longrightarrow> evict xs S = (ys, T) \<Longrightarrow> guard_wf T ys"
proof (induction xs arbitrary: S)
  case (Cons x xs)
  then show ?case by (cases "kMaxInitialReplayGuards < length (x # xs)") (auto simp: guard_wf_def)
qed (auto simp: guard_wf_def)

lemma guard_add:
  assumes "guard_wf S xs" "x \<notin> S" "evict (xs @ [x]) (insert x S) = (ys, T)"
  shows "guard_wf T ys"
  by (rule evict_guard [OF _ _ assms(3)]) (use assms(1,2) in \<open>auto simp: guard_wf_def\<close>)

lemma erase_first_cases:
  obtains (none) "erase_first P xs = xs" "\<And>x. x \<in> set xs \<Longrightarrow> \<not> P x"
  | (one) ys x zs where "xs = ys @ x # zs" "P x" "erase_first P xs = ys @ zs"
proof (cases "dropWhile (\<lambda>x. \<not> P x) xs")
  case Nil
  then have "\<not> P x" if "x \<in> set xs" for x using that by (simp add: dropWhile_eq_Nil_conv)
  moreover from this have "takeWhile (\<lambda>x. \<not> P x) xs = xs" by (simp add: takeWhile_eq_all_conv)
  ultimately show ?thesis using none Nil by (simp add: erase_first_def)
next
  case (Cons x zs)
  then have "P x" by (metis dropWhile_eq_Cons_conv)
  then show ?thesis
    using one [of "takeWhile (\<lambda>x. \<not> P x) xs" x zs] Cons takeWhile_dropWhile_id [of "\<lambda>x. \<not> P x" xs]
    by (simp add: erase_first_def)
qed

lemma erase_first_facts:
  "set (erase_first P xs) \<subseteq> set xs" "length (erase_first P xs) \<le> length xs"
  "distinct (map f xs) \<Longrightarrow> distinct (map f (erase_first P xs))"
  by (rule erase_first_cases [of P xs]; auto)+

lemma erase_first_ids:
  assumes "distinct (map f xs @ map g ys)"
  shows "distinct (map f (erase_first P xs) @ map g (erase_first Q ys))"
    and "set (map f (erase_first P xs) @ map g (erase_first Q ys)) \<subseteq> set (map f xs @ map g ys)"
proof -
  have "set (map f (erase_first P xs)) \<subseteq> set (map f xs)"
    and "set (map g (erase_first Q ys)) \<subseteq> set (map g ys)"
    using erase_first_facts(1) [of P xs] erase_first_facts(1) [of Q ys] by auto
  moreover have "distinct (map f (erase_first P xs))" "distinct (map g (erase_first Q ys))"
    using assms by (simp_all add: erase_first_facts(3))
  moreover have "set (map f xs) \<inter> set (map g ys) = {}" using assms by simp
  ultimately show "distinct (map f (erase_first P xs) @ map g (erase_first Q ys))"
    and "set (map f (erase_first P xs) @ map g (erase_first Q ys)) \<subseteq> set (map f xs @ map g ys)"
    unfolding distinct_append set_append by blast+
qed

lemma wf_remember: "client_wf ssl c \<Longrightarrow> client_wf ssl (snd (RememberInitialReplayGuards sid h c))"
  by (rule remember_cases [of sid h c]) (auto simp: client_wf_def keys_wf_def one_time_ids_def intro: guard_add)

lemma wf_use:
  assumes "client_wf ssl c" shows "client_wf ssl (use_one_time m c)"
proof -
  let ?P = "\<lambda>key. ote_id (oe_public_part key) = the (sel_one_time_ec_id (im_selected_prekeys m))"
  let ?Q = "\<lambda>key. otp_id (oq_public_part key) = the (sel_one_time_pq_id (im_selected_prekeys m))"
  note ec = erase_first_facts [of ?P "cl_one_time_ec_pool c"]
    and pq = erase_first_facts [of ?Q "cl_one_time_pq_pool c"]
  have "keys_wf ssl (use_one_time m c)"
    using assms ec(1) pq(1) unfolding client_wf_def keys_wf_def use_one_time_def list_all_iff
    by (simp add: subset_iff)
  moreover have "distinct (map (ote_id \<circ> oe_public_part) (erase_first ?P (cl_one_time_ec_pool c)) @
      map (otp_id \<circ> oq_public_part) (erase_first ?Q (cl_one_time_pq_pool c)))"
    "0 \<notin> set (map (ote_id \<circ> oe_public_part) (erase_first ?P (cl_one_time_ec_pool c)) @
      map (otp_id \<circ> oq_public_part) (erase_first ?Q (cl_one_time_pq_pool c)))"
    using assms erase_first_ids [of "ote_id \<circ> oe_public_part" "cl_one_time_ec_pool c"
        "otp_id \<circ> oq_public_part" "cl_one_time_pq_pool c" ?P ?Q]
    unfolding client_wf_def one_time_ids_def by blast+
  moreover have "one_time_ids (use_one_time m c) =
      map (ote_id \<circ> oe_public_part) (erase_first ?P (cl_one_time_ec_pool c)) @
      map (otp_id \<circ> oq_public_part) (erase_first ?Q (cl_one_time_pq_pool c))"
    by (simp add: one_time_ids_def use_one_time_def)
  ultimately show ?thesis
    using assms ec(2) pq(2) by (simp add: client_wf_def use_one_time_def)
qed

lemma wf_push_ec:
  "client_wf ssl c \<Longrightarrow> length (cl_one_time_ec_pool c) < kOneTimePrekeyPoolTarget \<Longrightarrow>
   ec_key_ok ssl k \<Longrightarrow> ote_id (oe_public_part k) \<noteq> 0 \<Longrightarrow>
   \<not> id_in_use c (ote_id (oe_public_part k)) \<Longrightarrow> client_wf ssl (push_ec k c)"
  by (auto simp: client_wf_def keys_wf_def push_ec_def one_time_ids_def id_in_use_def list_ex_iff
      kOneTimePrekeyPoolTarget_def)

lemma wf_push_pq:
  "client_wf ssl c \<Longrightarrow> length (cl_one_time_pq_pool c) < kOneTimePrekeyPoolTarget \<Longrightarrow>
   pq_key_ok ssl k \<Longrightarrow> otp_id (oq_public_part k) \<noteq> 0 \<Longrightarrow>
   \<not> id_in_use c (otp_id (oq_public_part k)) \<Longrightarrow> client_wf ssl (push_pq k c)"
  by (auto simp: client_wf_def keys_wf_def push_pq_def one_time_ids_def id_in_use_def list_ex_iff
      kOneTimePrekeyPoolTarget_def)

interpretation wf: client_law_verify ssl "client_wf ssl" for ssl
  by unfold_locales
    (simp_all add: wf_remember wf_use wf_push_ec wf_push_pq,
     simp_all add: client_wf_def keys_wf_def one_time_ids_def set_peer_def set_session_def distinct_update)

text \<open>
C7. Whatever operations a client runs, against whatever server and inputs, with or without
errors, its private and public keys keep belonging together, its one-time prekey ids stay
distinct and not zero, its tables have one entry per key, and the replay guards stay bounded
lists without repetition beside the sets of their elements.
\<close>

theorem client_stays_well_formed:
  assumes "client_wf ssl (sy_client s)"
  shows "client_wf ssl (sy_client (client_run ssl inp server ops s))"
  using assms by (rule wf.run_keeps)

section \<open>Peer identities\<close>

definition pinned :: "Client \<Rightarrow> Client \<Rightarrow> bool" where
  "pinned c0 c \<longleftrightarrow> (\<forall>u p. map_of (cl_trusted_peer_identities c0) u = Some p \<longrightarrow>
     (\<exists>q. map_of (cl_trusted_peer_identities c) u = Some q \<and>
        pi_sign_public_key q = pi_sign_public_key p \<and>
        pi_mldsa_public_key q = pi_mldsa_public_key p \<and>
        pi_dh_public_key q = pi_dh_public_key p \<and> (pi_verified p \<longrightarrow> pi_verified q)))"

definition no_new_trust :: "Client \<Rightarrow> Client \<Rightarrow> bool" where
  "no_new_trust c0 c \<longleftrightarrow> (\<forall>u p. map_of (cl_trusted_peer_identities c) u = Some p \<longrightarrow> pi_verified p \<longrightarrow>
     map_of (cl_trusted_peer_identities c0) u = Some p)"

lemmas peer_frame_defs = push_ec_def push_pq_def use_one_time_def set_session_def set_peer_def

lemma pinned_frame:
  "pinned c0 c \<Longrightarrow> cl_trusted_peer_identities c' = cl_trusted_peer_identities c \<Longrightarrow> pinned c0 c'"
  by (simp add: pinned_def)

lemma pinned_set_peer:
  assumes "pinned c0 c"
    and "\<And>q. map_of (cl_trusted_peer_identities c) u = Some q \<Longrightarrow>
      pi_sign_public_key q = pi_sign_public_key p \<and> pi_mldsa_public_key q = pi_mldsa_public_key p \<and>
      pi_dh_public_key q = pi_dh_public_key p \<and> (pi_verified q \<longrightarrow> pi_verified p)"
  shows "pinned c0 (set_peer u p c)"
  unfolding pinned_def
proof (intro allI impI)
  fix v r
  assume "map_of (cl_trusted_peer_identities c0) v = Some r"
  with assms(1) obtain q where "map_of (cl_trusted_peer_identities c) v = Some q"
    "pi_sign_public_key q = pi_sign_public_key r" "pi_mldsa_public_key q = pi_mldsa_public_key r"
    "pi_dh_public_key q = pi_dh_public_key r" "pi_verified r \<longrightarrow> pi_verified q"
    unfolding pinned_def by blast
  with assms(2) [of q] show "\<exists>q. map_of (cl_trusted_peer_identities (set_peer u p c)) v = Some q \<and>
      pi_sign_public_key q = pi_sign_public_key r \<and> pi_mldsa_public_key q = pi_mldsa_public_key r \<and>
      pi_dh_public_key q = pi_dh_public_key r \<and> (pi_verified r \<longrightarrow> pi_verified q)"
    by (cases "v = u") (simp_all add: set_peer_def update_conv')
qed

interpretation pin: client_law_verify ssl "pinned c0" for ssl c0
  by unfold_locales
    (auto intro: pinned_set_peer elim: pinned_frame
      simp: push_ec_def push_pq_def use_one_time_def set_session_def)

text \<open>Every session of a client is with a peer it has verified.\<close>

definition sessions_verified :: "Client \<Rightarrow> bool" where
  "sessions_verified c \<longleftrightarrow> (\<forall>u. map_of (cl_sessions_by_peer c) u \<noteq> None \<longrightarrow> trusted c u)"

lemma remember_sessions [simp]:
  "cl_sessions_by_peer (snd (RememberInitialReplayGuards sid h c)) = cl_sessions_by_peer c"
  by (rule remember_cases [of sid h c]) auto

interpretation verified: client_law_verify ssl sessions_verified for ssl
  by unfold_locales
    (auto simp: sessions_verified_def trusted_def may_hold_def peer_frame_defs update_conv'
      split: if_splits)

interpretation trust: client_law ssl "no_new_trust c0" for ssl c0
  by unfold_locales (auto simp: no_new_trust_def peer_frame_defs update_conv')

text \<open>
C29. Once a client has remembered the identity keys of a peer, no operation and no server
changes them or takes the verified mark back.
\<close>

theorem peer_identities_stay_pinned:
  assumes "map_of (cl_trusted_peer_identities (sy_client s)) u = Some p"
  shows "\<exists>q. map_of (cl_trusted_peer_identities (sy_client (client_run ssl inp server ops s))) u = Some q \<and>
    pi_sign_public_key q = pi_sign_public_key p \<and> pi_mldsa_public_key q = pi_mldsa_public_key p \<and>
    pi_dh_public_key q = pi_dh_public_key p \<and> (pi_verified p \<longrightarrow> pi_verified q)"
proof -
  have "pinned (sy_client s) (sy_client s)" by (simp add: pinned_def)
  then have "pinned (sy_client s) (sy_client (client_run ssl inp server ops s))" by (rule pin.run_keeps)
  with assms show ?thesis by (simp add: pinned_def)
qed

text \<open>
C8. A client that starts without sessions to unverified peers never gets one: every session
is with a peer whose identity the user has verified.
\<close>

theorem sessions_only_with_verified_peers:
  assumes "sessions_verified (sy_client s)"
    and "map_of (cl_sessions_by_peer (sy_client (client_run ssl inp server ops s))) u = Some st"
  shows "\<exists>p. map_of (cl_trusted_peer_identities (sy_client (client_run ssl inp server ops s))) u = Some p \<and>
    pi_verified p"
  using verified.run_keeps [OF assms(1)] assms(2) by (simp add: sessions_verified_def trusted_def)

theorem only_the_user_verifies_peers:
  assumes "\<not> list_ex is_verify ops"
    and "map_of (cl_trusted_peer_identities (sy_client (client_run ssl inp server ops s))) u = Some p"
    and "pi_verified p"
  shows "map_of (cl_trusted_peer_identities (sy_client s)) u = Some p"
proof -
  have "no_new_trust (sy_client s) (sy_client s)" by (simp add: no_new_trust_def)
  then have "no_new_trust (sy_client s) (sy_client (client_run ssl inp server ops s))"
    by (rule trust.run_keeps_unverified [OF assms(1)])
  with assms(2,3) show ?thesis by (simp add: no_new_trust_def)
qed

end
