(* ===== verification/Handshake.thy ===== *)
theory Handshake
  imports Client_Laws
begin

text \<open>
  The hybrid handshake. The main theorem: an initial message made for the bundle of a client is
  accepted by that client, both ends derive the same keys, and the two sessions are paired in
  the sense of the ratchet, so that the conversation theorem applies to them. Around it: what a
  handshake leaves behind in the responder (the one-time keys are gone, the replay guards hold),
  that a repeated handshake is rejected, that the refilled pools are full, and that a bundle a
  client builds passes the verification of its peers.
\<close>

section \<open>Agreement\<close>

text \<open>The bundle carries the keys of the client, and its first one-time keys are in the pools.\<close>

definition offers :: "Client \<Rightarrow> PrekeyBundle \<Rightarrow> bool" where
  "offers b bundle \<longleftrightarrow> pb_user_id bundle = cl_user_id b \<and>
     pb_identity_sign_public_key bundle = ek_public_key (cl_identity_sign_key b) \<and>
     pb_identity_mldsa_public_key bundle = dk_public_key (cl_identity_mldsa_key b) \<and>
     pb_identity_dh_public_key bundle = xk_public_key (cl_identity_dh_key b) \<and>
     pb_signed_prekey_ec bundle = cl_signed_prekey_ec_public b \<and>
     pb_signed_prekey_pq bundle = cl_signed_prekey_pq_public b \<and>
     pb_one_time_ec bundle \<noteq> [] \<and>
     hd (pb_one_time_ec bundle) \<in> oe_public_part ` set (cl_one_time_ec_pool b) \<and>
     pb_one_time_pq bundle \<noteq> [] \<and>
     hd (pb_one_time_pq bundle) \<in> oq_public_part ` set (cl_one_time_pq_pool b)"

lemma find_by_key:
  "distinct (map f xs) \<Longrightarrow> k \<in> set xs \<Longrightarrow> find (\<lambda>x. f x = f k) xs = Some k"
  by (induction xs) auto

lemma offered_ec:
  assumes "client_wf ssl b" "offers b bundle"
  obtains k where "find (\<lambda>key. ote_id (oe_public_part key) = ote_id (hd (pb_one_time_ec bundle)))
      (cl_one_time_ec_pool b) = Some k"
    "ec_key_ok ssl k" "oe_public_part k = hd (pb_one_time_ec bundle)"
proof -
  obtain k where k: "k \<in> set (cl_one_time_ec_pool b)" "hd (pb_one_time_ec bundle) = oe_public_part k"
    using assms(2) by (auto simp: offers_def)
  have "distinct (map (\<lambda>k. ote_id (oe_public_part k)) (cl_one_time_ec_pool b))"
    using assms(1) by (simp add: client_wf_def one_time_ids_def comp_def)
  then have "find (\<lambda>key. ote_id (oe_public_part key) = ote_id (oe_public_part k)) (cl_one_time_ec_pool b) = Some k"
    using k(1) by (rule find_by_key)
  moreover have "ec_key_ok ssl k"
    using assms(1) k(1) by (simp add: client_wf_def keys_wf_def list_all_iff)
  ultimately show ?thesis using that k(2) by metis
qed

lemma offered_pq:
  assumes "client_wf ssl b" "offers b bundle"
  obtains k where "find (\<lambda>key. otp_id (oq_public_part key) = otp_id (hd (pb_one_time_pq bundle)))
      (cl_one_time_pq_pool b) = Some k"
    "pq_key_ok ssl k" "oq_public_part k = hd (pb_one_time_pq bundle)"
proof -
  obtain k where k: "k \<in> set (cl_one_time_pq_pool b)" "hd (pb_one_time_pq bundle) = oq_public_part k"
    using assms(2) by (auto simp: offers_def)
  have "distinct (map (\<lambda>k. otp_id (oq_public_part k)) (cl_one_time_pq_pool b))"
    using assms(1) by (simp add: client_wf_def one_time_ids_def comp_def)
  then have "find (\<lambda>key. otp_id (oq_public_part key) = otp_id (oq_public_part k)) (cl_one_time_pq_pool b) = Some k"
    using k(1) by (rule find_by_key)
  moreover have "pq_key_ok ssl k"
    using assms(1) k(1) by (simp add: client_wf_def keys_wf_def list_all_iff)
  ultimately show ?thesis using that k(2) by metis
qed

lemma kem_agree:
  "kem_correct ssl \<Longrightarrow> kem_pair ssl kp \<Longrightarrow>
   MlKem768_Encapsulate ssl ent (kk_public_key kp) = Ok er \<Longrightarrow>
   MlKem768_Decapsulate ssl (kk_private_key kp) (er_ciphertext er) = Ok (er_shared_secret er)"
  by (auto simp: kem_correct_def kem_pair_def MlKem768_Encapsulate_def MlKem768_Decapsulate_def
      result_inv)

lemma ed_verifies:
  "sig_correct ssl \<Longrightarrow> ed_pair ssl kp \<Longrightarrow> Ed25519_Sign ssl (ek_private_key kp) m = Ok sig \<Longrightarrow>
   Ed25519_Verify ssl (ek_public_key kp) m sig = Ok ()"
  by (auto simp: sig_correct_def ed_pair_def Ed25519_Sign_def Ed25519_Verify_def result_inv)

lemma mldsa_verifies:
  "sig_correct ssl \<Longrightarrow> mldsa_pair ssl kp \<Longrightarrow> MlDsa65_Sign ssl ent (dk_private_key kp) m = Ok sig \<Longrightarrow>
   MlDsa65_Verify ssl (dk_public_key kp) m sig = Ok ()"
  by (auto simp: sig_correct_def mldsa_pair_def MlDsa65_Sign_def MlDsa65_Verify_def result_inv)

text \<open>The steps of a successful \<open>initiate_handshake\<close>.\<close>

record handshake_run =
  hr_eph :: X25519KeyPair
  hr_dh1 :: bytes
  hr_dh2 :: bytes
  hr_dh3 :: bytes
  hr_dh4 :: bytes
  hr_spk :: MlKemEncapResult
  hr_opk :: MlKemEncapResult
  hr_root :: bytes
  hr_send :: bytes
  hr_next :: bytes
  hr_recv :: bytes

definition handshake_ikm :: "handshake_run \<Rightarrow> bytes" where
  "handshake_ikm h = Concat [hr_dh1 h, hr_dh2 h, hr_dh3 h, er_shared_secret (hr_spk h), hr_dh4 h,
     er_shared_secret (hr_opk h)]"

lemma initiate_handshake_Ok:
  assumes "initiate_handshake ssl (e1, e2, e3, e4) a peer bundle sid text = Ok (sa, m)"
  obtains h where
    "X25519_GenerateKeyPair ssl e1 = Ok (hr_eph h)"
    "X25519_SharedSecret ssl (xk_private_key (cl_identity_dh_key a))
       (ske_public_key (pb_signed_prekey_ec bundle)) = Ok (hr_dh1 h)"
    "X25519_SharedSecret ssl (xk_private_key (hr_eph h)) (pb_identity_dh_public_key bundle) =
       Ok (hr_dh2 h)"
    "X25519_SharedSecret ssl (xk_private_key (hr_eph h))
       (ske_public_key (pb_signed_prekey_ec bundle)) = Ok (hr_dh3 h)"
    "X25519_SharedSecret ssl (xk_private_key (hr_eph h))
       (ote_public_key (hd (pb_one_time_ec bundle))) = Ok (hr_dh4 h)"
    "MlKem768_Encapsulate ssl e2 (skp_public_key (pb_signed_prekey_pq bundle)) = Ok (hr_spk h)"
    "MlKem768_Encapsulate ssl e3 (otp_public_key (hd (pb_one_time_pq bundle))) = Ok (hr_opk h)"
    "ComputeInitialTranscriptHash ssl (initiate_transcript a peer bundle sid (xk_public_key (hr_eph h))
       (hd (pb_one_time_ec bundle)) (hd (pb_one_time_pq bundle)) (er_ciphertext (hr_spk h))
       (er_ciphertext (hr_opk h))) = Ok (im_transcript_hash m)"
    "Ed25519_Sign ssl (ek_private_key (cl_identity_sign_key a)) (im_transcript_hash m) =
       Ok (im_handshake_signature_ed25519 m)"
    "MlDsa65_Sign ssl e4 (dk_private_key (cl_identity_mldsa_key a)) (im_transcript_hash m) =
       Ok (im_handshake_signature_mldsa65 m)"
    "DeriveHandshakeKeys ssl (handshake_ikm h) (im_transcript_hash m) True =
       Ok (hr_root h, hr_send h, hr_recv h)"
    "EncryptChainStep ssl (hr_send h) 0 (im_initial_nonce m) (ToBytes text) (im_transcript_hash m) =
       (Ok (im_initial_ciphertext m), hr_next h)"
    "sa = \<lparr>ss_session_id = sid, ss_peer_user = peer, ss_is_initiator = True,
       ss_root_key = hr_root h, ss_send_chain_key = hr_next h, ss_recv_chain_key = hr_recv h,
       ss_send_counter = 1, ss_recv_counter = 0, ss_previous_send_chain_length = 0,
       ss_local_ratchet_key = hr_eph h,
       ss_remote_ratchet_public = ske_public_key (pb_signed_prekey_ec bundle)\<rparr>"
    "im_session_id m = sid" "im_from_user m = cl_user_id a" "im_to_user m = peer"
    "im_version m = kProtocolVersion" "im_cipher_suite m = kCipherSuite"
    "im_initiator_identity_sign_public_key m = ek_public_key (cl_identity_sign_key a)"
    "im_initiator_identity_mldsa_public_key m = dk_public_key (cl_identity_mldsa_key a)"
    "im_initiator_identity_dh_public_key m = xk_public_key (cl_identity_dh_key a)"
    "im_initiator_ephemeral_ec_public_key m = xk_public_key (hr_eph h)"
    "im_selected_prekeys m = \<lparr>sel_signed_prekey_ec_id = ske_id (pb_signed_prekey_ec bundle),
       sel_signed_prekey_pq_id = skp_id (pb_signed_prekey_pq bundle),
       sel_one_time_ec_id = Some (ote_id (hd (pb_one_time_ec bundle))),
       sel_one_time_pq_id = Some (otp_id (hd (pb_one_time_pq bundle)))\<rparr>"
    "im_kem_ciphertext_signed_pq m = er_ciphertext (hr_spk h)"
    "im_kem_ciphertext_one_time_pq m = Some (er_ciphertext (hr_opk h))"
proof -
  from assms obtain eph dh1 dh2 dh3 dh4 spk opk hash sg sg' keys where
    steps: "X25519_GenerateKeyPair ssl e1 = Ok eph"
    "X25519_SharedSecret ssl (xk_private_key (cl_identity_dh_key a))
       (ske_public_key (pb_signed_prekey_ec bundle)) = Ok dh1"
    "X25519_SharedSecret ssl (xk_private_key eph) (pb_identity_dh_public_key bundle) = Ok dh2"
    "X25519_SharedSecret ssl (xk_private_key eph) (ske_public_key (pb_signed_prekey_ec bundle)) = Ok dh3"
    "X25519_SharedSecret ssl (xk_private_key eph) (ote_public_key (hd (pb_one_time_ec bundle))) = Ok dh4"
    "MlKem768_Encapsulate ssl e2 (skp_public_key (pb_signed_prekey_pq bundle)) = Ok spk"
    "MlKem768_Encapsulate ssl e3 (otp_public_key (hd (pb_one_time_pq bundle))) = Ok opk"
    "ComputeInitialTranscriptHash ssl (initiate_transcript a peer bundle sid (xk_public_key eph)
       (hd (pb_one_time_ec bundle)) (hd (pb_one_time_pq bundle)) (er_ciphertext spk)
       (er_ciphertext opk)) = Ok hash"
    "Ed25519_Sign ssl (ek_private_key (cl_identity_sign_key a)) hash = Ok sg"
    "MlDsa65_Sign ssl e4 (dk_private_key (cl_identity_mldsa_key a)) hash = Ok sg'"
    "DeriveHandshakeKeys ssl (Concat [dh1, dh2, dh3, er_shared_secret spk, dh4, er_shared_secret opk])
       hash True = Ok keys"
    and fin: "seal_initial ssl a bundle (initiate_transcript a peer bundle sid (xk_public_key eph)
       (hd (pb_one_time_ec bundle)) (hd (pb_one_time_pq bundle)) (er_ciphertext spk)
       (er_ciphertext opk)) eph hash sg sg' text keys = Ok (sa, m)"
    unfolding initiate_handshake_def Let_def prod.case result_inv by blast
  obtain root send recv where keys: "keys = (root, send, recv)" by (metis prod.exhaust)
  obtain ct nxt where enc: "EncryptChainStep ssl send 0 (NonceFromCounter 0) (ToBytes text) hash =
      (Ok ct, nxt)"
    using fin keys by (auto simp: seal_initial_def split: prod.splits result.splits)
  let ?h = "\<lparr>hr_eph = eph, hr_dh1 = dh1, hr_dh2 = dh2, hr_dh3 = dh3, hr_dh4 = dh4, hr_spk = spk,
    hr_opk = opk, hr_root = root, hr_send = send, hr_next = nxt, hr_recv = recv\<rparr>"
  show ?thesis
    by (rule that [of ?h]) (use steps fin in \<open>auto simp: keys enc seal_initial_def handshake_ikm_def initiate_transcript_def\<close>)
qed

lemma handshake_secrets:
  assumes ssl: "dh_correct ssl" "kem_correct ssl" and wf: "client_wf ssl a" "client_wf ssl b"
    and off: "offers b bundle"
    and eph: "dh_pair ssl eph" and ec: "ec_key_ok ssl ec" "oe_public_part ec = hd (pb_one_time_ec bundle)"
    and pq: "pq_key_ok ssl pq" "oq_public_part pq = hd (pb_one_time_pq bundle)"
    and spk: "MlKem768_Encapsulate ssl e2 (skp_public_key (pb_signed_prekey_pq bundle)) = Ok spk"
    and opk: "MlKem768_Encapsulate ssl e3 (otp_public_key (hd (pb_one_time_pq bundle))) = Ok opk"
  shows "X25519_SharedSecret ssl (xk_private_key (cl_signed_prekey_ec_private b))
      (xk_public_key (cl_identity_dh_key a)) =
      X25519_SharedSecret ssl (xk_private_key (cl_identity_dh_key a))
        (ske_public_key (pb_signed_prekey_ec bundle))"
    and "X25519_SharedSecret ssl (xk_private_key (cl_identity_dh_key b)) (xk_public_key eph) =
      X25519_SharedSecret ssl (xk_private_key eph) (pb_identity_dh_public_key bundle)"
    and "X25519_SharedSecret ssl (xk_private_key (cl_signed_prekey_ec_private b)) (xk_public_key eph) =
      X25519_SharedSecret ssl (xk_private_key eph) (ske_public_key (pb_signed_prekey_ec bundle))"
    and "X25519_SharedSecret ssl (xk_private_key (oe_private_part ec)) (xk_public_key eph) =
      X25519_SharedSecret ssl (xk_private_key eph) (ote_public_key (hd (pb_one_time_ec bundle)))"
    and "MlKem768_Decapsulate ssl (kk_private_key (cl_signed_prekey_pq_private b)) (er_ciphertext spk) =
      Ok (er_shared_secret spk)"
    and "MlKem768_Decapsulate ssl (kk_private_key (oq_private_part pq)) (er_ciphertext opk) =
      Ok (er_shared_secret opk)"
proof -
  note keys = wf(2) [unfolded client_wf_def keys_wf_def] off [unfolded offers_def]
  have spk_pk: "ske_public_key (pb_signed_prekey_ec bundle) = xk_public_key (cl_signed_prekey_ec_private b)"
    and id_pk: "pb_identity_dh_public_key bundle = xk_public_key (cl_identity_dh_key b)"
    and ot_pk: "ote_public_key (hd (pb_one_time_ec bundle)) = xk_public_key (oe_private_part ec)"
    and pairs: "dh_pair ssl (cl_signed_prekey_ec_private b)" "dh_pair ssl (cl_identity_dh_key b)"
      "dh_pair ssl (oe_private_part ec)" "dh_pair ssl (cl_identity_dh_key a)"
    using keys ec wf(1) by (simp_all add: ec_key_ok_def client_wf_def keys_wf_def)
  show "X25519_SharedSecret ssl (xk_private_key (cl_signed_prekey_ec_private b))
      (xk_public_key (cl_identity_dh_key a)) =
      X25519_SharedSecret ssl (xk_private_key (cl_identity_dh_key a))
        (ske_public_key (pb_signed_prekey_ec bundle))"
    unfolding spk_pk by (rule dh_agree [OF ssl(1) pairs(1,4)])
  show "X25519_SharedSecret ssl (xk_private_key (cl_identity_dh_key b)) (xk_public_key eph) =
      X25519_SharedSecret ssl (xk_private_key eph) (pb_identity_dh_public_key bundle)"
    unfolding id_pk by (rule dh_agree [OF ssl(1) pairs(2) eph])
  show "X25519_SharedSecret ssl (xk_private_key (cl_signed_prekey_ec_private b)) (xk_public_key eph) =
      X25519_SharedSecret ssl (xk_private_key eph) (ske_public_key (pb_signed_prekey_ec bundle))"
    unfolding spk_pk by (rule dh_agree [OF ssl(1) pairs(1) eph])
  show "X25519_SharedSecret ssl (xk_private_key (oe_private_part ec)) (xk_public_key eph) =
      X25519_SharedSecret ssl (xk_private_key eph) (ote_public_key (hd (pb_one_time_ec bundle)))"
    unfolding ot_pk by (rule dh_agree [OF ssl(1) pairs(3) eph])
  show "MlKem768_Decapsulate ssl (kk_private_key (cl_signed_prekey_pq_private b)) (er_ciphertext spk) =
      Ok (er_shared_secret spk)"
    using kem_agree [OF ssl(2)] keys spk by metis
  show "MlKem768_Decapsulate ssl (kk_private_key (oq_private_part pq)) (er_ciphertext opk) =
      Ok (er_shared_secret opk)"
    using kem_agree [OF ssl(2)] pq opk unfolding pq_key_ok_def by metis
qed

lemma handshake_accepted:
  assumes ssl: "dh_correct ssl" "kem_correct ssl" "sig_correct ssl" "aead_correct ssl"
    and wf: "client_wf ssl a" "client_wf ssl b" and off: "offers b bundle"
    and init: "initiate_handshake ssl (e1, e2, e3, e4) a (cl_user_id b) bundle sid text = Ok (sa, m)"
    and new: "\<not> HasSeenInitialReplayGuard b sid (im_transcript_hash m)"
  shows "check_initial ssl b m = Ok () \<and>
    (\<exists>sb. accept_handshake ssl b m = Ok (sb, ToBytes text) \<and> paired ssl sa sb)"
  using init
proof (rule initiate_handshake_Ok)
  fix h
  assume gen: "X25519_GenerateKeyPair ssl e1 = Ok (hr_eph h)"
    and dhs: "X25519_SharedSecret ssl (xk_private_key (cl_identity_dh_key a))
       (ske_public_key (pb_signed_prekey_ec bundle)) = Ok (hr_dh1 h)"
      "X25519_SharedSecret ssl (xk_private_key (hr_eph h)) (pb_identity_dh_public_key bundle) =
       Ok (hr_dh2 h)"
      "X25519_SharedSecret ssl (xk_private_key (hr_eph h))
       (ske_public_key (pb_signed_prekey_ec bundle)) = Ok (hr_dh3 h)"
      "X25519_SharedSecret ssl (xk_private_key (hr_eph h))
       (ote_public_key (hd (pb_one_time_ec bundle))) = Ok (hr_dh4 h)"
    and kem: "MlKem768_Encapsulate ssl e2 (skp_public_key (pb_signed_prekey_pq bundle)) = Ok (hr_spk h)"
      "MlKem768_Encapsulate ssl e3 (otp_public_key (hd (pb_one_time_pq bundle))) = Ok (hr_opk h)"
    and hash: "ComputeInitialTranscriptHash ssl (initiate_transcript a (cl_user_id b) bundle sid
       (xk_public_key (hr_eph h)) (hd (pb_one_time_ec bundle)) (hd (pb_one_time_pq bundle))
       (er_ciphertext (hr_spk h)) (er_ciphertext (hr_opk h))) = Ok (im_transcript_hash m)"
    and sigs: "Ed25519_Sign ssl (ek_private_key (cl_identity_sign_key a)) (im_transcript_hash m) =
       Ok (im_handshake_signature_ed25519 m)"
      "MlDsa65_Sign ssl e4 (dk_private_key (cl_identity_mldsa_key a)) (im_transcript_hash m) =
       Ok (im_handshake_signature_mldsa65 m)"
    and keys: "DeriveHandshakeKeys ssl (handshake_ikm h) (im_transcript_hash m) True =
       Ok (hr_root h, hr_send h, hr_recv h)"
    and enc: "EncryptChainStep ssl (hr_send h) 0 (im_initial_nonce m) (ToBytes text)
       (im_transcript_hash m) = (Ok (im_initial_ciphertext m), hr_next h)"
    and sa: "sa = \<lparr>ss_session_id = sid, ss_peer_user = cl_user_id b, ss_is_initiator = True,
       ss_root_key = hr_root h, ss_send_chain_key = hr_next h, ss_recv_chain_key = hr_recv h,
       ss_send_counter = 1, ss_recv_counter = 0, ss_previous_send_chain_length = 0,
       ss_local_ratchet_key = hr_eph h,
       ss_remote_ratchet_public = ske_public_key (pb_signed_prekey_ec bundle)\<rparr>"
    and m: "im_session_id m = sid" "im_from_user m = cl_user_id a" "im_to_user m = cl_user_id b"
      "im_version m = kProtocolVersion" "im_cipher_suite m = kCipherSuite"
      "im_initiator_identity_sign_public_key m = ek_public_key (cl_identity_sign_key a)"
      "im_initiator_identity_mldsa_public_key m = dk_public_key (cl_identity_mldsa_key a)"
      "im_initiator_identity_dh_public_key m = xk_public_key (cl_identity_dh_key a)"
      "im_initiator_ephemeral_ec_public_key m = xk_public_key (hr_eph h)"
      "im_selected_prekeys m = \<lparr>sel_signed_prekey_ec_id = ske_id (pb_signed_prekey_ec bundle),
       sel_signed_prekey_pq_id = skp_id (pb_signed_prekey_pq bundle),
       sel_one_time_ec_id = Some (ote_id (hd (pb_one_time_ec bundle))),
       sel_one_time_pq_id = Some (otp_id (hd (pb_one_time_pq bundle)))\<rparr>"
      "im_kem_ciphertext_signed_pq m = er_ciphertext (hr_spk h)"
      "im_kem_ciphertext_one_time_pq m = Some (er_ciphertext (hr_opk h))"
  note b = off [unfolded offers_def]
  obtain ec where ec: "find (\<lambda>key. ote_id (oe_public_part key) = ote_id (hd (pb_one_time_ec bundle)))
      (cl_one_time_ec_pool b) = Some ec" "ec_key_ok ssl ec" "oe_public_part ec = hd (pb_one_time_ec bundle)"
    by (rule offered_ec [OF wf(2) off])
  obtain pq where pq: "find (\<lambda>key. otp_id (oq_public_part key) = otp_id (hd (pb_one_time_pq bundle)))
      (cl_one_time_pq_pool b) = Some pq" "pq_key_ok ssl pq" "oq_public_part pq = hd (pb_one_time_pq bundle)"
    by (rule offered_pq [OF wf(2) off])
  have eph: "dh_pair ssl (hr_eph h)" by (rule dh_pair_generated [OF gen])
  note secrets = handshake_secrets [OF ssl(1,2) wf off eph ec(2,3) pq(2,3) kem, unfolded dhs]
  have "responder_transcript b m = initiate_transcript a (cl_user_id b) bundle sid
      (xk_public_key (hr_eph h)) (hd (pb_one_time_ec bundle)) (hd (pb_one_time_pq bundle))
      (er_ciphertext (hr_spk h)) (er_ciphertext (hr_opk h))"
    using b m by (simp add: responder_transcript_def initiate_transcript_def)
  then have "check_initial ssl b m = Ok ()"
    using m b new hash wf(1) sigs
    by (simp add: check_initial_def client_wf_def keys_wf_def ed_verifies [OF ssl(3)]
        mldsa_verifies [OF ssl(3)])
  moreover have "DeriveHandshakeKeys ssl (handshake_ikm h) (im_transcript_hash m) False =
      Ok (hr_root h, hr_recv h, hr_send h)"
    using keys handshake_keys_swap by blast
  then have "accept_handshake ssl b m = Ok (\<lparr>ss_session_id = sid, ss_peer_user = cl_user_id a,
      ss_is_initiator = False, ss_root_key = hr_root h, ss_send_chain_key = hr_recv h,
      ss_recv_chain_key = hr_next h, ss_send_counter = 0, ss_recv_counter = 1,
      ss_previous_send_chain_length = 0, ss_local_ratchet_key = cl_signed_prekey_ec_private b,
      ss_remote_ratchet_public = xk_public_key (hr_eph h)\<rparr>, ToBytes text)"
    using m secrets ec(1) pq(1) DecryptChainStep_Encrypt [OF ssl(4) enc]
    by (simp add: accept_handshake_def handshake_ikm_def)
  moreover have "paired ssl sa \<lparr>ss_session_id = sid, ss_peer_user = cl_user_id a,
      ss_is_initiator = False, ss_root_key = hr_root h, ss_send_chain_key = hr_recv h,
      ss_recv_chain_key = hr_next h, ss_send_counter = 0, ss_recv_counter = 1,
      ss_previous_send_chain_length = 0, ss_local_ratchet_key = cl_signed_prekey_ec_private b,
      ss_remote_ratchet_public = xk_public_key (hr_eph h)\<rparr>"
    using b wf(2) eph sa
    by (simp add: paired_def aligned_def client_wf_def keys_wf_def)
  ultimately show ?thesis by blast
qed


section \<open>What an accepted handshake leaves behind\<close>

lemma HandleInitialMessage_Ok:
  assumes "HandleInitialMessage ssl inp m s = (Ok t, s')"
  obtains st p c1 where "check_initial ssl (sy_client s) m = Ok ()"
    "trusts (sy_client s) (im_from_user m) (im_initiator_identity_sign_public_key m)
       (im_initiator_identity_mldsa_public_key m) (im_initiator_identity_dh_public_key m)"
    "accept_handshake ssl (sy_client s) m = Ok (st, p)" "t = FromBytes p"
    "RememberInitialReplayGuards (im_session_id m) (im_transcript_hash m) (sy_client s) = (Ok (), c1)"
    "s' = s\<lparr>sy_client := set_session (im_from_user m) st (use_one_time m c1)\<rparr>"
proof -
  obtain s1 s2 st p where c: "check_initial ssl (sy_client s) m = Ok ()"
    and v: "VerifyOrRememberPeerIdentity ssl inp (im_from_user m) (im_initiator_identity_sign_public_key m)
       (im_initiator_identity_mldsa_public_key m) (im_initiator_identity_dh_public_key m) s = (Ok (), s1)"
    and a: "accept_handshake ssl (sy_client s1) m = Ok (st, p)"
    and r: "act_remember (im_session_id m) (im_transcript_hash m) s1 = (Ok (), s2)"
    and t: "t = FromBytes p"
    and s': "s' = s2\<lparr>sy_client := set_session (im_from_user m) st (use_one_time m (sy_client s2))\<rparr>"
    using assms by (auto simp: HandleInitialMessage_def act_bind_Ok)
  have s1: "s1 = s" by (rule identity_Ok(1) [OF v])
  obtain c1 where "RememberInitialReplayGuards (im_session_id m) (im_transcript_hash m) (sy_client s) =
      (Ok (), c1)" "s2 = s\<lparr>sy_client := c1\<rparr>"
    using r by (auto simp: s1 act_remember_def split: prod.splits)
  then show ?thesis using that c a t s' identity_Ok(2) [OF v] by (simp add: s1)
qed

text \<open>An entry just recorded is the last to be evicted.\<close>

lemma evict_keeps_last:
  "distinct (xs @ [x]) \<Longrightarrow> x \<in> S \<Longrightarrow> evict (xs @ [x]) S = (ys, T) \<Longrightarrow> x \<in> T"
proof (induction xs arbitrary: S)
  case Nil
  then show ?case by (auto simp: kMaxInitialReplayGuards_def)
next
  case (Cons a xs)
  then show ?case using Cons.IH [of "S - {a}"] by (auto split: if_splits)
qed

lemma remember_seen:
  assumes "client_wf ssl c" "RememberInitialReplayGuards sid h c = (Ok (), c')"
  shows "sid \<in> cl_seen_initial_session_ids c'"
proof (rule remember_cases [of sid h c])
  fix order ids hash_order hashes
  assume "sid \<notin> cl_seen_initial_session_ids c"
    and e: "evict (cl_seen_initial_session_order c @ [sid]) (insert sid (cl_seen_initial_session_ids c)) =
      (order, ids)"
    and "RememberInitialReplayGuards sid h c = (Ok (), c\<lparr>cl_seen_initial_session_ids := ids,
      cl_seen_initial_session_order := order, cl_seen_initial_transcript_hashes := hashes,
      cl_seen_initial_transcript_order := hash_order\<rparr>)"
  moreover from this have "sid \<in> ids"
    using assms(1) by (intro evict_keeps_last [OF _ _ e]) (auto simp: client_wf_def guard_wf_def)
  ultimately show ?thesis using assms(2) by auto
qed (use assms(2) in auto)

lemma remember_identity:
  "cl_user_id (snd (RememberInitialReplayGuards sid h c)) = cl_user_id c"
  by (rule remember_cases [of sid h c]) auto

lemma check_initial_seen:
  assumes "check_initial ssl c m = Ok ()" "cl_user_id c' = cl_user_id c"
    and "im_session_id m \<in> cl_seen_initial_session_ids c'"
  shows "check_initial ssl c' m = Err ''duplicate initial handshake rejected''"
  using assms by (auto simp: check_initial_def HasSeenInitialReplayGuard_def split: if_splits)


lemma erase_first_gone:
  "distinct (map f xs) \<Longrightarrow> v \<notin> f ` set (erase_first (\<lambda>x. f x = v) xs)"
  by (rule erase_first_cases [of "\<lambda>x. f x = v" xs]) auto

lemma remember_pools:
  "cl_one_time_ec_pool (snd (RememberInitialReplayGuards sid h c)) = cl_one_time_ec_pool c"
  "cl_one_time_pq_pool (snd (RememberInitialReplayGuards sid h c)) = cl_one_time_pq_pool c"
  by (rule remember_cases [of sid h c]; simp)+

theorem one_time_keys_are_spent:
  assumes "client_wf ssl (sy_client s)"
    and "HandleInitialMessage ssl inp m s = (Ok t, s')"
  shows "the (sel_one_time_ec_id (im_selected_prekeys m)) \<notin>
      ote_id ` oe_public_part ` set (cl_one_time_ec_pool (sy_client s')) \<and>
    the (sel_one_time_pq_id (im_selected_prekeys m)) \<notin>
      otp_id ` oq_public_part ` set (cl_one_time_pq_pool (sy_client s')) \<and>
    cl_prekeys_dirty (sy_client s')"
proof -
  obtain st p c1 where
    r: "RememberInitialReplayGuards (im_session_id m) (im_transcript_hash m) (sy_client s) = (Ok (), c1)"
    and s': "s' = s\<lparr>sy_client := set_session (im_from_user m) st (use_one_time m c1)\<rparr>"
    using assms(2) by (rule HandleInitialMessage_Ok)
  have pools: "cl_one_time_ec_pool c1 = cl_one_time_ec_pool (sy_client s)"
    "cl_one_time_pq_pool c1 = cl_one_time_pq_pool (sy_client s)"
    using remember_pools [of "im_session_id m" "im_transcript_hash m" "sy_client s"] r by simp_all
  have "distinct (map (\<lambda>k. ote_id (oe_public_part k)) (cl_one_time_ec_pool (sy_client s)))"
    "distinct (map (\<lambda>k. otp_id (oq_public_part k)) (cl_one_time_pq_pool (sy_client s)))"
    using assms(1) by (simp_all add: client_wf_def one_time_ids_def comp_def)
  from this [THEN erase_first_gone] show ?thesis
    by (simp add: s' set_session_def use_one_time_def pools image_image)
qed

section \<open>Refilled pools\<close>

lemma refill_ec_full:
  "triple (\<lambda>c. kOneTimePrekeyPoolTarget \<le> length (cl_one_time_ec_pool c) + n) (refill_ec ssl inp n)
     (\<lambda>_ c. kOneTimePrekeyPoolTarget \<le> length (cl_one_time_ec_pool c)) (\<lambda>_. True)"
proof (induction n)
  case 0
  show ?case unfolding refill_ec.simps by (rule triple_return) simp
next
  case (Suc n)
  show ?case
    unfolding refill_ec.simps
    by (intro triple_read triple_if triple_return refill_round [OF dh_pair_generated _ Suc])
      (auto simp: push_ec_def)
qed

lemma refill_pq_full:
  "triple (\<lambda>c. K \<le> length (cl_one_time_ec_pool c) \<and>
       kOneTimePrekeyPoolTarget \<le> length (cl_one_time_pq_pool c) + n) (refill_pq ssl inp n)
     (\<lambda>_ c. K \<le> length (cl_one_time_ec_pool c) \<and>
       kOneTimePrekeyPoolTarget \<le> length (cl_one_time_pq_pool c)) (\<lambda>_. True)"
proof (induction n)
  case 0
  show ?case unfolding refill_pq.simps by (rule triple_return) simp
next
  case (Suc n)
  show ?case
    unfolding refill_pq.simps
    by (intro triple_read triple_if triple_return refill_round [OF kem_pair_generated _ Suc])
      (auto simp: push_pq_def)
qed

lemma refill_full:
  "triple (\<lambda>_. True) (RefillOneTimePrekeyPools ssl inp)
     (\<lambda>_ c. kOneTimePrekeyPoolTarget \<le> length (cl_one_time_ec_pool c) \<and>
       kOneTimePrekeyPoolTarget \<le> length (cl_one_time_pq_pool c)) (\<lambda>_. True)"
  unfolding RefillOneTimePrekeyPools_def
  by (intro triple_bind [OF triple_weaken [OF refill_ec_full]] triple_weaken [OF refill_pq_full]) auto

theorem refill_fills_pools:
  assumes "client_wf ssl (sy_client s)" and "RefillOneTimePrekeyPools ssl inp s = (Ok (), s')"
  shows "kOneTimePrekeyPoolTarget \<le> length (cl_one_time_ec_pool (sy_client s')) \<and>
    kOneTimePrekeyPoolTarget \<le> length (cl_one_time_pq_pool (sy_client s')) \<and>
    distinct (one_time_ids (sy_client s')) \<and> 0 \<notin> set (one_time_ids (sy_client s'))"
proof -
  have "client_wf ssl (sy_client s')"
    using keeps_snd [OF wf.keeps_RefillOneTimePrekeyPools assms(1)] assms(2) by (metis snd_conv)
  then show ?thesis
    using refill_full assms(2) unfolding triple_def client_wf_def by blast
qed

section \<open>Bundles\<close>

text \<open>The two signed prekeys carry valid signatures of the identity keys.\<close>

definition prekeys_signed :: "openssl \<Rightarrow> Client \<Rightarrow> bool" where
  "prekeys_signed ssl c \<longleftrightarrow>
     (let ec = cl_signed_prekey_ec_public c; pq = cl_signed_prekey_pq_public c;
          ed = Ed25519_Verify ssl (ek_public_key (cl_identity_sign_key c));
          ml = MlDsa65_Verify ssl (dk_public_key (cl_identity_mldsa_key c));
          ec_in = BuildEcPrekeySignInput (ske_id ec) (ske_public_key ec);
          pq_in = BuildPqPrekeySignInput (skp_id pq) (skp_public_key pq)
      in ed ec_in (ske_signature_ed25519 ec) = Ok () \<and> ml ec_in (ske_signature_mldsa65 ec) = Ok () \<and>
         ed pq_in (skp_signature_ed25519 pq) = Ok () \<and> ml pq_in (skp_signature_mldsa65 pq) = Ok ())"

lemma prekeys_signed_frame:
  "prekeys_signed ssl c \<Longrightarrow> cl_signed_prekey_ec_public c' = cl_signed_prekey_ec_public c \<Longrightarrow>
   cl_signed_prekey_pq_public c' = cl_signed_prekey_pq_public c \<Longrightarrow>
   cl_identity_sign_key c' = cl_identity_sign_key c \<Longrightarrow>
   cl_identity_mldsa_key c' = cl_identity_mldsa_key c \<Longrightarrow> prekeys_signed ssl c'"
  by (simp add: prekeys_signed_def)

lemma remember_signed:
  "prekeys_signed ssl c \<Longrightarrow> prekeys_signed ssl (snd (RememberInitialReplayGuards sid h c))"
  by (rule remember_cases [of sid h c]) (auto elim: prekeys_signed_frame)

interpretation signed: client_law_verify ssl "prekeys_signed ssl" for ssl
  by unfold_locales (auto simp: remember_signed peer_frame_defs elim: prekeys_signed_frame)

lemma bundle_sign_input_unsigned:
  "BuildBundleSignInput (b\<lparr>pb_bundle_signature_ed25519 := x, pb_bundle_signature_mldsa65 := y\<rparr>) =
   BuildBundleSignInput b"
  by (simp add: BuildBundleSignInput_def)

lemma own_bundle_verifies:
  assumes "sig_correct ssl" "keys_wf ssl c" "prekeys_signed ssl c"
    and "\<And>m. \<exists>sg. Ed25519_Sign ssl (ek_private_key (cl_identity_sign_key c)) m = Ok sg"
    and "\<And>m. \<exists>sg. MlDsa65_Sign ssl ent (dk_private_key (cl_identity_mldsa_key c)) m = Ok sg"
  shows "VerifyPrekeyBundleSignatures ssl (BuildPrekeyBundle ssl ent c) = Ok ()"
proof -
  define b where "b = BuildPrekeyBundle ssl ent c"
  obtain ed where ed: "Ed25519_Sign ssl (ek_private_key (cl_identity_sign_key c)) (BuildBundleSignInput b) = Ok ed"
    using assms(4) by blast
  obtain ml where ml: "MlDsa65_Sign ssl ent (dk_private_key (cl_identity_mldsa_key c)) (BuildBundleSignInput b) = Ok ml"
    using assms(5) by blast
  have b: "pb_bundle_signature_ed25519 b = ed" "pb_bundle_signature_mldsa65 b = ml"
    using ed ml by (simp_all add: b_def BuildPrekeyBundle_def Let_def BuildBundleSignInput_def)
  have "Ed25519_Verify ssl (ek_public_key (cl_identity_sign_key c)) (BuildBundleSignInput b) ed = Ok ()"
    "MlDsa65_Verify ssl (dk_public_key (cl_identity_mldsa_key c)) (BuildBundleSignInput b) ml = Ok ()"
    using assms(2) ed ml by (simp_all add: keys_wf_def ed_verifies [OF assms(1)] mldsa_verifies [OF assms(1)])
  moreover have "pb_version b = kProtocolVersion" "pb_cipher_suite b = kCipherSuite"
    "pb_identity_sign_public_key b = ek_public_key (cl_identity_sign_key c)"
    "pb_identity_mldsa_public_key b = dk_public_key (cl_identity_mldsa_key c)"
    "pb_signed_prekey_ec b = cl_signed_prekey_ec_public c"
    "pb_signed_prekey_pq b = cl_signed_prekey_pq_public c"
    by (simp_all add: b_def BuildPrekeyBundle_def Let_def)
  ultimately show ?thesis
    using assms(3) b
    by (simp add: VerifyPrekeyBundleSignatures_def prekeys_signed_def Let_def flip: b_def)
qed

section \<open>New clients\<close>

lemma new_identity_Ok:
  assumes "sig_correct ssl" "new_identity ssl ents u path = Ok c"
  shows "client_wf ssl c" and "prekeys_signed ssl c" and "cl_trusted_peer_identities c = []"
    and "cl_sessions_by_peer c = []"
proof -
  obtain ids idm idd ec ec_sig ec_ml pq pq_sig pq_ml where
    gen: "Ed25519_GenerateKeyPair ssl (ents 0) = Ok ids" "MlDsa65_GenerateKeyPair ssl (ents 1) = Ok idm"
      "X25519_GenerateKeyPair ssl (ents 2) = Ok idd" "X25519_GenerateKeyPair ssl (ents 3) = Ok ec"
      "MlKem768_GenerateKeyPair ssl (ents 5) = Ok pq"
    and sig: "Ed25519_Sign ssl (ek_private_key ids) (BuildEcPrekeySignInput 1 (xk_public_key ec)) = Ok ec_sig"
      "MlDsa65_Sign ssl (ents 4) (dk_private_key idm) (BuildEcPrekeySignInput 1 (xk_public_key ec)) = Ok ec_ml"
      "Ed25519_Sign ssl (ek_private_key ids) (BuildPqPrekeySignInput 1 (kk_public_key pq)) = Ok pq_sig"
      "MlDsa65_Sign ssl (ents 6) (dk_private_key idm) (BuildPqPrekeySignInput 1 (kk_public_key pq)) = Ok pq_ml"
    using assms(2) unfolding new_identity_def Let_def result_inv by blast
  have pairs: "ed_pair ssl ids" "mldsa_pair ssl idm" "dh_pair ssl idd" "dh_pair ssl ec" "kem_pair ssl pq"
    using gen
    by (auto simp: ed_pair_def mldsa_pair_def Ed25519_GenerateKeyPair_def MlDsa65_GenerateKeyPair_def
        result_inv intro: dh_pair_generated kem_pair_generated)
  have c: "cl_identity_sign_key c = ids" "cl_identity_mldsa_key c = idm" "cl_identity_dh_key c = idd"
    "cl_signed_prekey_ec_private c = ec" "cl_signed_prekey_pq_private c = pq"
    "cl_signed_prekey_ec_public c = \<lparr>ske_id = 1, ske_public_key = xk_public_key ec,
       ske_signature_ed25519 = ec_sig, ske_signature_mldsa65 = ec_ml\<rparr>"
    "cl_signed_prekey_pq_public c = \<lparr>skp_id = 1, skp_public_key = kk_public_key pq,
       skp_signature_ed25519 = pq_sig, skp_signature_mldsa65 = pq_ml\<rparr>"
    "cl_one_time_ec_pool c = []" "cl_one_time_pq_pool c = []"
    "cl_seen_initial_session_ids c = {}" "cl_seen_initial_transcript_hashes c = {}"
    "cl_seen_initial_session_order c = []" "cl_seen_initial_transcript_order c = []"
    and rest: "cl_trusted_peer_identities c = []" "cl_sessions_by_peer c = []"
    using assms(2) gen sig by (auto simp: new_identity_def Let_def)
  show "client_wf ssl c"
    using pairs by (simp add: client_wf_def keys_wf_def c rest one_time_ids_def guard_wf_def)
  show "prekeys_signed ssl c"
    using sig pairs by (simp add: prekeys_signed_def c ed_verifies [OF assms(1)] mldsa_verifies [OF assms(1)])
  show "cl_trusted_peer_identities c = []" "cl_sessions_by_peer c = []" by (rule rest)+
qed

lemma Create_new:
  assumes "LoadLocalState ssl lenv u (DefaultLocalStatePath penv u) disk = Err ''state file missing''"
    and "Create ssl inp penv lenv u disk srv tick = Ok s"
  obtains c s1 where "new_identity ssl (\<lambda>i. in_entropy inp (tick + i)) u (DefaultLocalStatePath penv u) = Ok c"
    "RefillOneTimePrekeyPools ssl inp
       \<lparr>sy_client = c, sy_disk = disk, sy_server = srv, sy_tick = tick + 7\<rparr> = (Ok (), s1)"
    "act_save ssl inp s1 = (Ok (), s)"
proof -
  let ?act = "act_bind (act_context ''one-time prekey pool init failed: ''
      (RefillOneTimePrekeyPools ssl inp)) (\<lambda>_. act_context ''state persist failed: '' (act_save ssl inp))"
  obtain c where c: "new_identity ssl (\<lambda>i. in_entropy inp (tick + i)) u (DefaultLocalStatePath penv u) = Ok c"
    and "(case ?act \<lparr>sy_client = c, sy_disk = disk, sy_server = srv, sy_tick = tick + 7\<rparr> of
      (Ok _, s) \<Rightarrow> Ok s | (Err e, s) \<Rightarrow> Err e) = Ok s"
    using assms by (auto simp: Create_def Let_def result_inv)
  then have r: "?act \<lparr>sy_client = c, sy_disk = disk, sy_server = srv, sy_tick = tick + 7\<rparr> = (Ok (), s)"
    by (auto split: prod.splits result.splits)
  have ctx: "act_context e m s0 = (Ok x, s') \<longleftrightarrow> m s0 = (Ok x, s')"
    for e and m :: "('a, unit) act" and s0 s' x
    by (auto simp: act_context_def with_context_def split: prod.splits result.splits)
  show ?thesis using that [OF c] r by (auto simp: act_bind_Ok ctx)
qed

lemma Create_new_client:
  assumes "sig_correct ssl"
    and "LoadLocalState ssl lenv u (DefaultLocalStatePath penv u) disk = Err ''state file missing''"
    and "Create ssl inp penv lenv u disk srv tick = Ok s"
  shows "client_wf ssl (sy_client s)" and "prekeys_signed ssl (sy_client s)"
    and "sessions_verified (sy_client s)"
    and "kOneTimePrekeyPoolTarget \<le> length (cl_one_time_ec_pool (sy_client s))"
    and "kOneTimePrekeyPoolTarget \<le> length (cl_one_time_pq_pool (sy_client s))"
proof -
  obtain c s1 where c: "new_identity ssl (\<lambda>i. in_entropy inp (tick + i)) u (DefaultLocalStatePath penv u) = Ok c"
    and r: "RefillOneTimePrekeyPools ssl inp
       \<lparr>sy_client = c, sy_disk = disk, sy_server = srv, sy_tick = tick + 7\<rparr> = (Ok (), s1)"
    and sv: "act_save ssl inp s1 = (Ok (), s)"
    by (rule Create_new [OF assms(2,3)])
  have s: "sy_client s = sy_client s1" using silent_acts(3) sv unfolding silent_def by (metis snd_conv)
  have keep: "J (sy_client s1)" if "keeps J (RefillOneTimePrekeyPools ssl inp :: ('a, unit) act)" "J c" for J
    using keeps_snd [OF that(1), of "\<lparr>sy_client = c, sy_disk = disk, sy_server = srv, sy_tick = tick + 7\<rparr>"]
      that(2) r by simp
  note id = new_identity_Ok [OF assms(1) c]
  show "client_wf ssl (sy_client s)"
    unfolding s by (rule keep [OF wf.keeps_RefillOneTimePrekeyPools id(1)])
  show "prekeys_signed ssl (sy_client s)"
    unfolding s by (rule keep [OF signed.keeps_RefillOneTimePrekeyPools id(2)])
  show "sessions_verified (sy_client s)"
    unfolding s by (rule keep [OF verified.keeps_RefillOneTimePrekeyPools])
      (simp add: sessions_verified_def id(4))
  show "kOneTimePrekeyPoolTarget \<le> length (cl_one_time_ec_pool (sy_client s))"
    and "kOneTimePrekeyPoolTarget \<le> length (cl_one_time_pq_pool (sy_client s))"
    using refill_full r unfolding triple_def s by blast+
qed


end
