(* ===== verification/Delivery.thy ===== *)
theory Delivery
  imports Handshake
begin

text \<open>
  Two clients and a server. \<open>read_envelope\<close> and \<open>read_all\<close> say what a client makes of the
  envelopes in its inbox, without server, disk and inputs; \<open>ProcessInbox\<close> returns exactly these
  texts when every envelope can be read. On the other side, a handshake followed by messages
  leaves in the inbox of the peer envelopes that can be read, with the texts that were sent. The
  locale of the server's contract is the only thing known about the server.
\<close>

section \<open>What a client reads\<close>

definition is_err :: "'a result \<Rightarrow> bool" where
  "is_err r \<longleftrightarrow> (case r of Ok _ \<Rightarrow> False | Err _ \<Rightarrow> True)"

definition read_initial :: "openssl \<Rightarrow> InitialMessage \<Rightarrow> Client \<Rightarrow> (string \<times> Client) option" where
  "read_initial ssl m c =
     (case check_initial ssl c m of Err _ \<Rightarrow> None | Ok _ \<Rightarrow>
        if \<not> trusts c (im_from_user m) (im_initiator_identity_sign_public_key m)
             (im_initiator_identity_mldsa_public_key m) (im_initiator_identity_dh_public_key m) \<or>
           is_err (ComputeSafetyNumber ssl (im_from_user m) (im_initiator_identity_sign_public_key m)
             (im_initiator_identity_mldsa_public_key m) (im_initiator_identity_dh_public_key m))
        then None
        else case accept_handshake ssl c m of Err _ \<Rightarrow> None | Ok (st, p) \<Rightarrow>
          (case RememberInitialReplayGuards (im_session_id m) (im_transcript_hash m) c of
             (Err _, _) \<Rightarrow> None
           | (Ok _, c1) \<Rightarrow> Some (FromBytes p, set_session (im_from_user m) st (use_one_time m c1))))"

definition read_chat :: "openssl \<Rightarrow> ChatMessage \<Rightarrow> Client \<Rightarrow> (string \<times> Client) option" where
  "read_chat ssl m c =
     (if cm_to_user m \<noteq> cl_user_id c then None
      else case map_of (cl_sessions_by_peer c) (cm_from_user m) of None \<Rightarrow> None | Some st \<Rightarrow>
        (case session_receive ssl m st of
           (Err _, _) \<Rightarrow> None
         | (Ok t, st') \<Rightarrow> Some (t, set_session (cm_from_user m) st' c)))"

definition read_envelope :: "openssl \<Rightarrow> Envelope \<Rightarrow> Client \<Rightarrow> (string \<times> Client) option" where
  "read_envelope ssl e c =
     (case (env_type e, env_initial e, env_chat e) of
        (kInitial, Some m, _) \<Rightarrow> read_initial ssl m c
      | (kChat, _, Some m) \<Rightarrow> read_chat ssl m c
      | _ \<Rightarrow> None)"

fun read_all :: "openssl \<Rightarrow> Envelope list \<Rightarrow> Client \<Rightarrow> (string list \<times> Client) option" where
  "read_all ssl [] c = Some ([], c)"
| "read_all ssl (e # es) c =
     (case read_envelope ssl e c of None \<Rightarrow> None | Some (t, c1) \<Rightarrow>
        map_option (\<lambda>(ts, c2). (t # ts, c2)) (read_all ssl es c1))"

lemma read_all_append:
  "read_all ssl (es @ es') c =
     (case read_all ssl es c of None \<Rightarrow> None
      | Some (ts, c1) \<Rightarrow> map_option (\<lambda>(ts', c2). (ts @ ts', c2)) (read_all ssl es' c1))"
  by (induction es arbitrary: c)
    (auto simp: option.map_comp comp_def case_prod_unfold option.map_ident split: option.splits)

lemma act_bind_step: "m s = (Ok x, s') \<Longrightarrow> act_bind m k s = k x s'"
  by (simp add: act_bind_def)

lemma verify_trusted:
  assumes "trusts (sy_client s) u k1 k2 k3" "\<not> is_err (ComputeSafetyNumber ssl u k1 k2 k3)"
  shows "VerifyOrRememberPeerIdentity ssl inp u k1 k2 k3 s = (Ok (), s)"
  using assms
  by (auto simp: VerifyOrRememberPeerIdentity_def act_bind_def trusts_def is_err_def split: result.splits)

lemma HandleInitialMessage_reads:
  assumes "read_initial ssl m (sy_client s) = Some (t, c)"
  shows "HandleInitialMessage ssl inp m s = (Ok t, s\<lparr>sy_client := c\<rparr>)"
proof -
  obtain u where c: "check_initial ssl (sy_client s) m = Ok u"
    using assms by (auto simp: read_initial_def split: result.splits)
  obtain st p c1 where v: "VerifyOrRememberPeerIdentity ssl inp (im_from_user m)
      (im_initiator_identity_sign_public_key m) (im_initiator_identity_mldsa_public_key m)
      (im_initiator_identity_dh_public_key m) s = (Ok (), s)"
    and a: "accept_handshake ssl (sy_client s) m = Ok (st, p)"
    and r: "RememberInitialReplayGuards (im_session_id m) (im_transcript_hash m) (sy_client s) = (Ok (), c1)"
    and t: "t = FromBytes p" "c = set_session (im_from_user m) st (use_one_time m c1)"
    using assms by (auto simp: read_initial_def c verify_trusted split: result.splits if_splits prod.splits)
  have "act_remember (im_session_id m) (im_transcript_hash m) s = (Ok (), s\<lparr>sy_client := c1\<rparr>)"
    by (simp add: act_remember_def r)
  then show ?thesis
    by (simp add: HandleInitialMessage_def act_bind_step c v a t)
qed

lemma HandleChatMessage_reads:
  "read_chat ssl m (sy_client s) = Some (t, c) \<Longrightarrow> HandleChatMessage ssl m s = (Ok t, s\<lparr>sy_client := c\<rparr>)"
  by (auto simp: read_chat_def HandleChatMessage_def act_bind_def
      split: if_splits option.splits prod.splits result.splits)

lemma handle_envelope_reads:
  "read_envelope ssl e (sy_client s) = Some (t, c) \<Longrightarrow>
   handle_envelope ssl inp e s = (Ok t, s\<lparr>sy_client := c\<rparr>)"
  by (cases "env_type e"; cases "env_initial e"; cases "env_chat e")
    (simp_all add: read_envelope_def handle_envelope_def HandleInitialMessage_reads
      HandleChatMessage_reads)

lemma process_items_reads:
  "read_all ssl (map ie_envelope items) (sy_client s) = Some (ts, c) \<Longrightarrow>
   process_items ssl inp items ack s =
     ((ts, if items = [] then ack else Some (ie_inbox_id (last items)), None), s\<lparr>sy_client := c\<rparr>)"
proof (induction items arbitrary: ack s ts)
  case (Cons i items)
  then obtain t c1 ts' where "read_envelope ssl (ie_envelope i) (sy_client s) = Some (t, c1)"
    and rest: "read_all ssl (map ie_envelope items) c1 = Some (ts', c)" and "ts = t # ts'"
    by (auto split: option.splits)
  moreover from this have "handle_envelope ssl inp (ie_envelope i) s = (Ok t, s\<lparr>sy_client := c1\<rparr>)"
    by (intro handle_envelope_reads)
  ultimately show ?case using Cons.IH [of "s\<lparr>sy_client := c1\<rparr>" ts'] by simp
qed simp

text \<open>Reading neither uses nor changes the pending acknowledgement, and keeps the user id.\<close>

lemma read_envelope_ack:
  "read_envelope ssl e (c\<lparr>cl_pending_inbox_ack_up_to_id := a\<rparr>) =
     map_option (\<lambda>(t, c'). (t, c'\<lparr>cl_pending_inbox_ack_up_to_id := a\<rparr>)) (read_envelope ssl e c)"
proof -
  have chat: "read_chat ssl m (c\<lparr>cl_pending_inbox_ack_up_to_id := a\<rparr>) =
      map_option (\<lambda>(t, c'). (t, c'\<lparr>cl_pending_inbox_ack_up_to_id := a\<rparr>)) (read_chat ssl m c)" for m
    by (simp add: read_chat_def set_session_def split: option.split prod.split result.split)
  have accept: "accept_handshake ssl (c\<lparr>cl_pending_inbox_ack_up_to_id := a\<rparr>) m = accept_handshake ssl c m"
    for m
    by (simp add: accept_handshake_def cong: option.case_cong prod.case_cong result.case_cong)
  have check: "check_initial ssl (c\<lparr>cl_pending_inbox_ack_up_to_id := a\<rparr>) m = check_initial ssl c m"
    "trusts (c\<lparr>cl_pending_inbox_ack_up_to_id := a\<rparr>) = trusts c" for m
    by (simp_all add: check_initial_def responder_transcript_def HasSeenInitialReplayGuard_def
        trusts_def [abs_def])
  have "RememberInitialReplayGuards sid h (c\<lparr>cl_pending_inbox_ack_up_to_id := a\<rparr>) =
      map_prod id (\<lambda>c'. c'\<lparr>cl_pending_inbox_ack_up_to_id := a\<rparr>) (RememberInitialReplayGuards sid h c)"
    for sid h
    by (simp add: RememberInitialReplayGuards_def Let_def split: prod.split)
  with accept check have "read_initial ssl m (c\<lparr>cl_pending_inbox_ack_up_to_id := a\<rparr>) =
      map_option (\<lambda>(t, c'). (t, c'\<lparr>cl_pending_inbox_ack_up_to_id := a\<rparr>)) (read_initial ssl m c)" for m
    by (simp add: read_initial_def set_session_def use_one_time_def split: prod.split result.split)
  with chat show ?thesis
    by (simp add: read_envelope_def split: EnvelopeType.split option.split)
qed

lemma read_all_ack:
  "read_all ssl es (c\<lparr>cl_pending_inbox_ack_up_to_id := a\<rparr>) =
     map_option (\<lambda>(ts, c'). (ts, c'\<lparr>cl_pending_inbox_ack_up_to_id := a\<rparr>)) (read_all ssl es c)"
  by (induction es arbitrary: c)
    (auto simp: read_envelope_ack option.map_comp comp_def case_prod_unfold split: option.splits)

lemma read_envelope_user: "read_envelope ssl e c = Some (t, c') \<Longrightarrow> cl_user_id c' = cl_user_id c"
  using remember_identity
  by (auto simp: read_envelope_def read_initial_def read_chat_def set_session_def use_one_time_def
      split: EnvelopeType.splits option.splits result.splits prod.splits if_splits)
    (metis snd_conv)

lemma read_all_user: "read_all ssl es c = Some (ts, c') \<Longrightarrow> cl_user_id c' = cl_user_id c"
  by (induction es arbitrary: c ts) (auto split: option.splits dest: read_envelope_user)

section \<open>The inbox loop\<close>

lemma unacked_subset: "set (unacked ack xs) \<subseteq> set xs"
  by (auto simp: unacked_def split: option.splits)

context message_server
begin

lemma drain_step:
  fixes s :: "'s sys"
  assumes "inv (sy_server s)" and "\<forall>i\<in>set (pending (sy_server s) u). can_serialize i"
    and ack: "pred_option known ack"
  obtains xs ys srv where
    "act_call inp (\<lambda>env srv. api_DrainInbox api env srv u ack) s =
       (Ok xs, s\<lparr>sy_server := srv, sy_tick := sy_tick s + 1\<rparr>)"
    "inv srv" "unacked ack (pending (sy_server s) u) = xs @ ys"
    "pending srv u = xs @ ys" "\<And>v. v \<noteq> u \<Longrightarrow> pending srv v = pending (sy_server s) v"
    "ascending (xs @ ys)" "xs = [] \<Longrightarrow> ys = []" "xs \<noteq> [] \<Longrightarrow> known (ie_inbox_id (last xs))"
proof -
  let ?env = "in_call inp (sy_tick s)" and ?P = "unacked ack (pending (sy_server s) u)"
  obtain xs srv where d: "api_DrainInbox api ?env (sy_server s) u ack = (Ok xs, srv)"
    using inbox_service.drain_total [OF inbox assms(1,2), of ?env ack] by (metis prod.collapse)
  obtain k where k: "xs = take k ?P" "?P \<noteq> [] \<longrightarrow> 0 < k"
    using inbox_service.drain_batch [OF inbox assms(1) ack, of ?env u xs] d by auto
  have srv: "inv srv" "\<And>v. pending srv v = (if v = u then ?P else pending (sy_server s) v)"
    using inbox_service.drain_inv [OF inbox assms(1), of ?env u ack]
      inbox_service.drain_pending [OF inbox assms(1) ack, of ?env u xs] d by simp_all
  show ?thesis
  proof (rule that)
    show "act_call inp (\<lambda>env srv. api_DrainInbox api env srv u ack) s =
        (Ok xs, s\<lparr>sy_server := srv, sy_tick := sy_tick s + 1\<rparr>)"
      by (simp add: act_call_def d)
    show "?P = xs @ drop k ?P" using k by simp
    show "pending srv u = xs @ drop k ?P" using k srv by simp
    show "ascending (xs @ drop k ?P)"
      using k ascending_unacked [OF inbox_service.pending_ascending [OF inbox assms(1)], of ack u] by simp
    show "drop k ?P = []" if "xs = []" using that k by auto
    show "known (ie_inbox_id (last xs))" if "xs \<noteq> []"
      using that last_in_set [OF that] k(1) unacked_subset [of ack] set_take_subset [of k ?P]
        inbox_service.pending_known [OF inbox assms(1)] by blast
  qed (use srv in auto)
qed

lemma inbox_passes_reads:
  fixes s :: "'s sys"
  assumes "inv (sy_server s)" and "cl_user_id (sy_client s) = u"
    and "\<forall>i\<in>set (pending (sy_server s) u). can_serialize i" and "pred_option known ack"
    and "read_all ssl (map ie_envelope (unacked ack (pending (sy_server s) u))) (sy_client s) = Some (ts, c)"
    and "length (unacked ack (pending (sy_server s) u)) < n"
  shows "\<exists>s'. inbox_passes ssl inp api n ack texts s = (Inr (texts @ ts, []), s') \<and>
    sy_client s' = c\<lparr>cl_pending_inbox_ack_up_to_id := None\<rparr> \<and> inv (sy_server s') \<and>
    pending (sy_server s') u = [] \<and>
    (\<forall>v. v \<noteq> u \<longrightarrow> pending (sy_server s') v = pending (sy_server s) v)"
  using assms
proof (induction n arbitrary: s ack ts texts c)
  case (Suc n)
  obtain xs ys srv where d:
    "act_call inp (\<lambda>env srv. api_DrainInbox api env srv u ack) s =
       (Ok xs, s\<lparr>sy_server := srv, sy_tick := sy_tick s + 1\<rparr>)"
    and srv: "inv srv" "unacked ack (pending (sy_server s) u) = xs @ ys" "pending srv u = xs @ ys"
      "\<And>v. v \<noteq> u \<Longrightarrow> pending srv v = pending (sy_server s) v" "ascending (xs @ ys)"
      "xs = [] \<Longrightarrow> ys = []" "xs \<noteq> [] \<Longrightarrow> known (ie_inbox_id (last xs))"
    by (rule drain_step [OF Suc.prems(1,3,4), of inp]) (rule that)
  let ?none = "\<lambda>c :: Client. c\<lparr>cl_pending_inbox_ack_up_to_id := None\<rparr>"
  obtain ts1 c1 ts2 where r: "read_all ssl (map ie_envelope xs) (sy_client s) = Some (ts1, c1)"
    "read_all ssl (map ie_envelope ys) c1 = Some (ts2, c)" "ts = ts1 @ ts2"
    using Suc.prems(5) by (auto simp: srv read_all_append split: option.splits)
  define s2 where "s2 = s\<lparr>sy_server := srv, sy_tick := sy_tick s + 1, sy_client := ?none (sy_client s)\<rparr>"
  have p: "process_items ssl inp xs None s2 =
      ((ts1, if xs = [] then None else Some (ie_inbox_id (last xs)), None), s2\<lparr>sy_client := ?none c1\<rparr>)"
    by (rule process_items_reads) (simp add: s2_def read_all_ack r)
  show ?case
  proof (cases "xs = []")
    case True
    then have "inbox_passes ssl inp api (Suc n) ack texts s = (Inr (texts, []), s2)"
      by (simp add: Suc.prems(2) d s2_def)
    with True r srv show ?thesis by (simp add: s2_def)
  next
    case False
    let ?a = "Some (ie_inbox_id (last xs))"
    let ?s = "s2\<lparr>sy_client := c1\<lparr>cl_pending_inbox_ack_up_to_id := ?a\<rparr>\<rparr>"
    have rest: "unacked ?a (xs @ ys) = ys" using srv(5) False by (rule unacked_after_batch)
    have "inbox_passes ssl inp api (Suc n) ack texts s = inbox_passes ssl inp api n ?a (texts @ ts1) ?s"
      using False p by (simp add: Suc.prems(2) d flip: s2_def) (simp add: s2_def)
    moreover have "\<exists>s'. inbox_passes ssl inp api n ?a (texts @ ts1) ?s = (Inr ((texts @ ts1) @ ts2, []), s') \<and>
      sy_client s' = ?none (c\<lparr>cl_pending_inbox_ack_up_to_id := ?a\<rparr>) \<and> inv (sy_server s') \<and>
      pending (sy_server s') u = [] \<and>
      (\<forall>v. v \<noteq> u \<longrightarrow> pending (sy_server s') v = pending (sy_server ?s) v)"
    proof (rule Suc.IH)
      show "\<forall>i\<in>set (pending (sy_server ?s) u). can_serialize i"
        using Suc.prems(3) unacked_subset [of ack "pending (sy_server s) u"]
        by (auto simp: s2_def srv)
      show "length (unacked ?a (pending (sy_server ?s) u)) < n"
        using Suc.prems(6) False by (simp add: s2_def srv rest Suc_leI flip: length_greater_0_conv)
      show "pred_option known ?a" using srv(7) False by simp
      show "cl_user_id (sy_client ?s) = u" using read_all_user [OF r(1)] Suc.prems(2) by simp
    qed (simp_all add: s2_def srv rest read_all_ack r)
    ultimately show ?thesis using srv(4) by (auto simp: s2_def r)
  qed
qed simp

text \<open>\<open>ProcessInbox\<close> returns the texts whatever becomes of the new prekeys and the state file.\<close>

lemma ProcessInbox_reads:
  fixes s :: "'s sys"
  assumes "inv (sy_server s)" and "cl_user_id (sy_client s) = u"
    and "\<forall>i\<in>set (pending (sy_server s) u). can_serialize i"
    and "pred_option known (cl_pending_inbox_ack_up_to_id (sy_client s))"
    and "unacked (cl_pending_inbox_ack_up_to_id (sy_client s)) (pending (sy_server s) u) = P"
    and "P \<noteq> []" "length P < kMaxInboxDrainPasses"
    and "read_all ssl (map ie_envelope P) (sy_client s) = Some (ts, c)"
  shows "fst (ProcessInbox ssl inp (Some api) s) = Ok ts"
proof -
  obtain s' where "inbox_passes ssl inp api kMaxInboxDrainPasses
      (cl_pending_inbox_ack_up_to_id (sy_client s)) [] s = (Inr (ts, []), s')"
    using inbox_passes_reads [OF assms(1-4), of ssl ts c kMaxInboxDrainPasses inp "[]"] assms(5,7,8) by auto
  moreover have "ts \<noteq> []" using assms(6,8) by (cases P) (auto split: option.splits)
  ultimately show ?thesis
    by (simp add: ProcessInbox_def Let_def split: prod.split)
qed

end

section \<open>Sending\<close>

lemma paired_send:
  assumes ssl: "dh_correct ssl" "aead_correct ssl" and p: "paired ssl a b"
    and send: "session_send ssl ent u v t a = (Ok m, a')"
    and new: "has_ratchet m \<Longrightarrow>
      xk_public_key (ss_local_ratchet_key a') \<noteq> xk_public_key (ss_local_ratchet_key a)"
  obtains b' where "session_receive ssl m b = (Ok t, b')" "paired ssl a' b'"
proof -
  have al: "aligned a b" using p by (simp add: paired_def)
  have key: "ss_root_key b = ss_root_key a \<and>
      ss_remote_ratchet_public a = xk_public_key (ss_local_ratchet_key b) \<and>
      dh_pair ssl (ss_local_ratchet_key b) \<and>
      xk_public_key (ss_local_ratchet_key a') \<noteq> xk_public_key (ss_local_ratchet_key a)"
    if "has_ratchet m" using p new [OF that] by (simp add: paired_def aligned_def)
  obtain b' where b': "session_receive ssl m b = (Ok t, b')" "aligned a' b'"
    "has_ratchet m \<Longrightarrow> ss_root_key b' = ss_root_key a'"
    using send_receive [OF ssl al send key] by blast
  note f = session_send_frame [OF send] and g = session_receive_frame [OF b'(1)]
  have "ss_recv_chain_key a' = ss_recv_chain_key a" "ss_recv_counter a' = ss_recv_counter a"
    "ss_remote_ratchet_public a' = ss_remote_ratchet_public a" "ss_session_id a' = ss_session_id a"
    using send by (auto elim!: session_send_Ok send_ratchet_cases)
  then have "aligned b' a'"
    using p g(1) unfolding paired_def aligned_def same_sending_def by metis
  moreover have "ss_root_key a' = ss_root_key b'"
  proof (cases "has_ratchet m")
    case False
    then have "ss_root_key a' = ss_root_key a" using send
      by (auto elim!: session_send_Ok send_ratchet_cases simp: has_ratchet_def)
    with False g(2) p show ?thesis by (simp add: same_root_def paired_def)
  qed (simp add: b'(3))
  ultimately have "paired ssl a' b'"
    using b'(2) f(3) g(1) p by (simp add: paired_def same_sending_def)
  with b'(1) show ?thesis by (rule that)
qed

lemma session_send_key:
  assumes "session_send ssl ent u v t s = (Ok m, s')"
  shows "cm_from_user m = u" and "cm_to_user m = v"
    and "X25519_GenerateKeyPair ssl ent = Ok (ss_local_ratchet_key s') \<or>
      \<not> has_ratchet m \<and> ss_local_ratchet_key s' = ss_local_ratchet_key s"
proof -
  show "cm_from_user m = u" and "cm_to_user m = v"
    using assms by (auto simp: session_send_def Let_def split: result.splits prod.splits)
  show "X25519_GenerateKeyPair ssl ent = Ok (ss_local_ratchet_key s') \<or>
      \<not> has_ratchet m \<and> ss_local_ratchet_key s' = ss_local_ratchet_key s"
    using assms by (auto elim!: session_send_Ok send_ratchet_cases simp: has_ratchet_def)
qed

lemma act_call_Ok:
  "act_call inp f s = (Ok x, s') \<longleftrightarrow> (\<exists>srv. f (in_call inp (sy_tick s)) (sy_server s) = (Ok x, srv) \<and>
     s' = s\<lparr>sy_server := srv, sy_tick := sy_tick s + 1\<rparr>)"
  by (auto simp: act_call_def Let_def split: prod.splits)

lemma act_context_Ok: "act_context e m s = (Ok x, s') \<longleftrightarrow> m s = (Ok x, s')"
  by (auto simp: act_context_def with_context_def split: prod.splits result.splits)

lemma act_remember_Ok:
  "act_remember sid h s = (Ok x, s') \<longleftrightarrow>
   (\<exists>c. RememberInitialReplayGuards sid h (sy_client s) = (Ok x, c) \<and> s' = s\<lparr>sy_client := c\<rparr>)"
  by (auto simp: act_remember_def Let_def split: prod.splits)

lemma act_save_frame:
  assumes "act_save ssl inp s = (r, s')"
  shows "sy_client s' = sy_client s" "sy_server s' = sy_server s" "sy_tick s' = sy_tick s + 1"
  using assms by (auto simp: act_save_def Let_def split: prod.splits)

lemma SendMessage_Ok:
  assumes "SendMessage ssl inp (Some api) peer t s = (Ok (), s')"
  obtains st m st' where "map_of (cl_sessions_by_peer (sy_client s)) peer = Some st"
    "session_send ssl (in_entropy inp (sy_tick s)) (cl_user_id (sy_client s)) peer t st = (Ok m, st')"
    "api_EnqueueEnvelope api (in_call inp (sy_tick s + 1)) (sy_server s) peer (FromChat m) =
       (Ok (), sy_server s')"
    "sy_client s' = set_session peer st' (sy_client s)" "sy_tick s < sy_tick s'"
proof -
  obtain st where st: "map_of (cl_sessions_by_peer (sy_client s)) peer = Some st"
    using assms by (auto simp: SendMessage_def act_bind_Ok split: option.splits)
  obtain r st' where send: "session_send ssl (in_entropy inp (sy_tick s)) (cl_user_id (sy_client s))
      peer t st = (r, st')" by (meson surj_pair)
  obtain m srv s1 where r: "r = Ok m"
    and q: "api_EnqueueEnvelope api (in_call inp (sy_tick s + 1)) (sy_server s) peer (FromChat m) = (Ok (), srv)"
    and s1: "s1 = s\<lparr>sy_client := set_session peer st' (sy_client s), sy_server := srv,
      sy_tick := sy_tick s + 2\<rparr>"
    and sv: "act_save ssl inp s1 = (Ok (), s')"
    using assms by (auto simp: SendMessage_def act_bind_Ok st send draw_entropy_def Let_def act_call_Ok
        act_context_Ok)
  show ?thesis
    by (rule that [OF st]) (use send r q act_save_frame [OF sv] s1 in simp_all)
qed

lemma length_HexEncode [simp]: "length (HexEncode bs) = 2 * length bs"
  by (induction bs) (simp_all add: HexEncode_def)

lemma InitiateSession_Ok:
  assumes "InitiateSession ssl inp (Some api) peer t s = (Ok (), s')"
  obtains bd srv e2 e3 e4 sid st m c1 env n where
    "api_AcquireBundleForSession api (in_call inp (sy_tick s)) (sy_server s) peer = (Ok bd, srv)"
    "initiate_handshake ssl (in_entropy inp n, e2, e3, e4) (sy_client s) peer bd sid t = Ok (st, m)"
    "RememberInitialReplayGuards (ss_session_id st) (im_transcript_hash m) (sy_client s) = (Ok (), c1)"
    "api_EnqueueEnvelope api env srv peer (FromInitial m) = (Ok (), sy_server s')"
    "sy_client s' = set_session peer st c1" "n < sy_tick s'" "string_ok sid"
proof -
  obtain bd srv s1 where acq:
    "api_AcquireBundleForSession api (in_call inp (sy_tick s)) (sy_server s) peer = (Ok bd, srv)"
    and v: "VerifyOrRememberPeerIdentity ssl inp peer
        (pb_identity_sign_public_key bd) (pb_identity_mldsa_public_key bd)
        (pb_identity_dh_public_key bd) (s\<lparr>sy_server := srv, sy_tick := sy_tick s + 1\<rparr>) = (Ok (), s1)"
    and rest: "act_bind (NewSessionId inp) (\<lambda>session_id.
          act_bind (draw_entropy inp) (\<lambda>e_eph.
          act_bind (draw_entropy inp) (\<lambda>e_spk.
          act_bind (draw_entropy inp) (\<lambda>e_opk.
          act_bind (draw_entropy inp) (\<lambda>e_sig.
          act_bind act_client (\<lambda>c.
          act_bind (act_lift (initiate_handshake ssl (e_eph, e_spk, e_opk, e_sig) c peer bd
            session_id t)) (\<lambda>(state, message).
          act_bind (act_remember (ss_session_id state) (im_transcript_hash message)) (\<lambda>_.
          act_bind (act_update (set_session peer state)) (\<lambda>_.
          act_bind (act_call inp (\<lambda>env srv.
            api_EnqueueEnvelope api env srv peer (FromInitial message))) (\<lambda>_.
          act_context ''persist local state failed: '' (act_save ssl inp))))))))))) s1 = (Ok (), s')"
    using assms by (auto simp: InitiateSession_def act_bind_Ok act_context_Ok act_call_Ok)
  have s1: "s1 = s\<lparr>sy_server := srv, sy_tick := sy_tick s + 1\<rparr>" by (rule identity_Ok(1) [OF v])
  obtain sid s2 where sid: "NewSessionId inp s1 = (Ok sid, s2)"
    using rest by (auto simp: act_bind_Ok)
  have s2: "s2 = s\<lparr>sy_server := srv, sy_tick := sy_tick s + 2\<rparr>"
    using sid by (auto simp: NewSessionId_def act_bind_def draw_rand_def s1 split: option.splits)
  have id: "string_ok sid"
    using sid by (auto simp: NewSessionId_def act_bind_def draw_rand_def string_ok_def split: option.splits)
  obtain st m c1 srv2 s3 where init: "initiate_handshake ssl (in_entropy inp (sy_tick s + 2),
      in_entropy inp (sy_tick s + 3), in_entropy inp (sy_tick s + 4), in_entropy inp (sy_tick s + 5))
      (sy_client s) peer bd sid t = Ok (st, m)"
    and rem: "RememberInitialReplayGuards (ss_session_id st) (im_transcript_hash m) (sy_client s) = (Ok (), c1)"
    and enq: "api_EnqueueEnvelope api (in_call inp (sy_tick s + 6)) srv peer (FromInitial m) = (Ok (), srv2)"
    and s3: "s3 = s\<lparr>sy_client := set_session peer st c1, sy_server := srv2, sy_tick := sy_tick s + 7\<rparr>"
    and sv: "act_save ssl inp s3 = (Ok (), s')"
    using rest
    by (auto simp: act_bind_Ok sid s2 draw_entropy_def act_remember_Ok act_context_Ok act_call_Ok
        numeral_eq_Suc)
  show ?thesis
    by (rule that [OF acq init rem]) (use enq s3 act_save_frame [OF sv] id in simp_all)
qed

section \<open>From one client to the other\<close>

text \<open>
  Of the inputs drawn so far no two give the same public key: what makes a key change visible to
  the peer.
\<close>

definition fresh_keys :: "openssl \<Rightarrow> inputs \<Rightarrow> nat \<Rightarrow> bool" where
  "fresh_keys ssl inp N \<longleftrightarrow> (\<forall>j<N. \<forall>i<j. \<forall>kp kp'.
     X25519_GenerateKeyPair ssl (in_entropy inp i) = Ok kp \<longrightarrow>
     X25519_GenerateKeyPair ssl (in_entropy inp j) = Ok kp' \<longrightarrow> xk_public_key kp' \<noteq> xk_public_key kp)"

primrec send_texts ::
    "openssl \<Rightarrow> inputs \<Rightarrow> 's IServerApi \<Rightarrow> string \<Rightarrow> string list \<Rightarrow> ('s, unit) act" where
  "send_texts ssl inp api peer [] = act_return ()"
| "send_texts ssl inp api peer (t # ts) =
     act_bind (SendMessage ssl inp (Some api) peer t) (\<lambda>_. send_texts ssl inp api peer ts)"

text \<open>
  The invariant: the client \<open>b\<close> can read everything in its inbox \<open>P\<close>, gets the texts \<open>ts\<close>, and
  then its session is paired with that of the sender.
\<close>

definition linked ::
    "openssl \<Rightarrow> inputs \<Rightarrow> 's sys \<Rightarrow> Client \<Rightarrow> InboxEnvelope list \<Rightarrow> string list \<Rightarrow> bool" where
  "linked ssl inp s b P ts \<longleftrightarrow> (\<forall>i\<in>set P. can_serialize i) \<and>
     (\<exists>sa sb b' n. map_of (cl_sessions_by_peer (sy_client s)) (cl_user_id b) = Some sa \<and>
        read_all ssl (map ie_envelope P) b = Some (ts, b') \<and>
        map_of (cl_sessions_by_peer b') (cl_user_id (sy_client s)) = Some sb \<and> paired ssl sa sb \<and>
        string_ok (ss_session_id sa) \<and>
        n < sy_tick s \<and> X25519_GenerateKeyPair ssl (in_entropy inp n) = Ok (ss_local_ratchet_key sa))"

text \<open>The messages a client can build for these texts come back from the store as they were.\<close>

definition chats_fit :: "(Envelope \<Rightarrow> bool) \<Rightarrow> openssl \<Rightarrow> string \<Rightarrow> string \<Rightarrow> string list \<Rightarrow> bool" where
  "chats_fit fits ssl u v ts \<longleftrightarrow>
     (\<forall>t\<in>set ts. \<forall>ent a m a'. session_send ssl ent u v t a = (Ok m, a') \<longrightarrow> string_ok (ss_session_id a) \<longrightarrow>
        fits (FromChat m))"

definition initial_fits :: "(Envelope \<Rightarrow> bool) \<Rightarrow> openssl \<Rightarrow> Client \<Rightarrow> string \<Rightarrow> string \<Rightarrow> bool" where
  "initial_fits fits ssl c v t \<longleftrightarrow>
     (\<forall>ents bd sid st m. initiate_handshake ssl ents c v bd sid t = Ok (st, m) \<longrightarrow> string_ok sid \<longrightarrow>
        fits (FromInitial m))"

lemma can_serialize_sent:
  "can_serialize \<lparr>ie_inbox_id = i, ie_envelope = FromChat m\<rparr>"
  "can_serialize \<lparr>ie_inbox_id = i, ie_envelope = FromInitial m'\<rparr>"
  by (simp_all add: can_serialize_def SerializeEnvelope_def FromChat_def FromInitial_def)

lemma read_all_length: "read_all ssl es c = Some (ts, c') \<Longrightarrow> length ts = length es"
  by (induction es arbitrary: c ts) (auto split: option.splits)

lemma linked_send:
  assumes ssl: "dh_correct ssl" "aead_correct ssl" and l: "linked ssl inp s b P ts"
    and send: "SendMessage ssl inp (Some api) (cl_user_id b) t s = (Ok (), s')"
    and fresh: "fresh_keys ssl inp (sy_tick s')"
  obtains m env where "api_EnqueueEnvelope api env (sy_server s) (cl_user_id b) (FromChat m) = (Ok (), sy_server s')"
    "\<And>i. linked ssl inp s' b (P @ [\<lparr>ie_inbox_id = i, ie_envelope = FromChat m\<rparr>]) (ts @ [t])"
    "cl_user_id (sy_client s') = cl_user_id (sy_client s)" "sy_tick s < sy_tick s'"
    "chats_fit fits ssl (cl_user_id (sy_client s)) (cl_user_id b) [t] \<Longrightarrow> fits (FromChat m)"
proof -
  let ?u = "cl_user_id (sy_client s)"
  obtain sa sb b' n where ser: "\<forall>i\<in>set P. can_serialize i"
    and sa: "map_of (cl_sessions_by_peer (sy_client s)) (cl_user_id b) = Some sa"
    and read: "read_all ssl (map ie_envelope P) b = Some (ts, b')"
    and sb: "map_of (cl_sessions_by_peer b') ?u = Some sb" and pair: "paired ssl sa sb"
    and sid: "string_ok (ss_session_id sa)"
    and n: "n < sy_tick s" "X25519_GenerateKeyPair ssl (in_entropy inp n) = Ok (ss_local_ratchet_key sa)"
    using l by (auto simp: linked_def)
  obtain m sa' where m: "session_send ssl (in_entropy inp (sy_tick s)) ?u (cl_user_id b) t sa = (Ok m, sa')"
    and enq: "api_EnqueueEnvelope api (in_call inp (sy_tick s + 1)) (sy_server s) (cl_user_id b) (FromChat m) =
      (Ok (), sy_server s')"
    and s': "sy_client s' = set_session (cl_user_id b) sa' (sy_client s)" "sy_tick s < sy_tick s'"
    using SendMessage_Ok [OF send] sa by (metis option.inject)
  note key = session_send_key [OF m]
  have new: "xk_public_key (ss_local_ratchet_key sa') \<noteq> xk_public_key (ss_local_ratchet_key sa)"
    if "has_ratchet m" using that key(3) n s'(2) fresh unfolding fresh_keys_def by blast
  obtain sb' where sb': "session_receive ssl m sb = (Ok t, sb')" "paired ssl sa' sb'"
    using paired_send [OF ssl pair m new] by blast
  have "read_envelope ssl (FromChat m) b' = Some (t, set_session ?u sb' b')"
    using key sb sb'(1) read_all_user [OF read]
    by (simp add: read_envelope_def FromChat_def read_chat_def)
  then have rd: "read_all ssl (map ie_envelope P @ [FromChat m]) b = Some (ts @ [t], set_session ?u sb' b')"
    by (simp add: read_all_append read)
  obtain k where "k < sy_tick s'" "X25519_GenerateKeyPair ssl (in_entropy inp k) = Ok (ss_local_ratchet_key sa')"
    using key(3) n s'(2) by (metis less_trans)
  moreover have "ss_session_id sa' = ss_session_id sa"
    using m by (auto elim!: session_send_Ok send_ratchet_cases)
  ultimately have "linked ssl inp s' b (P @ [\<lparr>ie_inbox_id = i, ie_envelope = FromChat m\<rparr>]) (ts @ [t])" for i
    using ser rd sb'(2) sid by (auto simp: linked_def s'(1) set_session_def update_conv can_serialize_sent)
  with enq show ?thesis by (rule that) (use m sid in \<open>auto simp: s' set_session_def chats_fit_def\<close>)
qed

text \<open>The hash function returns a digest for every input.\<close>

definition hash_total :: "openssl \<Rightarrow> bool" where
  "hash_total ssl \<longleftrightarrow> (\<forall>m. \<not> is_err (Sha256 ssl m))"

definition trusts_client :: "Client \<Rightarrow> Client \<Rightarrow> bool" where
  "trusts_client b a \<longleftrightarrow> trusts b (cl_user_id a) (ek_public_key (cl_identity_sign_key a))
     (dk_public_key (cl_identity_mldsa_key a)) (xk_public_key (cl_identity_dh_key a))"

lemma initiate_identity:
  assumes "initiate_handshake ssl (e1, e2, e3, e4) a peer bd sid t = Ok (st, m)"
  shows "im_session_id m = sid" "ss_session_id st = sid" "im_from_user m = cl_user_id a"
    and "im_initiator_identity_sign_public_key m = ek_public_key (cl_identity_sign_key a)"
    and "im_initiator_identity_mldsa_public_key m = dk_public_key (cl_identity_mldsa_key a)"
    and "im_initiator_identity_dh_public_key m = xk_public_key (cl_identity_dh_key a)"
    and "X25519_GenerateKeyPair ssl e1 = Ok (ss_local_ratchet_key st)"
  by (rule initiate_handshake_Ok [OF assms], simp)+

lemma read_initial_accepts:
  assumes ssl: "dh_correct ssl" "kem_correct ssl" "sig_correct ssl" "aead_correct ssl" "hash_total ssl"
    and wf: "client_wf ssl a" "client_wf ssl b" and off: "offers b bd" and tr: "trusts_client b a"
    and init: "initiate_handshake ssl (e1, e2, e3, e4) a (cl_user_id b) bd sid t = Ok (sa, m)"
    and new: "\<not> HasSeenInitialReplayGuard b sid (im_transcript_hash m)"
  obtains sb b' where "read_envelope ssl (FromInitial m) b = Some (t, b')"
    "map_of (cl_sessions_by_peer b') (cl_user_id a) = Some sb" "paired ssl sa sb"
proof -
  note id = initiate_identity [OF init]
  obtain sb where c: "check_initial ssl b m = Ok ()"
    and a: "accept_handshake ssl b m = Ok (sb, ToBytes t)" and p: "paired ssl sa sb"
    using handshake_accepted [OF ssl(1-4) wf off init new] by blast
  obtain c1 where r: "RememberInitialReplayGuards sid (im_transcript_hash m) b = (Ok (), c1)"
    using new id by (cases rule: remember_cases [of sid "im_transcript_hash m" b])
      (auto simp: HasSeenInitialReplayGuard_def)
  have "\<not> is_err (ComputeSafetyNumber ssl u k1 k2 k3)" for u k1 k2 k3
    using ssl(5) by (auto simp: hash_total_def is_err_def ComputeSafetyNumber_def rbind_def split: result.splits)
  then have "read_envelope ssl (FromInitial m) b =
      Some (t, set_session (cl_user_id a) sb (use_one_time m c1))"
    using tr id by (simp add: read_envelope_def FromInitial_def read_initial_def c a r trusts_client_def)
  then show ?thesis by (rule that [OF _ _ p]) (simp add: set_session_def update_conv)
qed

text \<open>Alice has recorded the handshakes she started; Bob has seen none of them.\<close>

definition unseen :: "Client \<Rightarrow> Client \<Rightarrow> bool" where
  "unseen a b \<longleftrightarrow> cl_seen_initial_session_ids a \<inter> cl_seen_initial_session_ids b = {} \<and>
     cl_seen_initial_transcript_hashes a \<inter> cl_seen_initial_transcript_hashes b = {}"

lemma remember_seen_hash:
  assumes "client_wf ssl c" "RememberInitialReplayGuards sid h c = (Ok (), c')"
  shows "HexEncode h \<in> cl_seen_initial_transcript_hashes c'"
proof (rule remember_cases [of sid h c])
  fix order ids hash_order hashes
  assume "HexEncode h \<notin> cl_seen_initial_transcript_hashes c"
    and e: "evict (cl_seen_initial_transcript_order c @ [HexEncode h])
      (insert (HexEncode h) (cl_seen_initial_transcript_hashes c)) = (hash_order, hashes)"
    and "RememberInitialReplayGuards sid h c = (Ok (), c\<lparr>cl_seen_initial_session_ids := ids,
      cl_seen_initial_session_order := order, cl_seen_initial_transcript_hashes := hashes,
      cl_seen_initial_transcript_order := hash_order\<rparr>)"
  moreover from this have "HexEncode h \<in> hashes"
    using assms(1) by (intro evict_keeps_last [OF _ _ e]) (auto simp: client_wf_def guard_wf_def)
  ultimately show ?thesis using assms(2) by auto
qed (use assms(2) in auto)

lemma linked_start:
  assumes ssl: "dh_correct ssl" "kem_correct ssl" "sig_correct ssl" "aead_correct ssl" "hash_total ssl"
    and wf: "client_wf ssl (sy_client s)" "client_wf ssl b" and tr: "trusts_client b (sy_client s)"
    and init: "InitiateSession ssl inp (Some api) (cl_user_id b) t s = (Ok (), s')"
    and off: "\<forall>env r srv. api_AcquireBundleForSession api env (sy_server s) (cl_user_id b) = (r, srv) \<longrightarrow>
      (\<exists>bd. r = Ok bd \<and> offers b bd)"
    and unseen: "unseen (sy_client s') b"
  obtains m env env' srv r where
    "api_AcquireBundleForSession api env (sy_server s) (cl_user_id b) = (r, srv)"
    "api_EnqueueEnvelope api env' srv (cl_user_id b) (FromInitial m) = (Ok (), sy_server s')"
    "\<And>i. linked ssl inp s' b [\<lparr>ie_inbox_id = i, ie_envelope = FromInitial m\<rparr>] [t]"
    "cl_user_id (sy_client s') = cl_user_id (sy_client s)"
    "initial_fits fits ssl (sy_client s) (cl_user_id b) t \<Longrightarrow> fits (FromInitial m)"
  using init
proof (rule InitiateSession_Ok)
  fix bd srv e2 e3 e4 sid sa m c1 env n
  assume acq: "api_AcquireBundleForSession api (in_call inp (sy_tick s)) (sy_server s) (cl_user_id b) =
      (Ok bd, srv)"
    and h: "initiate_handshake ssl (in_entropy inp n, e2, e3, e4) (sy_client s) (cl_user_id b) bd sid t =
      Ok (sa, m)"
    and rem: "RememberInitialReplayGuards (ss_session_id sa) (im_transcript_hash m) (sy_client s) = (Ok (), c1)"
    and enq: "api_EnqueueEnvelope api env srv (cl_user_id b) (FromInitial m) = (Ok (), sy_server s')"
    and s': "sy_client s' = set_session (cl_user_id b) sa c1" "n < sy_tick s'" and sid: "string_ok sid"
  note id = initiate_identity [OF h]
  have c1: "cl_user_id c1 = cl_user_id (sy_client s)"
    using remember_identity [of "ss_session_id sa" "im_transcript_hash m" "sy_client s"] rem by simp
  have "sid \<in> cl_seen_initial_session_ids c1"
    "HexEncode (im_transcript_hash m) \<in> cl_seen_initial_transcript_hashes c1"
    using remember_seen [OF wf(1) rem] remember_seen_hash [OF wf(1) rem] id by simp_all
  then have new: "\<not> HasSeenInitialReplayGuard b sid (im_transcript_hash m)"
    using unseen by (auto simp: unseen_def HasSeenInitialReplayGuard_def s' set_session_def)
  have "offers b bd" using off acq by blast
  then obtain sb b' where "read_envelope ssl (FromInitial m) b = Some (t, b')"
    "map_of (cl_sessions_by_peer b') (cl_user_id (sy_client s)) = Some sb" "paired ssl sa sb"
    by (rule read_initial_accepts [OF ssl wf _ tr h new])
  then have "linked ssl inp s' b [\<lparr>ie_inbox_id = i, ie_envelope = FromInitial m\<rparr>] [t]" for i
    using s' id c1 sid by (auto simp: linked_def set_session_def update_conv can_serialize_sent)
  with acq enq show ?thesis
    by (rule that) (use h sid in \<open>auto simp: s' set_session_def c1 initial_fits_def\<close>)
qed

lemma send_texts_tick: "send_texts ssl inp api peer ts s = (Ok (), s') \<Longrightarrow> sy_tick s \<le> sy_tick s'"
  by (induction ts arbitrary: s) (force simp: act_bind_Ok elim: SendMessage_Ok)+

lemma BuildPrekeyBundle_pools:
  "pb_one_time_ec (BuildPrekeyBundle ssl ent c) = map oe_public_part (cl_one_time_ec_pool c)"
  "pb_one_time_pq (BuildPrekeyBundle ssl ent c) = map oq_public_part (cl_one_time_pq_pool c)"
  by (simp_all add: BuildPrekeyBundle_def Let_def)

context message_server
begin

lemma enqueue_at:
  assumes "inv s" "Suc n \<le> room s u" "fits e" "api_EnqueueEnvelope api env s u e = (Ok (), s')"
  obtains i where "inv s'" "n \<le> room s' u" "pending s' u = pending s u @ [\<lparr>ie_inbox_id = i, ie_envelope = e\<rparr>]"
proof -
  have "inv s' \<and> room s u \<le> room s' u + 1 \<and> (\<exists>i. pending s' u = pending s u @ [\<lparr>ie_inbox_id = i, ie_envelope = e\<rparr>])"
    using enqueue [OF assms(1) _ assms(3,4)] assms(2) by simp
  with assms(2) show ?thesis by (auto intro: that)
qed

lemma sends_linked:
  fixes s :: "'s sys"
  assumes "dh_correct ssl" "aead_correct ssl" "send_texts ssl inp api (cl_user_id b) ts s = (Ok (), s')"
    and "fresh_keys ssl inp (sy_tick s')" "inv (sy_server s)"
    and "linked ssl inp s b (pending (sy_server s) (cl_user_id b)) ts0"
    and "length ts \<le> room (sy_server s) (cl_user_id b)"
    and "chats_fit fits ssl (cl_user_id (sy_client s)) (cl_user_id b) ts"
  shows "inv (sy_server s') \<and> linked ssl inp s' b (pending (sy_server s') (cl_user_id b)) (ts0 @ ts) \<and>
    sy_tick s \<le> sy_tick s'"
  using assms
proof (induction ts arbitrary: s ts0)
  case (Cons t ts)
  let ?u = "cl_user_id b"
  obtain s1 where send: "SendMessage ssl inp (Some api) ?u t s = (Ok (), s1)"
    and rest: "send_texts ssl inp api ?u ts s1 = (Ok (), s')"
    using Cons.prems(3) by (auto simp: act_bind_Ok)
  have "sy_tick s1 \<le> sy_tick s'" using rest by (rule send_texts_tick)
  then have fresh: "fresh_keys ssl inp (sy_tick s1)"
    using Cons.prems(4) unfolding fresh_keys_def by (meson less_le_trans)
  obtain m env where enq: "api_EnqueueEnvelope api env (sy_server s) ?u (FromChat m) = (Ok (), sy_server s1)"
    and l: "\<And>i. linked ssl inp s1 b (pending (sy_server s) ?u @ [\<lparr>ie_inbox_id = i, ie_envelope = FromChat m\<rparr>])
      (ts0 @ [t])" and t: "sy_tick s < sy_tick s1" and u: "cl_user_id (sy_client s1) = cl_user_id (sy_client s)"
    and fit: "chats_fit fits ssl (cl_user_id (sy_client s)) ?u [t] \<Longrightarrow> fits (FromChat m)"
    using linked_send [where fits = fits, OF Cons.prems(1,2,6) send fresh] by blast
  have f: "fits (FromChat m)" using fit Cons.prems(8) by (simp add: chats_fit_def)
  have room: "Suc (length ts) \<le> room (sy_server s) ?u" using Cons.prems(7) by simp
  obtain i where "inv (sy_server s1)" "length ts \<le> room (sy_server s1) ?u"
    "pending (sy_server s1) ?u = pending (sy_server s) ?u @ [\<lparr>ie_inbox_id = i, ie_envelope = FromChat m\<rparr>]"
    by (rule enqueue_at [OF Cons.prems(5) room f enq])
  then have "inv (sy_server s1)" "linked ssl inp s1 b (pending (sy_server s1) ?u) (ts0 @ [t])"
    "length ts \<le> room (sy_server s1) ?u" "chats_fit fits ssl (cl_user_id (sy_client s1)) ?u ts"
    using l Cons.prems(8) by (simp_all add: chats_fit_def u)
  from Cons.IH [OF Cons.prems(1,2) rest Cons.prems(4) this] t show ?case by simp
qed simp

end

section \<open>End to end\<close>

lemma BuildPrekeyBundle_offers:
  assumes "cl_one_time_ec_pool b \<noteq> []" "cl_one_time_pq_pool b \<noteq> []"
  shows "offers b (first_keys (BuildPrekeyBundle ssl ent b))"
  using assms by (cases "cl_one_time_ec_pool b"; cases "cl_one_time_pq_pool b")
    (auto simp: offers_def first_keys_def BuildPrekeyBundle_def Let_def)

lemma PublishPrekeys_Ok:
  assumes "PublishPrekeys ssl inp (Some api) s = (Ok (), s')"
  obtains ent env where
    "api_PublishBundle api env (sy_server s) (BuildPrekeyBundle ssl ent (sy_client s)) = (Ok (), sy_server s')"
    "sy_client s' = (sy_client s)\<lparr>cl_prekeys_dirty := False\<rparr>"
proof -
  obtain srv s1 where p: "api_PublishBundle api (in_call inp (sy_tick s + 1)) (sy_server s)
      (BuildPrekeyBundle ssl (in_entropy inp (sy_tick s)) (sy_client s)) = (Ok (), srv)"
    and s1: "s1 = s\<lparr>sy_server := srv, sy_tick := sy_tick s + 2,
      sy_client := (sy_client s)\<lparr>cl_prekeys_dirty := False\<rparr>\<rparr>"
    and sv: "act_save ssl inp s1 = (Ok (), s')"
    using assms by (auto simp: PublishPrekeys_def act_bind_Ok draw_entropy_def act_call_Ok act_context_Ok)
  show ?thesis by (rule that [OF p [folded act_save_frame(2) [OF sv, unfolded s1, simplified]]])
      (use act_save_frame [OF sv] s1 in simp)
qed

context message_server
begin

lemma delivery:
  fixes s_a :: "'s sys" and s_b :: "'s sys"
  assumes ssl: "dh_correct ssl" "kem_correct ssl" "sig_correct ssl" "aead_correct ssl" "hash_total ssl"
    and wf: "client_wf ssl (sy_client s_a)" "client_wf ssl (sy_client s_b)"
    and tr: "trusts_client (sy_client s_b) (sy_client s_a)"
    and pools: "cl_one_time_ec_pool (sy_client s_b) \<noteq> []" "cl_one_time_pq_pool (sy_client s_b) \<noteq> []"
    and ack: "cl_pending_inbox_ack_up_to_id (sy_client s_b) = None"
    and srv: "inv (sy_server s_b)" "pending (sy_server s_b) (cl_user_id (sy_client s_b)) = []"
    and pub: "PublishPrekeys ssl inp_b (Some api) s_b = (Ok (), s_b1)"
    and init: "sy_server s_a = sy_server s_b1"
      "InitiateSession ssl inp (Some api) (cl_user_id (sy_client s_b)) t s_a = (Ok (), s_a1)"
    and sends: "send_texts ssl inp api (cl_user_id (sy_client s_b)) ts s_a1 = (Ok (), s_a2)"
    and fresh: "fresh_keys ssl inp (sy_tick s_a2)" "unseen (sy_client s_a1) (sy_client s_b)"
    and bound: "length ts + 1 < kMaxInboxDrainPasses"
      "length ts + 1 \<le> room (sy_server s_b) (cl_user_id (sy_client s_b))"
    and fit: "initial_fits fits ssl (sy_client s_a) (cl_user_id (sy_client s_b)) t"
      "chats_fit fits ssl (cl_user_id (sy_client s_a)) (cl_user_id (sy_client s_b)) ts"
    and rcv: "sy_client s_b2 = sy_client s_b1" "sy_server s_b2 = sy_server s_a2"
  shows "fst (ProcessInbox ssl inp_b' (Some api) s_b2) = Ok (t # ts)"
proof -
  define b where "b = sy_client s_b1"
  let ?u = "cl_user_id b"
  obtain ent env where p: "api_PublishBundle api env (sy_server s_b) (BuildPrekeyBundle ssl ent (sy_client s_b)) =
      (Ok (), sy_server s_b1)" and b: "b = (sy_client s_b)\<lparr>cl_prekeys_dirty := False\<rparr>"
    using pub unfolding b_def by (rule PublishPrekeys_Ok)
  have u: "cl_user_id (sy_client s_b) = ?u" by (simp add: b)
  have s1: "inv (sy_server s_a)" "room (sy_server s_a) = room (sy_server s_b)" "pending (sy_server s_a) ?u = []"
    using publish [OF srv(1) p] init(1) srv(2) by (simp_all add: b)
  have off: "\<forall>env' r srv'. api_AcquireBundleForSession api env' (sy_server s_a) ?u = (r, srv') \<longrightarrow>
      (\<exists>bd. r = Ok bd \<and> offers b bd)"
  proof (intro allI impI)
    fix env' r srv'
    assume acq: "api_AcquireBundleForSession api env' (sy_server s_a) ?u = (r, srv')"
    have "pb_user_id (BuildPrekeyBundle ssl ent (sy_client s_b)) = ?u"
      by (simp add: b BuildPrekeyBundle_def Let_def)
    then have "r = Ok (first_keys (BuildPrekeyBundle ssl ent (sy_client s_b)))"
      using acquire_published [OF p, of env'] pools acq init(1) by (simp add: BuildPrekeyBundle_pools)
    moreover have "offers b x = offers (sy_client s_b) x" for x by (simp add: b offers_def)
    ultimately show "\<exists>bd. r = Ok bd \<and> offers b bd" using BuildPrekeyBundle_offers [OF pools] by simp
  qed
  have wfb: "client_wf ssl b" and trb: "trusts_client b (sy_client s_a)" and unb: "unseen (sy_client s_a1) b"
    using wf(2) tr fresh(2)
    by (simp_all add: b client_wf_def keys_wf_def one_time_ids_def trusts_client_def trusts_def unseen_def)
  obtain m env1 env2 srv1 r where acq: "api_AcquireBundleForSession api env1 (sy_server s_a) ?u = (r, srv1)"
    and enq: "api_EnqueueEnvelope api env2 srv1 ?u (FromInitial m) = (Ok (), sy_server s_a1)"
    and l: "\<And>i. linked ssl inp s_a1 b [\<lparr>ie_inbox_id = i, ie_envelope = FromInitial m\<rparr>] [t]"
    and ua: "cl_user_id (sy_client s_a1) = cl_user_id (sy_client s_a)"
    and fm: "initial_fits fits ssl (sy_client s_a) ?u t \<Longrightarrow> fits (FromInitial m)"
    by (rule linked_start [where fits = fits, OF ssl wf(1) wfb trb init(2) [unfolded u] off unb]) (rule that)
  note srv1 = acquire [OF s1(1) acq]
  have room: "Suc (length ts) \<le> room srv1 ?u" "inv srv1" using bound(2) s1 srv1 by (simp_all add: u)
  obtain i where "inv (sy_server s_a1)" "length ts \<le> room (sy_server s_a1) ?u"
    "pending (sy_server s_a1) ?u = pending srv1 ?u @ [\<lparr>ie_inbox_id = i, ie_envelope = FromInitial m\<rparr>]"
    by (rule enqueue_at [OF room(2,1) fm [OF fit(1) [unfolded u]] enq])
  then have "inv (sy_server s_a1)" "linked ssl inp s_a1 b (pending (sy_server s_a1) ?u) [t]"
    "length ts \<le> room (sy_server s_a1) ?u"
    using l srv1 s1 by simp_all
  from sends_linked [OF ssl(1,4) sends [unfolded u] fresh(1) this fit(2) [folded ua, unfolded u]]
  have fin: "inv (sy_server s_a2)" "linked ssl inp s_a2 b (pending (sy_server s_a2) ?u) (t # ts)" by simp_all
  then obtain b' where ser: "\<forall>i\<in>set (pending (sy_server s_a2) ?u). can_serialize i"
    and rd: "read_all ssl (map ie_envelope (pending (sy_server s_a2) ?u)) b = Some (t # ts, b')"
    by (auto simp: linked_def)
  have len: "length (pending (sy_server s_a2) ?u) = length ts + 1" using read_all_length [OF rd] by simp
  have "cl_pending_inbox_ack_up_to_id (sy_client s_b2) = None"
    using ack rcv by (simp add: b flip: b_def)
  then show ?thesis
    using fin ser rd len bound(1) rcv
    by (intro ProcessInbox_reads [where u = ?u and P = "pending (sy_server s_a2) ?u" and c = b'])
      (auto simp: b_def unacked_def)
qed

end

end
