(* ===== verification/Progress.thy ===== *)
theory Progress
  imports Delivery
begin

text \<open>
  Operations that succeed: with working key generation and a random generator that does not
  repeat itself, the pools are refilled; a client whose tables are within their limits is saved;
  and the conditions under which publishing, starting a session and sending go through.
\<close>

section \<open>Refilling the pools\<close>

definition drawn_id :: "bytes \<Rightarrow> u32" where
  "drawn_id bs = (let r = fill 4 bs in un_be32 (r ! 0) (r ! 1) (r ! 2) (r ! 3))"

text \<open>The draws from \<open>lo\<close> to \<open>hi\<close> give ids that are new, different from zero and from each other.\<close>

definition ids_available :: "inputs \<Rightarrow> Client \<Rightarrow> nat \<Rightarrow> nat \<Rightarrow> bool" where
  "ids_available inp c lo hi \<longleftrightarrow>
     (\<forall>n. lo \<le> n \<and> n < hi \<longrightarrow> (\<exists>bs. in_rand inp n = Some bs \<and> drawn_id bs \<noteq> 0 \<and>
        drawn_id bs \<notin> set (one_time_ids c))) \<and>
     inj_on (\<lambda>n. drawn_id (the (in_rand inp n))) {lo..<hi}"

definition keygen_total :: "openssl \<Rightarrow> bool" where
  "keygen_total ssl \<longleftrightarrow> (\<forall>e. \<exists>kp. X25519_GenerateKeyPair ssl e = Ok kp) \<and>
     (\<forall>e. \<exists>kp. MlKem768_GenerateKeyPair ssl e = Ok kp)"

lemma id_in_use_iff: "id_in_use c i \<longleftrightarrow> i \<in> set (one_time_ids c)"
  by (auto simp: id_in_use_def one_time_ids_def list_ex_iff)

lemma GenerateUnique_draws:
  assumes "ids_available inp (sy_client s) (sy_tick s) hi" "sy_tick s < hi"
  shows "GenerateUniqueOneTimePrekeyId inp s =
    (Ok (drawn_id (the (in_rand inp (sy_tick s)))), s\<lparr>sy_tick := sy_tick s + 1\<rparr>)"
proof -
  obtain bs where "in_rand inp (sy_tick s) = Some bs" "drawn_id bs \<noteq> 0"
    "drawn_id bs \<notin> set (one_time_ids (sy_client s))"
    using assms by (auto simp: ids_available_def)
  then have "unique_id_attempts inp (Suc n) s =
      (Ok (drawn_id (the (in_rand inp (sy_tick s)))), s\<lparr>sy_tick := sy_tick s + 1\<rparr>)" for n
    by (simp add: act_bind_def draw_rand_def Let_def id_in_use_iff drawn_id_def)
  from this [of 31] show ?thesis by (simp add: GenerateUniqueOneTimePrekeyId_def)
qed

lemma ids_available_push:
  assumes "ids_available inp c lo hi" "lo < n" "n \<le> hi" "lo \<le> k" "k < n"
    and "set (one_time_ids c') = insert (drawn_id (the (in_rand inp k))) (set (one_time_ids c))"
  shows "ids_available inp c' n hi"
proof -
  have inj: "inj_on (\<lambda>n. drawn_id (the (in_rand inp n))) {lo..<hi}"
    using assms(1) by (simp add: ids_available_def)
  have "drawn_id (the (in_rand inp m)) \<noteq> drawn_id (the (in_rand inp k))" if "n \<le> m" "m < hi" for m
    using inj_onD [OF inj, of m k] that assms(2-5) by auto
  moreover have "inj_on (\<lambda>n. drawn_id (the (in_rand inp n))) {n..<hi}"
    using inj by (rule inj_on_subset) (use assms(2) in auto)
  moreover have "\<exists>bs. in_rand inp m = Some bs \<and> drawn_id bs \<noteq> 0 \<and> drawn_id bs \<notin> set (one_time_ids c)"
    if "n \<le> m" "m < hi" for m
    using assms(1,2) that unfolding ids_available_def by auto
  ultimately show ?thesis unfolding ids_available_def assms(6) by fastforce
qed

definition same_tables :: "Client \<Rightarrow> Client \<Rightarrow> bool" where
  "same_tables c c' \<longleftrightarrow> cl_trusted_peer_identities c' = cl_trusted_peer_identities c \<and>
     cl_sessions_by_peer c' = cl_sessions_by_peer c \<and> cl_local_state_path c' = cl_local_state_path c"

lemma refill_ec_succeeds:
  assumes "keygen_total ssl" "ids_available inp (sy_client s) (sy_tick s) hi"
    and "kOneTimePrekeyPoolTarget \<le> length (cl_one_time_ec_pool (sy_client s)) + n"
    and "sy_tick s + 2 * n \<le> hi"
  shows "\<exists>s'. refill_ec ssl inp n s = (Ok (), s') \<and> ids_available inp (sy_client s') (sy_tick s') hi \<and>
    cl_one_time_pq_pool (sy_client s') = cl_one_time_pq_pool (sy_client s) \<and>
    same_tables (sy_client s) (sy_client s') \<and> sy_tick s' \<le> sy_tick s + 2 * n"
  using assms
proof (induction n arbitrary: s)
  case (Suc n)
  show ?case
  proof (cases "length (cl_one_time_ec_pool (sy_client s)) < kOneTimePrekeyPoolTarget")
    case True
    let ?t = "sy_tick s"
    obtain kp where kp: "X25519_GenerateKeyPair ssl (in_entropy inp ?t) = Ok kp"
      using Suc.prems(1) by (auto simp: keygen_total_def)
    define i where "i = drawn_id (the (in_rand inp (?t + 1)))"
    define k where "k = \<lparr>oe_public_part = \<lparr>ote_id = i, ote_public_key = xk_public_key kp\<rparr>,
      oe_private_part = kp\<rparr>"
    define s1 where "s1 = s\<lparr>sy_tick := ?t + 2, sy_client := push_ec k (sy_client s)\<rparr>"
    have "ids_available inp (sy_client s) (?t + 1) hi"
      using Suc.prems(2) by (auto simp: ids_available_def elim: inj_on_subset)
    then have gen: "GenerateUniqueOneTimePrekeyId inp (s\<lparr>sy_tick := ?t + 1\<rparr>) = (Ok i, s\<lparr>sy_tick := ?t + 2\<rparr>)"
      using GenerateUnique_draws [of inp "s\<lparr>sy_tick := ?t + 1\<rparr>" hi] Suc.prems(4) by (simp add: i_def)
    have step: "refill_ec ssl inp (Suc n) s = refill_ec ssl inp n s1"
      using True kp gen
      by (simp add: act_bind_step draw_entropy_def act_context_def with_context_def s1_def k_def)
    have "ids_available inp (sy_client s1) (sy_tick s1) hi"
      by (rule ids_available_push [OF Suc.prems(2), of _ "?t + 1"])
        (use Suc.prems(4) in \<open>auto simp: s1_def push_ec_def one_time_ids_def k_def i_def\<close>)
    from Suc.IH [OF Suc.prems(1) this] Suc.prems(3,4) show ?thesis
      unfolding step by (auto simp: s1_def push_ec_def same_tables_def)
  qed (use Suc.prems in \<open>auto simp: act_bind_def same_tables_def\<close>)
qed (simp add: same_tables_def)

lemma refill_pq_succeeds:
  assumes "keygen_total ssl" "ids_available inp (sy_client s) (sy_tick s) hi"
    and "kOneTimePrekeyPoolTarget \<le> length (cl_one_time_pq_pool (sy_client s)) + n"
    and "sy_tick s + 2 * n \<le> hi"
  shows "\<exists>s'. refill_pq ssl inp n s = (Ok (), s') \<and> same_tables (sy_client s) (sy_client s')"
  using assms
proof (induction n arbitrary: s)
  case (Suc n)
  show ?case
  proof (cases "length (cl_one_time_pq_pool (sy_client s)) < kOneTimePrekeyPoolTarget")
    case True
    let ?t = "sy_tick s"
    obtain kp where kp: "MlKem768_GenerateKeyPair ssl (in_entropy inp ?t) = Ok kp"
      using Suc.prems(1) by (auto simp: keygen_total_def)
    define i where "i = drawn_id (the (in_rand inp (?t + 1)))"
    define k where "k = \<lparr>oq_public_part = \<lparr>otp_id = i, otp_public_key = kk_public_key kp\<rparr>,
      oq_private_part = kp\<rparr>"
    define s1 where "s1 = s\<lparr>sy_tick := ?t + 2, sy_client := push_pq k (sy_client s)\<rparr>"
    have "ids_available inp (sy_client s) (?t + 1) hi"
      using Suc.prems(2) by (auto simp: ids_available_def elim: inj_on_subset)
    then have gen: "GenerateUniqueOneTimePrekeyId inp (s\<lparr>sy_tick := ?t + 1\<rparr>) = (Ok i, s\<lparr>sy_tick := ?t + 2\<rparr>)"
      using GenerateUnique_draws [of inp "s\<lparr>sy_tick := ?t + 1\<rparr>" hi] Suc.prems(4) by (simp add: i_def)
    have step: "refill_pq ssl inp (Suc n) s = refill_pq ssl inp n s1"
      using True kp gen
      by (simp add: act_bind_step draw_entropy_def act_context_def with_context_def s1_def k_def)
    have "ids_available inp (sy_client s1) (sy_tick s1) hi"
      by (rule ids_available_push [OF Suc.prems(2), of _ "?t + 1"])
        (use Suc.prems(4) in \<open>auto simp: s1_def push_pq_def one_time_ids_def k_def i_def\<close>)
    from Suc.IH [OF Suc.prems(1) this] Suc.prems(3,4) show ?thesis
      unfolding step by (auto simp: s1_def push_pq_def same_tables_def)
  qed (use Suc.prems in \<open>auto simp: act_bind_def same_tables_def\<close>)
qed (simp add: same_tables_def)

lemma refill_succeeds:
  assumes "keygen_total ssl" "ids_available inp (sy_client s) (sy_tick s) (sy_tick s + 64)"
  shows "\<exists>s'. RefillOneTimePrekeyPools ssl inp s = (Ok (), s') \<and> same_tables (sy_client s) (sy_client s')"
proof -
  obtain s1 where s1: "refill_ec ssl inp kOneTimePrekeyPoolTarget s = (Ok (), s1)"
    "ids_available inp (sy_client s1) (sy_tick s1) (sy_tick s + 64)" "sy_tick s1 \<le> sy_tick s + 32"
    "same_tables (sy_client s) (sy_client s1)"
    using refill_ec_succeeds [OF assms, of kOneTimePrekeyPoolTarget] by (auto simp: kOneTimePrekeyPoolTarget_def)
  then show ?thesis
    using refill_pq_succeeds [OF assms(1) s1(2), of kOneTimePrekeyPoolTarget]
    by (auto simp: RefillOneTimePrekeyPools_def act_bind_def kOneTimePrekeyPoolTarget_def same_tables_def)
qed

text \<open>
C32. With working key generation and 64 draws that give new ids different from zero,
RefillOneTimePrekeyPools returns successfully with at least 16 keys in each pool, all ids
distinct.
\<close>

theorem refill_completes:
  assumes "keygen_total ssl" and "client_wf ssl (sy_client s)"
    and "ids_available inp (sy_client s) (sy_tick s) (sy_tick s + 64)"
  shows "\<exists>s'. RefillOneTimePrekeyPools ssl inp s = (Ok (), s') \<and>
    kOneTimePrekeyPoolTarget \<le> length (cl_one_time_ec_pool (sy_client s')) \<and>
    kOneTimePrekeyPoolTarget \<le> length (cl_one_time_pq_pool (sy_client s')) \<and>
    distinct (one_time_ids (sy_client s')) \<and> 0 \<notin> set (one_time_ids (sy_client s'))"
proof -
  obtain s' where r: "RefillOneTimePrekeyPools ssl inp s = (Ok (), s')"
    using refill_succeeds [OF assms(1,3)] by blast
  have "client_wf ssl (sy_client s')"
    using keeps_snd [OF wf.keeps_RefillOneTimePrekeyPools assms(2)] r by (metis snd_conv)
  then show ?thesis using r refill_full unfolding triple_def client_wf_def by blast
qed

section \<open>Primitives that do not fail\<close>

text \<open>
  No OpenSSL call fails but for the two that may find bad data, verification and decryption.
\<close>

definition crypto_total :: "openssl \<Rightarrow> bool" where
  "crypto_total ssl \<longleftrightarrow> hash_total ssl \<and> keygen_total ssl \<and>
     (\<forall>ikm salt info n. \<exists>out. HkdfSha256 ssl ikm salt info n = Ok out) \<and>
     (\<forall>k n p ad. length k = kKeySize \<longrightarrow> length n = kNonceSize \<longrightarrow> (\<exists>c. Seal ssl k n p ad = Ok c)) \<and>
     (\<forall>sk pk. \<exists>dh. X25519_SharedSecret ssl sk pk = Ok dh) \<and>
     (\<forall>sk m. \<exists>sg. Ed25519_Sign ssl sk m = Ok sg) \<and>
     (\<forall>e sk m. \<exists>sg. MlDsa65_Sign ssl e (Some sk) m = Ok sg) \<and>
     (\<forall>e pk. \<exists>er. MlKem768_Encapsulate ssl e pk = Ok er)"

lemma crypto_totalD:
  assumes "crypto_total ssl"
  shows "hash_total ssl" and "\<exists>kp. X25519_GenerateKeyPair ssl e = Ok kp"
    and "\<exists>out. HkdfSha256 ssl ikm salt info n = Ok out"
    and "length k = kKeySize \<Longrightarrow> length nonce = kNonceSize \<Longrightarrow> \<exists>c. Seal ssl k nonce p ad = Ok c"
    and "\<exists>dh. X25519_SharedSecret ssl sk pk = Ok dh" and "\<exists>sg. Ed25519_Sign ssl sk m = Ok sg"
    and "\<exists>sg. MlDsa65_Sign ssl e (Some k) m = Ok sg" and "\<exists>er. MlKem768_Encapsulate ssl e pk = Ok er"
  using assms unfolding crypto_total_def keygen_total_def by blast+

lemma Sha256_total: "hash_total ssl \<Longrightarrow> \<exists>h. Sha256 ssl m = Ok h"
  by (cases "Sha256 ssl m") (auto simp: hash_total_def is_err_def dest: spec [of _ m])

lemma EncryptChainStep_total:
  assumes "crypto_total ssl"
  shows "\<exists>c k'. EncryptChainStep ssl k n (NonceFromCounter i) p ad = (Ok c, k')"
proof -
  obtain bs where bs: "DeriveKeyMaterial ssl k [] ''pqchat_chain_step_v1'' (U64Bytes n) 64 = Ok bs"
    using crypto_totalD(3) [OF assms] by (metis DeriveKeyMaterial_def)
  then have "length bs = 64" by (auto simp: DeriveKeyMaterial_def dest: HkdfSha256_length)
  then have len: "length (take 32 bs) = kKeySize" by (simp add: kKeySize_def)
  obtain c where "Seal ssl (take 32 bs) (NonceFromCounter i) p ad = Ok c"
    using crypto_totalD(4) [OF assms len length_NonceFromCounter] by blast
  then show ?thesis by (simp add: EncryptChainStep_def DeriveMessageKeyAndNextChain_def bs)
qed

lemma rbind_total: "\<exists>x. r = Ok x \<Longrightarrow> (\<And>x. r = Ok x \<Longrightarrow> \<exists>y. k x = Ok y) \<Longrightarrow> \<exists>y. rbind r k = Ok y"
  by auto

lemma context_total: "\<exists>x. r = Ok x \<Longrightarrow> \<exists>x. with_context e r = Ok x"
  by auto

lemma seal_initial_total:
  assumes "crypto_total ssl"
  shows "\<exists>y. seal_initial ssl c bd tf eph h sg sg' t keys = Ok y"
proof (cases keys)
  case (fields root send recv)
  obtain ct k where "EncryptChainStep ssl send 0 (NonceFromCounter 0) (ToBytes t) h = (Ok ct, k)"
    using EncryptChainStep_total [OF assms] by blast
  then show ?thesis by (simp add: seal_initial_def fields)
qed

lemma initiate_handshake_total:
  assumes "crypto_total ssl" "keys_wf ssl c" "pb_one_time_ec bd \<noteq> []" "pb_one_time_pq bd \<noteq> []"
  shows "\<exists>y. initiate_handshake ssl ents c peer bd sid t = Ok y"
proof -
  obtain e1 e2 e3 e4 where e: "ents = (e1, e2, e3, e4)" by (cases ents)
  obtain sk where sk: "dk_private_key (cl_identity_mldsa_key c) = Some sk"
    using assms(2) by (auto simp: keys_wf_def mldsa_pair_def)
  have keys: "\<exists>k. DeriveHandshakeKeys ssl ikm h True = Ok k" for ikm h
    unfolding DeriveHandshakeKeys_def DeriveKeyMaterial_def Let_def
    by (intro rbind_total crypto_totalD(3) [OF assms(1)]) blast
  have hash: "\<exists>h. ComputeInitialTranscriptHash ssl (initiate_transcript c peer bd sid eph ec pq ct ct') = Ok h"
    for eph ec pq ct ct'
    using Sha256_total [OF crypto_totalD(1) [OF assms(1)]]
    by (simp add: ComputeInitialTranscriptHash_def initiate_transcript_def)
  show ?thesis
    unfolding initiate_handshake_def e Let_def prod.case sk
    using assms(3,4)
    by (simp only: de_Morgan_disj if_False simp_thms)
      (intro rbind_total context_total hash keys seal_initial_total assms(1) crypto_totalD [OF assms(1)])
qed

lemma session_send_total:
  assumes "crypto_total ssl" shows "\<exists>m st'. session_send ssl ent u v t st = (Ok m, st')"
proof -
  have "\<exists>y. send_ratchet ssl ent st = Ok y"
  proof (cases "ratchet_due st")
    case True
    obtain kp where kp: "X25519_GenerateKeyPair ssl ent = Ok kp" using crypto_totalD(2) [OF assms] by blast
    obtain dh where dh: "X25519_SharedSecret ssl (xk_private_key kp) (ss_remote_ratchet_public st) = Ok dh"
      using crypto_totalD(5) [OF assms] by blast
    obtain bs where "DeriveKeyMaterial ssl dh (ss_root_key st) ''pqchat_ratchet_step_v1'' [] 64 = Ok bs"
      using crypto_totalD(3) [OF assms] by (metis DeriveKeyMaterial_def)
    then show ?thesis using True by (simp add: send_ratchet_def kp dh DeriveRatchetRootAndChain_def)
  qed (simp add: send_ratchet_def)
  then obtain s1 h where r: "send_ratchet ssl ent st = Ok (s1, h)" by auto
  have ad: "\<exists>h. BuildChatAssociatedData ssl m = Ok h" for m
    unfolding BuildChatAssociatedData_def by (rule Sha256_total [OF crypto_totalD(1) [OF assms]])
  let ?m = "\<lparr>cm_session_id = ss_session_id st, cm_from_user = u, cm_to_user = v,
    cm_header = h\<lparr>mh_message_number := ss_send_counter s1\<rparr>,
    cm_nonce = NonceFromCounter (ss_send_counter s1), cm_ciphertext = []\<rparr>"
  obtain a where a: "BuildChatAssociatedData ssl ?m = Ok a" using ad by blast
  obtain c k where "EncryptChainStep ssl (ss_send_chain_key s1) (ss_send_counter s1)
      (NonceFromCounter (ss_send_counter s1)) (ToBytes t) a = (Ok c, k)"
    using EncryptChainStep_total [OF assms] by blast
  then show ?thesis by (simp add: session_send_def r a)
qed

section \<open>Saving\<close>

definition exports_total :: "openssl \<Rightarrow> bool" where
  "exports_total ssl \<longleftrightarrow> (\<forall>sk. \<exists>bs. ossl_mldsa_export ssl sk = Inr bs) \<and>
     (\<forall>sk. \<exists>bs. ossl_mlkem_export ssl sk = Inr bs)"

lemma export_pool_succeeds:
  "exports_total ssl \<Longrightarrow> list_all (pq_key_ok ssl) pool \<Longrightarrow> \<exists>xs. export_pool ssl pool = Ok xs"
proof (induction pool)
  case (Cons k pool)
  then obtain sk xs where "kk_private_key (oq_private_part k) = Some sk" "export_pool ssl pool = Ok xs"
    by (auto simp: pq_key_ok_def kem_pair_def)
  moreover obtain bs where "ossl_mlkem_export ssl sk = Inr bs"
    using Cons.prems(1) by (auto simp: exports_total_def)
  ultimately show ?case by (simp add: MlKem768_ExportPrivateKey_def)
qed simp

lemma StatePayload_succeeds:
  assumes "exports_total ssl" "keys_wf ssl c"
    and "length (cl_trusted_peer_identities c) \<le> kMaxPersistedPeers"
    and "length (cl_sessions_by_peer c) \<le> kMaxPersistedSessions"
  shows "\<exists>p. StatePayload ssl c = Ok p"
proof -
  obtain sk sk' where sk: "dk_private_key (cl_identity_mldsa_key c) = Some sk"
    "kk_private_key (cl_signed_prekey_pq_private c) = Some sk'"
    using assms(2) by (auto simp: keys_wf_def mldsa_pair_def kem_pair_def)
  obtain b b' xs where "ossl_mldsa_export ssl sk = Inr b" "ossl_mlkem_export ssl sk' = Inr b'"
    "export_pool ssl (cl_one_time_pq_pool c) = Ok xs"
    using assms(1,2) export_pool_succeeds by (fastforce simp: exports_total_def keys_wf_def)
  then show ?thesis
    using assms(3,4) sk by (simp add: StatePayload_def MlDsa65_ExportPrivateKey_def MlKem768_ExportPrivateKey_def)
qed

text \<open>No system call fails and the payload can be encrypted.\<close>

definition saves :: "openssl \<Rightarrow> save_env \<Rightarrow> bool" where
  "saves ssl env \<longleftrightarrow> se_dir env = Inr () \<and> se_write env = Inr () \<and>
     (\<forall>p. \<exists>bs. EncryptStatePayload ssl env p = Ok bs)"

lemma SaveLocalState_succeeds:
  assumes "StatePayload ssl c = Ok p" "saves ssl env"
    and "find_last_slash (cl_local_state_path c) = Some (Suc k)"
  shows "\<exists>disk'. SaveLocalState ssl env c disk = (Ok (), disk')"
proof -
  obtain bs where "EncryptStatePayload ssl env p = Ok bs" using assms(2) by (auto simp: saves_def)
  then show ?thesis
    using assms by (simp add: saves_def SaveLocalState_def EnsureStateDir_def WriteAllFileAtomic_def)
qed

definition can_save :: "openssl \<Rightarrow> inputs \<Rightarrow> Client \<Rightarrow> bool" where
  "can_save ssl inp c \<longleftrightarrow> (\<exists>p. StatePayload ssl c = Ok p) \<and> (\<forall>n. saves ssl (in_save inp n)) \<and>
     (\<exists>k. find_last_slash (cl_local_state_path c) = Some (Suc k))"

lemma act_save_succeeds:
  assumes "can_save ssl inp (sy_client s)"
  obtains disk where "act_save ssl inp s = (Ok (), s\<lparr>sy_disk := disk, sy_tick := sy_tick s + 1\<rparr>)"
proof -
  obtain disk where "SaveLocalState ssl (in_save inp (sy_tick s)) (sy_client s) (sy_disk s) = (Ok (), disk)"
    using assms SaveLocalState_succeeds by (metis can_save_def)
  then show ?thesis using that by (simp add: act_save_def)
qed

section \<open>Conditions of success\<close>

lemma context_step: "m s = (Ok x, s') \<Longrightarrow> act_context e m s = (Ok x, s')"
  by (simp add: act_context_def with_context_def)

lemma PublishPrekeys_succeeds:
  fixes s :: "'s sys"
  assumes "api_PublishBundle api (in_call inp (sy_tick s + 1)) (sy_server s)
      (BuildPrekeyBundle ssl (in_entropy inp (sy_tick s)) (sy_client s)) = (Ok (), srv)"
    and "can_save ssl inp ((sy_client s)\<lparr>cl_prekeys_dirty := False\<rparr>)"
  obtains disk where "PublishPrekeys ssl inp (Some api) s = (Ok (),
    \<lparr>sy_client = (sy_client s)\<lparr>cl_prekeys_dirty := False\<rparr>, sy_disk = disk, sy_server = srv,
      sy_tick = sy_tick s + 3\<rparr>)"
proof -
  let ?s = "s\<lparr>sy_server := srv, sy_tick := sy_tick s + 2, sy_client := (sy_client s)\<lparr>cl_prekeys_dirty := False\<rparr>\<rparr>"
  obtain disk where "act_save ssl inp ?s = (Ok (), ?s\<lparr>sy_disk := disk, sy_tick := sy_tick ?s + 1\<rparr>)"
    by (rule act_save_succeeds [of ssl inp ?s]) (use assms(2) in auto)
  then have "PublishPrekeys ssl inp (Some api) s = (Ok (), ?s\<lparr>sy_disk := disk, sy_tick := sy_tick ?s + 1\<rparr>)"
    by (simp add: PublishPrekeys_def act_bind_step draw_entropy_def act_call_def assms(1) [simplified] context_step)
  then show ?thesis using that [of disk] by (cases s) (simp add: numeral_eq_Suc)
qed

lemma InitiateSession_succeeds:
  fixes s :: "'s sys"
  assumes acq: "api_AcquireBundleForSession api (in_call inp (sy_tick s)) (sy_server s) peer = (Ok bd, srv)"
    and chk: "check_bundle ssl peer bd = Ok ()"
    and tr: "trusts (sy_client s) peer (pb_identity_sign_public_key bd) (pb_identity_mldsa_public_key bd)
      (pb_identity_dh_public_key bd)" "hash_total ssl"
    and rnd: "in_rand inp (sy_tick s + 1) = Some rnd"
    and init: "initiate_handshake ssl (in_entropy inp (sy_tick s + 2), in_entropy inp (sy_tick s + 3),
      in_entropy inp (sy_tick s + 4), in_entropy inp (sy_tick s + 5)) (sy_client s) peer bd
      (HexEncode (fill 16 rnd)) t = Ok (st, m)"
    and rem: "RememberInitialReplayGuards (ss_session_id st) (im_transcript_hash m) (sy_client s) = (Ok (), c1)"
    and enq: "api_EnqueueEnvelope api (in_call inp (sy_tick s + 6)) srv peer (FromInitial m) = (Ok (), srv')"
    and sv: "can_save ssl inp (set_session peer st c1)"
  obtains disk where "InitiateSession ssl inp (Some api) peer t s = (Ok (),
    \<lparr>sy_client = set_session peer st c1, sy_disk = disk, sy_server = srv', sy_tick = sy_tick s + 8\<rparr>)"
proof -
  let ?s = "s\<lparr>sy_client := set_session peer st c1, sy_server := srv', sy_tick := sy_tick s + 7\<rparr>"
  obtain disk where d: "act_save ssl inp ?s = (Ok (), ?s\<lparr>sy_disk := disk, sy_tick := sy_tick ?s + 1\<rparr>)"
    by (rule act_save_succeeds [of ssl inp ?s]) (use sv in auto)
  have v: "VerifyOrRememberPeerIdentity ssl inp peer (pb_identity_sign_public_key bd)
      (pb_identity_mldsa_public_key bd) (pb_identity_dh_public_key bd)
      (s\<lparr>sy_server := srv, sy_tick := Suc (sy_tick s)\<rparr>) = (Ok (), s\<lparr>sy_server := srv, sy_tick := Suc (sy_tick s)\<rparr>)"
    using tr by (intro verify_trusted)
      (auto simp: hash_total_def is_err_def ComputeSafetyNumber_def rbind_def split: result.splits)
  have "InitiateSession ssl inp (Some api) peer t s = (Ok (), ?s\<lparr>sy_disk := disk, sy_tick := sy_tick ?s + 1\<rparr>)"
    using acq chk v rnd init rem enq d
    by (simp add: InitiateSession_def act_bind_step context_step act_call_def NewSessionId_def draw_rand_def
        draw_entropy_def act_remember_def numeral_eq_Suc)
  then show ?thesis using that [of disk] by (cases s) (simp add: numeral_eq_Suc)
qed

lemma SendMessage_succeeds:
  fixes s :: "'s sys"
  assumes "map_of (cl_sessions_by_peer (sy_client s)) peer = Some st"
    and "session_send ssl (in_entropy inp (sy_tick s)) (cl_user_id (sy_client s)) peer t st = (Ok m, st')"
    and "api_EnqueueEnvelope api (in_call inp (sy_tick s + 1)) (sy_server s) peer (FromChat m) = (Ok (), srv)"
    and sv: "can_save ssl inp (set_session peer st' (sy_client s))"
  obtains disk where "SendMessage ssl inp (Some api) peer t s = (Ok (),
    \<lparr>sy_client = set_session peer st' (sy_client s), sy_disk = disk, sy_server = srv, sy_tick = sy_tick s + 3\<rparr>)"
proof -
  let ?s = "s\<lparr>sy_client := set_session peer st' (sy_client s), sy_server := srv, sy_tick := sy_tick s + 2\<rparr>"
  obtain disk where d: "act_save ssl inp ?s = (Ok (), ?s\<lparr>sy_disk := disk, sy_tick := sy_tick ?s + 1\<rparr>)"
    by (rule act_save_succeeds [of ssl inp ?s]) (use sv in auto)
  have "SendMessage ssl inp (Some api) peer t s = (Ok (), ?s\<lparr>sy_disk := disk, sy_tick := sy_tick ?s + 1\<rparr>)"
    using assms(1-3) d
    by (simp add: SendMessage_def act_bind_step context_step act_call_def draw_entropy_def)
  then show ?thesis using that [of disk] by (cases s) (simp add: numeral_eq_Suc)
qed

lemma Create_succeeds:
  assumes ssl: "keygen_total ssl" "sig_correct ssl" "exports_total ssl"
    and load: "LoadLocalState ssl lenv u (DefaultLocalStatePath penv u) disk = Err ''state file missing''"
    and new: "new_identity ssl (\<lambda>i. in_entropy inp (tick + i)) u (DefaultLocalStatePath penv u) = Ok c"
    and ids: "ids_available inp c (tick + 7) (tick + 71)"
    and sv: "\<forall>n. saves ssl (in_save inp n)" "find_last_slash (cl_local_state_path c) = Some (Suc k)"
  shows "\<exists>s. Create ssl inp penv lenv u disk srv tick = Ok s"
proof -
  note id = new_identity_Ok [OF ssl(2) new]
  let ?s = "\<lparr>sy_client = c, sy_disk = disk, sy_server = srv, sy_tick = tick + 7\<rparr>"
  obtain s1 where r: "RefillOneTimePrekeyPools ssl inp ?s = (Ok (), s1)" "same_tables c (sy_client s1)"
    using refill_succeeds [OF ssl(1), of inp ?s] ids by (auto simp: add.commute)
  have "client_wf ssl (sy_client s1)"
    using keeps_snd [OF wf.keeps_RefillOneTimePrekeyPools, of ssl ?s inp] id(1) r(1) by simp
  then have "\<exists>p. StatePayload ssl (sy_client s1) = Ok p"
    using r(2) id(3,4) by (intro StatePayload_succeeds [OF ssl(3)]) (auto simp: client_wf_def same_tables_def)
  then have "can_save ssl inp (sy_client s1)" using sv r(2) by (simp add: can_save_def same_tables_def)
  then obtain d where "act_save ssl inp s1 = (Ok (), s1\<lparr>sy_disk := d, sy_tick := sy_tick s1 + 1\<rparr>)"
    by (rule act_save_succeeds)
  then show ?thesis
    using load new r(1) by (simp add: Create_def Let_def act_bind_step context_step)
qed

end
