(* ===== verification/Scenario.thy ===== *)
theory Scenario
  imports Progress In_Memory_Server "HOL-Library.Code_Target_Nat"
begin

text \<open>
  Two clients that talk through the in-memory server: the end-to-end theorem for it, and a
  concrete run with the toy primitives (Bob publishes his prekeys, Alice starts a session and
  sends a message, Bob reads his inbox) on which the theorems about clients are applied. Natural
  numbers are evaluated in binary.
\<close>

section \<open>End to end over the in-memory server\<close>

text \<open>
C1. Bob publishes his prekeys, Alice starts a session with a first text and sends further
texts (at most 62 in all, each call reporting success), all through the in-memory server;
then ProcessInbox of Bob, who has verified Alice and has seen none of her handshakes,
returns exactly these texts in order, whatever becomes of the refill, the republication and
the state file. Assumed of the primitives: Diffie-Hellman, KEM, signatures and AEAD are
correct, hashing does not fail, and the ratchet keys Alice draws are different.
\<close>

theorem end_to_end_delivery:
  fixes s_a :: "InMemoryServer sys" and s_b :: "InMemoryServer sys"
  assumes "dh_correct ssl" "kem_correct ssl" "sig_correct ssl" "aead_correct ssl" "hash_total ssl"
    and "client_wf ssl (sy_client s_a)" "client_wf ssl (sy_client s_b)"
    and "trusts_client (sy_client s_b) (sy_client s_a)"
    and "cl_one_time_ec_pool (sy_client s_b) \<noteq> []" "cl_one_time_pq_pool (sy_client s_b) \<noteq> []"
    and "cl_pending_inbox_ack_up_to_id (sy_client s_b) = None"
    and "inbox_inv (sy_server s_b)" "pending_envelopes (sy_server s_b) (cl_user_id (sy_client s_b)) = []"
    and "PublishPrekeys ssl inp_b (Some (in_memory_api ssl)) s_b = (Ok (), s_pub)"
    and "sy_server s_a = sy_server s_pub"
    and "InitiateSession ssl inp (Some (in_memory_api ssl)) (cl_user_id (sy_client s_b)) t s_a = (Ok (), s_init)"
    and "send_texts ssl inp (in_memory_api ssl) (cl_user_id (sy_client s_b)) ts s_init = (Ok (), s_sent)"
    and "fresh_keys ssl inp (sy_tick s_sent)" "unseen (sy_client s_init) (sy_client s_b)"
    and "length ts + 1 < kMaxInboxDrainPasses"
    and "length ts + 1 \<le> inbox_room (sy_server s_b) (cl_user_id (sy_client s_b))"
    and "sy_client s_read = sy_client s_pub" "sy_server s_read = sy_server s_sent"
  shows "fst (ProcessInbox ssl inp_b' (Some (in_memory_api ssl)) s_read) = Ok (t # ts)"
  by (rule message_server.delivery [OF im_server.message_server_axioms assms(1-21) _ _ assms(22,23)])
    (simp_all add: initial_fits_def chats_fit_def)

section \<open>The clients of the run\<close>

definition demo_ed :: "u8 \<Rightarrow> Ed25519KeyPair" where
  "demo_ed k = \<lparr>ek_private_key = replicate 32 k, ek_public_key = replicate 32 k\<rparr>"

definition demo_mldsa :: "u8 \<Rightarrow> MlDsa65KeyPair" where
  "demo_mldsa k = \<lparr>dk_private_key = Some [k], dk_public_key = [k]\<rparr>"

definition demo_kem :: "u8 \<Rightarrow> MlKemKeyPair" where
  "demo_kem k = \<lparr>kk_private_key = Some [k], kk_public_key = [k]\<rparr>"

definition demo_client :: "string \<Rightarrow> u8 \<Rightarrow> (string \<times> PeerIdentity) list \<Rightarrow> Client" where
  "demo_client user k peers =
     \<lparr>cl_user_id = user, cl_local_state_path = ''/s/'' @ user, cl_identity_sign_key = demo_ed k,
      cl_identity_mldsa_key = demo_mldsa k, cl_identity_dh_key = demo_pair k,
      cl_signed_prekey_ec_public = \<lparr>ske_id = 1, ske_public_key = replicate 32 (k + 1),
        ske_signature_ed25519 = replicate 32 k @ replicate 64 0, ske_signature_mldsa65 = [k] @ replicate 64 0\<rparr>,
      cl_signed_prekey_ec_private = demo_pair (k + 1),
      cl_signed_prekey_pq_public = \<lparr>skp_id = 1, skp_public_key = [k + 2],
        skp_signature_ed25519 = replicate 32 k @ replicate 64 0, skp_signature_mldsa65 = [k] @ replicate 64 0\<rparr>,
      cl_signed_prekey_pq_private = demo_kem (k + 2),
      cl_one_time_ec_pool = [\<lparr>oe_public_part = \<lparr>ote_id = 5, ote_public_key = replicate 32 (k + 3)\<rparr>,
        oe_private_part = demo_pair (k + 3)\<rparr>],
      cl_one_time_pq_pool = [\<lparr>oq_public_part = \<lparr>otp_id = 6, otp_public_key = [k + 4]\<rparr>,
        oq_private_part = demo_kem (k + 4)\<rparr>],
      cl_prekeys_dirty = False, cl_pending_inbox_ack_up_to_id = None,
      cl_trusted_peer_identities = peers, cl_sessions_by_peer = [],
      cl_seen_initial_session_ids = {}, cl_seen_initial_transcript_hashes = {},
      cl_seen_initial_session_order = [], cl_seen_initial_transcript_order = []\<rparr>"

definition demo_peer :: "u8 \<Rightarrow> PeerIdentity" where
  "demo_peer k = \<lparr>pi_sign_public_key = replicate 32 k, pi_mldsa_public_key = [k],
     pi_dh_public_key = replicate 32 k, pi_verified = True\<rparr>"

definition demo_inputs :: inputs where
  "demo_inputs = \<lparr>in_entropy = (\<lambda>n. replicate 32 (word_of_nat n)),
     in_rand = (\<lambda>n. Some [word_of_nat n]),
     in_save = (\<lambda>n. \<lparr>se_passphrase = Some ''pw'', se_salt = Some [], se_nonce = Some [],
       se_dir = Inr (), se_write = Inr ()\<rparr>),
     in_call = (\<lambda>n. \<lparr>env_now = 0, env_rnd1 = None, env_rnd2 = None\<rparr>)\<rparr>"

definition demo_sys :: "Client \<Rightarrow> 's \<Rightarrow> 's sys" where
  "demo_sys c srv = \<lparr>sy_client = c, sy_disk = Map.empty, sy_server = srv, sy_tick = 1\<rparr>"

definition demo_alice :: Client where "demo_alice = demo_client ''alice'' 10 [(''bob'', demo_peer 20)]"
definition demo_bob :: Client where "demo_bob = demo_client ''bob'' 20 [(''alice'', demo_peer 10)]"

lemma demo_pairs:
  "dh_pair toy_ssl (demo_pair k)" "ed_pair toy_ssl (demo_ed k)" "mldsa_pair toy_ssl (demo_mldsa k)"
  "kem_pair toy_ssl (demo_kem k)"
  by (simp_all add: dh_pair_def ed_pair_def mldsa_pair_def kem_pair_def toy_ssl_def demo_pair_def
      demo_ed_def demo_mldsa_def demo_kem_def)

lemma demo_client_wf: "distinct (map fst peers) \<Longrightarrow> client_wf toy_ssl (demo_client user k peers)"
  using demo_pairs
  by (simp add: client_wf_def keys_wf_def demo_client_def one_time_ids_def guard_wf_def ec_key_ok_def
      pq_key_ok_def demo_pair_def demo_kem_def)

lemma demo_wf: "client_wf toy_ssl demo_alice" "client_wf toy_ssl demo_bob"
  by (simp_all add: demo_alice_def demo_bob_def demo_client_wf)

lemma toy_ssl_total: "hash_total toy_ssl" "keygen_total toy_ssl" "exports_total toy_ssl"
  by (simp_all add: hash_total_def is_err_def Sha256_def toy_ssl_def keygen_total_def exports_total_def
      X25519_GenerateKeyPair_def MlKem768_GenerateKeyPair_def SHA256_DIGEST_LENGTH_def)

lemma toy_crypto_total: "crypto_total toy_ssl"
  using toy_ssl_total(1,2)
  by (simp add: crypto_total_def HkdfSha256_def Seal_def X25519_SharedSecret_def Ed25519_Sign_def
      MlDsa65_Sign_def MlKem768_Encapsulate_def toy_ssl_def)

lemma demo_saves: "saves toy_ssl (in_save demo_inputs n)"
  by (simp add: saves_def demo_inputs_def EncryptStatePayload_def ReadStatePassphrase_def
      DeriveStateEncryptionKey_def toy_ssl_def Seal_def kStateEncryptionSaltBytes_def
      kStateEncryptionKeyBytes_def kKeySize_def length_NonceFromCounter Let_def)

lemma demo_can_save:
  assumes "keys_wf toy_ssl c" "length (cl_trusted_peer_identities c) \<le> 1" "length (cl_sessions_by_peer c) \<le> 1"
    and "cl_local_state_path c = ''/s/alice'' \<or> cl_local_state_path c = ''/s/bob''"
  shows "can_save toy_ssl demo_inputs c"
proof -
  have "\<exists>p. StatePayload toy_ssl c = Ok p"
    using assms by (intro StatePayload_succeeds [OF toy_ssl_total(3)])
      (auto simp: kMaxPersistedPeers_def kMaxPersistedSessions_def)
  moreover have "find_last_slash ''/s/alice'' = Some (Suc 1)" "find_last_slash ''/s/bob'' = Some (Suc 1)"
    by (simp_all add: find_last_slash_def)
  ultimately show ?thesis using assms(4) demo_saves unfolding can_save_def by metis
qed

section \<open>The run\<close>

abbreviation demo_api :: "InMemoryServer IServerApi" where
  "demo_api \<equiv> in_memory_api toy_ssl"

definition demo_bob_sys :: "InMemoryServer sys" where
  "demo_bob_sys = demo_sys demo_bob (InMemoryServer_init [])"

definition demo_bob1 :: "InMemoryServer sys" where
  "demo_bob1 = snd (PublishPrekeys toy_ssl demo_inputs (Some demo_api) demo_bob_sys)"

definition demo_alice_sys :: "InMemoryServer sys" where
  "demo_alice_sys = demo_sys demo_alice (sy_server demo_bob1)"

definition demo_alice1 :: "InMemoryServer sys" where
  "demo_alice1 = snd (InitiateSession toy_ssl demo_inputs (Some demo_api) ''bob'' ''hi'' demo_alice_sys)"

definition demo_alice2 :: "InMemoryServer sys" where
  "demo_alice2 = snd (SendMessage toy_ssl demo_inputs (Some demo_api) ''bob'' ''there'' demo_alice1)"

definition demo_bob2 :: "InMemoryServer sys" where
  "demo_bob2 = demo_bob1\<lparr>sy_server := sy_server demo_alice2\<rparr>"

text \<open>The bundle Alice gets, and the handshake she makes for it.\<close>

definition demo_offer :: PrekeyBundle where
  "demo_offer = first_keys (BuildPrekeyBundle toy_ssl (in_entropy demo_inputs 1) demo_bob)"

definition demo_handshake :: "(SessionState \<times> InitialMessage) result" where
  "demo_handshake = initiate_handshake toy_ssl (in_entropy demo_inputs 3, in_entropy demo_inputs 4,
     in_entropy demo_inputs 5, in_entropy demo_inputs 6) demo_alice ''bob'' demo_offer
     (HexEncode (fill 16 [2])) ''hi''"

definition demo_started :: SessionState where
  "demo_started = fst (the (result_value demo_handshake))"

definition demo_initial :: InitialMessage where
  "demo_initial = snd (the (result_value demo_handshake))"

lemma demo_offers: "offers demo_bob demo_offer" "pb_one_time_ec demo_offer \<noteq> []" "pb_one_time_pq demo_offer \<noteq> []"
proof -
  show "offers demo_bob demo_offer"
    unfolding demo_offer_def by (rule BuildPrekeyBundle_offers) (simp_all add: demo_bob_def demo_client_def)
  then show "pb_one_time_ec demo_offer \<noteq> []" "pb_one_time_pq demo_offer \<noteq> []" by (simp_all add: offers_def)
qed

lemma demo_handshake_ok: "demo_handshake = Ok (demo_started, demo_initial)"
proof -
  have "keys_wf toy_ssl demo_alice" using demo_wf(1) by (simp add: client_wf_def)
  then obtain y where y: "demo_handshake = Ok y"
    unfolding demo_handshake_def using initiate_handshake_total [OF toy_crypto_total] demo_offers(2,3) by blast
  show ?thesis unfolding demo_started_def demo_initial_def y by simp
qed

lemma demo_checks:
  "VerifyPrekeyBundleSignatures toy_ssl (BuildPrekeyBundle toy_ssl e demo_bob) = Ok ()"
  "check_bundle toy_ssl ''bob'' demo_offer = Ok ()"
proof -
  have "prekeys_signed toy_ssl demo_bob"
    by (simp add: prekeys_signed_def demo_bob_def demo_client_def Ed25519_Verify_def MlDsa65_Verify_def
        toy_ssl_def demo_ed_def demo_mldsa_def)
  then show v: "VerifyPrekeyBundleSignatures toy_ssl (BuildPrekeyBundle toy_ssl e demo_bob) = Ok ()" for e
    using crypto_totalD(6,7) [OF toy_crypto_total] demo_wf(2)
    by (intro own_bundle_verifies toy_ssl_correct) (auto simp: client_wf_def keys_wf_def mldsa_pair_def)
  have "VerifyPrekeyBundleSignatures toy_ssl (first_keys b) = VerifyPrekeyBundleSignatures toy_ssl b" for b
    by (simp add: VerifyPrekeyBundleSignatures_def first_keys_def BuildBundleSignInput_def)
  then show "check_bundle toy_ssl ''bob'' demo_offer = Ok ()"
    using v by (simp add: check_bundle_def demo_offer_def first_keys_def)
      (simp add: BuildPrekeyBundle_def Let_def demo_bob_def demo_client_def)
qed

lemma demo_guards:
  assumes "cl_seen_initial_session_ids c = {}" "cl_seen_initial_transcript_hashes c = {}"
  obtains c1 where "RememberInitialReplayGuards sid h c = (Ok (), c1)"
  using assms by (cases rule: remember_cases [of sid h c]) auto

text \<open>The steps of the run on any server that takes the bundle and the envelopes.\<close>

lemma demo_publishes:
  assumes "api_PublishBundle api (in_call demo_inputs 2) srv0
      (BuildPrekeyBundle toy_ssl (in_entropy demo_inputs 1) demo_bob) = (Ok (), srv)"
  obtains disk where "PublishPrekeys toy_ssl demo_inputs (Some api) (demo_sys demo_bob srv0) = (Ok (),
      \<lparr>sy_client = demo_bob\<lparr>cl_prekeys_dirty := False\<rparr>, sy_disk = disk, sy_server = srv, sy_tick = 4\<rparr>)"
proof (rule PublishPrekeys_succeeds [of api demo_inputs "demo_sys demo_bob srv0" toy_ssl srv])
  show "api_PublishBundle api (in_call demo_inputs (sy_tick (demo_sys demo_bob srv0) + 1))
      (sy_server (demo_sys demo_bob srv0)) (BuildPrekeyBundle toy_ssl
        (in_entropy demo_inputs (sy_tick (demo_sys demo_bob srv0))) (sy_client (demo_sys demo_bob srv0))) = (Ok (), srv)"
    using assms by (simp add: demo_sys_def numeral_eq_Suc)
  have "keys_wf toy_ssl (demo_bob\<lparr>cl_prekeys_dirty := False\<rparr>)"
    using demo_wf(2) by (simp add: client_wf_def keys_wf_def)
  then show "can_save toy_ssl demo_inputs ((sy_client (demo_sys demo_bob srv0))\<lparr>cl_prekeys_dirty := False\<rparr>)"
    by (intro demo_can_save) (simp_all add: demo_sys_def, simp_all add: demo_bob_def demo_client_def)
qed (auto simp: demo_sys_def intro: that)

lemma demo_published:
  "PublishPrekeys toy_ssl demo_inputs (Some demo_api) demo_bob_sys = (Ok (), demo_bob1)"
  "sy_client demo_bob1 = demo_bob\<lparr>cl_prekeys_dirty := False\<rparr>"
  "PublishBundle toy_ssl (InMemoryServer_init []) (BuildPrekeyBundle toy_ssl (in_entropy demo_inputs 1) demo_bob) =
     (Ok (), sy_server demo_bob1)"
proof -
  let ?b = "BuildPrekeyBundle toy_ssl (in_entropy demo_inputs 1) demo_bob"
  obtain srv where p: "PublishBundle toy_ssl (InMemoryServer_init []) ?b = (Ok (), srv)"
    using demo_checks(1) by (auto simp: PublishBundle_def BuildPrekeyBundle_def Let_def)
  then have "api_PublishBundle demo_api (in_call demo_inputs 2) (InMemoryServer_init []) ?b = (Ok (), srv)"
    by (simp add: in_memory_api_def)
  then obtain disk where "PublishPrekeys toy_ssl demo_inputs (Some demo_api) demo_bob_sys = (Ok (),
      \<lparr>sy_client = demo_bob\<lparr>cl_prekeys_dirty := False\<rparr>, sy_disk = disk, sy_server = srv, sy_tick = 4\<rparr>)"
    unfolding demo_bob_sys_def by (rule demo_publishes)
  then show "PublishPrekeys toy_ssl demo_inputs (Some demo_api) demo_bob_sys = (Ok (), demo_bob1)"
    "sy_client demo_bob1 = demo_bob\<lparr>cl_prekeys_dirty := False\<rparr>"
    "PublishBundle toy_ssl (InMemoryServer_init []) ?b = (Ok (), sy_server demo_bob1)"
    using p by (simp_all add: demo_bob1_def)
qed

lemma demo_recorded:
  assumes "RememberInitialReplayGuards sid h demo_alice = (Ok (), c1)"
  shows "client_wf toy_ssl c1" "cl_sessions_by_peer c1 = []"
    "cl_trusted_peer_identities c1 = [(''bob'', demo_peer 20)]" "cl_local_state_path c1 = ''/s/alice''"
  using wf_remember [OF demo_wf(1), of sid h] assms
  by (auto simp: RememberInitialReplayGuards_def Let_def demo_alice_def demo_client_def split: if_splits prod.splits)

lemma demo_session_saved:
  assumes "RememberInitialReplayGuards sid h demo_alice = (Ok (), c1)" "length ss \<le> 0 \<or> map fst ss = [''bob'']"
  shows "can_save toy_ssl demo_inputs (c1\<lparr>cl_sessions_by_peer := AList.update ''bob'' st ss\<rparr>)"
  using demo_recorded [OF assms(1)] assms(2)
  by (intro demo_can_save) (auto simp: client_wf_def keys_wf_def map_eq_Cons_conv)

lemma demo_initiates:
  assumes "api_AcquireBundleForSession api (in_call demo_inputs 1) srv0 ''bob'' = (Ok demo_offer, srv)"
    and "api_EnqueueEnvelope api (in_call demo_inputs 7) srv ''bob'' (FromInitial demo_initial) = (Ok (), srv')"
  obtains c1 disk where
    "RememberInitialReplayGuards (ss_session_id demo_started) (im_transcript_hash demo_initial) demo_alice = (Ok (), c1)"
    "InitiateSession toy_ssl demo_inputs (Some api) ''bob'' ''hi'' (demo_sys demo_alice srv0) = (Ok (),
      \<lparr>sy_client = set_session ''bob'' demo_started c1, sy_disk = disk, sy_server = srv', sy_tick = 9\<rparr>)"
proof -
  obtain c1 where r: "RememberInitialReplayGuards (ss_session_id demo_started)
      (im_transcript_hash demo_initial) demo_alice = (Ok (), c1)"
    by (rule demo_guards [of demo_alice]) (simp_all add: demo_alice_def demo_client_def)
  let ?s = "demo_sys demo_alice srv0"
  obtain disk where d: "InitiateSession toy_ssl demo_inputs (Some api) ''bob'' ''hi'' ?s = (Ok (),
      \<lparr>sy_client = set_session ''bob'' demo_started c1, sy_disk = disk, sy_server = srv', sy_tick = sy_tick ?s + 8\<rparr>)"
  proof (rule InitiateSession_succeeds)
    show "api_AcquireBundleForSession api (in_call demo_inputs (sy_tick ?s)) (sy_server ?s) ''bob'' = (Ok demo_offer, srv)"
      using assms(1) by (simp add: demo_sys_def)
    show "trusts (sy_client ?s) ''bob'' (pb_identity_sign_public_key demo_offer)
        (pb_identity_mldsa_public_key demo_offer) (pb_identity_dh_public_key demo_offer)"
      by (simp add: trusts_def demo_sys_def demo_alice_def demo_client_def demo_peer_def
          demo_offer_def first_keys_def BuildPrekeyBundle_def Let_def demo_bob_def demo_ed_def demo_mldsa_def
          demo_pair_def)
    show "in_rand demo_inputs (sy_tick ?s + 1) = Some [2]"
      by (simp add: demo_inputs_def demo_sys_def)
    show "initiate_handshake toy_ssl (in_entropy demo_inputs (sy_tick ?s + 2),
        in_entropy demo_inputs (sy_tick ?s + 3), in_entropy demo_inputs (sy_tick ?s + 4),
        in_entropy demo_inputs (sy_tick ?s + 5)) (sy_client ?s) ''bob'' demo_offer
        (HexEncode (fill 16 [2])) ''hi'' = Ok (demo_started, demo_initial)"
      using demo_handshake_ok by (simp add: demo_handshake_def demo_sys_def numeral_eq_Suc)
    show "RememberInitialReplayGuards (ss_session_id demo_started) (im_transcript_hash demo_initial)
        (sy_client ?s) = (Ok (), c1)"
      using r by (simp add: demo_sys_def)
    show "api_EnqueueEnvelope api (in_call demo_inputs (sy_tick ?s + 6)) srv ''bob''
        (FromInitial demo_initial) = (Ok (), srv')"
      using assms(2) by (simp add: demo_sys_def numeral_eq_Suc)
    show "can_save toy_ssl demo_inputs (set_session ''bob'' demo_started c1)"
      using demo_session_saved [OF r, of "[]"] demo_recorded(2) [OF r] by (simp add: set_session_def)
  qed (simp_all add: demo_checks toy_ssl_total)
  show ?thesis by (rule that [OF r]) (use d in \<open>simp add: demo_sys_def\<close>)
qed

lemma demo_initiated:
  obtains c1 where
    "InitiateSession toy_ssl demo_inputs (Some demo_api) ''bob'' ''hi'' demo_alice_sys = (Ok (), demo_alice1)"
    "RememberInitialReplayGuards (ss_session_id demo_started) (im_transcript_hash demo_initial) demo_alice = (Ok (), c1)"
    "sy_client demo_alice1 = set_session ''bob'' demo_started c1" "sy_tick demo_alice1 = 9"
proof -
  let ?b = "BuildPrekeyBundle toy_ssl (in_entropy demo_inputs 1) demo_bob"
  have u: "pb_user_id ?b = ''bob''" by (simp add: BuildPrekeyBundle_def Let_def demo_bob_def demo_client_def)
  have "fst (AcquireBundleForSession (sy_server demo_bob1) ''bob'') = Ok demo_offer"
    using im_server.acquire_published [of toy_ssl undefined "InMemoryServer_init []" ?b "sy_server demo_bob1" undefined]
      demo_published(3) u
    by (simp add: in_memory_api_def demo_offer_def BuildPrekeyBundle_pools)
      (simp add: demo_bob_def demo_client_def)
  then obtain srv where acq: "AcquireBundleForSession (sy_server demo_bob1) ''bob'' = (Ok demo_offer, srv)"
    by (metis prod.collapse)
  obtain srv' where enq: "EnqueueEnvelope srv ''bob'' (FromInitial demo_initial) = (Ok (), srv')"
    by (simp add: EnqueueEnvelope_def Let_def)
  have call: "api_AcquireBundleForSession demo_api (in_call demo_inputs 1) (sy_server demo_bob1) ''bob'' = (Ok demo_offer, srv)"
    "api_EnqueueEnvelope demo_api (in_call demo_inputs 7) srv ''bob'' (FromInitial demo_initial) = (Ok (), srv')"
    using acq enq by (simp_all add: in_memory_api_def)
  obtain c1 disk where r: "RememberInitialReplayGuards (ss_session_id demo_started)
      (im_transcript_hash demo_initial) demo_alice = (Ok (), c1)"
    and d: "InitiateSession toy_ssl demo_inputs (Some demo_api) ''bob'' ''hi'' demo_alice_sys = (Ok (),
      \<lparr>sy_client = set_session ''bob'' demo_started c1, sy_disk = disk, sy_server = srv', sy_tick = 9\<rparr>)"
    unfolding demo_alice_sys_def using call by (rule demo_initiates)
  show ?thesis by (rule that [OF _ r]) (use d in \<open>simp_all add: demo_alice1_def\<close>)
qed

lemma demo_sends:
  assumes r: "RememberInitialReplayGuards (ss_session_id demo_started) (im_transcript_hash demo_initial)
      demo_alice = (Ok (), c1)"
    and a: "sy_client s = set_session ''bob'' demo_started c1" "sy_tick s = 9"
    and enq: "\<And>m st'. session_send toy_ssl (in_entropy demo_inputs 9) (cl_user_id (sy_client s)) ''bob'' ''there''
      demo_started = (Ok m, st') \<Longrightarrow>
      \<exists>srv'. api_EnqueueEnvelope api (in_call demo_inputs 10) (sy_server s) ''bob'' (FromChat m) = (Ok (), srv')"
  obtains s' where "SendMessage toy_ssl demo_inputs (Some api) ''bob'' ''there'' s = (Ok (), s')" "sy_tick s' = 12"
proof -
  obtain m st' where m: "session_send toy_ssl (in_entropy demo_inputs (sy_tick s))
      (cl_user_id (sy_client s)) ''bob'' ''there'' demo_started = (Ok m, st')"
    using session_send_total [OF toy_crypto_total] by blast
  obtain srv' where e: "api_EnqueueEnvelope api (in_call demo_inputs 10) (sy_server s) ''bob'' (FromChat m) = (Ok (), srv')"
    using enq m a(2) by fastforce
  obtain disk where "SendMessage toy_ssl demo_inputs (Some api) ''bob'' ''there'' s = (Ok (),
      \<lparr>sy_client = set_session ''bob'' st' (sy_client s), sy_disk = disk, sy_server = srv', sy_tick = sy_tick s + 3\<rparr>)"
  proof (rule SendMessage_succeeds [OF _ m])
    show "map_of (cl_sessions_by_peer (sy_client s)) ''bob'' = Some demo_started"
      by (simp add: a set_session_def update_conv)
    show "api_EnqueueEnvelope api (in_call demo_inputs (sy_tick s + 1)) (sy_server s) ''bob'' (FromChat m) = (Ok (), srv')"
      using e by (simp add: a)
    show "can_save toy_ssl demo_inputs (set_session ''bob'' st' (sy_client s))"
      using demo_session_saved [OF r, of "AList.update ''bob'' demo_started []"] demo_recorded(2) [OF r]
      by (simp add: a set_session_def)
  qed
  then show ?thesis by (rule that) (simp add: a)
qed

lemma demo_sent:
  "SendMessage toy_ssl demo_inputs (Some demo_api) ''bob'' ''there'' demo_alice1 = (Ok (), demo_alice2)"
  "sy_tick demo_alice2 = 12"
proof -
  obtain c1 where r: "RememberInitialReplayGuards (ss_session_id demo_started) (im_transcript_hash demo_initial)
      demo_alice = (Ok (), c1)"
    and a: "sy_client demo_alice1 = set_session ''bob'' demo_started c1" "sy_tick demo_alice1 = 9"
    by (rule demo_initiated)
  obtain s' where "SendMessage toy_ssl demo_inputs (Some demo_api) ''bob'' ''there'' demo_alice1 = (Ok (), s')"
    "sy_tick s' = 12"
    by (rule demo_sends [OF r a, of demo_api]) (simp add: in_memory_api_def EnqueueEnvelope_def Let_def, rule that)
  then show "SendMessage toy_ssl demo_inputs (Some demo_api) ''bob'' ''there'' demo_alice1 = (Ok (), demo_alice2)"
    "sy_tick demo_alice2 = 12" by (simp_all add: demo_alice2_def)
qed

section \<open>The theorems on this run\<close>

lemma demo_trusts: "trusts_client demo_bob demo_alice"
  by (simp add: trusts_client_def trusts_def demo_bob_def demo_alice_def demo_client_def demo_peer_def
      demo_ed_def demo_mldsa_def demo_pair_def)

lemma demo_fresh_keys: "N \<le> 256 \<Longrightarrow> fresh_keys toy_ssl demo_inputs N"
proof -
  assume N: "N \<le> 256"
  have "(word_of_nat i :: u8) \<noteq> word_of_nat j" if "i < j" "j < N" for i j
  proof -
    have "unat (word_of_nat i :: u8) = i" "unat (word_of_nat j :: u8) = j"
      using that N by (simp_all add: unat_of_nat)
    with that(1) show ?thesis by auto
  qed
  then have "(word_of_nat j :: u8) \<noteq> word_of_nat i" if "i < j" "j < N" for i j using that by metis
  then show ?thesis
    by (simp add: fresh_keys_def toy_ssl_def X25519_GenerateKeyPair_def demo_inputs_def)
qed

lemma demo_not_seen: "\<not> HasSeenInitialReplayGuard demo_bob sid h"
  by (simp add: HasSeenInitialReplayGuard_def demo_bob_def demo_client_def)

theorem end_to_end_delivery_witness:
  "fst (ProcessInbox toy_ssl demo_inputs (Some (in_memory_api toy_ssl)) demo_bob2) = Ok [''hi'', ''there'']"
proof -
  obtain c1 where i: "InitiateSession toy_ssl demo_inputs (Some demo_api) ''bob'' ''hi'' demo_alice_sys =
      (Ok (), demo_alice1)"
    by (rule demo_initiated)
  have bob: "sy_client demo_bob_sys = demo_bob" "cl_user_id demo_bob = ''bob''"
    "sy_server demo_bob_sys = InMemoryServer_init []" "sy_client demo_alice_sys = demo_alice"
    "sy_server demo_alice_sys = sy_server demo_bob1"
    "cl_one_time_ec_pool demo_bob \<noteq> []" "cl_one_time_pq_pool demo_bob \<noteq> []"
    "cl_pending_inbox_ack_up_to_id demo_bob = None"
    by (simp_all add: demo_bob_sys_def demo_alice_sys_def demo_sys_def demo_bob_def demo_client_def)
  have sends: "send_texts toy_ssl demo_inputs demo_api ''bob'' [''there''] demo_alice1 = (Ok (), demo_alice2)"
    by (simp add: act_bind_def demo_sent(1))
  show ?thesis
  proof (rule end_to_end_delivery [where s_a = demo_alice_sys and s_b = demo_bob_sys and s_pub = demo_bob1
      and s_init = demo_alice1 and s_sent = demo_alice2 and inp = demo_inputs and inp_b = demo_inputs,
      OF toy_ssl_correct toy_ssl_total(1)])
    show "send_texts toy_ssl demo_inputs demo_api (cl_user_id (sy_client demo_bob_sys)) [''there'']
        demo_alice1 = (Ok (), demo_alice2)"
      by (simp only: bob sends)
  qed (simp_all add: bob demo_wf demo_trusts demo_published(1) i demo_sent(2) demo_fresh_keys
      demo_bob2_def kMaxInboxDrainPasses_def inbox_inv_def pending_envelopes_def inbox_room_def next_id_def
      ascending_def InMemoryServer_init_def unseen_def,
    simp_all add: demo_bob_def demo_client_def)
qed


lemma demo_accepts:
  obtains b' where "\<And>s inp. sy_client s = demo_bob \<Longrightarrow>
    HandleInitialMessage toy_ssl inp demo_initial s = (Ok ''hi'', s\<lparr>sy_client := b'\<rparr>)"
proof -
  have u: "cl_user_id demo_bob = ''bob''" by (simp add: demo_bob_def demo_client_def)
  obtain sb b' where "read_envelope toy_ssl (FromInitial demo_initial) demo_bob = Some (''hi'', b')"
    using read_initial_accepts [OF toy_ssl_correct toy_ssl_total(1) demo_wf demo_offers(1) demo_trusts
        demo_handshake_ok [unfolded demo_handshake_def, folded u] demo_not_seen] by blast
  then show ?thesis
    by (intro that HandleInitialMessage_reads) (simp add: read_envelope_def FromInitial_def)
qed

definition demo_bob_after :: "InMemoryServer sys" where
  "demo_bob_after = snd (HandleInitialMessage toy_ssl demo_inputs demo_initial demo_bob_sys)"

lemma demo_bob_handles:
  "HandleInitialMessage toy_ssl demo_inputs demo_initial demo_bob_sys = (Ok ''hi'', demo_bob_after)"
  "client_wf toy_ssl (sy_client demo_bob_sys)"
proof -
  have b: "sy_client demo_bob_sys = demo_bob" by (simp add: demo_bob_sys_def demo_sys_def)
  obtain b' where "\<And>s inp. sy_client s = demo_bob \<Longrightarrow>
    HandleInitialMessage toy_ssl inp demo_initial s = (Ok ''hi'', s\<lparr>sy_client := b'\<rparr> :: InMemoryServer sys)"
    by (rule demo_accepts) (rule that)
  from this [OF b] show "HandleInitialMessage toy_ssl demo_inputs demo_initial demo_bob_sys = (Ok ''hi'', demo_bob_after)"
    by (simp add: demo_bob_after_def)
  show "client_wf toy_ssl (sy_client demo_bob_sys)" by (simp add: b demo_wf)
qed


theorem one_time_keys_are_spent_witness:
  "5 \<notin> ote_id ` oe_public_part ` set (cl_one_time_ec_pool (sy_client demo_bob_after)) \<and>
   6 \<notin> otp_id ` oq_public_part ` set (cl_one_time_pq_pool (sy_client demo_bob_after))"
proof -
  have "im_selected_prekeys demo_initial = \<lparr>sel_signed_prekey_ec_id = ske_id (pb_signed_prekey_ec demo_offer),
       sel_signed_prekey_pq_id = skp_id (pb_signed_prekey_pq demo_offer),
       sel_one_time_ec_id = Some (ote_id (hd (pb_one_time_ec demo_offer))),
       sel_one_time_pq_id = Some (otp_id (hd (pb_one_time_pq demo_offer)))\<rparr>"
    by (rule initiate_handshake_Ok [OF demo_handshake_ok [unfolded demo_handshake_def]])
  moreover have "ote_id (hd (pb_one_time_ec demo_offer)) = 5" "otp_id (hd (pb_one_time_pq demo_offer)) = 6"
    by (simp_all add: demo_offer_def first_keys_def BuildPrekeyBundle_pools)
      (simp_all add: demo_bob_def demo_client_def)
  ultimately show ?thesis
    using one_time_keys_are_spent [OF demo_bob_handles(2,1)] by simp
qed

theorem client_stays_well_formed_witness:
  "client_wf toy_ssl (sy_client (client_run toy_ssl demo_inputs (Some (in_memory_api toy_ssl))
     [PublishOp, InboxOp, InitiateOp ''alice'' ''hello''] demo_bob_sys))"
  by (rule client_stays_well_formed [OF demo_bob_handles(2)])

theorem peer_identities_stay_pinned_witness:
  "\<exists>q. map_of (cl_trusted_peer_identities (sy_client (client_run toy_ssl demo_inputs
      (Some (in_memory_api toy_ssl)) [InboxOp, SendOp ''alice'' ''hello''] demo_bob_sys))) ''alice'' = Some q \<and>
     pi_sign_public_key q = replicate 32 10 \<and> pi_verified q"
proof -
  have "map_of (cl_trusted_peer_identities (sy_client demo_bob_sys)) ''alice'' = Some (demo_peer 10)"
    by (simp add: demo_bob_sys_def demo_sys_def demo_bob_def demo_client_def)
  from peer_identities_stay_pinned [OF this, of toy_ssl demo_inputs "Some (in_memory_api toy_ssl)"
      "[InboxOp, SendOp ''alice'' ''hello'']"]
  show ?thesis by (auto simp: demo_peer_def)
qed

lemma demo_alice_run:
  "client_run toy_ssl demo_inputs (Some demo_api) [InitiateOp ''bob'' ''hi''] demo_alice_sys = demo_alice1"
  "map_of (cl_sessions_by_peer (sy_client demo_alice1)) ''bob'' = Some demo_started"
  "cl_trusted_peer_identities (sy_client demo_alice1) = [(''bob'', demo_peer 20)]"
proof -
  obtain c1 where i: "InitiateSession toy_ssl demo_inputs (Some demo_api) ''bob'' ''hi'' demo_alice_sys =
      (Ok (), demo_alice1)"
    and r: "RememberInitialReplayGuards (ss_session_id demo_started) (im_transcript_hash demo_initial) demo_alice = (Ok (), c1)"
    and c: "sy_client demo_alice1 = set_session ''bob'' demo_started c1"
    by (rule demo_initiated)
  show "client_run toy_ssl demo_inputs (Some demo_api) [InitiateOp ''bob'' ''hi''] demo_alice_sys = demo_alice1"
    by (simp add: client_run_def i)
  show "map_of (cl_sessions_by_peer (sy_client demo_alice1)) ''bob'' = Some demo_started"
    by (simp add: c set_session_def update_conv)
  show "cl_trusted_peer_identities (sy_client demo_alice1) = [(''bob'', demo_peer 20)]"
    using demo_recorded(3) [OF r] by (simp add: c set_session_def)
qed

theorem sessions_only_with_verified_peers_witness:
  "\<exists>p. map_of (cl_trusted_peer_identities (sy_client demo_alice1)) ''bob'' = Some p \<and> pi_verified p"
proof -
  have "sessions_verified (sy_client demo_alice_sys)"
    by (simp add: sessions_verified_def demo_alice_sys_def demo_sys_def demo_alice_def demo_client_def)
  from sessions_only_with_verified_peers [OF this, of toy_ssl demo_inputs "Some demo_api" "[InitiateOp ''bob'' ''hi'']"
      "''bob''" demo_started]
  show ?thesis by (simp add: demo_alice_run(1)) (simp add: demo_alice_run)
qed

theorem only_the_user_verifies_peers_witness:
  "map_of (cl_trusted_peer_identities (sy_client demo_alice_sys)) ''bob'' = Some (demo_peer 20)"
proof (rule only_the_user_verifies_peers [of "[InitiateOp ''bob'' ''hi'']"])
  show "map_of (cl_trusted_peer_identities (sy_client (client_run toy_ssl demo_inputs (Some demo_api)
      [InitiateOp ''bob'' ''hi''] demo_alice_sys))) ''bob'' = Some (demo_peer 20)"
    unfolding demo_alice_run by simp
qed (simp_all add: is_verify_def demo_peer_def)

text \<open>Key ids drawn in the run: the counter in the first byte.\<close>

lemma demo_drawn_id: "be32 (drawn_id [w]) = [w, 0, 0, 0]"
  by (simp add: drawn_id_def fill_def numeral_eq_Suc be32_un_be32)

lemma demo_ids_available:
  assumes "1 \<le> lo" "hi \<le> 256" "set (one_time_ids c) \<subseteq> {5, 6}"
  shows "ids_available demo_inputs c lo hi"
proof -
  have inj: "i = j" if "(word_of_nat i :: u8) = word_of_nat j" "i < hi" "j < hi" for i j
  proof -
    have "unat (word_of_nat m :: u8) = m" if "m < hi" for m using that assms(2) by (simp add: unat_of_nat)
    with that show ?thesis by metis
  qed
  have z: "(word_of_nat n :: u8) \<noteq> 0" if "lo \<le> n" "n < hi" for n
    using inj [of n 0] that assms(1) by auto
  have "be32 0 = [0, 0, 0, 0]" "be32 5 = [0, 0, 0, 5]" "be32 6 = [0, 0, 0, 6]" by code_simp+
  then have "drawn_id [w] \<noteq> 0" "drawn_id [w] \<noteq> 5" "drawn_id [w] \<noteq> 6" if "w \<noteq> 0" for w
    using demo_drawn_id [of w] that by auto
  moreover have "inj_on (\<lambda>n. drawn_id (the (in_rand demo_inputs n))) {lo..<hi}"
    by (rule inj_onI) (use inj demo_drawn_id in \<open>simp add: demo_inputs_def, metis list.inject\<close>)
  ultimately show ?thesis
    using assms(3) z unfolding ids_available_def by (auto simp: demo_inputs_def)
qed

theorem refill_completes_witness:
  "\<exists>s'. RefillOneTimePrekeyPools toy_ssl demo_inputs demo_bob_sys = (Ok (), s') \<and>
     16 \<le> length (cl_one_time_ec_pool (sy_client s')) \<and> 16 \<le> length (cl_one_time_pq_pool (sy_client s'))"
proof -
  have "ids_available demo_inputs (sy_client demo_bob_sys) (sy_tick demo_bob_sys) (sy_tick demo_bob_sys + 64)"
    by (rule demo_ids_available)
      (simp_all add: demo_bob_sys_def demo_sys_def demo_bob_def demo_client_def one_time_ids_def)
  from refill_completes [OF toy_ssl_total(2) demo_bob_handles(2) this] show ?thesis
    by (auto simp: kOneTimePrekeyPoolTarget_def)
qed

definition demo_penv :: path_env where
  "demo_penv = \<lparr>pe_state_dir = Some ''/s'', pe_xdg_state_home = None, pe_home = None\<rparr>"

definition demo_lenv :: load_env where
  "demo_lenv = \<lparr>le_passphrase = Some ''pw'', le_read = Inr ()\<rparr>"

definition demo_created :: "unit sys" where
  "demo_created = the (result_value (Create toy_ssl demo_inputs demo_penv demo_lenv ''carol'' Map.empty () 1))"

lemma demo_create_ok:
  "LoadLocalState toy_ssl demo_lenv ''carol'' (DefaultLocalStatePath demo_penv ''carol'') Map.empty =
     Err ''state file missing''"
  "Create toy_ssl demo_inputs demo_penv demo_lenv ''carol'' Map.empty () 1 = Ok demo_created"
proof -
  show missing: "LoadLocalState toy_ssl demo_lenv ''carol'' (DefaultLocalStatePath demo_penv ''carol'') Map.empty =
     Err ''state file missing''"
    by (simp add: LoadLocalState_def ReadAllFile_def)
  obtain c where c: "new_identity toy_ssl (\<lambda>i. in_entropy demo_inputs (1 + i)) ''carol''
      (DefaultLocalStatePath demo_penv ''carol'') = Ok c"
    by (simp add: new_identity_def Let_def toy_ssl_def Ed25519_GenerateKeyPair_def MlDsa65_GenerateKeyPair_def
        X25519_GenerateKeyPair_def MlKem768_GenerateKeyPair_def Ed25519_Sign_def MlDsa65_Sign_def)
  then have pools: "one_time_ids c = []" "cl_local_state_path c = DefaultLocalStatePath demo_penv ''carol''"
    by (auto simp: new_identity_def Let_def toy_ssl_def Ed25519_GenerateKeyPair_def MlDsa65_GenerateKeyPair_def
        X25519_GenerateKeyPair_def MlKem768_GenerateKeyPair_def Ed25519_Sign_def MlDsa65_Sign_def one_time_ids_def)
  have "find_last_slash (DefaultLocalStatePath demo_penv ''carol'') = Some (Suc 1)"
    by code_simp
  then obtain s where "Create toy_ssl demo_inputs demo_penv demo_lenv ''carol'' Map.empty () 1 = Ok s"
    using Create_succeeds [OF toy_ssl_total(2) toy_ssl_correct(3) toy_ssl_total(3) missing c, where srv = "()" and k = 1]
      demo_ids_available [of "1 + 7" "1 + 71" c] pools demo_saves by auto
  then show "Create toy_ssl demo_inputs demo_penv demo_lenv ''carol'' Map.empty () 1 = Ok demo_created"
    by (simp add: demo_created_def)
qed


definition demo_disk :: disk where
  "demo_disk = snd (SaveLocalState toy_ssl (in_save demo_inputs 0) demo_bob Map.empty)"

theorem saved_state_is_loaded_witness:
  "LoadLocalState toy_ssl demo_lenv ''bob'' ''/s/bob'' demo_disk = Ok demo_bob"
proof -
  have path: "cl_local_state_path demo_bob = ''/s/bob''" "cl_user_id demo_bob = ''bob''"
    by (simp_all add: demo_bob_def demo_client_def)
  have "fst (SaveLocalState toy_ssl (in_save demo_inputs 0) demo_bob Map.empty) = Ok ()" by code_simp
  then have sv: "SaveLocalState toy_ssl (in_save demo_inputs 0) demo_bob Map.empty = (Ok (), demo_disk)"
    by (simp add: demo_disk_def prod_eq_iff)
  have "state_sizes toy_ssl demo_bob"
    by (simp add: state_sizes_def demo_bob_def demo_client_def strlen32_def len32_def demo_ed_def demo_mldsa_def
        demo_pair_def demo_kem_def demo_peer_def peer_sizes_def raw_sizes_def toy_ssl_def
        MlDsa65_ExportPrivateKey_def MlKem768_ExportPrivateKey_def)
  moreover have "raw_keys_correct toy_ssl"
    by (simp add: raw_keys_correct_def toy_ssl_def)
  moreover have "(case demo_disk ''/s/bob'' of None \<Rightarrow> True | Some bs \<Rightarrow> length bs \<le> 2000)" by code_simp
  then have "\<forall>bs. demo_disk (cl_local_state_path demo_bob) = Some bs \<longrightarrow> length bs \<le> kMaxStateFileBytes"
    by (auto simp: path kMaxStateFileBytes_def)
  ultimately have "LoadLocalState toy_ssl \<lparr>le_passphrase = se_passphrase (in_save demo_inputs 0), le_read = Inr ()\<rparr>
      (cl_user_id demo_bob) (cl_local_state_path demo_bob) demo_disk = Ok demo_bob"
    using saved_state_is_loaded [OF demo_wf(2) _ _ toy_ssl_correct(4) sv] by blast
  then show ?thesis by (simp add: path demo_lenv_def demo_inputs_def)
qed

end
