(* ===== verification/Sqlite_Store.thy ===== *)
theory Sqlite_Store
  imports In_Memory_Server
begin

text \<open>
  The store of \<^verbatim>\<open>src/server/sqlite_store.cpp\<close>. The database is the record \<open>db\<close>, one field per
  table; a statement of the source is a function on it, written next to the SQL it stands for. An
  \<^verbatim>\<open>INTEGER\<close> column holds a 64-bit word, which SQL compares as a signed number. SQLite itself is
  not modelled beyond that, but any of its calls may fail: each call asks the stream
  \<open>se_fault\<close> whether it fails, and with which message. Transactions keep the state at their
  begin, which a rollback, a crash or another connection sees; it is \<open>committed\<close>.

  The theorems are about calls under any faults (a call that fails leaves the committed tables as they
  were), and about calls without faults (the store passes the contract of \<open>Server_Api\<close>).
\<close>

section \<open>Tables\<close>

record SessionRow =
  sr_user_id :: string
  sr_issued_at_unix :: u64
  sr_expires_at_unix :: u64
  sr_revoked :: bool

record AuditRow =
  ar_event_time_unix :: u64
  ar_user_id :: string
  ar_event :: string
  ar_detail :: string

text \<open>
  A row of \<^verbatim>\<open>bundles\<close> is a bundle without one-time keys. The tables with a row id are lists in the
  order of the ids, with the last id \<^verbatim>\<open>AUTOINCREMENT\<close> gave.
\<close>

record db =
  db_accounts :: "string \<rightharpoonup> bytes"
  db_auth_challenges :: "string \<rightharpoonup> ChallengeState"
  db_sessions :: "bytes \<rightharpoonup> SessionRow"
  db_auth_audit_log :: "AuditRow list"
  db_bundles :: "string \<rightharpoonup> PrekeyBundle"
  db_one_time_ec :: "(u64 \<times> string \<times> OneTimePrekeyEc) list"
  db_one_time_ec_seq :: u64
  db_one_time_pq :: "(u64 \<times> string \<times> OneTimePrekeyPq) list"
  db_one_time_pq_seq :: u64
  db_inbox :: "(u64 \<times> string \<times> bytes) list"
  db_inbox_seq :: u64
  db_bundle_sig_columns :: "bool \<times> bool"

definition empty_db :: db where
  "empty_db = \<lparr>db_accounts = Map.empty, db_auth_challenges = Map.empty, db_sessions = Map.empty,
     db_auth_audit_log = [], db_bundles = Map.empty, db_one_time_ec = [], db_one_time_ec_seq = 0,
     db_one_time_pq = [], db_one_time_pq_seq = 0, db_inbox = [], db_inbox_seq = 0,
     db_bundle_sig_columns = (True, True)\<rparr>"

record SqliteStore =
  sq_db :: db
  sq_txn :: "db option"
  sq_token_hmac_secret :: bytes
  sq_auth_begin_attempts :: buckets
  sq_auth_finish_attempts :: buckets
  sq_required_registration_token :: string

definition committed :: "SqliteStore \<Rightarrow> db" where
  "committed st = (case sq_txn st of None \<Rightarrow> sq_db st | Some d \<Rightarrow> d)"

section \<open>Calls of SQLite\<close>

text \<open>What a call of the store reads from outside: faults and clock by the number of the read.\<close>

record sq_env =
  se_fault :: "nat \<Rightarrow> string option"
  se_now :: "nat \<Rightarrow> u64"
  se_rnd1 :: "bytes option"
  se_rnd2 :: "bytes option"

type_synonym 'a sq = "SqliteStore \<times> nat \<Rightarrow> 'a result \<times> SqliteStore \<times> nat"

definition sq_return :: "'a result \<Rightarrow> 'a sq" where
  "sq_return r s = (r, s)"

definition sq_bind :: "'a sq \<Rightarrow> ('a \<Rightarrow> 'b sq) \<Rightarrow> 'b sq" where
  "sq_bind m k s = (case m s of (Ok x, s') \<Rightarrow> k x s' | (Err e, s') \<Rightarrow> (Err e, s'))"

text \<open>A call whose result is not looked at.\<close>

definition sq_ignore :: "'a sq \<Rightarrow> 'b sq \<Rightarrow> 'b sq" where
  "sq_ignore m k s = k (snd (m s))"

text \<open>The messages of SQLite are not empty.\<close>

definition sqlite_errmsg :: "string \<Rightarrow> string" where
  "sqlite_errmsg e = (if e = [] then ''unknown error'' else e)"

text \<open>A call that may fail: the error text is made from the message of the fault.\<close>

definition sq_call :: "sq_env \<Rightarrow> (string \<Rightarrow> string) \<Rightarrow> (SqliteStore \<Rightarrow> 'a result \<times> SqliteStore) \<Rightarrow> 'a sq" where
  "sq_call env text f s =
     (let (st, t) = s
      in case se_fault env t of
           Some e \<Rightarrow> (Err (text (sqlite_errmsg e)), st, Suc t)
         | None \<Rightarrow> (let (r, st') = f st in (r, st', Suc t)))"

definition NowUnix_sq :: "sq_env \<Rightarrow> u64 sq" where
  "NowUnix_sq env s = (Ok (se_now env (snd s)), fst s, Suc (snd s))"

definition Prepare :: "sq_env \<Rightarrow> unit sq" where
  "Prepare env = sq_call env id (\<lambda>st. (Ok (), st))"

text \<open>\<^verbatim>\<open>BindText\<close>, \<^verbatim>\<open>BindBlob\<close>, \<^verbatim>\<open>BindU32\<close> and \<^verbatim>\<open>sqlite3_bind_int64\<close> differ in the text of their error.\<close>

definition BindText :: "sq_env \<Rightarrow> unit sq" where
  "BindText env = sq_call env (\<lambda>_. ''sqlite bind text failed'') (\<lambda>st. (Ok (), st))"

definition BindBlob :: "sq_env \<Rightarrow> unit sq" where
  "BindBlob env = sq_call env (\<lambda>_. ''sqlite bind blob failed'') (\<lambda>st. (Ok (), st))"

definition BindU32 :: "sq_env \<Rightarrow> unit sq" where
  "BindU32 env = sq_call env (\<lambda>_. ''sqlite bind int failed'') (\<lambda>st. (Ok (), st))"

definition bind_int64 :: "sq_env \<Rightarrow> string \<Rightarrow> unit sq" where
  "bind_int64 env text = sq_call env (\<lambda>_. text) (\<lambda>st. (Ok (), st))"

primrec sq_all :: "unit sq list \<Rightarrow> unit sq" where
  "sq_all [] = sq_return (Ok ())"
| "sq_all (m # ms) = sq_bind m (\<lambda>_. sq_all ms)"

text \<open>
  \<^verbatim>\<open>StepDone\<close> of a statement that changes the tables; the statement may itself refuse (a key that
  exists, no more ids, no value). The value is what \<^verbatim>\<open>sqlite3_changes\<close> reports.
\<close>

definition StepDone :: "sq_env \<Rightarrow> (db \<Rightarrow> (nat \<times> db) result) \<Rightarrow> nat sq" where
  "StepDone env f = sq_call env id (\<lambda>st. case f (sq_db st) of
     Err e \<Rightarrow> (Err e, st) | Ok (n, d) \<Rightarrow> (Ok n, st\<lparr>sq_db := d\<rparr>))"

text \<open>\<^verbatim>\<open>sqlite3_step\<close> of a query: a row, no row, or a failure, which is not yet an error of the caller.\<close>

datatype 'r step_rc = Row 'r | Done | Failed string

definition step_query :: "sq_env \<Rightarrow> (db \<Rightarrow> 'r option) \<Rightarrow> 'r step_rc sq" where
  "step_query env f s =
     (let (st, t) = s
      in case se_fault env t of
           Some e \<Rightarrow> (Ok (Failed (sqlite_errmsg e)), st, Suc t)
         | None \<Rightarrow> (Ok (case f (sq_db st) of None \<Rightarrow> Done | Some r \<Rightarrow> Row r), st, Suc t))"

text \<open>Preparing a statement, binding its parameters, running it.\<close>

definition sq_statement :: "sq_env \<Rightarrow> unit sq list \<Rightarrow> (db \<Rightarrow> (nat \<times> db) result) \<Rightarrow> nat sq" where
  "sq_statement env binds f =
     sq_bind (Prepare env) (\<lambda>_. sq_bind (sq_all binds) (\<lambda>_. StepDone env f))"

definition sq_query :: "sq_env \<Rightarrow> unit sq list \<Rightarrow> (db \<Rightarrow> 'r option) \<Rightarrow> 'r step_rc sq" where
  "sq_query env binds f =
     sq_bind (Prepare env) (\<lambda>_. sq_bind (sq_all binds) (\<lambda>_. step_query env f))"

text \<open>\<^verbatim>\<open>Exec\<close>, used for the schema and the transactions.\<close>

definition Exec :: "sq_env \<Rightarrow> (SqliteStore \<Rightarrow> unit result \<times> SqliteStore) \<Rightarrow> unit sq" where
  "Exec env f = sq_call env id f"

definition Begin :: "sq_env \<Rightarrow> unit sq" where
  "Begin env = Exec env (\<lambda>st. case sq_txn st of
     Some _ \<Rightarrow> (Err ''cannot start a transaction within a transaction'', st)
   | None \<Rightarrow> (Ok (), st\<lparr>sq_txn := Some (sq_db st)\<rparr>))"

definition Commit :: "sq_env \<Rightarrow> unit sq" where
  "Commit env = Exec env (\<lambda>st. case sq_txn st of
     None \<Rightarrow> (Err ''cannot commit - no transaction is active'', st)
   | Some _ \<Rightarrow> (Ok (), st\<lparr>sq_txn := None\<rparr>))"

definition Rollback :: "sq_env \<Rightarrow> unit sq" where
  "Rollback env = Exec env (\<lambda>st. case sq_txn st of
     None \<Rightarrow> (Err ''cannot rollback - no transaction is active'', st)
   | Some d \<Rightarrow> (Ok (), st\<lparr>sq_db := d, sq_txn := None\<rparr>))"

text \<open>
  The shape of the methods with a transaction: every error after the begin is followed by a
  rollback. A body that ends in \<open>Inl\<close> has found a reason to refuse: rollback as well.
\<close>

definition transact :: "sq_env \<Rightarrow> ('d + 'a) sq \<Rightarrow> ('d + 'a) sq" where
  "transact env body = sq_bind (Begin env) (\<lambda>_ s.
     case body s of
       (Err e, s1) \<Rightarrow> sq_ignore (Rollback env) (sq_return (Err e)) s1
     | (Ok (Inl d), s1) \<Rightarrow> sq_ignore (Rollback env) (sq_return (Ok (Inl d))) s1
     | (Ok (Inr x), s1) \<Rightarrow>
         (case Commit env s1 of
            (Err e, s2) \<Rightarrow> sq_ignore (Rollback env) (sq_return (Err e)) s2
          | (Ok _, s2) \<Rightarrow> (Ok (Inr x), s2)))"

text \<open>A refusal of the body is an error of the method.\<close>

definition sq_refuse :: "(string + 'a) sq \<Rightarrow> 'a sq" where
  "sq_refuse m = sq_bind m (\<lambda>x. case x of Inl e \<Rightarrow> sq_return (Err e) | Inr v \<Rightarrow> sq_return (Ok v))"

text \<open>An \<^verbatim>\<open>INTEGER PRIMARY KEY AUTOINCREMENT\<close> runs out at \<open>2 ^ 63 - 1\<close>.\<close>

definition next_rowid :: "u64 \<Rightarrow> u64 result" where
  "next_rowid seq = (if seq = 2 ^ 63 - 1 then Err ''database or disk is full'' else Ok (seq + 1))"

text \<open>\<^verbatim>\<open>std::string(reinterpret_cast<const char*>(text))\<close> ends at the first zero.\<close>

definition c_string :: "string \<Rightarrow> string" where
  "c_string s = takeWhile (\<lambda>c. c \<noteq> CHR 0x00) s"

section \<open>Opening\<close>

definition RandomBytes_sq :: "nat \<Rightarrow> bytes option \<Rightarrow> bytes result" where
  "RandomBytes_sq len rnd =
     (case rnd of None \<Rightarrow> Err ''RAND_bytes failed'' | Some bs \<Rightarrow> Ok (fill len bs))"

definition RandomHex_sq :: "nat \<Rightarrow> bytes option \<Rightarrow> string" where
  "RandomHex_sq len rnd = (case RandomBytes_sq len rnd of Err _ \<Rightarrow> [] | Ok bs \<Rightarrow> hex_string bs)"

text \<open>\<^verbatim>\<open>error.find(pattern) != npos\<close>\<close>

fun contains_text :: "string \<Rightarrow> string \<Rightarrow> bool" where
  "contains_text pat [] = (pat = [])"
| "contains_text pat (c # cs) = (take (length pat) (c # cs) = pat \<or> contains_text pat cs)"

definition ExecAllowingDuplicateColumn ::
    "sq_env \<Rightarrow> (SqliteStore \<Rightarrow> unit result \<times> SqliteStore) \<Rightarrow> unit sq" where
  "ExecAllowingDuplicateColumn env f s =
     (case Exec env f s of
        (Ok _, s') \<Rightarrow> (Ok (), s')
      | (Err e, s') \<Rightarrow> if contains_text ''duplicate column name'' e then (Ok (), s') else (Err e, s'))"

text \<open>
  The schema creates the tables that are not there; a database of an earlier version has a table
  \<^verbatim>\<open>bundles\<close> without the two signature columns, which are then added, filled with the empty blob.
\<close>

definition add_bundle_sig_ed :: "SqliteStore \<Rightarrow> unit result \<times> SqliteStore" where
  "add_bundle_sig_ed st =
     (if fst (db_bundle_sig_columns (sq_db st))
      then (Err ''duplicate column name: bundle_sig_ed25519'', st)
      else (Ok (), st\<lparr>sq_db := (sq_db st)\<lparr>
              db_bundle_sig_columns := (True, snd (db_bundle_sig_columns (sq_db st))),
              db_bundles := map_option (\<lambda>b. b\<lparr>pb_bundle_signature_ed25519 := []\<rparr>) \<circ> db_bundles (sq_db st)\<rparr>\<rparr>))"

definition add_bundle_sig_ml :: "SqliteStore \<Rightarrow> unit result \<times> SqliteStore" where
  "add_bundle_sig_ml st =
     (if snd (db_bundle_sig_columns (sq_db st))
      then (Err ''duplicate column name: bundle_sig_mldsa65'', st)
      else (Ok (), st\<lparr>sq_db := (sq_db st)\<lparr>
              db_bundle_sig_columns := (fst (db_bundle_sig_columns (sq_db st)), True),
              db_bundles := map_option (\<lambda>b. b\<lparr>pb_bundle_signature_mldsa65 := []\<rparr>) \<circ> db_bundles (sq_db st)\<rparr>\<rparr>))"

definition InitSchema :: "sq_env \<Rightarrow> unit sq" where
  "InitSchema env =
     sq_bind (Exec env (\<lambda>st. (Ok (), st))) (\<lambda>_.
     sq_bind (ExecAllowingDuplicateColumn env add_bundle_sig_ed) (\<lambda>_.
     sq_bind (ExecAllowingDuplicateColumn env add_bundle_sig_ml) (\<lambda>_.
     sq_return (Ok ()))))"

text \<open>
  \<^verbatim>\<open>SqliteStore::Open\<close>: a file that does not exist gives a database with the tables of the schema. The
  result is the store; the second component is the database afterwards, also when opening fails.
\<close>

definition SqliteStore_Open ::
    "sq_env \<Rightarrow> db option \<Rightarrow> string \<Rightarrow> SqliteStore result \<times> db option" where
  "SqliteStore_Open env file registration_secret =
     (case se_fault env 0 of
        Some e \<Rightarrow> (Err (sqlite_errmsg e), file)
      | None \<Rightarrow>
          (case RandomBytes_sq 32 (se_rnd1 env) of
             Err e \<Rightarrow> (Err e, file)
           | Ok secret \<Rightarrow>
               (let d = (case file of None \<Rightarrow> empty_db | Some d \<Rightarrow> d);
                    st = \<lparr>sq_db = d, sq_txn = None, sq_token_hmac_secret = secret,
                          sq_auth_begin_attempts = Map.empty, sq_auth_finish_attempts = Map.empty,
                          sq_required_registration_token = registration_secret\<rparr>
                in case InitSchema env (st, 1) of
                     (Err e, st', _) \<Rightarrow> (Err e, if se_fault env 1 \<noteq> None then file else Some (sq_db st'))
                   | (Ok _, st', _) \<Rightarrow> (Ok st', Some (sq_db st')))))"

section \<open>Authentication state\<close>

definition CleanupAuthState_sq :: "sq_env \<Rightarrow> u64 \<Rightarrow> unit sq" where
  "CleanupAuthState_sq env now =
     sq_bind (sq_statement env [bind_int64 env ''bind auth challenge cleanup failed''] (\<lambda>d.
       Ok (0, d\<lparr>db_auth_challenges :=
         erase_if (\<lambda>c. ch_used c \<or> ch_expires_at_unix c <s now) (db_auth_challenges d)\<rparr>))) (\<lambda>_.
     sq_bind (sq_statement env [bind_int64 env ''bind session cleanup failed''] (\<lambda>d.
       Ok (0, d\<lparr>db_sessions := erase_if (\<lambda>r. sr_expires_at_unix r <s now) (db_sessions d)\<rparr>))) (\<lambda>_.
     sq_return (Ok ())))"

definition HashToken :: "openssl \<Rightarrow> SqliteStore \<Rightarrow> bytes \<Rightarrow> bytes result" where
  "HashToken ssl st token = HmacSha256 ssl (sq_token_hmac_secret st) token"

definition sq_HashToken :: "openssl \<Rightarrow> bytes \<Rightarrow> bytes sq" where
  "sq_HashToken ssl token s = (HashToken ssl (fst s) token, s)"

definition AppendAuthAudit :: "sq_env \<Rightarrow> string \<Rightarrow> string \<Rightarrow> string \<Rightarrow> unit sq" where
  "AppendAuthAudit env user_id event detail =
     sq_bind (Prepare env) (\<lambda>_.
     sq_bind (NowUnix_sq env) (\<lambda>now.
     sq_bind (sq_all [bind_int64 env ''bind auth audit timestamp failed'', BindText env, BindText env, BindText env]) (\<lambda>_.
     sq_bind (StepDone env (\<lambda>d. Ok (1, d\<lparr>db_auth_audit_log := db_auth_audit_log d @
       [\<lparr>ar_event_time_unix = now, ar_user_id = user_id, ar_event = event, ar_detail = detail\<rparr>]\<rparr>))) (\<lambda>_.
     sq_return (Ok ())))))"

text \<open>\<^verbatim>\<open>AppendAuthAudit(user, event, detail); return Err(text);\<close>\<close>

definition reject :: "sq_env \<Rightarrow> string \<Rightarrow> string \<Rightarrow> string \<Rightarrow> string \<Rightarrow> 'a sq" where
  "reject env user_id event detail text =
     sq_ignore (AppendAuthAudit env user_id event detail) (sq_return (Err text))"

text \<open>A step on the fields of the object, and a test with its own way to fail.\<close>

definition sq_state :: "(SqliteStore \<Rightarrow> 'a result \<times> SqliteStore) \<Rightarrow> 'a sq" where
  "sq_state f s = (let (r, st) = f (fst s) in (r, st, snd s))"

definition sq_try :: "'a sq \<Rightarrow> (string \<Rightarrow> 'b sq) \<Rightarrow> ('a \<Rightarrow> 'b sq) \<Rightarrow> 'b sq" where
  "sq_try m no k s = (case m s of (Ok x, s') \<Rightarrow> k x s' | (Err e, s') \<Rightarrow> no e s')"

section \<open>Registration\<close>

definition rotate_account :: "sq_env \<Rightarrow> RegisterRequest \<Rightarrow> (string + unit) sq" where
  "rotate_account env request =
     sq_bind (sq_statement env [BindBlob env, BindText env] (\<lambda>d.
       Ok (if db_accounts d (rr_user_id request) = None then 0 else 1,
           d\<lparr>db_accounts := (\<lambda>u. if u = rr_user_id request
              then map_option (\<lambda>_. rr_transport_auth_public_key request) (db_accounts d u)
              else db_accounts d u)\<rparr>))) (\<lambda>_.
     sq_bind (sq_statement env [BindText env] (\<lambda>d.
       Ok (0, d\<lparr>db_sessions := map_option (\<lambda>r. if sr_user_id r = rr_user_id request \<and> \<not> sr_revoked r
              then r\<lparr>sr_revoked := True\<rparr> else r) \<circ> db_sessions d\<rparr>))) (\<lambda>_.
     sq_return (Ok (Inr ()))))"

text \<open>The part for a user with another key.\<close>

definition replace_identity ::
    "openssl \<Rightarrow> sq_env \<Rightarrow> RegisterRequest \<Rightarrow> bytes \<Rightarrow> unit sq" where
  "replace_identity ssl env request existing s =
     (let required = sq_required_registration_token (fst s);
          rotated = (case rr_rotation_signature_mldsa65 request of
               None \<Rightarrow> False
             | Some sig \<Rightarrow>
                 ok (MlDsa65_Verify ssl existing
                   (BuildTransportRegisterRotateSignInput (rr_user_id request) existing
                     (rr_transport_auth_public_key request)) sig));
          recovered = (if \<not> rotated \<and> required \<noteq> []
             then ok (VerifyProvisioningToken ssl required (rr_user_id request) (rr_registration_token request))
             else False)
      in if \<not> rotated \<and> \<not> recovered
         then reject env (rr_user_id request) ''register_rejected'' ''rotation_or_recovery_required''
           ''transport identity already registered with different key (rotation/recovery required)'' s
         else sq_bind (sq_refuse (transact env (rotate_account env request))) (\<lambda>_.
           sq_ignore (AppendAuthAudit env (rr_user_id request) ''register_rotated''
             (if rotated then ''rotation_signature'' else ''recovery_token'')) (sq_return (Ok ()))) s)"

definition insert_account :: "openssl \<Rightarrow> sq_env \<Rightarrow> RegisterRequest \<Rightarrow> unit sq" where
  "insert_account ssl env request s =
     (let required = sq_required_registration_token (fst s);
          token_verify = (if required \<noteq> []
            then VerifyProvisioningToken ssl required (rr_user_id request) (rr_registration_token request) else Ok ())
      in if \<not> ok token_verify
         then reject env (rr_user_id request) ''register_rejected'' ''invalid_registration_token'' (error token_verify) s
         else sq_bind (sq_statement env [BindText env, BindBlob env] (\<lambda>d.
             case db_accounts d (rr_user_id request) of
               Some _ \<Rightarrow> Err ''UNIQUE constraint failed: accounts.user_id''
             | None \<Rightarrow> Ok (1, d\<lparr>db_accounts :=
                 (db_accounts d)(rr_user_id request \<mapsto> rr_transport_auth_public_key request)\<rparr>))) (\<lambda>_.
           sq_ignore (AppendAuthAudit env (rr_user_id request) ''register_ok'' ''new_account'') (sq_return (Ok ()))) s)"

definition RegisterTransportIdentity_sq :: "openssl \<Rightarrow> sq_env \<Rightarrow> RegisterRequest \<Rightarrow> unit sq" where
  "RegisterTransportIdentity_sq ssl env request =
     (let u = rr_user_id request; no = reject env u ''register_rejected''
      in if \<not> IsValidUserId u
      then no ''invalid_user_id'' ''invalid user_id (allowed: lowercase a-z, 0-9, '-', '_', '.', max 64)''
      else if rr_transport_auth_public_key request = [] \<or>
              length (rr_transport_auth_public_key request) > kMaxTransportAuthPublicKeyBytes
      then no ''invalid_public_key_size'' ''invalid transport auth public key size''
      else if length (rr_proof_signature_mldsa65 request) < kMinMlDsaSignatureBytes \<or>
              length (rr_proof_signature_mldsa65 request) > kMaxMlDsaSignatureBytes
      then no ''invalid_registration_proof_size'' ''invalid registration proof signature size''
      else if (case rr_rotation_signature_mldsa65 request of
                 None \<Rightarrow> False
               | Some sig \<Rightarrow> length sig < kMinMlDsaSignatureBytes \<or> length sig > kMaxMlDsaSignatureBytes)
      then no ''invalid_rotation_signature_size'' ''invalid rotation signature size''
      else if \<not> ok (MlDsa65_Verify ssl (rr_transport_auth_public_key request)
                (BuildTransportRegisterSignInput u (rr_transport_auth_public_key request))
                (rr_proof_signature_mldsa65 request))
      then no ''registration_proof_invalid'' ''transport identity registration proof invalid''
      else sq_bind (sq_query env [BindText env] (\<lambda>d. db_accounts d u)) (\<lambda>rc.
        case rc of
          Row existing \<Rightarrow>
            if existing \<noteq> rr_transport_auth_public_key request then replace_identity ssl env request existing
            else sq_ignore (AppendAuthAudit env u ''register_ok'' ''already_registered'') (sq_return (Ok ()))
        | Failed e \<Rightarrow> sq_return (Err e)
        | Done \<Rightarrow> insert_account ssl env request))"

section \<open>Challenges and sessions\<close>

definition limit_begin :: "string \<Rightarrow> u64 \<Rightarrow> unit sq" where
  "limit_begin u now = sq_state (\<lambda>st.
     let (r, m) = EnforceRateLimit (sq_auth_begin_attempts st) u now kMaxAuthBeginAttemptsPerWindow
           kAuthRateWindowSeconds ''auth begin rate limit exceeded''
     in (r, st\<lparr>sq_auth_begin_attempts := m\<rparr>))"

definition limit_finish :: "string \<Rightarrow> u64 \<Rightarrow> unit sq" where
  "limit_finish u now = sq_state (\<lambda>st.
     let (r, m) = EnforceRateLimit (sq_auth_finish_attempts st) u now kMaxAuthFinishAttemptsPerWindow
           kAuthRateWindowSeconds ''auth finish rate limit exceeded''
     in (r, st\<lparr>sq_auth_finish_attempts := m\<rparr>))"

definition insert_challenge :: "sq_env \<Rightarrow> string \<Rightarrow> ChallengeState \<Rightarrow> nat sq" where
  "insert_challenge env challenge_id c =
     sq_statement env [BindText env, BindText env, BindBlob env, BindBlob env,
       bind_int64 env ''bind auth challenge expiry failed''] (\<lambda>d.
     case db_auth_challenges d challenge_id of
       Some _ \<Rightarrow> Err ''UNIQUE constraint failed: auth_challenges.challenge_id''
     | None \<Rightarrow> Ok (1, d\<lparr>db_auth_challenges := (db_auth_challenges d)(challenge_id \<mapsto> c)\<rparr>))"

definition BeginTransportAuthentication_sq :: "sq_env \<Rightarrow> AuthBeginRequest \<Rightarrow> AuthBeginResponse sq" where
  "BeginTransportAuthentication_sq env request =
     (let u = abq_user_id request; no = reject env u ''auth_begin_rejected''
      in sq_bind (NowUnix_sq env) (\<lambda>now.
         sq_bind (CleanupAuthState_sq env now) (\<lambda>_.
         if \<not> IsValidUserId u then no ''invalid_user_id'' ''invalid user_id''
         else if length (abq_client_nonce request) \<noteq> kExpectedAuthNonceBytes
         then no ''invalid_client_nonce_size'' ''invalid client nonce size''
         else sq_try (limit_begin u now) (no ''rate_limit'') (\<lambda>_.
         sq_bind (sq_query env [BindText env] (\<lambda>d. db_accounts d u)) (\<lambda>rc.
         case rc of Row _ \<Rightarrow>
           (let challenge_id = RandomHex_sq 16 (se_rnd1 env); expires_at = now + 60
            in case RandomBytes_sq 32 (se_rnd2 env) of
                 Err _ \<Rightarrow> sq_return (Err ''RNG failed'')
               | Ok server_nonce \<Rightarrow>
                   if challenge_id = [] then sq_return (Err ''RNG failed'')
                   else sq_bind (insert_challenge env challenge_id
                       \<lparr>ch_user_id = u, ch_client_nonce = abq_client_nonce request, ch_server_nonce = server_nonce,
                        ch_expires_at_unix = expires_at, ch_used = False\<rparr>) (\<lambda>_.
                     sq_ignore (AppendAuthAudit env u ''auth_begin_ok'' ''challenge_issued'') (sq_return
                       (Ok \<lparr>abr_challenge_id = challenge_id, abr_server_nonce = server_nonce,
                            abr_expires_at_unix = expires_at\<rparr>))))
         | _ \<Rightarrow> no ''unknown_user'' ''authentication failed'')))))"

text \<open>The transaction of \<^verbatim>\<open>FinishTransportAuthentication\<close>; a refusal carries the detail for the audit log and the error.\<close>

definition use_challenge :: "sq_env \<Rightarrow> AuthFinishRequest \<Rightarrow> (string \<times> string + unit) sq" where
  "use_challenge env request =
     sq_bind (sq_query env [BindText env] (\<lambda>d. db_auth_challenges d (afq_challenge_id request))) (\<lambda>rc.
     case rc of Row c \<Rightarrow>
       if ch_used c then sq_return (Ok (Inl (''challenge_used'', ''challenge already used'')))
       else sq_bind (NowUnix_sq env) (\<lambda>now.
         if now > ch_expires_at_unix c then sq_return (Ok (Inl (''challenge_expired'', ''challenge expired'')))
         else if c_string (ch_user_id c) \<noteq> afq_user_id request \<or>
                 ch_client_nonce c \<noteq> afq_client_nonce request \<or>
                 ch_server_nonce c \<noteq> afq_server_nonce request \<or>
                 ch_expires_at_unix c \<noteq> afq_expires_at_unix request
         then sq_return (Ok (Inl (''challenge_mismatch'', ''challenge mismatch'')))
         else sq_bind (sq_statement env [BindText env] (\<lambda>d.
             case db_auth_challenges d (afq_challenge_id request) of
               Some c \<Rightarrow> if ch_used c then Ok (0, d)
                 else Ok (1, d\<lparr>db_auth_challenges :=
                   (db_auth_challenges d)(afq_challenge_id request \<mapsto> c\<lparr>ch_used := True\<rparr>)\<rparr>)
             | None \<Rightarrow> Ok (0, d))) (\<lambda>changes.
           if changes \<noteq> 1 then sq_return (Ok (Inl (''challenge_used'', ''challenge already used'')))
           else sq_return (Ok (Inr ()))))
     | _ \<Rightarrow> sq_return (Ok (Inl (''unknown_challenge'', ''unknown challenge''))))"

definition insert_session :: "sq_env \<Rightarrow> bytes \<Rightarrow> SessionRow \<Rightarrow> nat sq" where
  "insert_session env token_hash r =
     sq_statement env [BindBlob env, BindText env, bind_int64 env ''bind session timestamps failed'',
       bind_int64 env ''bind session timestamps failed''] (\<lambda>d.
     case db_sessions d token_hash of
       Some _ \<Rightarrow> Err ''UNIQUE constraint failed: sessions.token_hash''
     | None \<Rightarrow> Ok (1, d\<lparr>db_sessions := (db_sessions d)(token_hash \<mapsto> r)\<rparr>))"

text \<open>After the commit: the signature is verified and the session stored.\<close>

definition issue_session_sq :: "openssl \<Rightarrow> sq_env \<Rightarrow> u64 \<Rightarrow> AuthFinishRequest \<Rightarrow> AuthFinishResponse sq" where
  "issue_session_sq ssl env now request =
     (let u = afq_user_id request; no = reject env u ''auth_finish_rejected''
      in sq_bind (sq_query env [BindText env] (\<lambda>d. db_accounts d u)) (\<lambda>rc.
         case rc of Row transport_auth_pub \<Rightarrow>
           if \<not> ok (MlDsa65_Verify ssl transport_auth_pub
                (BuildTransportAuthSignInput u (afq_client_nonce request) (afq_server_nonce request)
                  (afq_challenge_id request) (afq_expires_at_unix request)) (afq_signature_mldsa65 request))
           then no ''signature_invalid'' ''auth signature invalid''
           else sq_bind (sq_return (RandomBytes_sq 32 (se_rnd1 env))) (\<lambda>token.
             sq_bind (sq_HashToken ssl token) (\<lambda>token_hash.
             sq_bind (insert_session env token_hash \<lparr>sr_user_id = u, sr_issued_at_unix = now,
               sr_expires_at_unix = now + 900, sr_revoked = False\<rparr>) (\<lambda>_.
             sq_ignore (AppendAuthAudit env u ''auth_finish_ok'' ''session_issued'') (sq_return
               (Ok \<lparr>afr_session_token = token, afr_expires_at_unix = now + 900\<rparr>)))))
         | _ \<Rightarrow> no ''unknown_user'' ''authentication failed''))"

definition FinishTransportAuthentication_sq ::
    "openssl \<Rightarrow> sq_env \<Rightarrow> AuthFinishRequest \<Rightarrow> AuthFinishResponse sq" where
  "FinishTransportAuthentication_sq ssl env request =
     (let u = afq_user_id request; no = reject env u ''auth_finish_rejected''
      in sq_bind (NowUnix_sq env) (\<lambda>now.
         sq_bind (CleanupAuthState_sq env now) (\<lambda>_.
         if \<not> IsValidUserId u then no ''invalid_user_id'' ''invalid user_id''
         else if \<not> IsValidChallengeId (afq_challenge_id request)
         then no ''invalid_challenge_id'' ''invalid challenge id''
         else if length (afq_client_nonce request) \<noteq> kExpectedAuthNonceBytes \<or>
                 length (afq_server_nonce request) \<noteq> kExpectedAuthNonceBytes
         then no ''invalid_nonce_size'' ''invalid auth nonce size''
         else if length (afq_signature_mldsa65 request) < kMinMlDsaSignatureBytes \<or>
                 length (afq_signature_mldsa65 request) > kMaxMlDsaSignatureBytes
         then no ''invalid_signature_size'' ''invalid auth signature size''
         else sq_try (limit_finish u now) (no ''rate_limit'') (\<lambda>_.
         sq_bind (transact env (use_challenge env request)) (\<lambda>x.
         case x of
           Inl (detail, text) \<Rightarrow> no detail text
         | Inr _ \<Rightarrow> issue_session_sq ssl env now request)))))"

definition AuthenticateSessionToken_sq :: "openssl \<Rightarrow> sq_env \<Rightarrow> bytes \<Rightarrow> string sq" where
  "AuthenticateSessionToken_sq ssl env session_token =
     sq_bind (NowUnix_sq env) (\<lambda>now.
     sq_bind (CleanupAuthState_sq env now) (\<lambda>_.
     if length session_token \<noteq> kExpectedSessionTokenBytes
     then reject env ''unknown'' ''session_rejected'' ''invalid_token_size'' ''invalid session token size''
     else sq_bind (sq_HashToken ssl session_token) (\<lambda>token_hash.
       sq_bind (sq_query env [BindBlob env] (\<lambda>d. db_sessions d token_hash)) (\<lambda>rc.
       case rc of Row r \<Rightarrow>
         (let user = c_string (sr_user_id r)
          in if sr_revoked r then reject env user ''session_rejected'' ''revoked'' ''session revoked''
             else if now > sr_expires_at_unix r then reject env user ''session_rejected'' ''expired'' ''session expired''
             else sq_ignore (AppendAuthAudit env user ''session_ok'' ''authenticated'') (sq_return (Ok user)))
       | _ \<Rightarrow> reject env ''unknown'' ''session_rejected'' ''invalid_session'' ''invalid session''))))"

definition RevokeSessionToken_sq :: "openssl \<Rightarrow> sq_env \<Rightarrow> bytes \<Rightarrow> unit sq" where
  "RevokeSessionToken_sq ssl env session_token =
     (if length session_token \<noteq> kExpectedSessionTokenBytes
      then reject env ''unknown'' ''logout_rejected'' ''invalid_token_size'' ''invalid session token size''
      else sq_bind (sq_HashToken ssl session_token) (\<lambda>token_hash.
        sq_bind (sq_query env [BindBlob env] (\<lambda>d. db_sessions d token_hash)) (\<lambda>rc.
        case rc of Row r \<Rightarrow>
          (let user = c_string (sr_user_id r)
           in sq_bind (sq_statement env [BindBlob env] (\<lambda>d.
                Ok (if db_sessions d token_hash = None then 0 else 1,
                    d\<lparr>db_sessions := (\<lambda>h. if h = token_hash
                       then map_option (\<lambda>r. r\<lparr>sr_revoked := True\<rparr>) (db_sessions d h) else db_sessions d h)\<rparr>))) (\<lambda>changes.
              if changes \<noteq> 1 then reject env user ''logout_rejected'' ''invalid_session'' ''invalid session''
              else sq_ignore (AppendAuthAudit env user ''logout_ok'' ''session_revoked'') (sq_return (Ok ()))))
        | _ \<Rightarrow> reject env ''unknown'' ''logout_rejected'' ''invalid_session'' ''invalid session'')))"

section \<open>Prekey bundles\<close>

definition bundle_row :: "PrekeyBundle \<Rightarrow> PrekeyBundle" where
  "bundle_row b = b\<lparr>pb_one_time_ec := [], pb_one_time_pq := []\<rparr>"

text \<open>
  An empty vector has no data, and \<^verbatim>\<open>sqlite3_bind_blob\<close> of a null pointer binds \<^verbatim>\<open>NULL\<close>, which the columns
  of the keys and signatures do not take. The blobs of the other tables are never empty.
\<close>

definition not_null :: "string \<Rightarrow> (string \<times> bytes) list \<Rightarrow> unit result" where
  "not_null table cols =
     (case filter (\<lambda>(_, b). b = []) cols of
        [] \<Rightarrow> Ok ()
      | (col, _) # _ \<Rightarrow> Err (''NOT NULL constraint failed: '' @ table @ ''.'' @ col))"

definition bundle_blobs :: "PrekeyBundle \<Rightarrow> (string \<times> bytes) list" where
  "bundle_blobs b =
     [(''identity_sign_public_key'', pb_identity_sign_public_key b),
      (''identity_mldsa_public_key'', pb_identity_mldsa_public_key b),
      (''identity_dh_public_key'', pb_identity_dh_public_key b),
      (''spk_ec_public_key'', ske_public_key (pb_signed_prekey_ec b)),
      (''spk_ec_sig_ed25519'', ske_signature_ed25519 (pb_signed_prekey_ec b)),
      (''spk_ec_sig_mldsa65'', ske_signature_mldsa65 (pb_signed_prekey_ec b)),
      (''spk_pq_public_key'', skp_public_key (pb_signed_prekey_pq b)),
      (''spk_pq_sig_ed25519'', skp_signature_ed25519 (pb_signed_prekey_pq b)),
      (''spk_pq_sig_mldsa65'', skp_signature_mldsa65 (pb_signed_prekey_pq b)),
      (''bundle_sig_ed25519'', pb_bundle_signature_ed25519 b),
      (''bundle_sig_mldsa65'', pb_bundle_signature_mldsa65 b)]"

definition upsert_bundle :: "sq_env \<Rightarrow> PrekeyBundle \<Rightarrow> nat sq" where
  "upsert_bundle env bundle =
     sq_statement env
       [BindText env, BindBlob env, BindBlob env, BindBlob env,
        BindU32 env, BindBlob env, BindBlob env, BindBlob env,
        BindU32 env, BindBlob env, BindBlob env, BindBlob env,
        BindBlob env, BindBlob env, BindText env, BindText env] (\<lambda>d.
     rbind (not_null ''bundles'' (bundle_blobs bundle)) (\<lambda>_.
     Ok (1, d\<lparr>db_bundles := (db_bundles d)(pb_user_id bundle \<mapsto> bundle_row bundle)\<rparr>)))"

definition InsertOneTimeEc :: "sq_env \<Rightarrow> string \<Rightarrow> OneTimePrekeyEc \<Rightarrow> nat sq" where
  "InsertOneTimeEc env user_id key =
     sq_statement env [BindText env, BindU32 env, BindBlob env] (\<lambda>d.
     rbind (not_null ''one_time_ec'' [(''public_key'', ote_public_key key)]) (\<lambda>_.
     rbind (next_rowid (db_one_time_ec_seq d)) (\<lambda>i.
     Ok (1, d\<lparr>db_one_time_ec := db_one_time_ec d @ [(i, user_id, key)], db_one_time_ec_seq := i\<rparr>))))"

definition InsertOneTimePq :: "sq_env \<Rightarrow> string \<Rightarrow> OneTimePrekeyPq \<Rightarrow> nat sq" where
  "InsertOneTimePq env user_id key =
     sq_statement env [BindText env, BindU32 env, BindBlob env] (\<lambda>d.
     rbind (not_null ''one_time_pq'' [(''public_key'', otp_public_key key)]) (\<lambda>_.
     rbind (next_rowid (db_one_time_pq_seq d)) (\<lambda>i.
     Ok (1, d\<lparr>db_one_time_pq := db_one_time_pq d @ [(i, user_id, key)], db_one_time_pq_seq := i\<rparr>))))"

primrec sq_each :: "('x \<Rightarrow> nat sq) \<Rightarrow> 'x list \<Rightarrow> unit sq" where
  "sq_each f [] = sq_return (Ok ())"
| "sq_each f (x # xs) = sq_bind (f x) (\<lambda>_. sq_each f xs)"

definition publish_body :: "sq_env \<Rightarrow> PrekeyBundle \<Rightarrow> (string + unit) sq" where
  "publish_body env bundle =
     (let u = pb_user_id bundle
      in sq_bind (upsert_bundle env bundle) (\<lambda>_.
         sq_bind (sq_statement env [BindText env] (\<lambda>d.
           Ok (0, d\<lparr>db_one_time_ec := filter (\<lambda>(_, v, _). v \<noteq> u) (db_one_time_ec d)\<rparr>))) (\<lambda>_.
         sq_bind (sq_statement env [BindText env] (\<lambda>d.
           Ok (0, d\<lparr>db_one_time_pq := filter (\<lambda>(_, v, _). v \<noteq> u) (db_one_time_pq d)\<rparr>))) (\<lambda>_.
         sq_bind (sq_each (InsertOneTimeEc env u) (pb_one_time_ec bundle)) (\<lambda>_.
         sq_bind (sq_each (InsertOneTimePq env u) (pb_one_time_pq bundle)) (\<lambda>_.
         sq_return (Ok (Inr ()))))))))"

definition PublishBundle_sq :: "openssl \<Rightarrow> sq_env \<Rightarrow> PrekeyBundle \<Rightarrow> unit sq" where
  "PublishBundle_sq ssl env bundle =
     (if pb_version bundle \<noteq> kProtocolVersion then sq_return (Err ''unsupported bundle version'')
      else if pb_cipher_suite bundle \<noteq> kCipherSuite then sq_return (Err ''unsupported bundle cipher suite'')
      else case VerifyPrekeyBundleSignatures ssl bundle of
        Err e \<Rightarrow> sq_return (Err (''invalid prekey bundle signatures: '' @ e))
      | Ok _ \<Rightarrow> sq_refuse (transact env (publish_body env bundle)))"

text \<open>The columns of a row as \<^verbatim>\<open>AcquireBundleForSession\<close> reads them.\<close>

definition read_bundle_row :: "string \<Rightarrow> PrekeyBundle \<Rightarrow> PrekeyBundle" where
  "read_bundle_row user_id row =
     row\<lparr>pb_user_id := user_id, pb_one_time_ec := [], pb_one_time_pq := [],
         pb_version := c_string (pb_version row), pb_cipher_suite := c_string (pb_cipher_suite row)\<rparr>"

text \<open>\<^verbatim>\<open>WHERE user_id = ? ORDER BY rowid LIMIT 1\<close>\<close>

definition first_of :: "string \<Rightarrow> (u64 \<times> string \<times> 'k) list \<Rightarrow> (u64 \<times> 'k) option" where
  "first_of user_id rows =
     (case filter (\<lambda>(_, v, _). v = user_id) rows of [] \<Rightarrow> None | (i, _, k) # _ \<Rightarrow> Some (i, k))"

definition delete_row :: "u64 \<Rightarrow> (u64 \<times> string \<times> 'k) list \<Rightarrow> (u64 \<times> string \<times> 'k) list" where
  "delete_row i rows = filter (\<lambda>(j, _, _). j \<noteq> i) rows"

definition acquire_body :: "sq_env \<Rightarrow> string \<Rightarrow> (string + PrekeyBundle) sq" where
  "acquire_body env user_id =
     sq_bind (sq_query env [BindText env] (\<lambda>d. db_bundles d user_id)) (\<lambda>rc.
     case rc of Row row \<Rightarrow>
       (let bundle = read_bundle_row user_id row
        in sq_bind (sq_query env [BindText env] (\<lambda>d. first_of user_id (db_one_time_ec d))) (\<lambda>ec_rc.
           case ec_rc of Failed e \<Rightarrow> sq_return (Err e) | _ \<Rightarrow>
           sq_bind (sq_query env [BindText env] (\<lambda>d. first_of user_id (db_one_time_pq d))) (\<lambda>pq_rc.
           case pq_rc of Failed e \<Rightarrow> sq_return (Err e) | _ \<Rightarrow>
           (case (ec_rc, pq_rc) of
              (Row (ec_rowid, ec), Row (pq_rowid, pq)) \<Rightarrow>
                sq_bind (sq_statement env [bind_int64 env ''bind one-time ec row delete failed''] (\<lambda>d.
                  Ok (1, d\<lparr>db_one_time_ec := delete_row ec_rowid (db_one_time_ec d)\<rparr>))) (\<lambda>_.
                sq_bind (sq_statement env [bind_int64 env ''bind one-time pq row delete failed''] (\<lambda>d.
                  Ok (1, d\<lparr>db_one_time_pq := delete_row pq_rowid (db_one_time_pq d)\<rparr>))) (\<lambda>_.
                sq_return (Ok (Inr (bundle\<lparr>pb_one_time_ec := [ec], pb_one_time_pq := [pq]\<rparr>)))))
            | _ \<Rightarrow> sq_return (Ok (Inr bundle))))))
     | _ \<Rightarrow> sq_return (Ok (Inl ''no prekey bundle for user'')))"

definition AcquireBundleForSession_sq :: "sq_env \<Rightarrow> string \<Rightarrow> PrekeyBundle sq" where
  "AcquireBundleForSession_sq env user_id = sq_refuse (transact env (acquire_body env user_id))"

section \<open>Inboxes\<close>

definition EnqueueEnvelope_sq :: "sq_env \<Rightarrow> string \<Rightarrow> Envelope \<Rightarrow> unit sq" where
  "EnqueueEnvelope_sq env user_id envelope =
     sq_bind (sq_return (SerializeEnvelope envelope)) (\<lambda>serialized.
     sq_bind (sq_statement env [BindText env, BindBlob env] (\<lambda>d.
       rbind (next_rowid (db_inbox_seq d)) (\<lambda>i.
       Ok (1, d\<lparr>db_inbox := db_inbox d @ [(i, user_id, serialized)], db_inbox_seq := i\<rparr>)))) (\<lambda>_.
     sq_return (Ok ())))"

text \<open>
  The loop over the rows, which are at most \<^verbatim>\<open>kMaxDrainInboxBatchItems\<close>: each \<^verbatim>\<open>sqlite3_step\<close> may fail,
  and so may the one after the last row.
\<close>

fun drain_rows :: "sq_env \<Rightarrow> (u64 \<times> bytes) list \<Rightarrow> InboxEnvelope list \<Rightarrow> nat \<Rightarrow> InboxEnvelope list sq" where
  "drain_rows env [] out total_payload_bytes =
     sq_bind (sq_call env id (\<lambda>st. (Ok (), st))) (\<lambda>_. sq_return (Ok out))"
| "drain_rows env ((inbox_id, payload) # rows) out total_payload_bytes =
     sq_bind (sq_call env id (\<lambda>st. (Ok (), st))) (\<lambda>_.
     let estimated_size = length payload + 8 + 8
     in if out \<noteq> [] \<and> total_payload_bytes + estimated_size > kMaxDrainInboxBatchBytes
        then sq_return (Ok out)
        else sq_bind (sq_return (DeserializeEnvelope payload)) (\<lambda>envelope.
          drain_rows env rows (out @ [\<lparr>ie_inbox_id = inbox_id, ie_envelope = envelope\<rparr>])
            (total_payload_bytes + estimated_size)))"

definition rows_of :: "string \<Rightarrow> db \<Rightarrow> (u64 \<times> bytes) list" where
  "rows_of user_id d = map (\<lambda>(i, _, p). (i, p)) (filter (\<lambda>(_, v, _). v = user_id) (db_inbox d))"

definition drain_body :: "sq_env \<Rightarrow> string \<Rightarrow> u64 option \<Rightarrow> (string + InboxEnvelope list) sq" where
  "drain_body env user_id ack_up_to_inbox_id =
     sq_bind (case ack_up_to_inbox_id of
         None \<Rightarrow> sq_return (Ok 0)
       | Some ack \<Rightarrow> sq_statement env [BindText env, bind_int64 env ''bind inbox ack id failed''] (\<lambda>d.
           Ok (0, d\<lparr>db_inbox := filter (\<lambda>(i, v, _). \<not> (v = user_id \<and> i \<le>s ack)) (db_inbox d)\<rparr>))) (\<lambda>_.
     sq_bind (Prepare env) (\<lambda>_.
     sq_bind (sq_all [BindText env, bind_int64 env ''bind inbox drain limit failed'']) (\<lambda>_.
     sq_bind (\<lambda>s. drain_rows env (take kMaxDrainInboxBatchItems (rows_of user_id (sq_db (fst s)))) [] 0 s) (\<lambda>out.
     sq_return (Ok (Inr out))))))"

definition DrainInbox_sq :: "sq_env \<Rightarrow> string \<Rightarrow> u64 option \<Rightarrow> InboxEnvelope list sq" where
  "DrainInbox_sq env user_id ack_up_to_inbox_id =
     sq_refuse (transact env (drain_body env user_id ack_up_to_inbox_id))"

end
