(* ===== verification/Sqlite_Laws.thy ===== *)
theory Sqlite_Laws
  imports Sqlite_Store
begin

text \<open>
  What the SQLite store keeps when any of its calls of SQLite may fail. The locale \<open>sq_frame\<close> says
  once how a relation between the states before and after a call passes through the code of the
  store; its interpretations are that code outside \<open>transact\<close> starts and ends no transaction, that
  preparing and binding change nothing, and that a rejection touches the audit log only. With them a
  method that reports an error leaves the committed tables alone.
\<close>

section \<open>Relations between the states before and after a call\<close>

definition frames :: "(SqliteStore \<Rightarrow> SqliteStore \<Rightarrow> bool) \<Rightarrow> 'a sq \<Rightarrow> bool" where
  "frames R m \<longleftrightarrow> (\<forall>s r s'. m s = (r, s') \<longrightarrow> R (fst s) (fst s'))"

lemma framesI: "(\<And>s r s'. m s = (r, s') \<Longrightarrow> R (fst s) (fst s')) \<Longrightarrow> frames R m"
  unfolding frames_def by blast

lemma framesD: "frames R m \<Longrightarrow> m s = (r, s') \<Longrightarrow> R (fst s) (fst s')"
  unfolding frames_def by blast

lemma sq_return_iff: "sq_return r s = (r', s') \<longleftrightarrow> r = r' \<and> s = s'"
  by (auto simp: sq_return_def)

lemma sq_bind_cases:
  assumes "sq_bind m k s = (r, s')"
  obtains e where "m s = (Err e, s')" "r = Err e" | x s1 where "m s = (Ok x, s1)" "k x s1 = (r, s')"
  using assms by (auto simp: sq_bind_def split: prod.splits result.splits)

lemma sq_try_cases:
  assumes "sq_try m no k s = (r, s')"
  obtains e s1 where "m s = (Err e, s1)" "no e s1 = (r, s')" | x s1 where "m s = (Ok x, s1)" "k x s1 = (r, s')"
  using assms by (auto simp: sq_try_def split: prod.splits result.splits)

lemmas sq_bind_calls = Prepare_def BindText_def BindBlob_def BindU32_def bind_int64_def

locale sq_frame =
  fixes R :: "SqliteStore \<Rightarrow> SqliteStore \<Rightarrow> bool"
  assumes refl: "R st st"
    and trans: "R st st' \<Longrightarrow> R st' st'' \<Longrightarrow> R st st''"
begin

lemma frames_return: "frames R (sq_return r)"
  by (simp add: frames_def sq_return_iff refl)

lemma frames_bind: "frames R m \<Longrightarrow> (\<And>x. frames R (k x)) \<Longrightarrow> frames R (sq_bind m k)"
  by (rule framesI, erule sq_bind_cases) (blast dest: framesD intro: trans)+

lemma frames_ignore: "frames R m \<Longrightarrow> frames R k \<Longrightarrow> frames R (sq_ignore m k)"
  by (rule framesI, unfold sq_ignore_def)
    (metis framesD [of R m] framesD [of R k] trans prod.collapse)

lemma frames_try:
  "frames R m \<Longrightarrow> (\<And>e. frames R (no e)) \<Longrightarrow> (\<And>x. frames R (k x)) \<Longrightarrow> frames R (sq_try m no k)"
  by (rule framesI, erule sq_try_cases) (blast dest: framesD intro: trans)+

lemma frames_if: "frames R a \<Longrightarrow> frames R b \<Longrightarrow> frames R (if c then a else b)"
  by simp

lemma frames_read: "(\<And>st. frames R (m st)) \<Longrightarrow> frames R (\<lambda>s. m (fst s) s)"
  unfolding frames_def by blast

lemma frames_call: "(\<And>st. R st (snd (f st))) \<Longrightarrow> frames R (sq_call env text f)"
  unfolding frames_def sq_call_def
  by (auto simp: Let_def refl split: prod.splits option.splits) (metis snd_conv)

lemma frames_now: "frames R (NowUnix_sq env)"
  by (auto simp: frames_def NowUnix_sq_def refl)

lemma frames_step_query: "frames R (step_query env f)"
  by (auto simp: frames_def step_query_def Let_def refl split: prod.splits option.splits)

lemma frames_state: "(\<And>st. R st (snd (f st))) \<Longrightarrow> frames R (sq_state f)"
  unfolding frames_def sq_state_def by (auto simp: Let_def split: prod.splits) (metis snd_conv)

lemma frames_hash: "frames R (sq_HashToken ssl token)"
  by (auto simp: frames_def sq_HashToken_def refl)

lemma frames_binds:
  "frames R (Prepare env)" "frames R (BindText env)" "frames R (BindBlob env)"
  "frames R (BindU32 env)" "frames R (bind_int64 env text)"
  unfolding sq_bind_calls by (rule frames_call, simp add: refl)+

lemma frames_all: "\<forall>m\<in>set ms. frames R m \<Longrightarrow> frames R (sq_all ms)"
  by (induction ms) (auto intro: frames_return frames_bind)

lemma frames_each: "(\<And>x. frames R (f x)) \<Longrightarrow> frames R (sq_each f xs)"
  by (induction xs) (auto intro: frames_return frames_bind)

lemma frames_done:
  "(\<And>st n d. f (sq_db st) = Ok (n, d) \<Longrightarrow> R st (st\<lparr>sq_db := d\<rparr>)) \<Longrightarrow> frames R (StepDone env f)"
  unfolding StepDone_def by (rule frames_call) (auto simp: refl split: result.split)

lemma frames_statement:
  "\<forall>m\<in>set binds. frames R m \<Longrightarrow> (\<And>st n d. f (sq_db st) = Ok (n, d) \<Longrightarrow> R st (st\<lparr>sq_db := d\<rparr>)) \<Longrightarrow>
     frames R (sq_statement env binds f)"
  unfolding sq_statement_def by (intro frames_bind frames_binds frames_all frames_done) simp_all

lemma frames_query: "\<forall>m\<in>set binds. frames R m \<Longrightarrow> frames R (sq_query env binds f)"
  unfolding sq_query_def by (intro frames_bind frames_binds frames_all frames_step_query)

lemmas frame_intros = frames_return frames_bind frames_ignore frames_try frames_if frames_now
  frames_hash frames_each frames_query frames_statement

end

locale sq_frame_audit = sq_frame +
  assumes audit: "R st (st\<lparr>sq_db := (sq_db st)\<lparr>db_auth_audit_log := rows\<rparr>\<rparr>)"
begin

lemma frames_audit: "frames R (AppendAuthAudit env u event detail)"
  unfolding AppendAuthAudit_def
  by (intro frame_intros frames_done frames_binds frames_all) (auto simp: audit frames_binds)

lemma frames_reject: "frames R (reject env u event detail text)"
  unfolding reject_def by (intro frame_intros frames_audit)

end

section \<open>Transactions\<close>

interpretation still: sq_frame "(=)"
  by unfold_locales simp_all

interpretation txn: sq_frame_audit "\<lambda>st st'. sq_txn st' = sq_txn st"
  by unfold_locales simp_all

abbreviation keeps_txn :: "'a sq \<Rightarrow> bool" where
  "keeps_txn \<equiv> frames (\<lambda>st st'. sq_txn st' = sq_txn st)"

lemma transact_unfold:
  "transact env body (st, t) =
     (case se_fault env t of
        Some e \<Rightarrow> (Err (sqlite_errmsg e), st, Suc t)
      | None \<Rightarrow>
          (case sq_txn st of
             Some _ \<Rightarrow> (Err ''cannot start a transaction within a transaction'', st, Suc t)
           | None \<Rightarrow>
               (case body (st\<lparr>sq_txn := Some (sq_db st)\<rparr>, Suc t) of
                  (Err e, s1) \<Rightarrow> (Err e, snd (Rollback env s1))
                | (Ok (Inl d), s1) \<Rightarrow> (Ok (Inl d), snd (Rollback env s1))
                | (Ok (Inr x), s1) \<Rightarrow>
                    (case Commit env s1 of
                       (Err e, s2) \<Rightarrow> (Err e, snd (Rollback env s2))
                     | (Ok _, s2) \<Rightarrow> (Ok (Inr x), s2)))))"
  by (cases "body (st\<lparr>sq_txn := Some (sq_db st)\<rparr>, Suc t)")
    (auto simp: transact_def sq_bind_def Begin_def Exec_def sq_call_def sq_ignore_def sq_return_def
      split: option.split prod.split result.split sum.split)

lemma rollback_committed: "committed (fst (snd (Rollback env s))) = committed (fst s)"
  by (cases s) (auto simp: Rollback_def Exec_def sq_call_def committed_def split: option.split)

lemma commit_Ok:
  "Commit env s = (Ok u, s') \<Longrightarrow> s' = ((fst s)\<lparr>sq_txn := None\<rparr>, Suc (snd s))"
  by (cases s) (auto simp: Commit_def Exec_def sq_call_def split: option.splits)

lemma commit_Err: "Commit env s = (Err e, s') \<Longrightarrow> fst s' = fst s"
  by (cases s) (auto simp: Commit_def Exec_def sq_call_def split: option.splits)

text \<open>A transaction that is not committed leaves no trace.\<close>

lemma transact_aborts:
  assumes body: "keeps_txn body" and run: "transact env body s = (r, s')"
    and r: "\<nexists>x. r = Ok (Inr x)"
  shows "committed (fst s') = committed (fst s)"
proof (cases s)
  case (Pair st t)
  show ?thesis
  proof (cases "se_fault env t = None \<and> sq_txn st = None")
    case False
    then show ?thesis using run Pair by (auto simp: transact_unfold split: option.splits)
  next
    case True
    let ?s = "(st\<lparr>sq_txn := Some (sq_db st)\<rparr>, Suc t)"
    obtain r1 s1 where b: "body ?s = (r1, s1)" by (cases "body ?s") (rule that)
    have "committed (fst s1) = sq_db st" using framesD [OF body b] by (simp add: committed_def)
    then show ?thesis using run r True b Pair
      by (auto simp: transact_unfold rollback_committed split: result.splits sum.splits prod.splits
          dest!: commit_Err) (auto simp: committed_def)
  qed
qed

text \<open>A transaction that is committed has run its body on the tables.\<close>

lemma transact_commits:
  assumes "transact env body (st, t) = (Ok (Inr x), s')"
  obtains s1 where "sq_txn st = None" "body (st\<lparr>sq_txn := Some (sq_db st)\<rparr>, Suc t) = (Ok (Inr x), s1)"
    "fst s' = (fst s1)\<lparr>sq_txn := None\<rparr>"
  using assms
  by (auto simp: transact_unfold split: option.splits result.splits sum.splits prod.splits dest!: commit_Ok)

text \<open>The code between begin and commit starts and ends no transaction.\<close>

lemma keeps_txn_rows: "keeps_txn (drain_rows env rows out n)"
  by (induction env rows out n rule: drain_rows.induct)
    (auto simp: Let_def intro!: txn.frame_intros txn.frames_call)

lemma keeps_txn_publish: "keeps_txn (publish_body env b)"
  unfolding publish_body_def upsert_bundle_def InsertOneTimeEc_def InsertOneTimePq_def Let_def
  by (intro txn.frame_intros) (auto simp: txn.frames_binds)

lemma keeps_txn_acquire: "keeps_txn (acquire_body env u)"
  unfolding acquire_body_def
  by (auto simp: Let_def txn.frames_binds split: step_rc.split intro!: txn.frame_intros)

lemma keeps_txn_drain: "keeps_txn (drain_body env u ack)"
  unfolding drain_body_def
  by (auto simp: txn.frames_binds split: option.split
      intro!: txn.frame_intros txn.frames_all txn.frames_read
        [of "\<lambda>st. drain_rows env (take n (rows_of u (sq_db st))) [] 0" for n] keeps_txn_rows)

lemma keeps_txn_rotate: "keeps_txn (rotate_account env request)"
  unfolding rotate_account_def by (intro txn.frame_intros) (auto simp: txn.frames_binds)

lemma keeps_txn_use: "keeps_txn (use_challenge env request)"
  unfolding use_challenge_def
  by (auto simp: txn.frames_binds split: step_rc.split intro!: txn.frame_intros)

section \<open>Failed calls\<close>

definition same_but_audit :: "db \<Rightarrow> db \<Rightarrow> bool" where
  "same_but_audit d d' \<longleftrightarrow> d\<lparr>db_auth_audit_log := []\<rparr> = d'\<lparr>db_auth_audit_log := []\<rparr>"

text \<open>
  \<open>quiet\<close>: the committed tables stay, apart from the audit log. \<open>atomic\<close>: they do if the call fails.
\<close>

abbreviation quiet_step :: "SqliteStore \<Rightarrow> SqliteStore \<Rightarrow> bool" where
  "quiet_step st st' \<equiv> same_but_audit (committed st) (committed st')"

interpretation quiet: sq_frame_audit quiet_step
  by unfold_locales (auto simp: same_but_audit_def committed_def split: option.splits)

definition atomic :: "'a sq \<Rightarrow> bool" where
  "atomic m \<longleftrightarrow> (\<forall>s e s'. m s = (Err e, s') \<longrightarrow> quiet_step (fst s) (fst s'))"

definition succeeds :: "'a sq \<Rightarrow> bool" where
  "succeeds m \<longleftrightarrow> (\<forall>s. \<exists>x. fst (m s) = Ok x)"

lemma atomicD: "atomic m \<Longrightarrow> m s = (Err e, s') \<Longrightarrow> quiet_step (fst s) (fst s')"
  unfolding atomic_def by blast

lemma atomicI: "(\<And>s e s'. m s = (Err e, s') \<Longrightarrow> quiet_step (fst s) (fst s')) \<Longrightarrow> atomic m"
  unfolding atomic_def by blast

lemma atomic_quiet: "frames quiet_step m \<Longrightarrow> atomic m"
  unfolding frames_def atomic_def by blast

lemma atomic_bind: "frames quiet_step m \<Longrightarrow> (\<And>x. atomic (k x)) \<Longrightarrow> atomic (sq_bind m k)"
  by (rule atomicI, erule sq_bind_cases) (blast dest: framesD atomicD intro: quiet.trans)+

lemma atomic_bind_succeeds:
  "atomic m \<Longrightarrow> (\<And>x. succeeds (k x)) \<Longrightarrow> atomic (sq_bind m k)"
  by (rule atomicI, erule sq_bind_cases)
    (blast dest: atomicD, metis succeeds_def fst_conv result.distinct(1))

lemma succeeds_return: "succeeds (sq_return (Ok x))" "succeeds (sq_ignore m (sq_return (Ok x)))"
  by (simp_all add: succeeds_def sq_return_def sq_ignore_def)

lemma atomic_statement:
  assumes "\<forall>m\<in>set binds. frames quiet_step m"
  shows "atomic (sq_statement env binds f)"
proof -
  have "atomic (StepDone env f)"
    by (auto simp: atomic_def StepDone_def sq_call_def Let_def quiet.refl
        split: prod.splits option.splits result.splits)
  then show ?thesis
    unfolding sq_statement_def using assms by (intro atomic_bind quiet.frames_binds quiet.frames_all)
qed

lemma atomic_refuse: "keeps_txn body \<Longrightarrow> atomic (sq_refuse (transact env body))"
  unfolding sq_refuse_def
  by (rule atomicI, erule sq_bind_cases)
    (auto simp: sq_return_def transact_aborts same_but_audit_def split: sum.splits)

lemma atomic_if: "atomic a \<Longrightarrow> atomic b \<Longrightarrow> atomic (if c then a else b)"
  by simp

lemma atomic_rejects: "atomic (sq_return r)" "atomic (reject env u event detail text)"
  by (rule atomic_quiet quiet.frames_return quiet.frames_reject)+

lemmas atomic_intros = succeeds_return atomic_statement atomic_refuse atomic_if atomic_rejects

lemma atomic_account:
  "atomic (replace_identity ssl env request existing)" "atomic (insert_account ssl env request)"
proof -
  have 1: "atomic (sq_bind (sq_refuse (transact env (rotate_account env request))) (\<lambda>_.
      sq_ignore (AppendAuthAudit env u event detail) (sq_return (Ok ()))))" for u event detail
    by (intro atomic_bind_succeeds atomic_intros keeps_txn_rotate)
  have 2: "atomic (sq_bind (sq_statement env [BindText env, BindBlob env] f) (\<lambda>_.
      sq_ignore (AppendAuthAudit env u event detail) (sq_return (Ok ()))))" for f u event detail
    by (intro atomic_bind_succeeds atomic_intros) (simp add: quiet.frames_binds)
  note n = atomicD [OF atomic_rejects(2)]
  show "atomic (replace_identity ssl env request existing)"
    by (rule atomicI) (auto simp only: replace_identity_def Let_def split: if_splits dest!: n atomicD [OF 1])
  show "atomic (insert_account ssl env request)"
    by (rule atomicI) (auto simp only: insert_account_def Let_def split: if_splits dest!: n atomicD [OF 2])
qed

lemma atomic_register: "atomic (RegisterTransportIdentity_sq ssl env request)"
  unfolding RegisterTransportIdentity_sq_def Let_def
  by (intro atomic_intros atomic_bind quiet.frames_query)
    (auto simp: quiet.frames_binds split: step_rc.split intro: atomic_intros atomic_account
      atomic_quiet [OF quiet.frames_ignore [OF quiet.frames_audit quiet.frames_return]])

lemma atomic_publish: "atomic (PublishBundle_sq ssl env b)"
  unfolding PublishBundle_sq_def
  by (auto split: result.split intro!: atomic_intros keeps_txn_publish)

lemma atomic_enqueue: "atomic (EnqueueEnvelope_sq env u e)"
  unfolding EnqueueEnvelope_sq_def
  by (intro atomic_bind quiet.frames_return atomic_bind_succeeds atomic_intros) (simp add: quiet.frames_binds)

section \<open>Calls that succeed\<close>

lemma sq_bind_Ok: "sq_bind m k s = (Ok y, s') \<longleftrightarrow> (\<exists>x s1. m s = (Ok x, s1) \<and> k x s1 = (Ok y, s'))"
  by (auto simp: sq_bind_def split: prod.splits result.splits)

lemma reject_Ok [simp]: "reject env u event detail text s \<noteq> (Ok r, s')"
  by (simp add: reject_def sq_ignore_def sq_return_def)

lemma still_binds [simp]:
  "frames (=) (BindText env)" "frames (=) (BindBlob env)" "frames (=) (BindU32 env)"
  "frames (=) (bind_int64 env text)"
  by (rule still.frames_binds)+

lemma sq_binds_Ok:
  assumes "sq_bind (Prepare env) (\<lambda>_. sq_bind (sq_all binds) (\<lambda>_. k)) s = (Ok y, s')"
    and "\<forall>m\<in>set binds. frames (=) m"
  obtains t where "k (fst s, t) = (Ok y, s')"
proof -
  obtain s1 s2 u v where p: "Prepare env s = (Ok u, s1)" and b: "sq_all binds s1 = (Ok v, s2)"
    and k: "k s2 = (Ok y, s')" using assms(1) by (auto simp: sq_bind_Ok)
  have "fst s = fst s2"
    using framesD [OF still.frames_binds(1) p] framesD [OF still.frames_all [OF assms(2)] b] by simp
  with k that [of "snd s2"] show ?thesis by (metis prod.collapse)
qed

lemma sq_statement_Ok:
  assumes "sq_statement env binds f s = (Ok n, s')" and "\<forall>m\<in>set binds. frames (=) m"
  obtains d where "f (sq_db (fst s)) = Ok (n, d)" "fst s' = (fst s)\<lparr>sq_db := d\<rparr>"
  using assms(1) unfolding sq_statement_def
  by (rule sq_binds_Ok [OF _ assms(2)])
    (auto simp: StepDone_def sq_call_def Let_def split: option.splits result.splits intro: that)

lemma sq_query_Ok:
  assumes "sq_query env binds f s = (Ok rc, s')" and "\<forall>m\<in>set binds. frames (=) m"
  shows "fst s' = fst s" and "rc = Row r \<Longrightarrow> f (sq_db (fst s)) = Some r" and "rc = Done \<Longrightarrow> f (sq_db (fst s)) = None"
  using assms(1) unfolding sq_query_def
  by (rule sq_binds_Ok [OF _ assms(2)];
      auto simp: step_query_def Let_def split: option.splits)+

text \<open>A query whose caller refuses unless there is a row.\<close>

lemma sq_row_Ok:
  assumes "sq_bind (sq_query env binds f) (\<lambda>rc. case rc of Row x \<Rightarrow> k x | Done \<Rightarrow> no | Failed e \<Rightarrow> no' e) s = (Ok y, s')"
    and "\<forall>m\<in>set binds. frames (=) m"
    and "\<And>s. no s \<noteq> (Ok y, s')" and "\<And>e s. no' e s \<noteq> (Ok y, s')"
  obtains x t where "f (sq_db (fst s)) = Some x" "k x (fst s, t) = (Ok y, s')"
proof -
  obtain rc s1 where q: "sq_query env binds f s = (Ok rc, s1)"
    and k: "(case rc of Row x \<Rightarrow> k x | Done \<Rightarrow> no | Failed e \<Rightarrow> no' e) s1 = (Ok y, s')"
    using assms(1) by (auto simp: sq_bind_Ok)
  obtain x where "rc = Row x" using k assms(3,4) by (cases rc) auto
  with k sq_query_Ok [OF q assms(2)] that [of x "snd s1"] show ?thesis by (cases s1) simp
qed

interpretation audit: sq_frame_audit
  "\<lambda>st st'. \<exists>rows. st' = st\<lparr>sq_db := (sq_db st)\<lparr>db_auth_audit_log := rows\<rparr>\<rparr>"
proof
  fix st show "\<exists>rows. st = st\<lparr>sq_db := (sq_db st)\<lparr>db_auth_audit_log := rows\<rparr>\<rparr>"
    by (rule exI [of _ "db_auth_audit_log (sq_db st)"]) simp
qed auto

text \<open>An entry of the audit log, written or not, before the result is returned.\<close>

lemma sq_audit_Ok:
  assumes "sq_ignore (AppendAuthAudit env u event detail) (sq_return (Ok x)) s = (Ok y, s')"
  obtains rows where "y = x" "fst s' = (fst s)\<lparr>sq_db := (sq_db (fst s))\<lparr>db_auth_audit_log := rows\<rparr>\<rparr>"
proof -
  obtain r s1 where a: "AppendAuthAudit env u event detail s = (r, s1)"
    by (cases "AppendAuthAudit env u event detail s") (rule that)
  with assms framesD [OF audit.frames_audit a] that show ?thesis
    by (auto simp: sq_ignore_def sq_return_def)
qed

lemma CleanupAuthState_Ok:
  assumes "CleanupAuthState_sq env now s = (Ok x, s')"
  shows "fst s' = (fst s)\<lparr>sq_db := (sq_db (fst s))\<lparr>
    db_auth_challenges := erase_if (\<lambda>c. ch_used c \<or> ch_expires_at_unix c <s now)
      (db_auth_challenges (sq_db (fst s))),
    db_sessions := erase_if (\<lambda>r. sr_expires_at_unix r <s now) (db_sessions (sq_db (fst s)))\<rparr>\<rparr>"
  using assms unfolding CleanupAuthState_sq_def
  by (auto simp: sq_bind_Ok sq_return_iff elim!: sq_statement_Ok)

lemma use_challenge_Inr:
  assumes "use_challenge env request s = (Ok (Inr x), s')"
  obtains c n where "db_auth_challenges (sq_db (fst s)) (afq_challenge_id request) = Some c" "\<not> ch_used c"
    "c_string (ch_user_id c) = afq_user_id request" "ch_client_nonce c = afq_client_nonce request"
    "ch_server_nonce c = afq_server_nonce request" "ch_expires_at_unix c = afq_expires_at_unix request"
    "se_now env n \<le> ch_expires_at_unix c"
    "fst s' = (fst s)\<lparr>sq_db := (sq_db (fst s))\<lparr>db_auth_challenges :=
      (db_auth_challenges (sq_db (fst s)))(afq_challenge_id request \<mapsto> c\<lparr>ch_used := True\<rparr>)\<rparr>\<rparr>"
  using assms unfolding use_challenge_def
  by (rule sq_row_Ok) (auto simp: sq_bind_Ok sq_return_iff NowUnix_sq_def not_less split: if_splits
      elim!: sq_statement_Ok intro: that)

lemma issue_session_Ok:
  assumes "issue_session_sq ssl env now request s = (Ok resp, s')"
  obtains pk h rows where "db_accounts (sq_db (fst s)) (afq_user_id request) = Some pk"
    "ok (MlDsa65_Verify ssl pk
      (BuildTransportAuthSignInput (afq_user_id request) (afq_client_nonce request) (afq_server_nonce request)
        (afq_challenge_id request) (afq_expires_at_unix request)) (afq_signature_mldsa65 request))"
    "HashToken ssl (fst s) (afr_session_token resp) = Ok h"
    "fst s' = (fst s)\<lparr>sq_db := (sq_db (fst s))\<lparr>db_sessions :=
      (db_sessions (sq_db (fst s)))(h \<mapsto> \<lparr>sr_user_id = afq_user_id request, sr_issued_at_unix = now,
        sr_expires_at_unix = now + 900, sr_revoked = False\<rparr>), db_auth_audit_log := rows\<rparr>\<rparr>"
  using assms unfolding issue_session_sq_def Let_def
  by (rule sq_row_Ok) (auto simp: sq_bind_Ok sq_return_iff insert_session_def sq_HashToken_def
      split: if_splits option.splits elim!: sq_statement_Ok sq_audit_Ok intro: that)

lemma FinishTransportAuthentication_Ok:
  assumes "FinishTransportAuthentication_sq ssl env request (st, t) = (Ok resp, st', t')"
  obtains pk c h n where "db_accounts (sq_db st) (afq_user_id request) = Some pk"
    "ok (MlDsa65_Verify ssl pk
      (BuildTransportAuthSignInput (afq_user_id request) (afq_client_nonce request) (afq_server_nonce request)
        (afq_challenge_id request) (afq_expires_at_unix request)) (afq_signature_mldsa65 request))"
    "db_auth_challenges (sq_db st) (afq_challenge_id request) = Some c" "\<not> ch_used c"
    "c_string (ch_user_id c) = afq_user_id request" "ch_client_nonce c = afq_client_nonce request"
    "ch_server_nonce c = afq_server_nonce request" "ch_expires_at_unix c = afq_expires_at_unix request"
    "se_now env n \<le> ch_expires_at_unix c"
    "sq_txn st' = None"
    "db_auth_challenges (sq_db st') (afq_challenge_id request) = Some (c\<lparr>ch_used := True\<rparr>)"
    "HashToken ssl st' (afr_session_token resp) = Ok h"
    "db_sessions (sq_db st') h = Some \<lparr>sr_user_id = afq_user_id request, sr_issued_at_unix = se_now env t,
      sr_expires_at_unix = se_now env t + 900, sr_revoked = False\<rparr>"
proof -
  let ?no = "reject env (afq_user_id request) ''auth_finish_rejected''"
  let ?now = "se_now env t"
  obtain s1 s2 s3 u v x where c: "CleanupAuthState_sq env ?now (st, Suc t) = (Ok u, s1)"
    and l: "limit_finish (afq_user_id request) ?now s1 = (Ok v, s2)"
    and tr: "transact env (use_challenge env request) s2 = (Ok x, s3)"
    and i: "(case x of Inl (detail, text) \<Rightarrow> ?no detail text
      | Inr _ \<Rightarrow> issue_session_sq ssl env ?now request) s3 = (Ok resp, st', t')"
    using assms by (auto simp: FinishTransportAuthentication_sq_def Let_def sq_bind_Ok NowUnix_sq_def
        split: if_splits elim!: sq_try_cases)
  have x: "x = Inr ()" using i by (cases x) auto
  note c' = CleanupAuthState_Ok [OF c]
  obtain m where l': "fst s2 = (fst s1)\<lparr>sq_auth_finish_attempts := m\<rparr>"
    using l by (auto simp: limit_finish_def sq_state_def Let_def split: prod.splits)
  obtain s4 where u: "use_challenge env request ((fst s2)\<lparr>sq_txn := Some (sq_db (fst s2))\<rparr>, Suc (snd s2)) = (Ok (Inr ()), s4)"
    and s3: "fst s3 = (fst s4)\<lparr>sq_txn := None\<rparr>"
    using tr x by (cases s2) (auto elim: transact_commits)
  show ?thesis
    by (rule use_challenge_Inr [OF u], rule issue_session_Ok [OF i [unfolded x, simplified]], rule that)
      (auto simp: c' l' s3 HashToken_def erase_if_def split: option.splits if_splits)
qed

text \<open>What a transaction reports as done is committed.\<close>

lemma sq_refuse_Ok: "sq_refuse m s = (Ok x, s') \<longleftrightarrow> m s = (Ok (Inr x), s')"
  by (auto simp: sq_refuse_def sq_bind_def sq_return_def split: prod.splits result.splits sum.splits)

lemma refuse_durable: "sq_refuse (transact env body) s = (Ok x, s') \<Longrightarrow> sq_txn (fst s') = None"
  by (cases s) (auto simp: sq_refuse_Ok elim: transact_commits)

lemma AuthenticateSessionToken_Ok:
  assumes "AuthenticateSessionToken_sq ssl env token (st, t) = (Ok u, s')"
  obtains h r where "HashToken ssl st token = Ok h" "db_sessions (sq_db st) h = Some r"
    "c_string (sr_user_id r) = u" "\<not> sr_revoked r" "se_now env t \<le> sr_expires_at_unix r"
proof -
  let ?no = "reject env ''unknown'' ''session_rejected'' ''invalid_session'' ''invalid session''"
  obtain s1 h s2 x where c: "CleanupAuthState_sq env (se_now env t) (st, Suc t) = (Ok x, s1)"
    and h: "sq_HashToken ssl token s1 = (Ok h, s2)"
    and q: "sq_bind (sq_query env [BindBlob env] (\<lambda>d. db_sessions d h)) (\<lambda>rc.
       case rc of Row r \<Rightarrow>
         (let user = c_string (sr_user_id r)
          in if sr_revoked r then reject env user ''session_rejected'' ''revoked'' ''session revoked''
             else if se_now env t > sr_expires_at_unix r then reject env user ''session_rejected'' ''expired'' ''session expired''
             else sq_ignore (AppendAuthAudit env user ''session_ok'' ''authenticated'') (sq_return (Ok user)))
       | Done \<Rightarrow> ?no | Failed e \<Rightarrow> ?no) s2 = (Ok u, s')"
    using assms by (auto simp: AuthenticateSessionToken_sq_def sq_bind_Ok NowUnix_sq_def split: if_splits)
  have row: "db_sessions (sq_db (fst s2)) k = Some r \<Longrightarrow> db_sessions (sq_db st) k = Some r" for k r
    using CleanupAuthState_Ok [OF c] h by (auto simp: sq_HashToken_def erase_if_def split: option.splits if_splits)
  have hash: "HashToken ssl st token = Ok h"
    using CleanupAuthState_Ok [OF c] h by (auto simp: sq_HashToken_def HashToken_def)
  show ?thesis
    by (rule sq_row_Ok [OF q])
      (auto simp: Let_def not_less split: if_splits elim!: sq_audit_Ok intro: that [OF hash row])
qed

lemma RevokeSessionToken_Ok:
  assumes "RevokeSessionToken_sq ssl env token (st, t) = (Ok x, s')"
  obtains h r where "HashToken ssl (fst s') token = Ok h" "db_sessions (sq_db (fst s')) h = Some r" "sr_revoked r"
proof -
  let ?no = "reject env ''unknown'' ''logout_rejected'' ''invalid_session'' ''invalid session''"
  obtain h k where h: "HashToken ssl st token = Ok h"
    and q: "sq_bind (sq_query env [BindBlob env] (\<lambda>d. db_sessions d h)) (\<lambda>rc.
      case rc of Row r \<Rightarrow> k r | Done \<Rightarrow> ?no | Failed e \<Rightarrow> ?no) (st, t) = (Ok x, s')"
    and k: "k = (\<lambda>r. let user = c_string (sr_user_id r)
      in sq_bind (sq_statement env [BindBlob env] (\<lambda>d.
           Ok (if db_sessions d h = None then 0 else 1,
               d\<lparr>db_sessions := (\<lambda>i. if i = h
                  then map_option (\<lambda>r. r\<lparr>sr_revoked := True\<rparr>) (db_sessions d i) else db_sessions d i)\<rparr>))) (\<lambda>changes.
         if changes \<noteq> 1 then reject env user ''logout_rejected'' ''invalid_session'' ''invalid session''
         else sq_ignore (AppendAuthAudit env user ''logout_ok'' ''session_revoked'') (sq_return (Ok ()))))"
    using assms
    by (auto simp: RevokeSessionToken_sq_def sq_bind_Ok sq_HashToken_def split: if_splits)
  show ?thesis
    by (rule sq_row_Ok [OF q])
      (auto simp: k h [unfolded HashToken_def] Let_def sq_bind_Ok HashToken_def split: if_splits
        elim!: sq_statement_Ok sq_audit_Ok intro!: that)
qed

lemma rotate_account_Ok:
  assumes "rotate_account env request s = (Ok (Inr x), s')"
  shows "fst s' = (fst s)\<lparr>sq_db := (sq_db (fst s))\<lparr>
    db_accounts := (\<lambda>u. if u = rr_user_id request
      then map_option (\<lambda>_. rr_transport_auth_public_key request) (db_accounts (sq_db (fst s)) u)
      else db_accounts (sq_db (fst s)) u),
    db_sessions := map_option (\<lambda>r. if sr_user_id r = rr_user_id request \<and> \<not> sr_revoked r
      then r\<lparr>sr_revoked := True\<rparr> else r) \<circ> db_sessions (sq_db (fst s))\<rparr>\<rparr>"
  using assms unfolding rotate_account_def
  by (auto simp: sq_bind_Ok sq_return_iff elim!: sq_statement_Ok)

lemma replace_identity_Ok:
  assumes "replace_identity ssl env request existing (st, t) = (Ok x, st', t')"
  shows "(\<exists>sig. rr_rotation_signature_mldsa65 request = Some sig \<and>
      ok (MlDsa65_Verify ssl existing (BuildTransportRegisterRotateSignInput (rr_user_id request) existing
        (rr_transport_auth_public_key request)) sig)) \<or>
    sq_required_registration_token st \<noteq> [] \<and>
      ok (VerifyProvisioningToken ssl (sq_required_registration_token st) (rr_user_id request)
        (rr_registration_token request))"
    and "db_accounts (sq_db st) (rr_user_id request) = Some existing \<Longrightarrow>
      db_accounts (committed st') (rr_user_id request) = Some (rr_transport_auth_public_key request)"
    and "db_sessions (committed st') h = Some r \<Longrightarrow> sr_user_id r = rr_user_id request \<Longrightarrow> sr_revoked r"
proof -
  show "(\<exists>sig. rr_rotation_signature_mldsa65 request = Some sig \<and>
      ok (MlDsa65_Verify ssl existing (BuildTransportRegisterRotateSignInput (rr_user_id request) existing
        (rr_transport_auth_public_key request)) sig)) \<or>
    sq_required_registration_token st \<noteq> [] \<and>
      ok (VerifyProvisioningToken ssl (sq_required_registration_token st) (rr_user_id request)
        (rr_registration_token request))"
    using assms by (auto simp: replace_identity_def Let_def split: if_splits option.splits)
  obtain s1 detail where "sq_refuse (transact env (rotate_account env request)) (st, t) = (Ok (), s1)"
    and a: "sq_ignore (AppendAuthAudit env (rr_user_id request) ''register_rotated'' detail) (sq_return (Ok ())) s1 =
      (Ok x, st', t')"
    using assms by (auto simp: replace_identity_def Let_def sq_bind_Ok split: if_splits)
  then have "transact env (rotate_account env request) (st, t) = (Ok (Inr ()), s1)" by (simp add: sq_refuse_Ok)
  then obtain s2 where r: "rotate_account env request (st\<lparr>sq_txn := Some (sq_db st)\<rparr>, Suc t) = (Ok (Inr ()), s2)"
    and s1: "fst s1 = (fst s2)\<lparr>sq_txn := None\<rparr>" by (rule transact_commits)
  obtain rows where "st' = (fst s1)\<lparr>sq_db := (sq_db (fst s1))\<lparr>db_auth_audit_log := rows\<rparr>\<rparr>"
    by (rule sq_audit_Ok [OF a]) (simp add: that)
  then have st': "committed st' = (sq_db (fst s2))\<lparr>db_auth_audit_log := rows\<rparr>"
    by (simp add: s1 committed_def)
  show "db_accounts (committed st') (rr_user_id request) = Some (rr_transport_auth_public_key request)"
    if "db_accounts (sq_db st) (rr_user_id request) = Some existing"
    using that by (simp add: st' rotate_account_Ok [OF r])
  show "sr_revoked r" if "db_sessions (committed st') h = Some r" "sr_user_id r = rr_user_id request"
    using that by (auto simp: st' rotate_account_Ok [OF r] split: if_splits) (drule arg_cong [of _ _ sr_revoked], simp)
qed

lemma RegisterTransportIdentity_existing:
  assumes "RegisterTransportIdentity_sq ssl env request (st, t) = (Ok x, st', t')"
    and "db_accounts (sq_db st) (rr_user_id request) = Some existing"
    and "existing \<noteq> rr_transport_auth_public_key request"
  obtains t1 where "replace_identity ssl env request existing (st, t1) = (Ok x, st', t')"
proof -
  obtain rc s1 where q: "sq_query env [BindText env] (\<lambda>d. db_accounts d (rr_user_id request)) (st, t) = (Ok rc, s1)"
    and k: "(case rc of Row existing \<Rightarrow>
          if existing \<noteq> rr_transport_auth_public_key request then replace_identity ssl env request existing
          else sq_ignore (AppendAuthAudit env (rr_user_id request) ''register_ok'' ''already_registered'') (sq_return (Ok ()))
        | Done \<Rightarrow> insert_account ssl env request | Failed e \<Rightarrow> sq_return (Err e)) s1 = (Ok x, st', t')"
    using assms(1) by (auto simp: RegisterTransportIdentity_sq_def Let_def sq_bind_Ok split: if_splits)
  have s1: "fst s1 = st" and r: "\<And>r. rc = Row r \<Longrightarrow> r = existing" and "rc \<noteq> Done"
    using sq_query_Ok [OF q] assms(2) by auto
  then have "rc = Row existing" using k by (cases rc) (auto simp: sq_return_iff)
  with k s1 assms(3) that [of "snd s1"] show ?thesis by (cases s1) auto
qed

section \<open>Theorems\<close>

text \<open>
C13. Whichever calls of SQLite fail, a method of the SQLite store that registers, publishes,
acquires, enqueues or drains and reports an error leaves the committed tables as they were,
apart from the audit log.
\<close>

theorem failed_calls_roll_back:
  "atomic (RegisterTransportIdentity_sq ssl env request) \<and>
   atomic (PublishBundle_sq ssl env b) \<and> atomic (AcquireBundleForSession_sq env u) \<and>
   atomic (EnqueueEnvelope_sq env u e) \<and> atomic (DrainInbox_sq env u ack)"
  unfolding AcquireBundleForSession_sq_def DrainInbox_sq_def
  by (intro conjI atomic_register atomic_publish atomic_enqueue atomic_refuse keeps_txn_acquire keeps_txn_drain)

theorem finished_calls_are_committed:
  "(fst (PublishBundle_sq ssl env b s) = Ok () \<longrightarrow> sq_txn (fst (snd (PublishBundle_sq ssl env b s))) = None) \<and>
   (fst (AcquireBundleForSession_sq env u s) = Ok bd \<longrightarrow> sq_txn (fst (snd (AcquireBundleForSession_sq env u s))) = None) \<and>
   (fst (DrainInbox_sq env u ack s) = Ok xs \<longrightarrow> sq_txn (fst (snd (DrainInbox_sq env u ack s))) = None)"
  unfolding PublishBundle_sq_def AcquireBundleForSession_sq_def DrainInbox_sq_def
  by (auto simp: sq_return_def split: result.split) (metis refuse_durable prod.collapse)+

text \<open>
C17. Whichever calls of SQLite fail, FinishTransportAuthentication of the SQLite store hands
out a session only if the tables have an unused challenge for that user with these nonces,
not expired at a reading of the clock, and the signature verifies under the registered key;
the committed session row is stored under the hash of the new token, for 900 seconds.
\<close>

theorem finish_needs_challenge_and_proof:
  assumes "FinishTransportAuthentication_sq ssl env request (st, t) = (Ok resp, st', t')"
  shows "\<exists>pk c h. db_accounts (sq_db st) (afq_user_id request) = Some pk \<and>
      ok (MlDsa65_Verify ssl pk
        (BuildTransportAuthSignInput (afq_user_id request) (afq_client_nonce request) (afq_server_nonce request)
          (afq_challenge_id request) (afq_expires_at_unix request)) (afq_signature_mldsa65 request)) \<and>
      db_auth_challenges (sq_db st) (afq_challenge_id request) = Some c \<and> \<not> ch_used c \<and>
      c_string (ch_user_id c) = afq_user_id request \<and> ch_client_nonce c = afq_client_nonce request \<and>
      ch_server_nonce c = afq_server_nonce request \<and> (\<exists>n. se_now env n \<le> ch_expires_at_unix c) \<and>
      HashToken ssl st' (afr_session_token resp) = Ok h \<and>
      db_sessions (committed st') h = Some \<lparr>sr_user_id = afq_user_id request, sr_issued_at_unix = se_now env t,
        sr_expires_at_unix = se_now env t + 900, sr_revoked = False\<rparr>"
  using assms by (rule FinishTransportAuthentication_Ok) (auto simp: committed_def)

theorem challenge_works_once:
  assumes "FinishTransportAuthentication_sq ssl env request (st, t) = (Ok resp, st', t')"
    and "afq_challenge_id request' = afq_challenge_id request"
  shows "\<exists>e. fst (FinishTransportAuthentication_sq ssl env' request' (st', t'')) = Err e"
proof -
  obtain c where c: "db_auth_challenges (sq_db st') (afq_challenge_id request) = Some (c\<lparr>ch_used := True\<rparr>)"
    using assms(1) by (rule FinishTransportAuthentication_Ok) (rule that)
  have "FinishTransportAuthentication_sq ssl env' request' (st', t'') \<noteq> (Ok r, s)" for r s
  proof (cases s)
    case (Pair st2 t2)
    then show ?thesis
      by (auto elim!: FinishTransportAuthentication_Ok simp: assms(2) c)
  qed
  then show ?thesis by (metis prod.collapse result.exhaust)
qed

text \<open>
C20. When RegisterTransportIdentity of the SQLite store replaces the key of a known user, a
rotation signature of the old key or the provisioning token verified, the new key is
committed and every session of the user is revoked, whichever calls of SQLite fail.
\<close>

theorem key_change_revokes_sessions:
  assumes "RegisterTransportIdentity_sq ssl env request (st, t) = (Ok x, st', t')"
    and "db_accounts (sq_db st) (rr_user_id request) = Some existing"
    and "existing \<noteq> rr_transport_auth_public_key request"
  shows "((\<exists>sig. rr_rotation_signature_mldsa65 request = Some sig \<and>
        ok (MlDsa65_Verify ssl existing (BuildTransportRegisterRotateSignInput (rr_user_id request) existing
          (rr_transport_auth_public_key request)) sig)) \<or>
      sq_required_registration_token st \<noteq> [] \<and>
        ok (VerifyProvisioningToken ssl (sq_required_registration_token st) (rr_user_id request)
          (rr_registration_token request))) \<and>
    db_accounts (committed st') (rr_user_id request) = Some (rr_transport_auth_public_key request) \<and>
    (\<forall>h r. db_sessions (committed st') h = Some r \<and> sr_user_id r = rr_user_id request \<longrightarrow> sr_revoked r)"
proof -
  obtain t1 where r: "replace_identity ssl env request existing (st, t1) = (Ok x, st', t')"
    using assms by (rule RegisterTransportIdentity_existing)
  show ?thesis
    using replace_identity_Ok(1) [OF r] replace_identity_Ok(2) [OF r assms(2)] replace_identity_Ok(3) [OF r] by blast
qed

theorem revoked_session_is_rejected:
  assumes "RevokeSessionToken_sq ssl env token (st, t) = (Ok x, st', t')"
  shows "\<exists>e. fst (AuthenticateSessionToken_sq ssl env' token (st', t'')) = Err e"
proof -
  obtain h r where r: "HashToken ssl st' token = Ok h" "db_sessions (sq_db st') h = Some r" "sr_revoked r"
    using assms by (rule RevokeSessionToken_Ok) (simp add: that)
  have "AuthenticateSessionToken_sq ssl env' token (st', t'') \<noteq> (Ok u, s)" for u s
    by (auto elim!: AuthenticateSessionToken_Ok simp: r)
  then show ?thesis by (metis prod.collapse result.exhaust)
qed

end
