(* ===== verification/Sqlite_Service.thy ===== *)
theory Sqlite_Service
  imports Sqlite_Laws
begin

text \<open>
  The SQLite store as an \<^verbatim>\<open>IServerApi\<close>, while SQLite does its work: \<open>sqlite_api\<close> runs the methods
  without faults. It passes the contract of \<open>Server_Api\<close>, with two limits of its own: an envelope has to
  be one that \<^verbatim>\<open>DeserializeEnvelope\<close> accepts, and an acknowledgement has to be below \<open>2 ^ 63\<close>, since the
  id is compared as a signed number.
\<close>

section \<open>The methods without faults\<close>

definition sqlite_env :: "call_env \<Rightarrow> sq_env" where
  "sqlite_env env = \<lparr>se_fault = (\<lambda>_. None), se_now = (\<lambda>_. env_now env), se_rnd1 = env_rnd1 env, se_rnd2 = env_rnd2 env\<rparr>"

definition sqlite_call :: "'a sq \<Rightarrow> SqliteStore \<Rightarrow> 'a result \<times> SqliteStore" where
  "sqlite_call m st = (let (r, st', _) = m (st, 0) in (r, st'))"

definition sqlite_api :: "openssl \<Rightarrow> SqliteStore IServerApi" where
  "sqlite_api ssl =
     \<lparr>api_RegisterTransportIdentity = (\<lambda>env st r. sqlite_call (RegisterTransportIdentity_sq ssl (sqlite_env env) r) st),
      api_BeginTransportAuthentication = (\<lambda>env st r. sqlite_call (BeginTransportAuthentication_sq (sqlite_env env) r) st),
      api_FinishTransportAuthentication =
        (\<lambda>env st r. sqlite_call (FinishTransportAuthentication_sq ssl (sqlite_env env) r) st),
      api_AuthenticateSessionToken = (\<lambda>env st t. sqlite_call (AuthenticateSessionToken_sq ssl (sqlite_env env) t) st),
      api_RevokeSessionToken = (\<lambda>env st t. sqlite_call (RevokeSessionToken_sq ssl (sqlite_env env) t) st),
      api_PublishBundle = (\<lambda>env st b. sqlite_call (PublishBundle_sq ssl (sqlite_env env) b) st),
      api_AcquireBundleForSession = (\<lambda>env st u. sqlite_call (AcquireBundleForSession_sq (sqlite_env env) u) st),
      api_EnqueueEnvelope = (\<lambda>env st u e. sqlite_call (EnqueueEnvelope_sq (sqlite_env env) u e) st),
      api_DrainInbox = (\<lambda>env st u ack. sqlite_call (DrainInbox_sq (sqlite_env env) u ack) st)\<rparr>"

text \<open>A run from a state to a result and a state, whatever the number of the next call.\<close>

definition runs :: "'a sq \<Rightarrow> SqliteStore \<Rightarrow> 'a result \<Rightarrow> SqliteStore \<Rightarrow> bool" where
  "runs m st r st' \<longleftrightarrow> (\<forall>t. \<exists>t'. m (st, t) = (r, st', t'))"

lemma runs_call: "runs m st r st' \<Longrightarrow> sqlite_call m st = (r, st')"
  by (metis (no_types, lifting) case_prod_conv runs_def sqlite_call_def)

lemma sqlite_call_run: "sqlite_call m st = (r, st') \<longleftrightarrow> (\<exists>t'. m (st, 0) = (r, st', t'))"
  by (auto simp: sqlite_call_def split: prod.splits)

lemma runs_return: "runs (sq_return r) st r st"
  by (simp add: runs_def sq_return_def)

lemma runs_bind: "runs m st (Ok x) st1 \<Longrightarrow> runs (k x) st1 r st' \<Longrightarrow> runs (sq_bind m k) st r st'"
  unfolding runs_def sq_bind_def by (metis (no_types, lifting) case_prod_conv result.case(1))

definition calm :: "sq_env \<Rightarrow> bool" where
  "calm env \<longleftrightarrow> se_fault env = (\<lambda>_. None)"

lemma calm_sqlite_env [simp]: "calm (sqlite_env env)"
  by (simp add: calm_def sqlite_env_def)

lemma runs_sq_call: "calm env \<Longrightarrow> runs (sq_call env text f) st (fst (f st)) (snd (f st))"
  by (simp add: runs_def sq_call_def calm_def split: prod.split)

lemma runs_binds:
  assumes "calm env"
  shows "runs (Prepare env) st (Ok ()) st" "runs (BindText env) st (Ok ()) st" "runs (BindBlob env) st (Ok ()) st"
    "runs (BindU32 env) st (Ok ()) st" "runs (bind_int64 env text) st (Ok ()) st"
  using runs_sq_call [OF assms, of _ "\<lambda>st. (Ok (), st)" st] by (simp_all add: sq_bind_calls)

lemma runs_all: "\<forall>m\<in>set ms. runs m st (Ok ()) st \<Longrightarrow> runs (sq_all ms) st (Ok ()) st"
  by (induction ms) (auto intro: runs_return runs_bind)

lemma runs_statement:
  assumes "calm env" "f (sq_db st) = Ok (n, d)" "\<forall>m\<in>set binds. runs m st (Ok ()) st"
  shows "runs (sq_statement env binds f) st (Ok n) (st\<lparr>sq_db := d\<rparr>)"
proof -
  have "runs (StepDone env f) st (Ok n) (st\<lparr>sq_db := d\<rparr>)"
    unfolding StepDone_def using runs_sq_call [OF assms(1), of id "\<lambda>st. case f (sq_db st) of
      Err e \<Rightarrow> (Err e, st) | Ok (n, d) \<Rightarrow> (Ok n, st\<lparr>sq_db := d\<rparr>)" st] assms(2) by simp
  then show ?thesis unfolding sq_statement_def
    by (rule runs_bind [OF runs_binds(1) [OF assms(1)] runs_bind [OF runs_all [OF assms(3)]]])
qed

lemma runs_query:
  assumes "calm env" "\<forall>m\<in>set binds. runs m st (Ok ()) st"
  shows "runs (sq_query env binds f) st (Ok (case f (sq_db st) of None \<Rightarrow> Done | Some r \<Rightarrow> Row r)) st"
proof -
  have "runs (step_query env f) st (Ok (case f (sq_db st) of None \<Rightarrow> Done | Some r \<Rightarrow> Row r)) st"
    using assms(1) by (simp add: runs_def step_query_def calm_def)
  then show ?thesis unfolding sq_query_def
    by (rule runs_bind [OF runs_binds(1) [OF assms(1)] runs_bind [OF runs_all [OF assms(2)]]])
qed

lemma runs_transact:
  assumes "calm env" "sq_txn st = None" "keeps_txn body"
    and "runs body (st\<lparr>sq_txn := Some (sq_db st)\<rparr>) (Ok (Inr x)) st1"
  shows "runs (sq_refuse (transact env body)) st (Ok x) (st1\<lparr>sq_txn := None\<rparr>)"
  unfolding runs_def
proof
  fix t
  obtain t1 where b: "body (st\<lparr>sq_txn := Some (sq_db st)\<rparr>, Suc t) = (Ok (Inr x), st1, t1)"
    using assms(4) unfolding runs_def by blast
  with framesD [OF assms(3) this] assms(1,2)
  have "transact env body (st, t) = (Ok (Inr x), st1\<lparr>sq_txn := None\<rparr>, Suc t1)"
    by (simp add: transact_unfold calm_def Commit_def Exec_def sq_call_def)
  then show "\<exists>t'. sq_refuse (transact env body) (st, t) = (Ok x, st1\<lparr>sq_txn := None\<rparr>, t')"
    by (simp add: sq_refuse_Ok)
qed

lemma runs_transact_refuses:
  assumes "calm env" "sq_txn st = None" "keeps_txn body"
    and "runs body (st\<lparr>sq_txn := Some (sq_db st)\<rparr>) (Ok (Inl e)) (st\<lparr>sq_txn := Some (sq_db st)\<rparr>)"
  shows "runs (sq_refuse (transact env body)) st (Err e) st"
  unfolding runs_def
proof
  fix t
  obtain t1 where b: "body (st\<lparr>sq_txn := Some (sq_db st)\<rparr>, Suc t) = (Ok (Inl e), st\<lparr>sq_txn := Some (sq_db st)\<rparr>, t1)"
    using assms(4) unfolding runs_def by blast
  with assms(1,2) have "transact env body (st, t) = (Ok (Inl e), st, Suc t1)"
    by (cases st) (simp add: transact_unfold calm_def Rollback_def Exec_def sq_call_def)
  then show "\<exists>t'. sq_refuse (transact env body) (st, t) = (Err e, st, t')"
    by (simp add: sq_refuse_def sq_bind_def sq_return_def)
qed

section \<open>The inboxes\<close>

definition row_envelope :: "u64 \<times> bytes \<Rightarrow> InboxEnvelope" where
  "row_envelope = (\<lambda>(i, p). \<lparr>ie_inbox_id = i,
     ie_envelope = (case DeserializeEnvelope p of Ok e \<Rightarrow> e | Err _ \<Rightarrow> undefined)\<rparr>)"

definition sq_pending :: "SqliteStore \<Rightarrow> string \<Rightarrow> InboxEnvelope list" where
  "sq_pending st u = map row_envelope (rows_of u (sq_db st))"

definition inbox_rows_ok :: "db \<Rightarrow> bool" where
  "inbox_rows_ok d \<longleftrightarrow> sorted_wrt (\<lambda>(i, _) (j, _). i < j) (db_inbox d) \<and> db_inbox_seq d < 2 ^ 63 \<and>
     (\<forall>(i, _, p)\<in>set (db_inbox d). i \<le> db_inbox_seq d \<and> (\<exists>e. DeserializeEnvelope p = Ok e))"

definition sq_inv :: "SqliteStore \<Rightarrow> bool" where
  "sq_inv st \<longleftrightarrow> sq_txn st = None \<and> inbox_rows_ok (sq_db st)"

definition sq_known :: "u64 \<Rightarrow> bool" where
  "sq_known i \<longleftrightarrow> i < 2 ^ 63"

definition sq_fits :: "Envelope \<Rightarrow> bool" where
  "sq_fits e \<longleftrightarrow> Envelope_ok e \<and> length (Envelope_bytes e) \<le> kMaxSerializedInputBytes"

definition sq_room :: "SqliteStore \<Rightarrow> string \<Rightarrow> nat" where
  "sq_room st u = 2 ^ 63 - 1 - unat (db_inbox_seq (sq_db st))"

lemma sint_known: "sq_known k \<Longrightarrow> sint k = uint k"
  using order_trans [OF _ uint_ge_0 [of k], of "- (2 ^ 63)"] unfolding sint_uint
  by (intro signed_take_bit_int_eq_self) (simp_all add: sq_known_def word_less_def)

lemma sle_known: "sq_known i \<Longrightarrow> sq_known j \<Longrightarrow> i \<le>s j \<longleftrightarrow> i \<le> j"
  by (simp add: sint_known word_sle_eq word_le_def)

lemma sle_unknown:
  assumes "sq_known i" "\<not> sq_known j"
  shows "\<not> i \<le>s j"
proof -
  have "2 ^ 63 \<le> uint j" "uint j < 2 ^ 64"
    using assms(2) uint_lt2p [of j] by (simp_all add: sq_known_def not_less word_le_def)
  then have "uint j div 2 ^ 63 = 1" by (intro int_div_pos_eq [of _ _ _ "uint j - 2 ^ 63"]) simp_all
  then have "sint j < 0" by (simp add: sint_uint bit_iff_odd)
  then show ?thesis using sint_known [OF assms(1)] by (simp add: word_sle_eq not_le order.strict_trans2)
qed

lemma set_rows_of: "(i, p) \<in> set (rows_of u d) \<longleftrightarrow> (i, u, p) \<in> set (db_inbox d)"
  by (force simp: rows_of_def)

lemma drain_rows_runs:
  assumes "calm env" "\<forall>(i, p)\<in>set rows. \<exists>e. DeserializeEnvelope p = Ok e"
  shows "\<exists>k. runs (drain_rows env rows out n) st (Ok (out @ take k (map row_envelope rows))) st \<and>
     (out = [] \<longrightarrow> rows \<noteq> [] \<longrightarrow> 0 < k)"
  using assms(2)
proof (induction rows arbitrary: out n)
  case Nil
  have "runs (sq_call env id (\<lambda>st. (Ok (), st))) st (Ok ()) st"
    using runs_sq_call [OF assms(1), of id "\<lambda>st. (Ok (), st)" st] by simp
  from runs_bind [OF this, of "\<lambda>_. sq_return (Ok out)"] show ?case by (simp add: runs_return)
next
  case (Cons row rows)
  obtain i p where row: "row = (i, p)" by (cases row)
  obtain e where e: "DeserializeEnvelope p = Ok e" using Cons.prems row by auto
  have step: "runs (sq_call env id (\<lambda>st. (Ok (), st))) st (Ok ()) st"
    using runs_sq_call [OF assms(1), of id "\<lambda>st. (Ok (), st)" st] by simp
  show ?case
  proof (cases "out \<noteq> [] \<and> n + (length p + 8 + 8) > kMaxDrainInboxBatchBytes")
    case True
    then have "runs (drain_rows env (row # rows) out n) st (Ok out) st"
      unfolding row drain_rows.simps by (intro runs_bind [OF step]) (simp add: Let_def runs_return)
    with True show ?thesis by (intro exI [of _ 0]) simp
  next
    case False
    have "\<forall>(i, p)\<in>set rows. \<exists>e. DeserializeEnvelope p = Ok e" using Cons.prems by simp
    from Cons.IH [OF this] obtain k where "runs (drain_rows env rows (out @ [\<lparr>ie_inbox_id = i, ie_envelope = e\<rparr>]) (n + (length p + 8 + 8))) st
      (Ok ((out @ [\<lparr>ie_inbox_id = i, ie_envelope = e\<rparr>]) @ take k (map row_envelope rows))) st"
      by blast
    then have "runs (drain_rows env (row # rows) out n) st
        (Ok ((out @ [row_envelope row]) @ take k (map row_envelope rows))) st"
      unfolding row drain_rows.simps Let_def using False e
      by (intro runs_bind [OF step]) (auto simp: row_envelope_def intro!: runs_bind [OF runs_return])
    then show ?thesis by (intro exI [of _ "Suc k"]) simp
  qed
qed

text \<open>The rows that an acknowledgement leaves.\<close>

definition acked :: "string \<Rightarrow> u64 option \<Rightarrow> db \<Rightarrow> db" where
  "acked u ack d = (case ack of None \<Rightarrow> d
     | Some a \<Rightarrow> d\<lparr>db_inbox := filter (\<lambda>(i, v, _). \<not> (v = u \<and> i \<le>s a)) (db_inbox d)\<rparr>)"

lemma acked_ok: "inbox_rows_ok d \<Longrightarrow> inbox_rows_ok (acked u ack d)"
  by (auto simp: inbox_rows_ok_def acked_def sorted_wrt_filter split: option.splits)

lemma row_known: "inbox_rows_ok d \<Longrightarrow> (i, v, p) \<in> set (db_inbox d) \<Longrightarrow> sq_known i"
  by (auto simp: inbox_rows_ok_def sq_known_def dest!: bspec)

lemma rows_of_acked:
  assumes "inbox_rows_ok d" "pred_option sq_known ack"
  shows "rows_of v (acked u ack d) =
    (if v = u then (case ack of None \<Rightarrow> rows_of u d | Some a \<Rightarrow> filter (\<lambda>(i, _). a < i) (rows_of u d)) else rows_of v d)"
proof (cases ack)
  case (Some a)
  have "filter (\<lambda>(i, w, _). w = v \<and> \<not> (w = u \<and> i \<le>s a)) (db_inbox d) =
      filter (\<lambda>(i, w, _). w = v \<and> (v = u \<longrightarrow> a < i)) (db_inbox d)"
    using assms Some by (intro filter_cong) (auto simp: sle_known row_known)
  then show ?thesis
    using Some by (auto simp: acked_def rows_of_def filter_map comp_def case_prod_unfold conj_commute)
qed (simp add: acked_def)

lemma drain_body_runs:
  assumes "calm env" "inbox_rows_ok (sq_db st)"
  shows "\<exists>k. runs (drain_body env u ack) st
      (Ok (Inr (take k (map row_envelope (rows_of u (acked u ack (sq_db st)))))))
      (st\<lparr>sq_db := acked u ack (sq_db st)\<rparr>) \<and>
    (rows_of u (acked u ack (sq_db st)) \<noteq> [] \<longrightarrow> 0 < k)"
proof -
  let ?d = "acked u ack (sq_db st)"
  let ?st = "st\<lparr>sq_db := ?d\<rparr>" and ?rows = "take kMaxDrainInboxBatchItems (rows_of u ?d)"
  have dec: "\<forall>(i, p)\<in>set ?rows. \<exists>e. DeserializeEnvelope p = Ok e"
    using acked_ok [OF assms(2), of u ack] by (auto simp: inbox_rows_ok_def set_rows_of dest!: in_set_takeD)
  obtain k where k: "runs (drain_rows env ?rows [] 0) ?st (Ok ([] @ take k (map row_envelope ?rows))) ?st"
    "?rows \<noteq> [] \<longrightarrow> 0 < k" using drain_rows_runs [OF assms(1) dec, of "[]" 0 ?st] by auto
  have a: "runs (case ack of None \<Rightarrow> sq_return (Ok 0)
       | Some ack \<Rightarrow> sq_statement env [BindText env, bind_int64 env ''bind inbox ack id failed''] (\<lambda>d.
           Ok (0, d\<lparr>db_inbox := filter (\<lambda>(i, v, _). \<not> (v = u \<and> i \<le>s ack)) (db_inbox d)\<rparr>))) st (Ok 0) ?st"
    using assms(1) by (cases ack) (auto simp: acked_def runs_return intro!: runs_statement runs_binds)
  have r: "runs (\<lambda>s. drain_rows env (take kMaxDrainInboxBatchItems (rows_of u (sq_db (fst s)))) [] 0 s) ?st
      (Ok (take k (map row_envelope ?rows))) ?st"
    using k(1) by (simp add: runs_def)
  have "runs (drain_body env u ack) st (Ok (Inr (take k (map row_envelope ?rows)))) ?st"
    unfolding drain_body_def
    by (rule runs_bind [OF a], rule runs_bind [OF runs_binds(1) [OF assms(1)]], rule runs_bind [OF runs_all],
        simp add: runs_binds assms(1), rule runs_bind [OF r], rule runs_return)
  moreover have "take k (map row_envelope ?rows) = take (min k kMaxDrainInboxBatchItems) (map row_envelope (rows_of u ?d))"
    by (simp add: take_map)
  ultimately show ?thesis using k(2)
    by (intro exI [of _ "min k kMaxDrainInboxBatchItems"]) (auto simp: kMaxDrainInboxBatchItems_def)
qed

lemma DrainInbox_runs:
  assumes "sq_inv st"
  shows "\<exists>k. sqlite_call (DrainInbox_sq (sqlite_env env) u ack) st =
      (Ok (take k (map row_envelope (rows_of u (acked u ack (sq_db st))))), st\<lparr>sq_db := acked u ack (sq_db st)\<rparr>) \<and>
    (rows_of u (acked u ack (sq_db st)) \<noteq> [] \<longrightarrow> 0 < k)"
proof -
  let ?st = "st\<lparr>sq_txn := Some (sq_db st)\<rparr>"
  obtain k where k: "runs (drain_body (sqlite_env env) u ack) ?st
      (Ok (Inr (take k (map row_envelope (rows_of u (acked u ack (sq_db ?st)))))))
      (?st\<lparr>sq_db := acked u ack (sq_db ?st)\<rparr>)" "rows_of u (acked u ack (sq_db ?st)) \<noteq> [] \<longrightarrow> 0 < k"
    using drain_body_runs [of "sqlite_env env" ?st u ack] assms by (auto simp: sq_inv_def)
  have t: "sq_txn st = None" using assms by (simp add: sq_inv_def)
  from runs_call [OF runs_transact [OF calm_sqlite_env t keeps_txn_drain k(1)]] k(2) t
  show ?thesis by (intro exI [of _ k]) (cases st, simp add: DrainInbox_sq_def)
qed

lemma sq_pending_acked:
  assumes "sq_inv st" "pred_option sq_known ack"
  shows "map row_envelope (rows_of v (acked u ack (sq_db st))) =
    (if v = u then unacked ack (sq_pending st u) else sq_pending st v)"
  using assms
  by (auto simp: rows_of_acked sq_inv_def sq_pending_def unacked_def filter_map comp_def row_envelope_def
      case_prod_unfold split: option.splits)

interpretation sq_inbox: inbox_service sq_inv sq_pending sq_known
  "\<lambda>st u ack. sqlite_call (DrainInbox_sq (sqlite_env env) u ack) st" for env
proof
  fix s u ack u' xs i
  assume inv: "sq_inv s"
  note run = DrainInbox_runs [OF inv, of env u ack]
  have rows: "inbox_rows_ok (sq_db s)" using inv by (simp add: sq_inv_def)
  then show "ascending (sq_pending s u)"
    by (auto simp: ascending_def sq_pending_def rows_of_def inbox_rows_ok_def sorted_wrt_map row_envelope_def
        case_prod_unfold intro: sorted_wrt_filter)
  show "sq_known (ie_inbox_id i)" if "i \<in> set (sq_pending s u)"
    using that row_known [OF rows] by (auto simp: sq_pending_def row_envelope_def set_rows_of)
  show "sq_inv (snd (sqlite_call (DrainInbox_sq (sqlite_env env) u ack) s))"
    using run inv acked_ok [OF rows, of u ack] by (auto simp: sq_inv_def)
  show "\<exists>xs. fst (sqlite_call (DrainInbox_sq (sqlite_env env) u ack) s) = Ok xs" using run by auto
  assume ack: "pred_option sq_known ack"
  note p = sq_pending_acked [OF inv ack]
  show "sq_pending (snd (sqlite_call (DrainInbox_sq (sqlite_env env) u ack) s)) u' =
      (if u' = u then unacked ack (sq_pending s u) else sq_pending s u')"
    using run p [of u' u] by (auto simp: sq_pending_def)
  show "\<exists>k. xs = take k (unacked ack (sq_pending s u)) \<and> (unacked ack (sq_pending s u) \<noteq> [] \<longrightarrow> 0 < k)"
    if "fst (sqlite_call (DrainInbox_sq (sqlite_env env) u ack) s) = Ok xs"
    using run that p [of u u] by auto
qed

section \<open>The contract\<close>

text \<open>Publishing and acquiring prekeys leave the inboxes alone.\<close>

interpretation mail: sq_frame_audit
  "\<lambda>st st'. db_inbox (sq_db st') = db_inbox (sq_db st) \<and> db_inbox_seq (sq_db st') = db_inbox_seq (sq_db st)"
  by unfold_locales auto

abbreviation keeps_mail :: "'a sq \<Rightarrow> bool" where
  "keeps_mail \<equiv> frames (\<lambda>st st'. db_inbox (sq_db st') = db_inbox (sq_db st) \<and>
     db_inbox_seq (sq_db st') = db_inbox_seq (sq_db st))"

lemma keeps_mail_publish: "keeps_mail (publish_body env b)"
  unfolding publish_body_def upsert_bundle_def InsertOneTimeEc_def InsertOneTimePq_def Let_def
  by (intro mail.frame_intros) (auto simp: mail.frames_binds result_inv)

lemma keeps_mail_acquire: "keeps_mail (acquire_body env u)"
  unfolding acquire_body_def
  by (auto simp: Let_def mail.frames_binds split: step_rc.split intro!: mail.frame_intros)

lemma transact_mail:
  assumes "calm env" "sq_txn st = None" "keeps_txn body" "keeps_mail body"
    and "sq_refuse (transact env body) (st, t) = (r, st', t')"
  shows "sq_txn st' = None \<and> db_inbox (sq_db st') = db_inbox (sq_db st) \<and>
    db_inbox_seq (sq_db st') = db_inbox_seq (sq_db st)"
proof -
  let ?s = "(st\<lparr>sq_txn := Some (sq_db st)\<rparr>, Suc t)"
  obtain r1 st1 t1 where b: "body ?s = (r1, st1, t1)" by (cases "body ?s") (auto intro: that)
  with framesD [OF assms(3) b] framesD [OF assms(4) b] assms(1,2,5) show ?thesis
    by (auto simp: sq_refuse_def sq_bind_def sq_return_def transact_unfold calm_def Commit_def Rollback_def
        Exec_def sq_call_def split: result.splits sum.splits)
qed

lemma sq_inv_mail:
  assumes "sq_inv st" "sq_txn st' = None \<and> db_inbox (sq_db st') = db_inbox (sq_db st) \<and>
    db_inbox_seq (sq_db st') = db_inbox_seq (sq_db st)"
  shows "sq_inv st' \<and> sq_room st' = sq_room st \<and> sq_pending st' = sq_pending st"
  using assms by (simp add: sq_inv_def inbox_rows_ok_def sq_room_def [abs_def] sq_pending_def [abs_def] rows_of_def)

lemma each_ec_Ok:
  assumes "sq_each (InsertOneTimeEc env u) keys s = (Ok x, s')"
  shows "\<exists>ids seq. length ids = length keys \<and> fst s' = (fst s)\<lparr>sq_db := (sq_db (fst s))\<lparr>
    db_one_time_ec := db_one_time_ec (sq_db (fst s)) @ map (\<lambda>(i, k). (i, u, k)) (zip ids keys),
    db_one_time_ec_seq := seq\<rparr>\<rparr>"
  using assms
proof (induction keys arbitrary: s)
  case Nil
  then show ?case
    by (intro exI [of _ "[]"] exI [of _ "db_one_time_ec_seq (sq_db (fst s))"]) (auto simp: sq_return_iff)
next
  case (Cons k keys)
  obtain n s1 where k: "InsertOneTimeEc env u k s = (Ok n, s1)"
    and ks: "sq_each (InsertOneTimeEc env u) keys s1 = (Ok x, s')" using Cons.prems by (auto simp: sq_bind_Ok)
  obtain i where i: "fst s1 = (fst s)\<lparr>sq_db := (sq_db (fst s))\<lparr>db_one_time_ec :=
      db_one_time_ec (sq_db (fst s)) @ [(i, u, k)], db_one_time_ec_seq := i\<rparr>\<rparr>"
    using k unfolding InsertOneTimeEc_def by (auto simp: result_inv elim!: sq_statement_Ok)
  obtain ids seq where "length ids = length keys" "fst s' = (fst s1)\<lparr>sq_db := (sq_db (fst s1))\<lparr>
    db_one_time_ec := db_one_time_ec (sq_db (fst s1)) @ map (\<lambda>(i, k). (i, u, k)) (zip ids keys),
    db_one_time_ec_seq := seq\<rparr>\<rparr>" using Cons.IH [OF ks] by blast
  then show ?case by (intro exI [of _ "i # ids"] exI [of _ seq]) (simp add: i)
qed

lemma each_pq_Ok:
  assumes "sq_each (InsertOneTimePq env u) keys s = (Ok x, s')"
  shows "\<exists>ids seq. length ids = length keys \<and> fst s' = (fst s)\<lparr>sq_db := (sq_db (fst s))\<lparr>
    db_one_time_pq := db_one_time_pq (sq_db (fst s)) @ map (\<lambda>(i, k). (i, u, k)) (zip ids keys),
    db_one_time_pq_seq := seq\<rparr>\<rparr>"
  using assms
proof (induction keys arbitrary: s)
  case Nil
  then show ?case
    by (intro exI [of _ "[]"] exI [of _ "db_one_time_pq_seq (sq_db (fst s))"]) (auto simp: sq_return_iff)
next
  case (Cons k keys)
  obtain n s1 where k: "InsertOneTimePq env u k s = (Ok n, s1)"
    and ks: "sq_each (InsertOneTimePq env u) keys s1 = (Ok x, s')" using Cons.prems by (auto simp: sq_bind_Ok)
  obtain i where i: "fst s1 = (fst s)\<lparr>sq_db := (sq_db (fst s))\<lparr>db_one_time_pq :=
      db_one_time_pq (sq_db (fst s)) @ [(i, u, k)], db_one_time_pq_seq := i\<rparr>\<rparr>"
    using k unfolding InsertOneTimePq_def by (auto simp: result_inv elim!: sq_statement_Ok)
  obtain ids seq where "length ids = length keys" "fst s' = (fst s1)\<lparr>sq_db := (sq_db (fst s1))\<lparr>
    db_one_time_pq := db_one_time_pq (sq_db (fst s1)) @ map (\<lambda>(i, k). (i, u, k)) (zip ids keys),
    db_one_time_pq_seq := seq\<rparr>\<rparr>" using Cons.IH [OF ks] by blast
  then show ?case by (intro exI [of _ "i # ids"] exI [of _ seq]) (simp add: i)
qed

text \<open>The one-time keys of a user, in the order in which they are given out.\<close>

definition keys_of :: "string \<Rightarrow> (u64 \<times> string \<times> 'k) list \<Rightarrow> 'k list" where
  "keys_of u rows = map (\<lambda>(_, _, k). k) (filter (\<lambda>(_, v, _). v = u) rows)"

lemma keys_of_simps [simp]:
  "keys_of u (rows @ rows') = keys_of u rows @ keys_of u rows'"
  "keys_of u (filter (\<lambda>(_, v, _). v \<noteq> u) rows) = []"
  "length ids = length keys \<Longrightarrow> keys_of u (map (\<lambda>(i, k). (i, u, k)) (zip ids keys)) = keys"
  by (simp_all add: keys_of_def case_prod_unfold filter_empty_conv comp_def map_snd_zip)

lemma publish_body_Ok:
  assumes "publish_body env b s = (Ok (Inr x), s')"
  shows "db_bundles (sq_db (fst s')) (pb_user_id b) = Some (bundle_row b) \<and>
    keys_of (pb_user_id b) (db_one_time_ec (sq_db (fst s'))) = pb_one_time_ec b \<and>
    keys_of (pb_user_id b) (db_one_time_pq (sq_db (fst s'))) = pb_one_time_pq b"
  using assms unfolding publish_body_def Let_def upsert_bundle_def
  by (auto simp: sq_bind_Ok sq_return_iff result_inv elim!: sq_statement_Ok dest!: each_ec_Ok each_pq_Ok)

lemma first_of_keys: "keys_of u rows = k # ks \<Longrightarrow> \<exists>i. first_of u rows = Some (i, k)"
  by (auto simp: keys_of_def first_of_def Cons_eq_map_conv split: prod.splits)

lemma acquire_body_runs:
  assumes "calm env" "db_bundles (sq_db st) u = Some row"
    and "keys_of u (db_one_time_ec (sq_db st)) = ec # ecs" "keys_of u (db_one_time_pq (sq_db st)) = pq # pqs"
  shows "\<exists>st'. runs (acquire_body env u) st
    (Ok (Inr ((read_bundle_row u row)\<lparr>pb_one_time_ec := [ec], pb_one_time_pq := [pq]\<rparr>))) st'"
proof -
  obtain i j where f: "first_of u (db_one_time_ec (sq_db st)) = Some (i, ec)"
    "first_of u (db_one_time_pq (sq_db st)) = Some (j, pq)"
    using first_of_keys [OF assms(3)] first_of_keys [OF assms(4)] by blast
  have q: "runs (sq_query env [BindText env] g) st (Ok (Row x)) st" if "g (sq_db st) = Some x" for g x
    using runs_query [OF assms(1), of "[BindText env]" st g] that by (simp add: runs_binds assms(1))
  show ?thesis
    unfolding acquire_body_def
    by (rule exI, rule runs_bind [OF q [of "\<lambda>d. db_bundles d u", OF assms(2)]], simp only: step_rc.case Let_def,
        rule runs_bind [OF q [of "\<lambda>d. first_of u (db_one_time_ec d)", OF f(1)]], simp only: step_rc.case,
        rule runs_bind [OF q [of "\<lambda>d. first_of u (db_one_time_pq d)", OF f(2)]], simp only: step_rc.case prod.case,
        rule runs_bind, rule runs_statement [OF assms(1) refl], simp add: runs_binds assms(1),
        rule runs_bind, rule runs_statement [OF assms(1) refl], simp add: runs_binds assms(1), rule runs_return)
qed

lemma c_string_constants [simp]:
  "c_string kProtocolVersion = kProtocolVersion" "c_string kCipherSuite = kCipherSuite"
  by (simp_all add: c_string_def kProtocolVersion_def kCipherSuite_def)

lemma acquire_after_publish:
  assumes "sqlite_call (PublishBundle_sq ssl (sqlite_env env) b) st = (Ok (), st')"
    and "pb_one_time_ec b \<noteq> []" "pb_one_time_pq b \<noteq> []"
  shows "fst (sqlite_call (AcquireBundleForSession_sq (sqlite_env env') (pb_user_id b)) st') = Ok (first_keys b)"
proof -
  let ?u = "pb_user_id b"
  obtain t' where p: "sq_refuse (transact (sqlite_env env) (publish_body (sqlite_env env) b)) (st, 0) = (Ok (), st', t')"
    and v: "pb_version b = kProtocolVersion" "pb_cipher_suite b = kCipherSuite"
    using assms(1) by (auto simp: PublishBundle_sq_def sqlite_call_run sq_return_iff split: if_splits result.splits)
  then have "transact (sqlite_env env) (publish_body (sqlite_env env) b) (st, 0) = (Ok (Inr ()), st', t')"
    by (simp add: sq_refuse_Ok)
  then obtain s1 where "publish_body (sqlite_env env) b (st\<lparr>sq_txn := Some (sq_db st)\<rparr>, Suc 0) = (Ok (Inr ()), s1)"
    and st': "st' = (fst s1)\<lparr>sq_txn := None\<rparr>" by (rule transact_commits) simp
  from publish_body_Ok [OF this(1)] assms(2,3)
  obtain ec ecs pq pqs where k: "db_bundles (sq_db st') ?u = Some (bundle_row b)"
    "keys_of ?u (db_one_time_ec (sq_db st')) = ec # ecs" "pb_one_time_ec b = ec # ecs"
    "keys_of ?u (db_one_time_pq (sq_db st')) = pq # pqs" "pb_one_time_pq b = pq # pqs"
    by (cases "pb_one_time_ec b"; cases "pb_one_time_pq b") (auto simp: st')
  let ?st = "st'\<lparr>sq_txn := Some (sq_db st')\<rparr>"
  obtain st2 where "runs (acquire_body (sqlite_env env') ?u) ?st
      (Ok (Inr ((read_bundle_row ?u (bundle_row b))\<lparr>pb_one_time_ec := [ec], pb_one_time_pq := [pq]\<rparr>))) st2"
    using acquire_body_runs [of "sqlite_env env'" ?st ?u "bundle_row b" ec ecs pq pqs] k by auto
  from runs_call [OF runs_transact [OF calm_sqlite_env _ keeps_txn_acquire this]]
  have "fst (sqlite_call (AcquireBundleForSession_sq (sqlite_env env') ?u) st') =
      Ok ((read_bundle_row ?u (bundle_row b))\<lparr>pb_one_time_ec := [ec], pb_one_time_pq := [pq]\<rparr>)"
    by (simp add: AcquireBundleForSession_sq_def st')
  then show ?thesis using k v by (simp add: first_keys_def read_bundle_row_def bundle_row_def)
qed

lemma sq_fits_stored: "sq_fits e \<Longrightarrow> SerializeEnvelope e = Ok (Envelope_bytes e) \<and> DeserializeEnvelope (Envelope_bytes e) = Ok e"
  by (simp add: sq_fits_def SerializeEnvelope_ok envelope_roundtrip)

lemma enqueue_stores:
  assumes inv: "sq_inv st" and fits: "sq_fits e"
    and run: "sqlite_call (EnqueueEnvelope_sq (sqlite_env env) u e) st = (Ok (), st')"
  shows "sq_inv st' \<and> (\<forall>v. sq_room st v \<le> sq_room st' v + 1) \<and>
    (\<exists>i. sq_pending st' u = sq_pending st u @ [\<lparr>ie_inbox_id = i, ie_envelope = e\<rparr>]) \<and>
    (\<forall>v. v \<noteq> u \<longrightarrow> sq_pending st' v = sq_pending st v)"
proof -
  let ?d = "sq_db st"
  have st': "db_inbox_seq ?d \<noteq> 2 ^ 63 - 1"
    "st' = st\<lparr>sq_db := ?d\<lparr>db_inbox := db_inbox ?d @ [(db_inbox_seq ?d + 1, u, Envelope_bytes e)],
      db_inbox_seq := db_inbox_seq ?d + 1\<rparr>\<rparr>"
    using run sq_fits_stored [OF fits]
    by (auto simp: sqlite_call_run EnqueueEnvelope_sq_def sq_bind_Ok sq_return_iff result_inv next_rowid_def
        elim!: sq_statement_Ok split: if_splits)
  have lt: "db_inbox_seq ?d < 2 ^ 63" using inv by (simp add: sq_inv_def inbox_rows_ok_def)
  then have "unat (db_inbox_seq ?d) < 2 ^ 63 - 1"
    using st'(1) by (simp add: word_less_nat_alt word_unat_eq_iff)
  then have next_id: "unat (db_inbox_seq ?d + 1) = unat (db_inbox_seq ?d) + 1" by (simp add: unat_word_ariths)
  have new: "i < db_inbox_seq ?d + 1" if "i \<le> db_inbox_seq ?d" for i
    using that next_id by (simp add: word_le_nat_alt word_less_nat_alt)
  have bound: "db_inbox_seq ?d + 1 < 2 ^ 63"
    using \<open>unat (db_inbox_seq ?d) < 2 ^ 63 - 1\<close> next_id by (simp add: word_less_nat_alt)
  have "inbox_rows_ok (sq_db st')"
    using inv sq_fits_stored [OF fits] new bound
    by (fastforce simp: st'(2) sq_inv_def inbox_rows_ok_def sorted_wrt_append less_imp_le)
  then show ?thesis
    using inv sq_fits_stored [OF fits] next_id
    by (simp add: st'(2) sq_inv_def sq_room_def sq_pending_def rows_of_def row_envelope_def)
qed

lemma EnqueueEnvelope_runs:
  assumes "sq_inv st" "0 < sq_room st u" "sq_fits e"
  shows "\<exists>st'. sqlite_call (EnqueueEnvelope_sq (sqlite_env env) u e) st = (Ok (), st')"
proof -
  let ?d = "sq_db st"
  have "next_rowid (db_inbox_seq ?d) = Ok (db_inbox_seq ?d + 1)"
    using assms(2) by (auto simp: sq_room_def next_rowid_def)
  then have ins: "runs (sq_statement (sqlite_env env) [BindText (sqlite_env env), BindBlob (sqlite_env env)] (\<lambda>d.
       rbind (next_rowid (db_inbox_seq d)) (\<lambda>i.
       Ok (1, d\<lparr>db_inbox := db_inbox d @ [(i, u, Envelope_bytes e)], db_inbox_seq := i\<rparr>)))) st (Ok 1)
     (st\<lparr>sq_db := ?d\<lparr>db_inbox := db_inbox ?d @ [(db_inbox_seq ?d + 1, u, Envelope_bytes e)],
       db_inbox_seq := db_inbox_seq ?d + 1\<rparr>\<rparr>)"
    by (intro runs_statement) (simp_all add: runs_binds)
  have ser: "runs (sq_return (SerializeEnvelope e)) st (Ok (Envelope_bytes e)) st"
    using sq_fits_stored [OF assms(3)] by (simp add: runs_return)
  show ?thesis
    unfolding EnqueueEnvelope_sq_def
    by (rule exI, rule runs_call, rule runs_bind [OF ser], rule runs_bind [OF ins], rule runs_return)
qed

interpretation sq_server: message_server sq_inv sq_pending sq_known sq_fits sq_room "sqlite_api ssl" for ssl
proof (rule message_server.intro)
  fix env
  show "inbox_service sq_inv sq_pending sq_known (api_DrainInbox (sqlite_api ssl) env)"
    using sq_inbox.inbox_service_axioms [of env] by (simp add: sqlite_api_def)
next
  fix s u e env s'
  assume "sq_inv s" "sq_fits e" "api_EnqueueEnvelope (sqlite_api ssl) env s u e = (Ok (), s')"
  then show "sq_inv s' \<and> (\<forall>v. sq_room s v \<le> sq_room s' v + 1) \<and>
      (\<exists>i. sq_pending s' u = sq_pending s u @ [\<lparr>ie_inbox_id = i, ie_envelope = e\<rparr>]) \<and>
      (\<forall>v. v \<noteq> u \<longrightarrow> sq_pending s' v = sq_pending s v)"
    by (intro enqueue_stores) (simp_all add: sqlite_api_def)
next
  fix s u e env
  assume "sq_inv s" "0 < sq_room s u" "sq_fits e"
  from EnqueueEnvelope_runs [OF this] show "\<exists>s'. api_EnqueueEnvelope (sqlite_api ssl) env s u e = (Ok (), s')"
    by (simp add: sqlite_api_def)
next
  fix s env b s'
  assume inv: "sq_inv s" and "api_PublishBundle (sqlite_api ssl) env s b = (Ok (), s')"
  then obtain t' where "sq_refuse (transact (sqlite_env env) (publish_body (sqlite_env env) b)) (s, 0) = (Ok (), s', t')"
    by (auto simp: sqlite_api_def sqlite_call_run PublishBundle_sq_def sq_return_iff split: if_splits result.splits)
  from transact_mail [OF calm_sqlite_env _ keeps_txn_publish keeps_mail_publish this] inv
  show "sq_inv s' \<and> sq_room s' = sq_room s \<and> sq_pending s' = sq_pending s"
    by (intro sq_inv_mail) (simp_all add: sq_inv_def)
next
  fix s env u r s'
  assume inv: "sq_inv s" and "api_AcquireBundleForSession (sqlite_api ssl) env s u = (r, s')"
  then obtain t' where "sq_refuse (transact (sqlite_env env) (acquire_body (sqlite_env env) u)) (s, 0) = (r, s', t')"
    by (auto simp: sqlite_api_def sqlite_call_run AcquireBundleForSession_sq_def)
  from transact_mail [OF calm_sqlite_env _ keeps_txn_acquire keeps_mail_acquire this] inv
  show "sq_inv s' \<and> sq_room s' = sq_room s \<and> sq_pending s' = sq_pending s"
    by (intro sq_inv_mail) (simp_all add: sq_inv_def)
next
  fix env s b s' env'
  assume "api_PublishBundle (sqlite_api ssl) env s b = (Ok (), s')" "pb_one_time_ec b \<noteq> []" "pb_one_time_pq b \<noteq> []"
  then show "fst (api_AcquireBundleForSession (sqlite_api ssl) env' s' (pb_user_id b)) = Ok (first_keys b)"
    using acquire_after_publish by (simp add: sqlite_api_def)
qed

section \<open>Calls that cannot fail\<close>

lemma next_rowid_room: "unat seq + 1 < 2 ^ 63 \<Longrightarrow> next_rowid seq = Ok (seq + 1) \<and> unat (seq + 1) = unat seq + 1"
  by (auto simp: next_rowid_def unat_word_ariths)

lemma each_ec_runs:
  assumes "calm env" "\<forall>k\<in>set keys. ote_public_key k \<noteq> []"
    and "unat (db_one_time_ec_seq (sq_db st)) + length keys < 2 ^ 63"
  shows "\<exists>rows seq. runs (sq_each (InsertOneTimeEc env u) keys) st (Ok ())
    (st\<lparr>sq_db := (sq_db st)\<lparr>db_one_time_ec := rows, db_one_time_ec_seq := seq\<rparr>\<rparr>)"
  using assms(2,3)
proof (induction keys arbitrary: st)
  case Nil
  then show ?case
    by (intro exI [of _ "db_one_time_ec (sq_db st)"] exI [of _ "db_one_time_ec_seq (sq_db st)"]) (simp add: runs_return)
next
  case (Cons k keys)
  let ?d = "sq_db st" and ?i = "db_one_time_ec_seq (sq_db st) + 1"
  let ?st = "st\<lparr>sq_db := ?d\<lparr>db_one_time_ec := db_one_time_ec ?d @ [(?i, u, k)], db_one_time_ec_seq := ?i\<rparr>\<rparr>"
  have i: "next_rowid (db_one_time_ec_seq ?d) = Ok ?i" "unat ?i = unat (db_one_time_ec_seq ?d) + 1"
    using next_rowid_room [of "db_one_time_ec_seq ?d"] Cons.prems(2) by simp_all
  have "runs (InsertOneTimeEc env u k) st (Ok 1) ?st"
    unfolding InsertOneTimeEc_def using Cons.prems(1) i
    by (intro runs_statement assms(1)) (simp_all add: runs_binds assms(1) not_null_def)
  moreover obtain rows seq where "runs (sq_each (InsertOneTimeEc env u) keys) ?st (Ok ())
      (?st\<lparr>sq_db := (sq_db ?st)\<lparr>db_one_time_ec := rows, db_one_time_ec_seq := seq\<rparr>\<rparr>)"
    using Cons.IH [of ?st] Cons.prems i by auto
  ultimately have "runs (sq_each (InsertOneTimeEc env u) (k # keys)) st (Ok ())
      (?st\<lparr>sq_db := (sq_db ?st)\<lparr>db_one_time_ec := rows, db_one_time_ec_seq := seq\<rparr>\<rparr>)"
    unfolding sq_each.simps by (rule runs_bind)
  then show ?case by (intro exI [of _ rows] exI [of _ seq]) simp
qed

lemma each_pq_runs:
  assumes "calm env" "\<forall>k\<in>set keys. otp_public_key k \<noteq> []"
    and "unat (db_one_time_pq_seq (sq_db st)) + length keys < 2 ^ 63"
  shows "\<exists>st'. runs (sq_each (InsertOneTimePq env u) keys) st (Ok ()) st'"
  using assms(2,3)
proof (induction keys arbitrary: st)
  case Nil
  then show ?case by (auto intro: runs_return)
next
  case (Cons k keys)
  let ?d = "sq_db st" and ?i = "db_one_time_pq_seq (sq_db st) + 1"
  let ?st = "st\<lparr>sq_db := ?d\<lparr>db_one_time_pq := db_one_time_pq ?d @ [(?i, u, k)], db_one_time_pq_seq := ?i\<rparr>\<rparr>"
  have i: "next_rowid (db_one_time_pq_seq ?d) = Ok ?i" "unat ?i = unat (db_one_time_pq_seq ?d) + 1"
    using next_rowid_room [of "db_one_time_pq_seq ?d"] Cons.prems(2) by simp_all
  have "runs (InsertOneTimePq env u k) st (Ok 1) ?st"
    unfolding InsertOneTimePq_def using Cons.prems(1) i
    by (intro runs_statement assms(1)) (simp_all add: runs_binds assms(1) not_null_def)
  moreover obtain st' where "runs (sq_each (InsertOneTimePq env u) keys) ?st (Ok ()) st'"
    using Cons.IH [of ?st] Cons.prems i by auto
  ultimately show ?case unfolding sq_each.simps by (blast intro: runs_bind)
qed

text \<open>The bundle and its keys have no empty field, and there are ids for the keys.\<close>

definition storable :: "SqliteStore \<Rightarrow> PrekeyBundle \<Rightarrow> bool" where
  "storable st b \<longleftrightarrow> (\<forall>(_, v)\<in>set (bundle_blobs b). v \<noteq> []) \<and>
     (\<forall>k\<in>set (pb_one_time_ec b). ote_public_key k \<noteq> []) \<and> (\<forall>k\<in>set (pb_one_time_pq b). otp_public_key k \<noteq> []) \<and>
     unat (db_one_time_ec_seq (sq_db st)) + length (pb_one_time_ec b) < 2 ^ 63 \<and>
     unat (db_one_time_pq_seq (sq_db st)) + length (pb_one_time_pq b) < 2 ^ 63"

lemma publish_body_runs:
  assumes env: "calm env" and b: "storable st b"
  shows "\<exists>st'. runs (publish_body env b) st (Ok (Inr ())) st'"
proof -
  let ?u = "pb_user_id b" and ?d = "sq_db st"
  let ?d1 = "?d\<lparr>db_bundles := (db_bundles ?d)(?u \<mapsto> bundle_row b)\<rparr>"
  let ?d2 = "?d1\<lparr>db_one_time_ec := filter (\<lambda>(_, v, _). v \<noteq> ?u) (db_one_time_ec ?d1)\<rparr>"
  let ?d3 = "?d2\<lparr>db_one_time_pq := filter (\<lambda>(_, v, _). v \<noteq> ?u) (db_one_time_pq ?d2)\<rparr>"
  have "not_null ''bundles'' (bundle_blobs b) = Ok ()"
    using b by (auto simp: storable_def not_null_def filter_empty_conv case_prod_unfold split: list.split)
  then have 1: "runs (upsert_bundle env b) st (Ok 1) (st\<lparr>sq_db := ?d1\<rparr>)"
    unfolding upsert_bundle_def by (intro runs_statement env) (simp_all add: runs_binds env)
  have 2: "runs (sq_statement env [BindText env] (\<lambda>d.
      Ok (0, d\<lparr>db_one_time_ec := filter (\<lambda>(_, v, _). v \<noteq> ?u) (db_one_time_ec d)\<rparr>))) (st\<lparr>sq_db := ?d1\<rparr>) (Ok 0)
      (st\<lparr>sq_db := ?d2\<rparr>)"
    using runs_statement [OF env, of "\<lambda>d. Ok (0, d\<lparr>db_one_time_ec := filter (\<lambda>(_, v, _). v \<noteq> ?u) (db_one_time_ec d)\<rparr>)"
        "st\<lparr>sq_db := ?d1\<rparr>" 0 ?d2 "[BindText env]"] by (simp add: runs_binds env)
  have 3: "runs (sq_statement env [BindText env] (\<lambda>d.
      Ok (0, d\<lparr>db_one_time_pq := filter (\<lambda>(_, v, _). v \<noteq> ?u) (db_one_time_pq d)\<rparr>))) (st\<lparr>sq_db := ?d2\<rparr>) (Ok 0)
      (st\<lparr>sq_db := ?d3\<rparr>)"
    using runs_statement [OF env, of "\<lambda>d. Ok (0, d\<lparr>db_one_time_pq := filter (\<lambda>(_, v, _). v \<noteq> ?u) (db_one_time_pq d)\<rparr>)"
        "st\<lparr>sq_db := ?d2\<rparr>" 0 ?d3 "[BindText env]"] by (simp add: runs_binds env)
  obtain rows seq where 4: "runs (sq_each (InsertOneTimeEc env ?u) (pb_one_time_ec b)) (st\<lparr>sq_db := ?d3\<rparr>) (Ok ())
      (st\<lparr>sq_db := ?d3\<lparr>db_one_time_ec := rows, db_one_time_ec_seq := seq\<rparr>\<rparr>)"
    using each_ec_runs [OF env, of "pb_one_time_ec b" "st\<lparr>sq_db := ?d3\<rparr>" ?u] b by (auto simp: storable_def)
  obtain st' where 5: "runs (sq_each (InsertOneTimePq env ?u) (pb_one_time_pq b))
      (st\<lparr>sq_db := ?d3\<lparr>db_one_time_ec := rows, db_one_time_ec_seq := seq\<rparr>\<rparr>) (Ok ()) st'"
    using each_pq_runs [OF env, of "pb_one_time_pq b"] b by (fastforce simp: storable_def)
  show ?thesis
    unfolding publish_body_def Let_def
    by (rule exI, rule runs_bind [OF 1], rule runs_bind [OF 2], rule runs_bind [OF 3], rule runs_bind [OF 4],
        rule runs_bind [OF 5], rule runs_return)
qed

lemma PublishBundle_runs:
  assumes "sq_txn st = None" "storable st b" "pb_version b = kProtocolVersion" "pb_cipher_suite b = kCipherSuite"
    and "VerifyPrekeyBundleSignatures ssl b = Ok ()"
  shows "\<exists>st'. sqlite_call (PublishBundle_sq ssl (sqlite_env env) b) st = (Ok (), st')"
proof -
  have "storable (st\<lparr>sq_txn := Some (sq_db st)\<rparr>) b" using assms(2) by (simp add: storable_def)
  then obtain st1 where "runs (publish_body (sqlite_env env) b) (st\<lparr>sq_txn := Some (sq_db st)\<rparr>) (Ok (Inr ())) st1"
    using publish_body_runs calm_sqlite_env by blast
  from runs_call [OF runs_transact [OF calm_sqlite_env assms(1) keeps_txn_publish this]]
  show ?thesis using assms(3-5) by (simp add: PublishBundle_sq_def)
qed

section \<open>Opening\<close>

lemma migration_keeps:
  "fst (db_bundle_sig_columns (sq_db st)) \<Longrightarrow> snd (add_bundle_sig_ed st) = st"
  "snd (db_bundle_sig_columns (sq_db st)) \<Longrightarrow> snd (add_bundle_sig_ml st) = st"
  by (simp_all add: add_bundle_sig_ed_def add_bundle_sig_ml_def)

lemma migration_step:
  assumes "ExecAllowingDuplicateColumn env f s = (r, s')" "snd (f (fst s)) = fst s"
  shows "fst s' = fst s"
  using assms
  by (cases s) (auto simp: ExecAllowingDuplicateColumn_def Exec_def sq_call_def Let_def
      split: prod.splits option.splits result.splits if_splits)

text \<open>A database that has all columns is opened as it is.\<close>

lemma SqliteStore_Open_Ok:
  assumes "SqliteStore_Open env file secret = (Ok st, file')"
    and "db_bundle_sig_columns (case file of None \<Rightarrow> empty_db | Some d \<Rightarrow> d) = (True, True)"
  shows "sq_db st = (case file of None \<Rightarrow> empty_db | Some d \<Rightarrow> d) \<and> sq_txn st = None \<and> file' = Some (sq_db st)"
proof -
  let ?d = "case file of None \<Rightarrow> empty_db | Some d \<Rightarrow> d"
  obtain hs t x where i: "InitSchema env (\<lparr>sq_db = ?d, sq_txn = None, sq_token_hmac_secret = hs,
      sq_auth_begin_attempts = Map.empty, sq_auth_finish_attempts = Map.empty,
      sq_required_registration_token = secret\<rparr>, 1) = (Ok x, st, t)" and f: "file' = Some (sq_db st)"
    using assms(1) by (auto simp: SqliteStore_Open_def Let_def split: option.splits result.splits prod.splits)
  obtain s1 s2 s3 where s1: "Exec env (\<lambda>st. (Ok (), st)) (\<lparr>sq_db = ?d, sq_txn = None, sq_token_hmac_secret = hs,
      sq_auth_begin_attempts = Map.empty, sq_auth_finish_attempts = Map.empty,
      sq_required_registration_token = secret\<rparr>, 1) = (Ok (), s1)"
    and s2: "ExecAllowingDuplicateColumn env add_bundle_sig_ed s1 = (Ok (), s2)"
    and s3: "ExecAllowingDuplicateColumn env add_bundle_sig_ml s2 = (Ok (), s3)" and st: "fst s3 = st"
    using i by (auto simp: InitSchema_def sq_bind_Ok sq_return_iff)
  have "sq_db (fst s1) = ?d" "sq_txn (fst s1) = None"
    using s1 by (auto simp: Exec_def sq_call_def split: option.splits)
  with migration_step [OF s2] migration_step [OF s3] migration_keeps assms(2) st f show ?thesis by simp
qed

lemma empty_db_ok: "inbox_rows_ok empty_db"
  by (simp add: inbox_rows_ok_def empty_db_def)

section \<open>Theorems\<close>

text \<open>
C28. DrainInbox of the SQLite store with an acknowledged id of 2^63 or more deletes nothing:
it returns a prefix of the pending envelopes and leaves the store as it was.
\<close>

theorem large_acks_delete_nothing:
  assumes "sq_inv st" "2 ^ 63 \<le> ack"
  shows "\<exists>k. sqlite_call (DrainInbox_sq (sqlite_env env) u (Some ack)) st = (Ok (take k (sq_pending st u)), st)"
proof -
  have "db_inbox (acked u (Some ack) (sq_db st)) = db_inbox (sq_db st)"
    using assms sle_unknown row_known [of "sq_db st"]
    by (auto simp: acked_def sq_inv_def sq_known_def not_less intro!: filter_True)
  then have "acked u (Some ack) (sq_db st) = sq_db st" by (simp add: acked_def)
  with DrainInbox_runs [OF assms(1), of env u "Some ack"] show ?thesis by (auto simp: sq_pending_def)
qed

theorem restart_keeps_committed:
  assumes "SqliteStore_Open env (Some (committed st)) secret = (Ok st', file)"
    and "db_bundle_sig_columns (committed st) = (True, True)"
  shows "sq_db st' = committed st \<and> sq_txn st' = None \<and> file = Some (committed st) \<and>
    (\<forall>u. rows_of u (sq_db st') = rows_of u (committed st))"
  using SqliteStore_Open_Ok [OF assms(1)] assms(2) by simp

end
