(* ===== verification/Sqlite_Scenario.thy ===== *)
theory Sqlite_Scenario
  imports Scenario Sqlite_Service
begin

text \<open>
  Two clients that talk through the SQLite store. The messages they build are within the limits of the
  decoder as long as the primitives keep their sizes and the texts are below one megabyte, so the store
  gives them back as they were, and the end-to-end theorem holds for it as for the in-memory server.
\<close>

section \<open>The messages fit\<close>

lemma encrypted_length:
  assumes "aead_correct ssl" "EncryptChainStep ssl k n nonce p ad = (Ok c, k')"
  shows "length c = length p + 16" and "length nonce = 12"
  using assms
  by (auto simp: EncryptChainStep_def aead_correct_def Seal_def kTagSize_def kNonceSize_def result_inv
      split: result.splits prod.splits if_splits)

lemma generated_length:
  assumes "sizes_bounded ssl"
  shows "X25519_GenerateKeyPair ssl ent = Ok kp \<Longrightarrow> length (xk_public_key kp) \<le> 8192"
    and "dh_pair ssl kp \<Longrightarrow> length (xk_public_key kp) \<le> 8192"
    and "ed_pair ssl ep \<Longrightarrow> length (ek_public_key ep) \<le> 8192"
    and "mldsa_pair ssl dp \<Longrightarrow> length (dk_public_key dp) \<le> 8192"
    and "Ed25519_Sign ssl sk m = Ok sig \<Longrightarrow> length sig \<le> 8192"
    and "MlDsa65_Sign ssl ent msk m = Ok sig \<Longrightarrow> length sig \<le> 8192"
    and "MlKem768_Encapsulate ssl ent pk = Ok er \<Longrightarrow> length (er_ciphertext er) \<le> 8192"
  using assms
  by (auto simp: sizes_bounded_def X25519_GenerateKeyPair_def dh_pair_def ed_pair_def mldsa_pair_def
      Ed25519_Sign_def MlDsa65_Sign_def MlKem768_Encapsulate_def result_inv split: option.splits) blast

lemma written_lengths [simp]:
  "length (Writer_U8 b) = 1" "length (Writer_U32 w) = 4" "length (Writer_U64 l) = 8"
  by (simp_all add: Writer_U8_def Writer_U32_def Writer_U64_def)

lemmas written = Writer_String_def Writer_Bytes_def Writer_OptionalBytes_def Writer_OptionalU32_def

definition text_fits :: "string \<Rightarrow> bool" where
  "text_fits t \<longleftrightarrow> length t + 16 \<le> 1048576"

lemma session_send_fits:
  assumes "aead_correct ssl" "sizes_bounded ssl" "session_send ssl ent u v t s = (Ok m, s')"
    and "string_ok u" "string_ok v" "string_ok (ss_session_id s)" "text_fits t"
  shows "sq_fits (FromChat m)"
proof -
  obtain s1 h ad c chain where r: "send_ratchet ssl ent s = Ok (s1, h)"
    and m: "mh_sender_ratchet_public_key (cm_header m) = mh_sender_ratchet_public_key h"
      "cm_session_id m = ss_session_id s" "cm_ciphertext m = c"
    and e: "EncryptChainStep ssl (ss_send_chain_key s1) (ss_send_counter s1) (cm_nonce m) (ToBytes t) ad = (Ok c, chain)"
    using assms(3) by (rule session_send_Ok)
  note len = encrypted_length [OF assms(1) e]
  have k: "case mh_sender_ratchet_public_key (cm_header m) of None \<Rightarrow> True | Some pk \<Rightarrow> length pk \<le> 8192"
    using r by (cases rule: send_ratchet_cases) (simp_all add: m generated_length(1) [OF assms(2)])
  have "ChatMessage_ok m"
    using assms k len session_send_key [OF assms(3)]
    by (auto simp: ChatMessage_ok_def MessageHeader_ok_def opt_field_ok_def field_ok_def m text_fits_def
        split: option.splits)
  moreover have "length (WriteChatMessage m) + 1 \<le> kMaxSerializedInputBytes"
    using assms k len session_send_key [OF assms(3)]
    by (auto simp: WriteChatMessage_def WriteMessageHeader_def written m text_fits_def string_ok_def
        kMaxSerializedInputBytes_def split: option.splits)
  ultimately show ?thesis by (simp add: sq_fits_def)
qed

lemma initiate_fits:
  assumes "aead_correct ssl" "sizes_bounded ssl" "keys_wf ssl c"
    and "initiate_handshake ssl ents c v bd sid t = Ok (st, m)"
    and "string_ok (cl_user_id c)" "string_ok v" "string_ok sid" "text_fits t"
  shows "sq_fits (FromInitial m)"
proof -
  obtain e1 e2 e3 e4 where ents: "ents = (e1, e2, e3, e4)" by (cases ents)
  note size = generated_length [OF assms(2)]
  have ids: "length (ek_public_key (cl_identity_sign_key c)) \<le> 8192" "length (dk_public_key (cl_identity_mldsa_key c)) \<le> 8192"
    "length (xk_public_key (cl_identity_dh_key c)) \<le> 8192"
    using assms(3) size by (simp_all add: keys_wf_def)
  show ?thesis
    using assms(4) unfolding ents
  proof (rule initiate_handshake_Ok)
    fix h
    assume a: "X25519_GenerateKeyPair ssl e1 = Ok (hr_eph h)"
      "MlKem768_Encapsulate ssl e2 (skp_public_key (pb_signed_prekey_pq bd)) = Ok (hr_spk h)"
      "MlKem768_Encapsulate ssl e3 (otp_public_key (hd (pb_one_time_pq bd))) = Ok (hr_opk h)"
      "Ed25519_Sign ssl (ek_private_key (cl_identity_sign_key c)) (im_transcript_hash m) = Ok (im_handshake_signature_ed25519 m)"
      "MlDsa65_Sign ssl e4 (dk_private_key (cl_identity_mldsa_key c)) (im_transcript_hash m) = Ok (im_handshake_signature_mldsa65 m)"
      and hash: "ComputeInitialTranscriptHash ssl (initiate_transcript c v bd sid (xk_public_key (hr_eph h))
       (hd (pb_one_time_ec bd)) (hd (pb_one_time_pq bd)) (er_ciphertext (hr_spk h))
       (er_ciphertext (hr_opk h))) = Ok (im_transcript_hash m)"
      and e: "EncryptChainStep ssl (hr_send h) 0 (im_initial_nonce m) (ToBytes t) (im_transcript_hash m) =
       (Ok (im_initial_ciphertext m), hr_next h)"
      and m: "im_session_id m = sid" "im_from_user m = cl_user_id c" "im_to_user m = v"
        "im_version m = kProtocolVersion" "im_cipher_suite m = kCipherSuite"
        "im_initiator_identity_sign_public_key m = ek_public_key (cl_identity_sign_key c)"
        "im_initiator_identity_mldsa_public_key m = dk_public_key (cl_identity_mldsa_key c)"
        "im_initiator_identity_dh_public_key m = xk_public_key (cl_identity_dh_key c)"
        "im_initiator_ephemeral_ec_public_key m = xk_public_key (hr_eph h)"
        "im_kem_ciphertext_signed_pq m = er_ciphertext (hr_spk h)"
        "im_kem_ciphertext_one_time_pq m = Some (er_ciphertext (hr_opk h))"
    note len = encrypted_length [OF assms(1) e] size(1) [OF a(1)] size(7) [OF a(2)] size(7) [OF a(3)]
      size(5) [OF a(4)] size(6) [OF a(5)]
    have hl: "length (im_transcript_hash m) = 32"
      using hash by (auto simp: ComputeInitialTranscriptHash_def Sha256_def SHA256_DIGEST_LENGTH_def
          split: if_splits option.splits) (metis length_fill)
    have "InitialMessage_ok m"
      using assms(5-8) len hl ids
      by (simp add: InitialMessage_ok_def m field_ok_def opt_field_ok_def string_ok_def kProtocolVersion_def
          kCipherSuite_def text_fits_def)
    moreover have "length (WriteInitialMessage m) + 1 \<le> kMaxSerializedInputBytes"
      using assms(5-8) len hl ids
      by (simp add: WriteInitialMessage_def WritePrekeySelection_def written m string_ok_def kProtocolVersion_def
          kCipherSuite_def text_fits_def kMaxSerializedInputBytes_def split: option.split)
    ultimately show ?thesis by (simp add: sq_fits_def)
  qed
qed

section \<open>End to end over the SQLite store\<close>

text \<open>
C12. The same over the SQLite store while SQLite does its work: Bob publishes, Alice starts
a session and sends further texts below one megabyte, and ProcessInbox of Bob returns
exactly these texts in order. Assumed of the primitives in addition: keys, signatures and
KEM ciphertexts are at most 8192 bytes.
\<close>

theorem sqlite_end_to_end_delivery:
  fixes s_a :: "SqliteStore sys" and s_b :: "SqliteStore sys"
  assumes "dh_correct ssl" "kem_correct ssl" "sig_correct ssl" "aead_correct ssl" "hash_total ssl"
    and "client_wf ssl (sy_client s_a)" "client_wf ssl (sy_client s_b)"
    and "trusts_client (sy_client s_b) (sy_client s_a)"
    and "cl_one_time_ec_pool (sy_client s_b) \<noteq> []" "cl_one_time_pq_pool (sy_client s_b) \<noteq> []"
    and "cl_pending_inbox_ack_up_to_id (sy_client s_b) = None"
    and "sq_inv (sy_server s_b)" "sq_pending (sy_server s_b) (cl_user_id (sy_client s_b)) = []"
    and "PublishPrekeys ssl inp_b (Some (sqlite_api ssl)) s_b = (Ok (), s_pub)"
    and "sy_server s_a = sy_server s_pub"
    and "InitiateSession ssl inp (Some (sqlite_api ssl)) (cl_user_id (sy_client s_b)) t s_a = (Ok (), s_init)"
    and "send_texts ssl inp (sqlite_api ssl) (cl_user_id (sy_client s_b)) ts s_init = (Ok (), s_sent)"
    and "fresh_keys ssl inp (sy_tick s_sent)" "unseen (sy_client s_init) (sy_client s_b)"
    and "length ts + 1 < kMaxInboxDrainPasses"
    and "length ts + 1 \<le> sq_room (sy_server s_b) (cl_user_id (sy_client s_b))"
    and "sy_client s_read = sy_client s_pub" "sy_server s_read = sy_server s_sent"
    and "sizes_bounded ssl" "string_ok (cl_user_id (sy_client s_a))" "string_ok (cl_user_id (sy_client s_b))"
    and "\<forall>x\<in>set (t # ts). text_fits x"
  shows "fst (ProcessInbox ssl inp_b' (Some (sqlite_api ssl)) s_read) = Ok (t # ts)"
proof (rule message_server.delivery [OF sq_server.message_server_axioms assms(1-21) _ _ assms(22,23)])
  show "initial_fits sq_fits ssl (sy_client s_a) (cl_user_id (sy_client s_b)) t"
    using initiate_fits [OF assms(4,24)] assms(6,25-27) by (auto simp: initial_fits_def client_wf_def)
  show "chats_fit sq_fits ssl (cl_user_id (sy_client s_a)) (cl_user_id (sy_client s_b)) ts"
    using session_send_fits [OF assms(4,24)] assms(25-27) by (auto simp: chats_fit_def)
qed

section \<open>A run over the SQLite store\<close>

definition demo_store_env :: sq_env where
  "demo_store_env = \<lparr>se_fault = (\<lambda>_. None), se_now = (\<lambda>_. 0), se_rnd1 = Some [], se_rnd2 = None\<rparr>"

definition demo_store :: SqliteStore where
  "demo_store = the (result_value (fst (SqliteStore_Open demo_store_env None [])))"

lemma demo_store_opened:
  "SqliteStore_Open demo_store_env None [] = (Ok demo_store, Some (sq_db demo_store))"
  "sq_db demo_store = empty_db" "sq_inv demo_store"
proof -
  obtain st f where o: "SqliteStore_Open demo_store_env None [] = (Ok st, f)"
    by (simp add: SqliteStore_Open_def demo_store_env_def RandomBytes_sq_def InitSchema_def sq_bind_def Exec_def
        sq_call_def ExecAllowingDuplicateColumn_def add_bundle_sig_ed_def add_bundle_sig_ml_def empty_db_def
        sq_return_def Let_def)
  then have st: "st = demo_store" by (simp add: demo_store_def)
  have "sq_db st = empty_db \<and> sq_txn st = None \<and> f = Some (sq_db st)"
    using SqliteStore_Open_Ok [OF o] by (simp add: empty_db_def)
  with o st empty_db_ok show "SqliteStore_Open demo_store_env None [] = (Ok demo_store, Some (sq_db demo_store))"
    "sq_db demo_store = empty_db" "sq_inv demo_store" by (simp_all add: sq_inv_def)
qed

abbreviation demo_sqlite :: "SqliteStore IServerApi" where
  "demo_sqlite \<equiv> sqlite_api toy_ssl"

abbreviation demo_bundle :: PrekeyBundle where
  "demo_bundle \<equiv> BuildPrekeyBundle toy_ssl (in_entropy demo_inputs 1) demo_bob"

lemma demo_storable: "storable demo_store demo_bundle"
  by (simp add: storable_def bundle_blobs_def BuildPrekeyBundle_def Let_def demo_bob_def demo_client_def
      demo_store_opened empty_db_def Ed25519_Sign_def MlDsa65_Sign_def toy_ssl_def demo_ed_def demo_mldsa_def
      demo_pair_def)

lemma demo_initial_fits: "sq_fits (FromInitial demo_initial)"
  using demo_wf(1)
  by (intro initiate_fits [OF toy_ssl_correct(4) toy_ssl_sizes _ demo_handshake_ok [unfolded demo_handshake_def]])
    (auto simp: client_wf_def string_ok_def text_fits_def demo_alice_def demo_client_def)

definition demo_sq_pub :: "SqliteStore sys" where
  "demo_sq_pub = snd (PublishPrekeys toy_ssl demo_inputs (Some demo_sqlite) (demo_sys demo_bob demo_store))"

definition demo_sq_init :: "SqliteStore sys" where
  "demo_sq_init = snd (InitiateSession toy_ssl demo_inputs (Some demo_sqlite) ''bob'' ''hi''
     (demo_sys demo_alice (sy_server demo_sq_pub)))"

definition demo_sq_sent :: "SqliteStore sys" where
  "demo_sq_sent = snd (SendMessage toy_ssl demo_inputs (Some demo_sqlite) ''bob'' ''there'' demo_sq_init)"

text \<open>Bob publishes, Alice acquires, and both of her messages are stored.\<close>

lemma demo_sqlite_run:
  obtains s_pub s_init s_sent where
    "PublishPrekeys toy_ssl demo_inputs (Some demo_sqlite) (demo_sys demo_bob demo_store) = (Ok (), s_pub)"
    "sy_client s_pub = demo_bob\<lparr>cl_prekeys_dirty := False\<rparr>"
    "InitiateSession toy_ssl demo_inputs (Some demo_sqlite) ''bob'' ''hi'' (demo_sys demo_alice (sy_server s_pub)) = (Ok (), s_init)"
    "SendMessage toy_ssl demo_inputs (Some demo_sqlite) ''bob'' ''there'' s_init = (Ok (), s_sent)" "sy_tick s_sent = 12"
proof -
  have b: "pb_user_id demo_bundle = ''bob''" "pb_one_time_ec demo_bundle \<noteq> []" "pb_one_time_pq demo_bundle \<noteq> []"
    "pb_version demo_bundle = kProtocolVersion" "pb_cipher_suite demo_bundle = kCipherSuite"
    by (simp_all add: BuildPrekeyBundle_def Let_def demo_bob_def demo_client_def)
  have "sq_txn demo_store = None" using demo_store_opened(3) by (simp add: sq_inv_def)
  from PublishBundle_runs [OF this demo_storable b(4,5) demo_checks(1)]
  obtain srv1 where "sqlite_call (PublishBundle_sq toy_ssl (sqlite_env (in_call demo_inputs 2)) demo_bundle) demo_store = (Ok (), srv1)"
    by blast
  then have pub: "api_PublishBundle demo_sqlite (in_call demo_inputs 2) demo_store demo_bundle = (Ok (), srv1)"
    by (simp add: sqlite_api_def)
  obtain disk where p: "PublishPrekeys toy_ssl demo_inputs (Some demo_sqlite) (demo_sys demo_bob demo_store) = (Ok (),
      \<lparr>sy_client = demo_bob\<lparr>cl_prekeys_dirty := False\<rparr>, sy_disk = disk, sy_server = srv1, sy_tick = 4\<rparr>)"
    using pub by (rule demo_publishes)
  obtain srv2 where acq: "api_AcquireBundleForSession demo_sqlite (in_call demo_inputs 1) srv1 ''bob'' = (Ok demo_offer, srv2)"
    using sq_server.acquire_published [OF pub b(2,3), of "in_call demo_inputs 1"]
    by (simp only: b demo_offer_def) (metis prod.collapse)
  have inv2: "sq_inv srv2" "sq_room srv2 = sq_room demo_store"
    using sq_server.publish [OF demo_store_opened(3) pub] sq_server.acquire [OF _ acq] by auto
  have room: "sq_room demo_store u = 2 ^ 63 - 1" for u by (simp add: sq_room_def demo_store_opened empty_db_def)
  obtain srv3 where enq: "api_EnqueueEnvelope demo_sqlite (in_call demo_inputs 7) srv2 ''bob'' (FromInitial demo_initial) = (Ok (), srv3)"
    using EnqueueEnvelope_runs [OF inv2(1) _ demo_initial_fits, of "''bob''" "in_call demo_inputs 7"]
    by (auto simp: inv2 room sqlite_api_def)
  obtain c1 disk' where r: "RememberInitialReplayGuards (ss_session_id demo_started) (im_transcript_hash demo_initial)
      demo_alice = (Ok (), c1)"
    and i: "InitiateSession toy_ssl demo_inputs (Some demo_sqlite) ''bob'' ''hi'' (demo_sys demo_alice srv1) = (Ok (),
      \<lparr>sy_client = set_session ''bob'' demo_started c1, sy_disk = disk', sy_server = srv3, sy_tick = 9\<rparr>)"
    using acq enq by (rule demo_initiates)
  let ?s = "\<lparr>sy_client = set_session ''bob'' demo_started c1, sy_disk = disk', sy_server = srv3, sy_tick = 9\<rparr>"
  have "sq_inv srv3" "sq_room srv2 ''bob'' \<le> sq_room srv3 ''bob'' + 1"
    using sq_server.enqueue [OF inv2(1) _ demo_initial_fits enq] by (auto simp: inv2 room)
  then have inv3: "sq_inv srv3" "0 < sq_room srv3 ''bob''" by (simp_all add: inv2 room)
  have id: "cl_user_id c1 = ''alice''"
    using remember_identity [of "ss_session_id demo_started" "im_transcript_hash demo_initial" demo_alice] r
    by (simp add: demo_alice_def demo_client_def)
  have "\<exists>srv'. api_EnqueueEnvelope demo_sqlite (in_call demo_inputs 10) (sy_server ?s) ''bob'' (FromChat m) = (Ok (), srv')"
    if "session_send toy_ssl (in_entropy demo_inputs 9) (cl_user_id (sy_client ?s)) ''bob'' ''there'' demo_started = (Ok m, st')"
    for m st'
  proof -
    have "string_ok (ss_session_id demo_started)"
      using initiate_identity(2) [OF demo_handshake_ok [unfolded demo_handshake_def]] by (simp add: string_ok_def)
    then have "sq_fits (FromChat m)"
      by (intro session_send_fits [OF toy_ssl_correct(4) toy_ssl_sizes that])
        (auto simp: string_ok_def text_fits_def set_session_def id)
    then show ?thesis
      using EnqueueEnvelope_runs [OF inv3(1), of "''bob''" "FromChat m" "in_call demo_inputs 10"] inv3(2)
      by (simp add: sqlite_api_def)
  qed
  then obtain s_sent where "SendMessage toy_ssl demo_inputs (Some demo_sqlite) ''bob'' ''there'' ?s = (Ok (), s_sent)"
    "sy_tick s_sent = 12"
    using demo_sends [OF r, of ?s demo_sqlite] by auto
  with p i show ?thesis by (intro that) auto
qed

lemma demo_sqlite_steps:
  "PublishPrekeys toy_ssl demo_inputs (Some demo_sqlite) (demo_sys demo_bob demo_store) = (Ok (), demo_sq_pub)"
  "sy_client demo_sq_pub = demo_bob\<lparr>cl_prekeys_dirty := False\<rparr>"
  "InitiateSession toy_ssl demo_inputs (Some demo_sqlite) ''bob'' ''hi'' (demo_sys demo_alice (sy_server demo_sq_pub)) =
    (Ok (), demo_sq_init)"
  "SendMessage toy_ssl demo_inputs (Some demo_sqlite) ''bob'' ''there'' demo_sq_init = (Ok (), demo_sq_sent)"
  "sy_tick demo_sq_sent = 12"
  by (rule demo_sqlite_run; simp add: demo_sq_pub_def demo_sq_init_def demo_sq_sent_def)+

theorem sqlite_end_to_end_delivery_witness:
  "fst (ProcessInbox toy_ssl demo_inputs (Some (sqlite_api toy_ssl)) (demo_sq_pub\<lparr>sy_server := sy_server demo_sq_sent\<rparr>)) =
     Ok [''hi'', ''there'']"
proof -
  have sends: "send_texts toy_ssl demo_inputs demo_sqlite ''bob'' [''there''] demo_sq_init = (Ok (), demo_sq_sent)"
    by (simp add: act_bind_def demo_sqlite_steps(4))
  have bob: "sy_client (demo_sys demo_bob demo_store) = demo_bob" "cl_user_id demo_bob = ''bob''"
    "sy_server (demo_sys demo_bob demo_store) = demo_store"
    "sy_client (demo_sys demo_alice (sy_server demo_sq_pub)) = demo_alice" "cl_user_id demo_alice = ''alice''"
    "sy_server (demo_sys demo_alice (sy_server demo_sq_pub)) = sy_server demo_sq_pub"
    "cl_one_time_ec_pool demo_bob \<noteq> []" "cl_one_time_pq_pool demo_bob \<noteq> []"
    "cl_pending_inbox_ack_up_to_id demo_bob = None"
    by (simp_all add: demo_sys_def demo_bob_def demo_alice_def demo_client_def)
  have store: "sq_pending demo_store u = []" "sq_room demo_store u = 2 ^ 63 - 1" for u
    by (simp_all add: sq_pending_def rows_of_def sq_room_def demo_store_opened empty_db_def)
  show ?thesis
  proof (rule sqlite_end_to_end_delivery [where s_a = "demo_sys demo_alice (sy_server demo_sq_pub)"
        and s_b = "demo_sys demo_bob demo_store" and s_pub = demo_sq_pub and s_init = demo_sq_init
        and s_sent = demo_sq_sent and inp = demo_inputs and inp_b = demo_inputs,
        OF toy_ssl_correct toy_ssl_total(1)])
    show "send_texts toy_ssl demo_inputs demo_sqlite (cl_user_id (sy_client (demo_sys demo_bob demo_store)))
        [''there''] demo_sq_init = (Ok (), demo_sq_sent)"
      by (simp only: bob sends)
  qed (simp_all add: bob store demo_wf demo_trusts demo_sqlite_steps demo_fresh_keys demo_store_opened(3)
      kMaxInboxDrainPasses_def toy_ssl_sizes string_ok_def text_fits_def unseen_def,
    simp_all add: demo_bob_def demo_client_def)
qed

section \<open>Both servers\<close>

text \<open>
C21. The same letters, enqueued at a new in-memory server and at a new SQLite store, are all
accepted, and a client that drains and acknowledges receives the same envelopes from both,
which are its letters in order. The letters must be ones the decoder accepts.
\<close>

theorem stores_deliver_the_same_mail:
  assumes "SqliteStore_Open env None secret = (Ok store, f)"
    and "\<forall>(v, e)\<in>set mail. sq_fits e" and "length mail < 2 ^ 63" and "length mail < n"
  shows "\<exists>s1 xs1 s1' s2 xs2 s2'.
    deliver_all (in_memory_api ssl) env1 mail (InMemoryServer_init token) = Some s1 \<and>
    drain_all (api_DrainInbox (in_memory_api ssl) env1) n s1 u None = Some (xs1, s1') \<and>
    deliver_all (sqlite_api ssl) env2 mail store = Some s2 \<and>
    drain_all (api_DrainInbox (sqlite_api ssl) env2) n s2 u None = Some (xs2, s2') \<and>
    map ie_envelope xs1 = mail_for u mail \<and> map ie_envelope xs2 = mail_for u mail"
proof -
  have m: "\<forall>(v, e)\<in>set mail. sq_fits e \<and> can_serialize \<lparr>ie_inbox_id = 0, ie_envelope = e\<rparr>"
    using sq_fits_stored assms(2) by (auto simp: can_serialize_def)
  have "sq_db store = empty_db" "sq_txn store = None"
    using SqliteStore_Open_Ok [OF assms(1)] by (simp_all add: empty_db_def)
  then have "sq_inv store" "\<forall>u. sq_pending store u = []" "\<forall>v. length mail \<le> sq_room store v"
    using assms(3) empty_db_ok by (simp_all add: sq_inv_def sq_pending_def rows_of_def sq_room_def empty_db_def)
  note sq_server.deliver_all_drains [OF this m assms(4), of ssl env2 env2 u]
  moreover have "inbox_inv (InMemoryServer_init token)" "\<forall>u. pending_envelopes (InMemoryServer_init token) u = []"
    "\<forall>v. length mail \<le> inbox_room (InMemoryServer_init token) v"
    using assms(3) by (simp_all add: inbox_inv_def pending_envelopes_def inbox_room_def next_id_def ascending_def
        InMemoryServer_init_def)
  note im_server.deliver_all_drains [OF this _ assms(4), of ssl env1 env1 u]
  ultimately show ?thesis using m by (simp add: case_prod_unfold) blast
qed

end
