(* ===== verification/Sqlite_Invariant.thy ===== *)
theory Sqlite_Invariant
  imports Sqlite_Service
begin

text \<open>
  The SQLite store as a state machine: its methods under any faults, and a crash followed by opening the
  file again. In every state it reaches the tables are well-formed: row ids ascend and stay below the last
  id given, every challenge and every session belongs to an account, every bundle is stored under its user
  with signatures that verify.
\<close>

section \<open>Well-formed tables\<close>

definition ids_ok :: "(u64 \<times> 'r) list \<Rightarrow> u64 \<Rightarrow> bool" where
  "ids_ok rows seq \<longleftrightarrow> sorted_wrt (\<lambda>(i, _) (j, _). i < j) rows \<and> (\<forall>(i, _)\<in>set rows. i \<le> seq) \<and> seq < 2 ^ 63"

definition bundle_ok :: "openssl \<Rightarrow> string \<Rightarrow> PrekeyBundle \<Rightarrow> bool" where
  "bundle_ok ssl u b \<longleftrightarrow> pb_user_id b = u \<and> pb_one_time_ec b = [] \<and> pb_one_time_pq b = [] \<and>
     pb_version b = kProtocolVersion \<and> pb_cipher_suite b = kCipherSuite \<and> VerifyPrekeyBundleSignatures ssl b = Ok ()"

definition db_wf :: "openssl \<Rightarrow> db \<Rightarrow> bool" where
  "db_wf ssl d \<longleftrightarrow>
     ids_ok (db_inbox d) (db_inbox_seq d) \<and> ids_ok (db_one_time_ec d) (db_one_time_ec_seq d) \<and>
     ids_ok (db_one_time_pq d) (db_one_time_pq_seq d) \<and>
     (\<forall>u b. db_bundles d u = Some b \<longrightarrow> bundle_ok ssl u b) \<and>
     (\<forall>i c. db_auth_challenges d i = Some c \<longrightarrow> db_accounts d (ch_user_id c) \<noteq> None) \<and>
     (\<forall>h r. db_sessions d h = Some r \<longrightarrow> db_accounts d (sr_user_id r) \<noteq> None) \<and>
     db_bundle_sig_columns d = (True, True)"

definition store_wf :: "openssl \<Rightarrow> SqliteStore \<Rightarrow> bool" where
  "store_wf ssl st \<longleftrightarrow> db_wf ssl (sq_db st) \<and> (\<forall>d. sq_txn st = Some d \<longrightarrow> db_wf ssl d)"

lemma store_wfI: "db_wf ssl (sq_db st) \<Longrightarrow> (\<And>d. sq_txn st = Some d \<Longrightarrow> db_wf ssl d) \<Longrightarrow> store_wf ssl st"
  by (simp add: store_wf_def)

lemma ids_ok_filter: "ids_ok rows seq \<Longrightarrow> ids_ok (filter P rows) seq"
  by (auto simp: ids_ok_def sorted_wrt_filter)

lemma ids_ok_append:
  assumes "ids_ok rows seq" "next_rowid seq = Ok i"
  shows "ids_ok (rows @ [(i, r)]) i"
proof -
  have s: "seq < 2 ^ 63" "seq \<noteq> 2 ^ 63 - 1" "i = seq + 1"
    using assms by (auto simp: ids_ok_def next_rowid_def split: if_splits)
  then have "unat seq + 1 < 2 ^ 63" by (simp add: word_less_nat_alt word_unat_eq_iff)
  then have u: "unat i = unat seq + 1" using s(3) next_rowid_room by blast
  then have "j < i" if "j \<le> seq" for j using that by (simp add: word_le_nat_alt word_less_nat_alt)
  moreover have "i < 2 ^ 63" using u \<open>unat seq + 1 < 2 ^ 63\<close> by (simp add: word_less_nat_alt)
  ultimately show ?thesis using assms(1) by (fastforce simp: ids_ok_def sorted_wrt_append less_imp_le)
qed

section \<open>The statements keep them\<close>

text \<open>The accounts of \<open>U\<close> are known to exist.\<close>

definition wf_with :: "openssl \<Rightarrow> string set \<Rightarrow> SqliteStore \<Rightarrow> bool" where
  "wf_with ssl U st \<longleftrightarrow> store_wf ssl st \<and> (\<forall>u\<in>U. db_accounts (sq_db st) u \<noteq> None)"

abbreviation keeps_wf :: "openssl \<Rightarrow> string set \<Rightarrow> 'a sq \<Rightarrow> bool" where
  "keeps_wf ssl U \<equiv> frames (\<lambda>st st'. wf_with ssl U st \<longrightarrow> wf_with ssl U st')"

lemma db_wf_audit [simp]: "db_wf ssl (d\<lparr>db_auth_audit_log := rows\<rparr>) = db_wf ssl d"
  by (simp add: db_wf_def)

interpretation wf_db: sq_frame_audit "\<lambda>st st'. wf_with ssl U st \<longrightarrow> wf_with ssl U st'" for ssl U
  by unfold_locales (blast, blast, simp add: wf_with_def store_wf_def)

lemma wf_with_db:
  assumes "db_wf ssl (sq_db st) \<Longrightarrow> \<forall>u\<in>U. db_accounts (sq_db st) u \<noteq> None \<Longrightarrow>
      db_wf ssl d \<and> (\<forall>u\<in>U. db_accounts d u \<noteq> None)"
  shows "wf_with ssl U st \<longrightarrow> wf_with ssl U (st\<lparr>sq_db := d\<rparr>)"
  using assms by (auto simp: wf_with_def store_wf_def)

text \<open>A query for an account whose caller goes on with the account it found.\<close>

lemma keeps_wf_account:
  assumes "\<And>x. keeps_wf ssl {u} (k x)" and "keeps_wf ssl {} no" and "\<And>e. keeps_wf ssl {} (no' e)"
  shows "keeps_wf ssl {} (sq_bind (sq_query env [BindText env] (\<lambda>d. db_accounts d u)) (\<lambda>rc.
    case rc of Row x \<Rightarrow> k x | Done \<Rightarrow> no | Failed e \<Rightarrow> no' e))"
proof (rule framesI)
  fix s r s'
  let ?q = "sq_query env [BindText env] (\<lambda>d. db_accounts d u)"
  assume "sq_bind ?q (\<lambda>rc. case rc of Row x \<Rightarrow> k x | Done \<Rightarrow> no | Failed e \<Rightarrow> no' e) s = (r, s')"
  then show "wf_with ssl {} (fst s) \<longrightarrow> wf_with ssl {} (fst s')"
  proof (rule sq_bind_cases)
    fix e assume q: "?q s = (Err e, s')"
    have "frames (=) ?q" by (intro still.frames_query) simp
    from framesD [OF this q] show ?thesis by simp
  next
    fix rc s1
    assume q: "?q s = (Ok rc, s1)" and c: "(case rc of Row x \<Rightarrow> k x | Done \<Rightarrow> no | Failed e \<Rightarrow> no' e) s1 = (r, s')"
    note s1 = sq_query_Ok [OF q]
    show ?thesis
    proof (cases rc)
      case (Row x)
      then have "wf_with ssl {} (fst s) \<longrightarrow> wf_with ssl {u} (fst s1)" using s1 by (simp add: wf_with_def)
      moreover have "wf_with ssl {u} (fst s1) \<longrightarrow> wf_with ssl {u} (fst s')"
        using framesD [OF assms(1)] c Row by simp
      ultimately show ?thesis by (auto simp: wf_with_def)
    qed (use c s1(1) framesD [OF assms(2)] framesD [OF assms(3)] in auto)
  qed
qed

lemma keeps_wf_transact:
  assumes "keeps_wf ssl {} body"
  shows "keeps_wf ssl {} (transact env body)"
proof (rule framesI)
  have b: "keeps_wf ssl {} (Begin env)" and c: "keeps_wf ssl {} (Commit env)" and "keeps_wf ssl {} (Rollback env)"
    unfolding Begin_def Commit_def Rollback_def Exec_def
    by (rule wf_db.frames_call, simp add: wf_with_def store_wf_def split: option.split)+
  then have rb: "wf_with ssl {} (fst s) \<longrightarrow> wf_with ssl {} (fst (snd (Rollback env s)))" for s
    using framesD by (metis prod.collapse)
  fix s r s' assume "transact env body s = (r, s')"
  then show "wf_with ssl {} (fst s) \<longrightarrow> wf_with ssl {} (fst s')"
    unfolding transact_def
  proof (rule sq_bind_cases)
    fix x s1
    assume s1: "Begin env s = (Ok x, s1)"
      and k: "(case body s1 of
         (Err e, s1) \<Rightarrow> sq_ignore (Rollback env) (sq_return (Err e)) s1
       | (Ok (Inl d), s1) \<Rightarrow> sq_ignore (Rollback env) (sq_return (Ok (Inl d))) s1
       | (Ok (Inr x), s1) \<Rightarrow>
           (case Commit env s1 of
              (Err e, s2) \<Rightarrow> sq_ignore (Rollback env) (sq_return (Err e)) s2
            | (Ok _, s2) \<Rightarrow> (Ok (Inr x), s2))) = (r, s')"
    obtain r2 s2 where s2: "body s1 = (r2, s2)" by (cases "body s1") (rule that)
    obtain r3 s3 where s3: "Commit env s2 = (r3, s3)" by (cases "Commit env s2") (rule that)
    show ?thesis
      using k s2 s3 framesD [OF b s1] framesD [OF assms s2] framesD [OF c s3] rb [of s2] rb [of s3]
      by (auto simp: sq_ignore_def sq_return_def split: result.splits sum.splits)
  qed (use framesD [OF b] in blast)
qed

lemma keeps_wf_statement:
  assumes "\<forall>m\<in>set binds. m \<in> {BindText env, BindBlob env, BindU32 env} \<union> range (bind_int64 env)"
    and "\<And>d n d'. f d = Ok (n, d') \<Longrightarrow> db_wf ssl d \<Longrightarrow> \<forall>u\<in>U. db_accounts d u \<noteq> None \<Longrightarrow>
      db_wf ssl d' \<and> (\<forall>u\<in>U. db_accounts d' u \<noteq> None)"
  shows "keeps_wf ssl U (sq_statement env binds f)"
  using assms by (intro wf_db.frames_statement wf_with_db) (auto simp: wf_db.frames_binds)

lemma keeps_wf_query: "keeps_wf ssl U (sq_query env [BindText env] f)" "keeps_wf ssl U (sq_query env [BindBlob env] f)"
  by (intro wf_db.frames_query, simp add: wf_db.frames_binds)+

lemmas keeps_wf_intros = wf_db.frames_return wf_db.frames_bind wf_db.frames_ignore wf_db.frames_try wf_db.frames_if
  wf_db.frames_now wf_db.frames_hash wf_db.frames_each wf_db.frames_audit wf_db.frames_reject keeps_wf_query

text \<open>Deleting, updating and inserting rows.\<close>

lemma db_wf_delete:
  assumes "db_wf ssl d"
  shows "db_wf ssl (d\<lparr>db_inbox := filter P (db_inbox d)\<rparr>)" "db_wf ssl (d\<lparr>db_one_time_ec := filter Q (db_one_time_ec d)\<rparr>)"
    "db_wf ssl (d\<lparr>db_one_time_pq := filter T (db_one_time_pq d)\<rparr>)"
    "db_wf ssl (d\<lparr>db_auth_challenges := erase_if old (db_auth_challenges d)\<rparr>)"
    "db_wf ssl (d\<lparr>db_sessions := erase_if old' (db_sessions d)\<rparr>)"
  using assms by (auto simp: db_wf_def ids_ok_filter erase_if_def split: option.splits if_splits)

lemma db_wf_ids:
  "db_wf ssl d \<Longrightarrow> ids_ok rows i \<Longrightarrow> db_wf ssl (d\<lparr>db_inbox := rows, db_inbox_seq := i\<rparr>)"
  "db_wf ssl d \<Longrightarrow> ids_ok ecs i \<Longrightarrow> db_wf ssl (d\<lparr>db_one_time_ec := ecs, db_one_time_ec_seq := i\<rparr>)"
  "db_wf ssl d \<Longrightarrow> ids_ok pqs i \<Longrightarrow> db_wf ssl (d\<lparr>db_one_time_pq := pqs, db_one_time_pq_seq := i\<rparr>)"
  unfolding db_wf_def by simp_all

lemma db_wf_has_ids:
  assumes "db_wf ssl d"
  shows "ids_ok (db_inbox d) (db_inbox_seq d)" "ids_ok (db_one_time_ec d) (db_one_time_ec_seq d)"
    "ids_ok (db_one_time_pq d) (db_one_time_pq_seq d)"
  using assms unfolding db_wf_def by simp_all

lemma db_wf_insert_row:
  assumes "db_wf ssl d"
  shows "next_rowid (db_inbox_seq d) = Ok i \<Longrightarrow> db_wf ssl (d\<lparr>db_inbox := db_inbox d @ [(i, u, p)], db_inbox_seq := i\<rparr>)"
    and "next_rowid (db_one_time_ec_seq d) = Ok i \<Longrightarrow>
      db_wf ssl (d\<lparr>db_one_time_ec := db_one_time_ec d @ [(i, u, ec)], db_one_time_ec_seq := i\<rparr>)"
    and "next_rowid (db_one_time_pq_seq d) = Ok i \<Longrightarrow>
      db_wf ssl (d\<lparr>db_one_time_pq := db_one_time_pq d @ [(i, u, pq)], db_one_time_pq_seq := i\<rparr>)"
  by (rule db_wf_ids [OF assms] ids_ok_append db_wf_has_ids [OF assms] | assumption)+

lemma db_wf_bundle: "db_wf ssl d \<Longrightarrow> bundle_ok ssl u b \<Longrightarrow> db_wf ssl (d\<lparr>db_bundles := (db_bundles d)(u \<mapsto> b)\<rparr>)"
  unfolding db_wf_def by simp

lemma db_wf_challenges:
  assumes "db_wf ssl d" "\<And>i c. cs i = Some c \<Longrightarrow> db_accounts d (ch_user_id c) \<noteq> None"
  shows "db_wf ssl (d\<lparr>db_auth_challenges := cs\<rparr>)"
  using assms unfolding db_wf_def by simp

lemma db_wf_sessions:
  assumes "db_wf ssl d" "\<And>h r. rs h = Some r \<Longrightarrow> db_accounts d (sr_user_id r) \<noteq> None"
  shows "db_wf ssl (d\<lparr>db_sessions := rs\<rparr>)"
  using assms unfolding db_wf_def by simp

lemma db_wf_challenge_user: "db_wf ssl d \<Longrightarrow> db_auth_challenges d i = Some c \<Longrightarrow> \<exists>y. db_accounts d (ch_user_id c) = Some y"
  unfolding db_wf_def by blast

lemma db_wf_session_user: "db_wf ssl d \<Longrightarrow> db_sessions d h = Some r \<Longrightarrow> \<exists>y. db_accounts d (sr_user_id r) = Some y"
  unfolding db_wf_def by blast

lemma db_wf_accounts: "db_wf ssl d \<Longrightarrow> dom (db_accounts d) \<subseteq> dom as \<Longrightarrow> db_wf ssl (d\<lparr>db_accounts := as\<rparr>)"
  unfolding db_wf_def by (simp add: subset_iff dom_def)

lemma keeps_wf_cleanup: "keeps_wf ssl U (CleanupAuthState_sq env now)"
  unfolding CleanupAuthState_sq_def
  by (intro keeps_wf_intros keeps_wf_statement) (auto simp: db_wf_delete)

lemma keeps_wf_refuse: "keeps_wf ssl {} body \<Longrightarrow> keeps_wf ssl {} (sq_refuse (transact env body))"
  unfolding sq_refuse_def by (intro wf_db.frames_bind keeps_wf_transact) (auto split: sum.split intro: wf_db.frames_return)

lemma keeps_wf_rotate: "keeps_wf ssl U (rotate_account env request)"
  unfolding rotate_account_def
  by (intro keeps_wf_intros keeps_wf_statement)
    (auto intro!: db_wf_accounts db_wf_sessions split: if_splits dest!: db_wf_session_user [rotated])

lemma keeps_wf_account_change:
  "keeps_wf ssl {} (replace_identity ssl' env request existing)" "keeps_wf ssl {} (insert_account ssl' env request)"
proof -
  have 1: "keeps_wf ssl {} (sq_bind (sq_refuse (transact env (rotate_account env request))) (\<lambda>_.
      sq_ignore (AppendAuthAudit env u event detail) (sq_return (Ok ()))))" for u event detail
    by (intro keeps_wf_intros keeps_wf_refuse keeps_wf_rotate)
  have 2: "keeps_wf ssl {} (sq_bind (sq_statement env [BindText env, BindBlob env] (\<lambda>d.
             case db_accounts d (rr_user_id request) of
               Some _ \<Rightarrow> Err ''UNIQUE constraint failed: accounts.user_id''
             | None \<Rightarrow> Ok (1, d\<lparr>db_accounts :=
                 (db_accounts d)(rr_user_id request \<mapsto> rr_transport_auth_public_key request)\<rparr>))) (\<lambda>_.
      sq_ignore (AppendAuthAudit env u event detail) (sq_return (Ok ()))))" for u event detail
    by (intro keeps_wf_intros keeps_wf_statement) (auto intro!: db_wf_accounts split: option.splits)
  note n = framesD [OF wf_db.frames_reject]
  show "keeps_wf ssl {} (replace_identity ssl' env request existing)"
    by (rule framesI) (auto simp only: replace_identity_def Let_def split: if_splits dest!: n framesD [OF 1])
  show "keeps_wf ssl {} (insert_account ssl' env request)"
    by (rule framesI) (auto simp only: insert_account_def Let_def split: if_splits dest!: n framesD [OF 2])
qed

lemma keeps_wf_register: "keeps_wf ssl {} (RegisterTransportIdentity_sq ssl' env request)"
  unfolding RegisterTransportIdentity_sq_def Let_def
  by (intro keeps_wf_intros) (auto split: step_rc.split intro!: keeps_wf_intros keeps_wf_account_change)

lemma keeps_wf_publish_body:
  assumes "pb_version b = kProtocolVersion" "pb_cipher_suite b = kCipherSuite" "VerifyPrekeyBundleSignatures ssl b = Ok ()"
  shows "keeps_wf ssl U (publish_body env b)"
proof -
  have "bundle_ok ssl (pb_user_id b) (bundle_row b)"
    using assms by (simp add: bundle_ok_def bundle_row_def VerifyPrekeyBundleSignatures_def BuildBundleSignInput_def)
  then show ?thesis
    unfolding publish_body_def upsert_bundle_def InsertOneTimeEc_def InsertOneTimePq_def Let_def
    by (intro keeps_wf_intros keeps_wf_statement) (auto simp: db_wf_delete result_inv intro: db_wf_insert_row db_wf_bundle)
qed

lemma keeps_wf_acquire_body: "keeps_wf ssl U (acquire_body env u)"
  unfolding acquire_body_def delete_row_def
  by (intro keeps_wf_intros)
    (auto simp: Let_def split: step_rc.split intro!: keeps_wf_intros keeps_wf_statement db_wf_delete)

lemma keeps_wf_drain_rows: "keeps_wf ssl U (drain_rows env rows out n)"
  by (induction env rows out n rule: drain_rows.induct) (auto simp: Let_def intro!: keeps_wf_intros wf_db.frames_call)

lemma keeps_wf_drain_body: "keeps_wf ssl U (drain_body env u ack)"
  unfolding drain_body_def
  by (intro keeps_wf_intros wf_db.frames_all wf_db.frames_binds
      wf_db.frames_read [of _ _ "\<lambda>st. drain_rows env (take n (rows_of u (sq_db st))) [] 0" for n] keeps_wf_drain_rows)
    (auto simp: wf_db.frames_binds split: option.split intro!: keeps_wf_intros keeps_wf_statement db_wf_delete)

lemma keeps_wf_limits: "keeps_wf ssl U (limit_begin u now)" "keeps_wf ssl U (limit_finish u now)"
  unfolding limit_begin_def limit_finish_def
  by (rule wf_db.frames_state, simp add: wf_with_def store_wf_def Let_def split: prod.split)+

lemma keeps_wf_begin: "keeps_wf ssl {} (BeginTransportAuthentication_sq env request)"
proof -
  have "keeps_wf ssl {abq_user_id request} (insert_challenge env i
      \<lparr>ch_user_id = abq_user_id request, ch_client_nonce = n, ch_server_nonce = n', ch_expires_at_unix = t, ch_used = False\<rparr>)"
    for i n n' t
    unfolding insert_challenge_def
    by (intro keeps_wf_statement)
      (auto intro!: db_wf_challenges split: option.splits if_splits dest!: db_wf_challenge_user [rotated])
  then show ?thesis
    unfolding BeginTransportAuthentication_sq_def Let_def
    by (intro keeps_wf_intros keeps_wf_cleanup keeps_wf_limits keeps_wf_account)
      (auto split: result.split intro!: keeps_wf_intros)
qed

lemma keeps_wf_use: "keeps_wf ssl U (use_challenge env request)"
  unfolding use_challenge_def
  by (intro keeps_wf_intros)
    (auto split: step_rc.split option.splits if_splits dest!: db_wf_challenge_user [rotated]
      intro!: keeps_wf_intros keeps_wf_statement db_wf_challenges)

lemma keeps_wf_finish: "keeps_wf ssl {} (FinishTransportAuthentication_sq ssl' env request)"
proof -
  have "keeps_wf ssl {afq_user_id request} (insert_session env h
      \<lparr>sr_user_id = afq_user_id request, sr_issued_at_unix = t, sr_expires_at_unix = t', sr_revoked = False\<rparr>)" for h t t'
    unfolding insert_session_def
    by (intro keeps_wf_statement)
      (auto intro!: db_wf_sessions split: option.splits if_splits dest!: db_wf_session_user [rotated])
  then have "keeps_wf ssl {} (issue_session_sq ssl' env now request)" for now
    unfolding issue_session_sq_def Let_def by (intro keeps_wf_account keeps_wf_intros)
  then show ?thesis
    unfolding FinishTransportAuthentication_sq_def Let_def
    by (intro keeps_wf_intros keeps_wf_cleanup keeps_wf_limits keeps_wf_transact keeps_wf_use)
      (auto split: sum.split intro!: keeps_wf_intros)
qed

lemma keeps_wf_authenticate: "keeps_wf ssl {} (AuthenticateSessionToken_sq ssl' env token)"
  unfolding AuthenticateSessionToken_sq_def
  by (intro keeps_wf_intros keeps_wf_cleanup) (auto simp: Let_def split: step_rc.split intro!: keeps_wf_intros)

lemma keeps_wf_revoke: "keeps_wf ssl {} (RevokeSessionToken_sq ssl' env token)"
  unfolding RevokeSessionToken_sq_def
  by (intro keeps_wf_intros)
    (auto simp: Let_def split: step_rc.split if_splits dest!: db_wf_session_user [rotated]
      intro!: keeps_wf_intros keeps_wf_statement db_wf_sessions)

lemma keeps_wf_publish: "keeps_wf ssl {} (PublishBundle_sq ssl env b)"
  unfolding PublishBundle_sq_def
  by (auto split: result.split intro!: keeps_wf_intros keeps_wf_refuse keeps_wf_publish_body)

lemma keeps_wf_acquire: "keeps_wf ssl {} (AcquireBundleForSession_sq env u)"
  unfolding AcquireBundleForSession_sq_def by (intro keeps_wf_refuse keeps_wf_acquire_body)

lemma keeps_wf_enqueue: "keeps_wf ssl {} (EnqueueEnvelope_sq env u e)"
  unfolding EnqueueEnvelope_sq_def
  by (intro keeps_wf_intros keeps_wf_statement) (auto simp: result_inv intro: db_wf_insert_row)

lemma keeps_wf_drain: "keeps_wf ssl {} (DrainInbox_sq env u ack)"
  unfolding DrainInbox_sq_def by (intro keeps_wf_refuse keeps_wf_drain_body)

section \<open>The store as a state machine\<close>

text \<open>
  One step is one method under any faults, with any result; or the process ends, in the middle of a
  transaction or not, and the file is opened again, which sees what was committed.
\<close>

inductive store_step :: "openssl \<Rightarrow> SqliteStore \<Rightarrow> SqliteStore \<Rightarrow> bool" for ssl where
  Register: "RegisterTransportIdentity_sq ssl env rq (st, t) = (r, st', t') \<Longrightarrow> store_step ssl st st'"
| Begin_auth: "BeginTransportAuthentication_sq env bq (st, t) = (r, st', t') \<Longrightarrow> store_step ssl st st'"
| Finish_auth: "FinishTransportAuthentication_sq ssl env fq (st, t) = (r, st', t') \<Longrightarrow> store_step ssl st st'"
| Authenticate: "AuthenticateSessionToken_sq ssl env token (st, t) = (r, st', t') \<Longrightarrow> store_step ssl st st'"
| Revoke: "RevokeSessionToken_sq ssl env token (st, t) = (r, st', t') \<Longrightarrow> store_step ssl st st'"
| Publish: "PublishBundle_sq ssl env b (st, t) = (r, st', t') \<Longrightarrow> store_step ssl st st'"
| Acquire: "AcquireBundleForSession_sq env u (st, t) = (r, st', t') \<Longrightarrow> store_step ssl st st'"
| Enqueue: "EnqueueEnvelope_sq env u e (st, t) = (r, st', t') \<Longrightarrow> store_step ssl st st'"
| Drain: "DrainInbox_sq env u ack (st, t) = (r, st', t') \<Longrightarrow> store_step ssl st st'"
| Restart: "SqliteStore_Open env (Some (committed st)) secret = (Ok st', f) \<Longrightarrow> store_step ssl st st'"

inductive store_reachable :: "openssl \<Rightarrow> SqliteStore \<Rightarrow> bool" for ssl where
  Opened: "SqliteStore_Open env None secret = (Ok st, f) \<Longrightarrow> store_reachable ssl st"
| Stepped: "store_reachable ssl st \<Longrightarrow> store_step ssl st st' \<Longrightarrow> store_reachable ssl st'"

lemma keeps_wfD: "keeps_wf ssl {} m \<Longrightarrow> m (st, t) = (r, st', t') \<Longrightarrow> store_wf ssl st \<Longrightarrow> store_wf ssl st'"
  by (drule framesD) (auto simp: wf_with_def)

lemmas methods_keep_wf = keeps_wf_register [THEN keeps_wfD] keeps_wf_begin [THEN keeps_wfD]
  keeps_wf_finish [THEN keeps_wfD] keeps_wf_authenticate [THEN keeps_wfD] keeps_wf_revoke [THEN keeps_wfD]
  keeps_wf_publish [THEN keeps_wfD] keeps_wf_acquire [THEN keeps_wfD] keeps_wf_enqueue [THEN keeps_wfD]
  keeps_wf_drain [THEN keeps_wfD]

lemma empty_db_wf: "db_wf ssl empty_db"
  by (simp add: db_wf_def empty_db_def ids_ok_def)

lemma store_wf_committed: "store_wf ssl st \<Longrightarrow> db_wf ssl (committed st)"
  by (simp add: store_wf_def committed_def split: option.split)

lemma opened_wf:
  assumes "SqliteStore_Open env old secret = (Ok st, f)" "db_wf ssl (case old of None \<Rightarrow> empty_db | Some d \<Rightarrow> d)"
  shows "store_wf ssl st"
proof -
  have "db_bundle_sig_columns (case old of None \<Rightarrow> empty_db | Some d \<Rightarrow> d) = (True, True)"
    using assms(2) by (simp add: db_wf_def)
  from SqliteStore_Open_Ok [OF assms(1) this] assms(2) show ?thesis by (simp add: store_wf_def)
qed

lemma store_step_wf: "store_step ssl st st' \<Longrightarrow> store_wf ssl st \<Longrightarrow> store_wf ssl st'"
  by (induction rule: store_step.induct) ((erule methods_keep_wf, assumption)+, simp add: opened_wf store_wf_committed)

lemma store_reachable_wf: "store_reachable ssl st \<Longrightarrow> store_wf ssl st"
  by (induction rule: store_reachable.induct) (simp_all add: opened_wf empty_db_wf store_step_wf)

section \<open>Theorems\<close>

text \<open>
C14. In every state that the methods of the SQLite store reach, under any faults and with
any crashes and restarts in between, both the current and the committed tables are well-
formed: row ids ascend, are at most the last id given and below 2^63, every challenge and
every session belongs to an account, and every stored bundle is under its user, of the
current version and suite, with signatures that verify.
\<close>

theorem store_stays_well_formed:
  assumes "store_reachable ssl st"
  shows "db_wf ssl (sq_db st) \<and> db_wf ssl (committed st)"
  using store_reachable_wf [OF assms] store_wf_committed by (simp add: store_wf_def)

end
