(* ===== verification/Sqlite_Runs.thy ===== *)
theory Sqlite_Runs
  imports Sqlite_Scenario Sqlite_Invariant
begin

text \<open>
  Concrete calls of the SQLite store: Alice registers, gets a challenge, answers it and changes her key, with
  the requests that \<open>In_Memory_Server\<close> uses for the in-memory server.
\<close>

definition demo_sq_env :: "u64 \<Rightarrow> bytes \<Rightarrow> bytes \<Rightarrow> sq_env" where
  "demo_sq_env now rnd1 rnd2 = \<lparr>se_fault = (\<lambda>_. None), se_now = (\<lambda>_. now), se_rnd1 = Some rnd1, se_rnd2 = Some rnd2\<rparr>"

definition demo_sq_registered :: SqliteStore where
  "demo_sq_registered = fst (snd (RegisterTransportIdentity_sq toy_ssl (demo_sq_env 90 [] []) demo_register (demo_store, 0)))"

definition demo_sq_challenged :: SqliteStore where
  "demo_sq_challenged = fst (snd (BeginTransportAuthentication_sq (demo_sq_env 100 [] [9]) demo_begin (demo_sq_registered, 0)))"

definition demo_sq_session :: "AuthFinishResponse result \<times> SqliteStore \<times> nat" where
  "demo_sq_session = FinishTransportAuthentication_sq toy_ssl (demo_sq_env 110 [5] []) demo_finish (demo_sq_challenged, 0)"

lemma demo_sq_finish_ok:
  "fst demo_sq_session = Ok \<lparr>afr_session_token = demo_token, afr_expires_at_unix = 1010\<rparr>"
  by code_simp

lemma demo_sq_finish: "demo_sq_session =
  (Ok \<lparr>afr_session_token = demo_token, afr_expires_at_unix = 1010\<rparr>, fst (snd demo_sq_session), snd (snd demo_sq_session))"
  using demo_sq_finish_ok by (simp add: prod_eq_iff)

theorem finish_needs_challenge_and_proof_witness:
  "\<exists>pk c. db_accounts (sq_db demo_sq_challenged) ''alice'' = Some pk \<and>
     db_auth_challenges (sq_db demo_sq_challenged) demo_challenge_id = Some c \<and> \<not> ch_used c \<and>
     ch_client_nonce c = replicate 32 7"
  using finish_needs_challenge_and_proof [OF demo_sq_finish [unfolded demo_sq_session_def]]
  by (auto simp: demo_finish_def)

theorem challenge_works_once_witness:
  "fst demo_sq_session = Ok \<lparr>afr_session_token = demo_token, afr_expires_at_unix = 1010\<rparr> \<and>
   (\<exists>e. fst (FinishTransportAuthentication_sq toy_ssl (demo_sq_env 111 [6] []) demo_finish
      (fst (snd demo_sq_session), 0)) = Err e)"
  using challenge_works_once [OF demo_sq_finish [unfolded demo_sq_session_def] refl, of "demo_sq_env 111 [6] []" 0]
    demo_sq_finish_ok by (simp add: demo_sq_session_def)

definition demo_sq_rotated :: "unit result \<times> SqliteStore \<times> nat" where
  "demo_sq_rotated = RegisterTransportIdentity_sq toy_ssl (demo_sq_env 120 [] []) demo_rotate (fst (snd demo_sq_session), 0)"

lemma demo_sq_rotate_ok:
  "fst demo_sq_rotated = Ok ()" "db_accounts (sq_db (fst (snd demo_sq_session))) ''alice'' = Some [1]"
  by code_simp+

theorem key_change_revokes_sessions_witness:
  "db_accounts (committed (fst (snd demo_sq_rotated))) ''alice'' = Some [2] \<and>
   (\<exists>r. db_sessions (committed (fst (snd demo_sq_rotated))) (replicate 32 0) = Some r \<and> sr_user_id r = ''alice'' \<and> sr_revoked r)"
proof -
  have reg: "RegisterTransportIdentity_sq toy_ssl (demo_sq_env 120 [] []) demo_rotate (fst (snd demo_sq_session), 0) =
      (Ok (), fst (snd demo_sq_rotated), snd (snd demo_sq_rotated))"
    using demo_sq_rotate_ok(1) unfolding demo_sq_rotated_def by (simp add: prod_eq_iff)
  have f: "rr_user_id demo_rotate = ''alice''" "rr_transport_auth_public_key demo_rotate = [2]" and ne: "[1 :: u8] \<noteq> [2]"
    by (simp_all add: demo_rotate_def)
  have "map_option sr_user_id (db_sessions (committed (fst (snd demo_sq_rotated))) (replicate 32 0)) = Some ''alice''"
    by code_simp
  then obtain r where "db_sessions (committed (fst (snd demo_sq_rotated))) (replicate 32 0) = Some r" "sr_user_id r = ''alice''"
    by auto
  then show ?thesis using key_change_revokes_sessions [OF reg, unfolded f, OF demo_sq_rotate_ok(2) ne] by blast
qed

lemma triple: "x = (fst x, fst (snd x), snd (snd x))"
  by simp

theorem store_stays_well_formed_witness:
  "db_wf toy_ssl (sq_db (fst (snd demo_sq_rotated))) \<and> db_accounts (sq_db (fst (snd demo_sq_rotated))) ''alice'' = Some [2]"
proof -
  have "store_reachable toy_ssl demo_store" by (rule store_reachable.Opened [OF demo_store_opened(1)])
  moreover have "store_step toy_ssl demo_store demo_sq_registered"
    unfolding demo_sq_registered_def by (rule store_step.Register [OF triple])
  moreover have "store_step toy_ssl demo_sq_registered demo_sq_challenged"
    unfolding demo_sq_challenged_def by (rule store_step.Begin_auth [OF triple])
  moreover have "store_step toy_ssl demo_sq_challenged (fst (snd demo_sq_session))"
    unfolding demo_sq_session_def by (rule store_step.Finish_auth [OF triple])
  moreover have "store_step toy_ssl (fst (snd demo_sq_session)) (fst (snd demo_sq_rotated))"
    unfolding demo_sq_rotated_def by (rule store_step.Register [OF triple])
  ultimately have "store_reachable toy_ssl (fst (snd demo_sq_rotated))" by (meson store_reachable.Stepped)
  moreover have "db_accounts (sq_db (fst (snd demo_sq_rotated))) ''alice'' = Some [2]" by code_simp
  ultimately show ?thesis using store_stays_well_formed by blast
qed

text \<open>Bob has one letter, and acknowledges with an id that no row has.\<close>

definition demo_mail_env :: call_env where
  "demo_mail_env = \<lparr>env_now = 0, env_rnd1 = None, env_rnd2 = None\<rparr>"

definition demo_mail :: SqliteStore where
  "demo_mail = snd (api_EnqueueEnvelope demo_sqlite demo_mail_env demo_store ''bob'' (FromInitial demo_initial))"

lemma demo_mail_stored: "sq_inv demo_mail" "map ie_envelope (sq_pending demo_mail ''bob'') = [FromInitial demo_initial]"
proof -
  have room: "0 < sq_room demo_store ''bob''" by (simp add: sq_room_def demo_store_opened empty_db_def)
  have none: "sq_pending demo_store ''bob'' = []" by (simp add: sq_pending_def rows_of_def demo_store_opened empty_db_def)
  obtain s' where e: "api_EnqueueEnvelope demo_sqlite demo_mail_env demo_store ''bob'' (FromInitial demo_initial) = (Ok (), s')"
    using EnqueueEnvelope_runs [OF demo_store_opened(3) room demo_initial_fits, of demo_mail_env] by (auto simp: sqlite_api_def)
  then have "demo_mail = s'" by (simp add: demo_mail_def)
  with sq_server.enqueue [OF demo_store_opened(3) room demo_initial_fits e] none
  show "sq_inv demo_mail" "map ie_envelope (sq_pending demo_mail ''bob'') = [FromInitial demo_initial]" by auto
qed

theorem large_acks_delete_nothing_witness:
  "\<exists>k. sqlite_call (DrainInbox_sq (sqlite_env demo_mail_env) ''bob'' (Some (2 ^ 63))) demo_mail =
     (Ok (take k (sq_pending demo_mail ''bob'')), demo_mail)"
  by (rule large_acks_delete_nothing [OF demo_mail_stored(1)]) simp

theorem stores_deliver_the_same_mail_witness:
  "\<exists>s1 xs1 s1' s2 xs2 s2'.
    deliver_all (in_memory_api toy_ssl) demo_mail_env [(''bob'', FromInitial demo_initial)] (InMemoryServer_init []) = Some s1 \<and>
    drain_all (api_DrainInbox (in_memory_api toy_ssl) demo_mail_env) 2 s1 ''bob'' None = Some (xs1, s1') \<and>
    deliver_all (sqlite_api toy_ssl) demo_mail_env [(''bob'', FromInitial demo_initial)] demo_store = Some s2 \<and>
    drain_all (api_DrainInbox (sqlite_api toy_ssl) demo_mail_env) 2 s2 ''bob'' None = Some (xs2, s2') \<and>
    map ie_envelope xs1 = [FromInitial demo_initial] \<and> map ie_envelope xs2 = [FromInitial demo_initial]"
proof -
  have fits: "\<forall>(v, e)\<in>set [(''bob'', FromInitial demo_initial)]. sq_fits e" using demo_initial_fits by simp
  have "mail_for ''bob'' [(''bob'', FromInitial demo_initial)] = [FromInitial demo_initial]" by (simp add: mail_for_def)
  then show ?thesis
    using stores_deliver_the_same_mail [OF demo_store_opened(1) fits, of 2 toy_ssl demo_mail_env "[]" "''bob''" demo_mail_env]
    by simp
qed

end
