(* ===== verification/Command_Line.thy ===== *)
theory Command_Line
  imports Prelude
begin

text \<open>
  What the programs of the repository share in reading their arguments: numbers as the C library reads them, words
  of a line as \<^verbatim>\<open>std::istringstream\<close> reads them, options that take a value.
\<close>

section \<open>Numbers\<close>

text \<open>\<^verbatim>\<open>isspace\<close> and \<^verbatim>\<open>isdigit\<close> of the C locale.\<close>

definition is_space :: "char \<Rightarrow> bool" where
  "is_space c \<longleftrightarrow> (let n = of_char c :: nat in n = 32 \<or> 9 \<le> n \<and> n \<le> 13)"

definition is_digit :: "char \<Rightarrow> bool" where
  "is_digit c \<longleftrightarrow> (let n = of_char c :: nat in 48 \<le> n \<and> n \<le> 57)"

definition digits_value :: "string \<Rightarrow> nat" where
  "digits_value ds = foldl (\<lambda>n c. 10 * n + (of_char c - 48)) 0 ds"

text \<open>What \<^verbatim>\<open>strtol\<close> and \<^verbatim>\<open>strtoull\<close> read with base 10: the sign, the digits, and the text after them.\<close>

definition split_number :: "string \<Rightarrow> bool \<times> string \<times> string" where
  "split_number text =
     (let t = dropWhile is_space text;
          (neg, t) = (case t of
              c # cs \<Rightarrow> if c = CHR ''-'' then (True, cs) else if c = CHR ''+'' then (False, cs) else (False, t)
            | [] \<Rightarrow> (False, []))
      in (neg, takeWhile is_digit t, dropWhile is_digit t))"

text \<open>
  \<^verbatim>\<open>atoi\<close> is \<^verbatim>\<open>strtol\<close> cast to \<^verbatim>\<open>int\<close>, as in the GNU C library; the C standard leaves numbers out of the range
  of \<^verbatim>\<open>int\<close> undefined.
\<close>

definition atoi :: "string \<Rightarrow> int" where
  "atoi text =
     (let (neg, ds, _) = split_number text; n = int (digits_value ds); v = (if neg then - n else n)
      in sint (word_of_int (max (- (2 ^ 63)) (min (2 ^ 63 - 1) v)) :: 32 word))"

text \<open>How a text has to look for \<^verbatim>\<open>strtoull\<close> to read all of it.\<close>

definition decimal_text :: "string \<Rightarrow> bool \<Rightarrow> string \<Rightarrow> bool" where
  "decimal_text text neg ds \<longleftrightarrow> (\<exists>ws sign. text = ws @ sign @ ds \<and> (\<forall>c\<in>set ws. is_space c) \<and>
     (if neg then sign = ''-'' else sign \<in> {[], ''+''}) \<and> ds \<noteq> [] \<and> (\<forall>c\<in>set ds. is_digit c))"

lemma char_classes [simp]: "\<not> is_space CHR ''-''" "\<not> is_space CHR ''+''" "\<not> is_digit CHR ''-''" "\<not> is_digit CHR ''+''"
  "is_digit c \<Longrightarrow> \<not> is_space c"
  by (auto simp: is_space_def is_digit_def Let_def)

lemma split_number_decimal: "split_number text = (neg, ds, []) \<and> ds \<noteq> [] \<longleftrightarrow> decimal_text text neg ds"
proof
  assume s: "split_number text = (neg, ds, []) \<and> ds \<noteq> []"
  let ?ws = "takeWhile is_space text" and ?t = "dropWhile is_space text"
  have parts: "text = ?ws @ ?t" and ws: "\<forall>c\<in>set ?ws. is_space c" by (auto dest: set_takeWhileD)
  have d: "dropWhile is_digit t = [] \<Longrightarrow> takeWhile is_digit t = t \<and> (\<forall>c\<in>set t. is_digit c)" for t
    by (metis dropWhile_eq_Nil_conv takeWhile_eq_all_conv)
  have "\<exists>sign. ?t = sign @ ds \<and> (if neg then sign = ''-'' else sign \<in> {[], ''+''}) \<and> (\<forall>c\<in>set ds. is_digit c)"
  proof (cases ?t)
    case Nil
    then show ?thesis using s unfolding split_number_def Let_def by (simp only: Nil) simp
  next
    case (Cons c cs)
    show ?thesis
    proof (cases "c = CHR ''-'' \<or> c = CHR ''+''")
      case True
      then have t: "dropWhile is_digit cs = []" "takeWhile is_digit cs = ds" "neg \<longleftrightarrow> c = CHR ''-''"
        using s Cons by (auto simp: split_number_def split: if_splits)
      with d [OF t(1)] have "cs = ds" "\<forall>c\<in>set ds. is_digit c" by metis+
      with Cons True t(3) show ?thesis by (intro exI [of _ "[c]"]) auto
    next
      case False
      then have t: "dropWhile is_digit (c # cs) = []" "takeWhile is_digit (c # cs) = ds" "\<not> neg"
        using s Cons by (auto simp: split_number_def)
      with d [OF t(1)] have "c # cs = ds" "\<forall>c\<in>set ds. is_digit c" by metis+
      with Cons t(3) show ?thesis by (intro exI [of _ "[]"]) simp
    qed
  qed
  then obtain sign where "?t = sign @ ds" "if neg then sign = ''-'' else sign \<in> {[], ''+''}" "\<forall>c\<in>set ds. is_digit c"
    by blast
  with parts ws s show "decimal_text text neg ds"
    unfolding decimal_text_def by (intro exI [of _ ?ws] exI [of _ sign]) simp
next
  assume "decimal_text text neg ds"
  then obtain ws sign where t: "text = ws @ sign @ ds" "\<forall>c\<in>set ws. is_space c"
    "if neg then sign = ''-'' else sign \<in> {[], ''+''}" "ds \<noteq> []" "\<forall>c\<in>set ds. is_digit c"
    unfolding decimal_text_def by blast
  then obtain d ds' where ds: "ds = d # ds'" "is_digit d" by (cases ds) auto
  have "d \<noteq> CHR ''-''" "d \<noteq> CHR ''+''" using ds(2) by auto
  moreover have "dropWhile is_space text = sign @ ds"
    using t ds by (auto simp: dropWhile_append2 split: if_splits)
  moreover have "takeWhile is_digit ds = ds" "dropWhile is_digit ds = []"
    using t(5) by (simp_all add: takeWhile_eq_all_conv)
  ultimately show "split_number text = (neg, ds, []) \<and> ds \<noteq> []"
    using t(3,4) ds by (auto simp: split_number_def split: if_splits)
qed

lemma atoi_less: "atoi text < 2 ^ 31"
proof -
  have "sint w < 2 ^ 31" for w :: "32 word" using sint_less [of w] by simp
  then show ?thesis unfolding atoi_def Let_def case_prod_unfold by blast
qed

section \<open>Words of a line\<close>

text \<open>\<^verbatim>\<open>iss >> word\<close>: the word, empty at the end of the line, and what is left.\<close>

definition read_word :: "string \<Rightarrow> string \<times> string" where
  "read_word line =
     (let t = dropWhile is_space line
      in (takeWhile (\<lambda>c. \<not> is_space c) t, dropWhile (\<lambda>c. \<not> is_space c) t))"

definition is_word :: "string \<Rightarrow> bool" where
  "is_word w \<longleftrightarrow> w \<noteq> [] \<and> (\<forall>c\<in>set w. \<not> is_space c)"

lemma read_word_word: "is_word w \<Longrightarrow> rest = [] \<or> is_space (hd rest) \<Longrightarrow> read_word (w @ rest) = (w, rest)"
  by (cases w; cases rest) (auto simp: read_word_def is_word_def takeWhile_append dropWhile_append)

lemma read_word_space: "is_space c \<Longrightarrow> read_word (c # line) = read_word line"
  by (simp add: read_word_def)

section \<open>Options\<close>

text \<open>\<^verbatim>\<open>return 1\<close> after the usage or after a complaint.\<close>

datatype refusal = Usage | Complaint string

text \<open>An option with a value: the usage if there is none, else the options with it and the arguments after it.\<close>

definition with_value ::
    "string list \<Rightarrow> (string \<Rightarrow> (refusal, 'o) sum) \<Rightarrow> (refusal, 'o \<times> string list) sum" where
  "with_value rest f =
     (case rest of
        [] \<Rightarrow> Inl Usage
      | v # rest' \<Rightarrow> (case f v of Inl e \<Rightarrow> Inl e | Inr o' \<Rightarrow> Inr (o', rest')))"

lemma with_value_shorter: "with_value rest f = Inr (opts, rest') \<Longrightarrow> length rest' < length rest"
  by (auto simp: with_value_def split: list.splits sum.splits)

lemma with_value_Inr: "with_value rest f = Inr (opts, rest') \<longleftrightarrow> (\<exists>v. rest = v # rest' \<and> f v = Inr opts)"
  by (auto simp: with_value_def split: list.splits sum.splits)

end
