(* ===== verification/Tcp_Listener.thy ===== *)
theory Tcp_Listener
  imports Tcp_Server
begin

text \<open>
  \<^verbatim>\<open>TcpServer::Run\<close> of \<^verbatim>\<open>src/server/tcp_server.cpp\<close>: the TLS context and the listening socket are set up, then
  one thread accepts connections and starts a thread for each. The accepting thread and the threads of the
  connections are the step relation \<open>run_step\<close>; its steps are the system calls and the accesses to the atomic counters, so the
  threads interleave between them. A thread handles one frame per step. What a store keeps under
  each call of \<^verbatim>\<open>IServerApi\<close> (locale \<open>store_law\<close>), it keeps in every state of the running server.
\<close>

section \<open>Setting up\<close>

record TlsServerConfig =
  tsc_enabled :: bool
  tsc_cert_file :: string
  tsc_key_file :: string
  tsc_client_ca_file :: string
  tsc_require_client_cert :: bool

text \<open>What OpenSSL and the socket calls answer; for the sockets \<open>Some\<close> is the text of \<^verbatim>\<open>errno\<close>.\<close>

record listen_env =
  le_ssl_error :: "string option"
  le_ctx_new :: bool
  le_min_version :: bool
  le_use_cert :: "string \<Rightarrow> bool"
  le_use_key :: "string \<Rightarrow> bool"
  le_check_key :: "string \<Rightarrow> string \<Rightarrow> bool"
  le_load_ca :: "string \<Rightarrow> bool"
  le_socket :: "string option"
  le_bind :: "string option"
  le_listen :: "string option"

datatype verify_mode = SSL_VERIFY_NONE | SSL_VERIFY_PEER_FAIL_IF_NO_PEER_CERT

record server_ctx =
  sx_min_tls13 :: bool
  sx_cert_file :: string
  sx_key_file :: string
  sx_client_ca_file :: "string option"
  sx_verify_mode :: verify_mode

definition SslErrorString_server :: "listen_env \<Rightarrow> string" where
  "SslErrorString_server env =
     (case le_ssl_error env of None \<Rightarrow> ''unknown SSL error'' | Some text \<Rightarrow> text)"

text \<open>The part of \<^verbatim>\<open>Run\<close> for \<^verbatim>\<open>tls_config_.enabled\<close>.\<close>

definition create_server_ctx :: "listen_env \<Rightarrow> TlsServerConfig \<Rightarrow> server_ctx result" where
  "create_server_ctx env config =
     (let cert = tsc_cert_file config; key = tsc_key_file config; ca = tsc_client_ca_file config
      in if \<not> le_ctx_new env then Err (''SSL_CTX_new failed: '' @ SslErrorString_server env)
      else if \<not> le_min_version env then Err (''failed to set TLS min version: '' @ SslErrorString_server env)
      else if \<not> le_use_cert env cert then Err (''failed to load TLS certificate: '' @ SslErrorString_server env)
      else if \<not> le_use_key env key then Err (''failed to load TLS private key: '' @ SslErrorString_server env)
      else if \<not> le_check_key env cert key then Err ''TLS private key does not match certificate''
      else if ca \<noteq> [] \<and> \<not> le_load_ca env ca
      then Err (''failed to load client CA file: '' @ SslErrorString_server env)
      else Ok \<lparr>sx_min_tls13 = True, sx_cert_file = cert, sx_key_file = key,
               sx_client_ca_file = (if ca = [] then None else Some ca),
               sx_verify_mode = (if tsc_require_client_cert config
                 then SSL_VERIFY_PEER_FAIL_IF_NO_PEER_CERT else SSL_VERIFY_NONE)\<rparr>)"

definition open_listener :: "listen_env \<Rightarrow> unit result" where
  "open_listener env =
     (case le_socket env of Some e \<Rightarrow> Err (''socket failed: '' @ e)
      | None \<Rightarrow> (case le_bind env of Some e \<Rightarrow> Err (''bind failed: '' @ e)
      | None \<Rightarrow> (case le_listen env of Some e \<Rightarrow> Err (''listen failed: '' @ e)
      | None \<Rightarrow> Ok ())))"

text \<open>\<^verbatim>\<open>Run\<close> up to its loop; \<open>has_api\<close> is \<^verbatim>\<open>api_ != nullptr\<close>.\<close>

definition Run_setup :: "listen_env \<Rightarrow> TlsServerConfig \<Rightarrow> bool \<Rightarrow> server_ctx option result" where
  "Run_setup env config has_api =
     (if \<not> has_api then Err ''server api is null''
      else rbind (if tsc_enabled config then rbind (create_server_ctx env config) (\<lambda>ctx. Ok (Some ctx)) else Ok None) (\<lambda>ctx.
        rbind (open_listener env) (\<lambda>_. Ok ctx)))"

text \<open>The answer of \<^verbatim>\<open>getpeername\<close>, with the text that \<^verbatim>\<open>inet_ntop\<close> makes of the address.\<close>

datatype peer_name = NoPeerName | AF_INET "string option" | AF_INET6 "string option" | OtherFamily

definition PeerAddressString :: "peer_name \<Rightarrow> string" where
  "PeerAddressString peer =
     (case peer of AF_INET (Some host) \<Rightarrow> host | AF_INET6 (Some host) \<Rightarrow> host | _ \<Rightarrow> ''unknown'')"

section \<open>The threads\<close>

text \<open>
  A connection thread: started, in \<^verbatim>\<open>HandleConnection\<close>, or past its \<^verbatim>\<open>close\<close> with the guard still to run.
  \<open>cn_tls\<close> is the context under which \<^verbatim>\<open>SSL_accept\<close> succeeded.
\<close>

datatype phase = Started | Handling | Closed

record conn =
  cn_fd :: int
  cn_peer :: string
  cn_tls :: "server_ctx option"
  cn_phase :: phase
  cn_responses :: "response list"

text \<open>Where the accepting thread is; the descriptor is the one it has just accepted.\<close>

datatype acceptor = Accepting | Accepted int | Admitted int | Spawning int | Stopped string

text \<open>\<open>li_open\<close> are the open descriptors of clients, \<open>li_world\<close> the limiter state and the store.\<close>

record 's listener =
  li_acceptor :: acceptor
  li_active_connections :: u64
  li_accepted_connections :: u64
  li_conns :: "conn list"
  li_open :: "int set"
  li_world :: "TcpServer \<times> 's"

definition listener_init :: "'s \<Rightarrow> 's listener" where
  "listener_init s = \<lparr>li_acceptor = Accepting, li_active_connections = 0, li_accepted_connections = 0,
     li_conns = [], li_open = {}, li_world = (TcpServer_init, s)\<rparr>"

text \<open>The members of \<^verbatim>\<open>TcpServer\<close> that do not change.\<close>

record 's run_config =
  rc_api :: "'s IServerApi"
  rc_limits :: PreAuthRateLimitConfig
  rc_max_active_connections :: u64
  rc_client_io_timeout_seconds :: int
  rc_ctx :: "server_ctx option"

definition at_limit :: "'s run_config \<Rightarrow> 's listener \<Rightarrow> bool" where
  "at_limit rc l \<longleftrightarrow> rc_max_active_connections rc > 0 \<and> li_active_connections l \<ge> rc_max_active_connections rc"

definition set_conn :: "nat \<Rightarrow> conn \<Rightarrow> 's listener \<Rightarrow> 's listener" where
  "set_conn i c l = l\<lparr>li_conns := (li_conns l)[i := c]\<rparr>"

text \<open>\<^verbatim>\<open>close(client_fd)\<close>\<close>

definition close_fd :: "int \<Rightarrow> 's listener \<Rightarrow> 's listener" where
  "close_fd fd l = l\<lparr>li_open := li_open l - {fd}\<rparr>"

inductive run_step :: "'s run_config \<Rightarrow> 's listener \<Rightarrow> 's listener \<Rightarrow> bool" for rc where
  accept_interrupted: "li_acceptor l = Accepting \<Longrightarrow> run_step rc l l"
| accept_failed: "li_acceptor l = Accepting \<Longrightarrow>
    run_step rc l (l\<lparr>li_acceptor := Stopped (''accept failed: '' @ e)\<rparr>)"
| accept_ok: "li_acceptor l = Accepting \<Longrightarrow> fd \<ge> 0 \<Longrightarrow> fd \<notin> li_open l \<Longrightarrow>
    run_step rc l (l\<lparr>li_acceptor := Accepted fd, li_accepted_connections := li_accepted_connections l + 1,
      li_open := insert fd (li_open l)\<rparr>)"
| too_many: "li_acceptor l = Accepted fd \<Longrightarrow> at_limit rc l \<Longrightarrow>
    run_step rc l (close_fd fd l\<lparr>li_acceptor := Accepting\<rparr>)"
| admit: "li_acceptor l = Accepted fd \<Longrightarrow> \<not> at_limit rc l \<Longrightarrow> run_step rc l (l\<lparr>li_acceptor := Admitted fd\<rparr>)"
| timeout_failed: "li_acceptor l = Admitted fd \<Longrightarrow> rc_client_io_timeout_seconds rc > 0 \<Longrightarrow>
    run_step rc l (close_fd fd l\<lparr>li_acceptor := Accepting\<rparr>)"
| count_in: "li_acceptor l = Admitted fd \<Longrightarrow>
    run_step rc l (l\<lparr>li_acceptor := Spawning fd, li_active_connections := li_active_connections l + 1\<rparr>)"
| spawn: "li_acceptor l = Spawning fd \<Longrightarrow>
    run_step rc l (l\<lparr>li_acceptor := Accepting, li_conns := li_conns l @
      [\<lparr>cn_fd = fd, cn_peer = PeerAddressString name, cn_tls = None, cn_phase = Started, cn_responses = []\<rparr>]\<rparr>)"
| tls_failed: "i < length (li_conns l) \<Longrightarrow> li_conns l ! i = c \<Longrightarrow> cn_phase c = Started \<Longrightarrow> rc_ctx rc = Some ctx \<Longrightarrow>
    run_step rc l (close_fd (cn_fd c) (set_conn i (c\<lparr>cn_phase := Closed\<rparr>) l))"
| tls_accepted: "i < length (li_conns l) \<Longrightarrow> li_conns l ! i = c \<Longrightarrow> cn_phase c = Started \<Longrightarrow> rc_ctx rc = Some ctx \<Longrightarrow>
    run_step rc l (set_conn i (c\<lparr>cn_phase := Handling, cn_tls := Some ctx\<rparr>) l)"
| plain: "i < length (li_conns l) \<Longrightarrow> li_conns l ! i = c \<Longrightarrow> cn_phase c = Started \<Longrightarrow> rc_ctx rc = None \<Longrightarrow>
    run_step rc l (set_conn i (c\<lparr>cn_phase := Handling\<rparr>) l)"
| frame: "i < length (li_conns l) \<Longrightarrow> li_conns l ! i = c \<Longrightarrow> cn_phase c = Handling \<Longrightarrow>
    handle_frame (rc_api rc) (rc_limits rc) env (cn_peer c) command payload (li_world l) = (response, w) \<Longrightarrow>
    run_step rc l (set_conn i (c\<lparr>cn_responses := cn_responses c @ [response]\<rparr>) l\<lparr>li_world := w\<rparr>)"
| returned: "i < length (li_conns l) \<Longrightarrow> li_conns l ! i = c \<Longrightarrow> cn_phase c = Handling \<Longrightarrow>
    run_step rc l (close_fd (cn_fd c) (set_conn i (c\<lparr>cn_phase := Closed\<rparr>) l))"
| count_out: "i < length (li_conns l) \<Longrightarrow> cn_phase (li_conns l ! i) = Closed \<Longrightarrow>
    run_step rc l (l\<lparr>li_conns := take i (li_conns l) @ drop (Suc i) (li_conns l),
      li_active_connections := li_active_connections l - 1\<rparr>)"

inductive run_reachable :: "'s run_config \<Rightarrow> 's \<Rightarrow> 's listener \<Rightarrow> bool" for rc s where
  start: "run_reachable rc s (listener_init s)"
| step: "run_reachable rc s l \<Longrightarrow> run_step rc l l' \<Longrightarrow> run_reachable rc s l'"

section \<open>Descriptors and counters\<close>

definition acceptor_fds :: "acceptor \<Rightarrow> int list" where
  "acceptor_fds a = (case a of Accepted fd \<Rightarrow> [fd] | Admitted fd \<Rightarrow> [fd] | Spawning fd \<Rightarrow> [fd] | _ \<Rightarrow> [])"

definition held_fds :: "'s listener \<Rightarrow> int list" where
  "held_fds l = acceptor_fds (li_acceptor l) @ map cn_fd (filter (\<lambda>c. cn_phase c \<noteq> Closed) (li_conns l))"

definition counted :: "acceptor \<Rightarrow> nat" where
  "counted a = (case a of Spawning _ \<Rightarrow> 1 | _ \<Rightarrow> 0)"

definition reserved :: "acceptor \<Rightarrow> nat" where
  "reserved a = (case a of Admitted _ \<Rightarrow> 1 | Spawning _ \<Rightarrow> 1 | _ \<Rightarrow> 0)"

definition run_inv :: "'s run_config \<Rightarrow> 's listener \<Rightarrow> bool" where
  "run_inv rc l \<longleftrightarrow> distinct (held_fds l) \<and> set (held_fds l) = li_open l \<and>
     li_active_connections l = of_nat (length (li_conns l) + counted (li_acceptor l)) \<and>
     (rc_max_active_connections rc > 0 \<longrightarrow>
       length (li_conns l) + reserved (li_acceptor l) \<le> unat (rc_max_active_connections rc)) \<and>
     (\<forall>c\<in>set (li_conns l). (cn_phase c = Started \<longrightarrow> cn_tls c = None) \<and> (cn_phase c = Handling \<longrightarrow> cn_tls c = rc_ctx rc))"

lemmas run_inv_defs = run_inv_def held_fds_def acceptor_fds_def counted_def reserved_def set_conn_def close_fd_def

lemma below_limit:
  assumes "run_inv rc l" "\<not> at_limit rc l" "rc_max_active_connections rc > 0" "li_acceptor l = Accepted fd"
  shows "length (li_conns l) < unat (rc_max_active_connections rc)"
proof -
  have n: "length (li_conns l) \<le> unat (rc_max_active_connections rc)"
    and a: "li_active_connections l = of_nat (length (li_conns l))"
    using assms by (auto simp: run_inv_defs)
  moreover have "unat (rc_max_active_connections rc) < 2 ^ LENGTH(64)" by (rule unsigned_less)
  ultimately have "unat (li_active_connections l) = length (li_conns l)" by (simp add: unsigned_of_nat take_bit_nat_eq_self)
  then show ?thesis using assms(2,3) by (simp add: at_limit_def word_le_nat_alt)
qed

text \<open>The steps of a connection thread: it goes on, it closes its descriptor, it ends.\<close>

lemma run_inv_parts:
  assumes "run_inv rc l" "i < length (li_conns l)" "li_conns l ! i = c" "cn_phase c \<noteq> Closed"
  shows "cn_phase c' = Handling \<Longrightarrow> cn_fd c' = cn_fd c \<Longrightarrow> cn_tls c' = rc_ctx rc \<Longrightarrow>
      run_inv rc (set_conn i c' l)"
    and "cn_phase c' = Closed \<Longrightarrow> run_inv rc (close_fd (cn_fd c) (set_conn i c' l))"
proof -
  obtain xs ys where l: "li_conns l = xs @ c # ys" "length xs = i"
    using assms(2,3) id_take_nth_drop [of i "li_conns l"] that [of "take i (li_conns l)" "drop (Suc i) (li_conns l)"] by auto
  have u: "(li_conns l)[i := c'] = xs @ c' # ys" by (simp add: l list_update_append)
  note inv = assms(1) [unfolded run_inv_def held_fds_def l]
  show "run_inv rc (set_conn i c' l)"
    if "cn_phase c' = Handling" "cn_fd c' = cn_fd c" "cn_tls c' = rc_ctx rc"
    using inv assms(4) that by (auto simp: run_inv_def held_fds_def set_conn_def u)
  show "run_inv rc (close_fd (cn_fd c) (set_conn i c' l))" if closed: "cn_phase c' = Closed"
  proof -
    let ?l = "close_fd (cn_fd c) (set_conn i c' l)" and ?F = "\<lambda>cs. map cn_fd (filter (\<lambda>c. cn_phase c \<noteq> Closed) cs)"
    have l': "li_conns ?l = xs @ c' # ys" "li_open ?l = li_open l - {cn_fd c}" "li_acceptor ?l = li_acceptor l"
      "li_active_connections ?l = li_active_connections l"
      by (simp_all add: close_fd_def set_conn_def u)
    have h: "held_fds l = acceptor_fds (li_acceptor l) @ ?F xs @ cn_fd c # ?F ys"
      and h': "held_fds ?l = acceptor_fds (li_acceptor l) @ ?F xs @ ?F ys"
      using assms(4) closed by (simp_all add: held_fds_def l l')
    have fds: "distinct (held_fds l)" "set (held_fds l) = li_open l" using assms(1) by (simp_all add: run_inv_def)
    have "distinct (held_fds ?l)" "set (held_fds ?l) = li_open ?l"
      using fds(1) fds(2) [symmetric] by (auto simp: h h' l')
    moreover have "length (li_conns ?l) = length (li_conns l)" "\<forall>d\<in>set (li_conns ?l). d = c' \<or> d \<in> set (li_conns l)"
      by (auto simp: l l')
    ultimately show ?thesis using assms(1) closed unfolding run_inv_def l'(3,4) by auto
  qed
qed

lemma run_inv_count_out:
  assumes "run_inv rc l" "i < length (li_conns l)" "cn_phase (li_conns l ! i) = Closed"
  shows "run_inv rc (l\<lparr>li_conns := take i (li_conns l) @ drop (Suc i) (li_conns l),
      li_active_connections := li_active_connections l - 1\<rparr>)"
proof -
  obtain xs c ys where l: "li_conns l = xs @ c # ys" "length xs = i" "cn_phase c = Closed"
    using assms(2,3) id_take_nth_drop [of i "li_conns l"]
      that [of "take i (li_conns l)" "li_conns l ! i" "drop (Suc i) (li_conns l)"] by auto
  then have r: "take i (li_conns l) @ drop (Suc i) (li_conns l) = xs @ ys" by simp
  note inv = assms(1) [unfolded run_inv_def held_fds_def l(1)]
  show ?thesis using inv l(3) unfolding r by (auto simp: run_inv_def held_fds_def)
qed

lemma run_inv_step: "run_step rc l l' \<Longrightarrow> run_inv rc l \<Longrightarrow> run_inv rc l'"
proof (induction rule: run_step.induct)
  case (admit l fd)
  then show ?case using below_limit [of rc l fd] by (auto simp: run_inv_defs Suc_le_eq)
next
  case (tls_failed i l c ctx)
  then show ?case by (intro run_inv_parts(2)) auto
next
  case (tls_accepted i l c ctx)
  then show ?case by (intro run_inv_parts(1)) auto
next
  case (plain i l c)
  then have "c \<in> set (li_conns l)" by auto
  then have "cn_tls c = None" using plain by (auto simp: run_inv_def)
  then show ?case using plain by (intro run_inv_parts(1)) auto
next
  case (frame i l c env command payload response w)
  then have "c \<in> set (li_conns l)" by auto
  then have "cn_tls c = rc_ctx rc" using frame by (auto simp: run_inv_def)
  then have "run_inv rc (set_conn i (c\<lparr>cn_responses := cn_responses c @ [response]\<rparr>) l)"
    using frame by (intro run_inv_parts(1)) auto
  then show ?case by (simp add: run_inv_def held_fds_def)
next
  case (returned i l c)
  then show ?case by (intro run_inv_parts(2)) auto
next
  case (count_out i l)
  from run_inv_count_out [OF count_out(3,1,2)] show ?case .
qed (auto simp: run_inv_defs)

lemma run_inv_reachable: "run_reachable rc s l \<Longrightarrow> run_inv rc l"
proof (induction rule: run_reachable.induct)
  case start
  show ?case by (simp add: run_inv_defs listener_init_def)
qed (rule run_inv_step)

section \<open>What the store keeps\<close>

locale store_law =
  fixes api :: "'s IServerApi" and I :: "'s \<Rightarrow> bool"
  assumes register: "I s \<Longrightarrow> I (snd (api_RegisterTransportIdentity api env s rr))"
    and auth_begin: "I s \<Longrightarrow> I (snd (api_BeginTransportAuthentication api env s bq))"
    and auth_finish: "I s \<Longrightarrow> I (snd (api_FinishTransportAuthentication api env s fq))"
    and authenticate: "I s \<Longrightarrow> I (snd (api_AuthenticateSessionToken api env s token))"
    and revoke: "I s \<Longrightarrow> I (snd (api_RevokeSessionToken api env s token))"
    and publish: "I s \<Longrightarrow> I (snd (api_PublishBundle api env s b))"
    and acquire: "I s \<Longrightarrow> I (snd (api_AcquireBundleForSession api env s u))"
    and enqueue: "I s \<Longrightarrow> I (snd (api_EnqueueEnvelope api env s u e))"
    and drain: "I s \<Longrightarrow> I (snd (api_DrainInbox api env s u ack))"
begin

lemma or_error_keeps: "I s \<Longrightarrow> (\<And>v. I (snd (k v))) \<Longrightarrow> I (snd (or_error r k s))"
  by (cases r) simp_all

lemma or_error_keeps2: "I (snd w) \<Longrightarrow> (\<And>v. I (snd (snd (k v)))) \<Longrightarrow> I (snd (snd (or_error r k w)))"
  by (cases r) simp_all

lemma authenticated_keeps: "I s \<Longrightarrow> I (snd (handle_authenticated api env command payload s))"
  unfolding handle_authenticated_def handle_logout_def handle_publish_def handle_acquire_def handle_enqueue_def handle_drain_def
  by (auto simp: Let_def split_beta split: option.split
      intro!: or_error_keeps authenticate revoke publish acquire enqueue drain)

lemma frame_keeps: "I (snd w) \<Longrightarrow> I (snd (snd (handle_frame api cfg env peer command payload w)))"
  unfolding handle_frame_def handle_register_def handle_auth_begin_def handle_auth_finish_def
  by (auto simp: Let_def split_beta intro!: or_error_keeps2 register auth_begin auth_finish authenticated_keeps)

lemma step_keeps: "run_step rc l l' \<Longrightarrow> rc_api rc = api \<Longrightarrow> I (snd (li_world l)) \<Longrightarrow> I (snd (li_world l'))"
proof (induction rule: run_step.induct)
  case (frame i l c env command payload response w)
  then show ?case using frame_keeps [of "li_world l" "rc_limits rc" env "cn_peer c" command payload] by (simp add: set_conn_def)
qed (simp_all add: set_conn_def close_fd_def)

lemma reachable_keeps: "run_reachable rc s l \<Longrightarrow> rc_api rc = api \<Longrightarrow> I s \<Longrightarrow> I (snd (li_world l))"
  by (induction rule: run_reachable.induct) (auto simp: listener_init_def intro: step_keeps)

end

section \<open>Theorems\<close>

text \<open>
C19. With a connection limit, in every interleaving of the accept loop and the connection
threads the number of connections stays within it, active_connections_ counts them without
wrap-around (together with the one about to get its thread), and the open descriptors are
exactly those held by the accept loop or by a thread that has not closed its own, each once:
none leaks and none is closed twice.
\<close>

theorem connections_are_counted_and_bounded:
  assumes "run_reachable rc s l" "rc_max_active_connections rc > 0"
  shows "length (li_conns l) \<le> unat (rc_max_active_connections rc) \<and>
    unat (li_active_connections l) = length (li_conns l) + counted (li_acceptor l) \<and>
    li_active_connections l \<le> rc_max_active_connections rc \<and>
    distinct (held_fds l) \<and> li_open l = set (held_fds l)"
proof -
  note inv = run_inv_reachable [OF assms(1), unfolded run_inv_def]
  have c: "counted (li_acceptor l) \<le> reserved (li_acceptor l)" by (simp add: counted_def reserved_def split: acceptor.split)
  have m: "length (li_conns l) + counted (li_acceptor l) \<le> unat (rc_max_active_connections rc)"
    using inv assms(2) c by simp
  moreover have "unat (rc_max_active_connections rc) < 2 ^ LENGTH(64)" by (rule unsigned_less)
  ultimately have "unat (li_active_connections l) = length (li_conns l) + counted (li_acceptor l)"
    using inv by (simp add: unsigned_of_nat take_bit_nat_eq_self del: of_nat_add)
  then show ?thesis using inv m by (simp add: word_le_nat_alt)
qed

theorem handled_connections_are_secured:
  assumes "Run_setup env config has_api = Ok ctx" "rc_ctx rc = ctx" "tsc_enabled config"
    and "run_reachable rc s l" "c \<in> set (li_conns l)" "cn_phase c = Handling"
  shows "\<exists>tls. cn_tls c = Some tls \<and> sx_min_tls13 tls \<and> sx_cert_file tls = tsc_cert_file config \<and>
    sx_key_file tls = tsc_key_file config \<and> le_check_key env (tsc_cert_file config) (tsc_key_file config) \<and>
    (tsc_require_client_cert config \<longrightarrow> sx_verify_mode tls = SSL_VERIFY_PEER_FAIL_IF_NO_PEER_CERT)"
proof -
  have "cn_tls c = ctx" using run_inv_reachable [OF assms(4)] assms(2,5,6) by (auto simp: run_inv_def)
  moreover obtain tls where "create_server_ctx env config = Ok tls" "ctx = Some tls"
    using assms(1,3) by (auto simp: Run_setup_def result_inv split: if_splits)
  ultimately show ?thesis by (auto simp: create_server_ctx_def Let_def split: if_splits)
qed

end
