(* ===== verification/Server_Main.thy ===== *)
theory Server_Main
  imports Command_Line Tcp_Listener Sqlite_Invariant
begin

text \<open>
  \<^verbatim>\<open>src/server/server_main.cpp\<close>: the command line of the server, the checks before it starts, and the server it
  starts, a \<^verbatim>\<open>TcpServer\<close> over the SQLite store. The theorems join the parts: what the running server keeps
  in every interleaving of its connections, and that without \<^verbatim>\<open>--allow-insecure-dev\<close> it runs
  with TLS and a provisioning secret only.
\<close>

section \<open>Numbers\<close>

text \<open>The number, whether \<^verbatim>\<open>errno\<close> is \<^verbatim>\<open>ERANGE\<close>, and \<^verbatim>\<open>end\<close>. A minus sign negates the unsigned number.\<close>

definition strtoull :: "string \<Rightarrow> u64 \<times> bool \<times> string" where
  "strtoull text =
     (let (neg, ds, rest) = split_number text; n = digits_value ds
      in if ds = [] then (0, False, text)
         else if n \<ge> 2 ^ 64 then (- 1, True, rest)
         else (if neg then - of_nat n else of_nat n, False, rest))"

definition ParseStrictPositiveU64 :: "string \<Rightarrow> u64 option" where
  "ParseStrictPositiveU64 text =
     (if text = [] then None
      else let (v, erange, stop) = strtoull text
        in if erange \<or> stop = text \<or> stop \<noteq> [] \<or> v = 0 then None else Some v)"

text \<open>\<^verbatim>\<open>size_t\<close> has 64 bits, so the second test never fails.\<close>

definition ParseStrictPositiveSize :: "string \<Rightarrow> u64 option" where
  "ParseStrictPositiveSize text =
     (case ParseStrictPositiveU64 text of
        None \<Rightarrow> None
      | Some parsed \<Rightarrow> if parsed > - 1 then None else Some parsed)"

section \<open>The command line\<close>

record server_options =
  so_db_path :: string
  so_port :: "16 word"
  so_tls_cert :: string
  so_tls_key :: string
  so_tls_client_ca :: string
  so_registration_token :: string
  so_tls_require_client_cert :: bool
  so_allow_insecure_dev :: bool
  so_max_active_connections :: u64
  so_io_timeout_seconds :: int
  so_derive_registration_token_user :: string
  so_preauth_rate_limit_config :: PreAuthRateLimitConfig

definition default_options :: server_options where
  "default_options = \<lparr>so_db_path = ''pqchat.db'', so_port = 8080, so_tls_cert = [], so_tls_key = [],
     so_tls_client_ca = [], so_registration_token = [], so_tls_require_client_cert = False,
     so_allow_insecure_dev = False, so_max_active_connections = 128, so_io_timeout_seconds = 15,
     so_derive_registration_token_user = [], so_preauth_rate_limit_config = default_rate_limits\<rparr>"

definition with_limit ::
    "string list \<Rightarrow> string \<Rightarrow> server_options \<Rightarrow> (nat \<Rightarrow> PreAuthRateLimitConfig \<Rightarrow> PreAuthRateLimitConfig) \<Rightarrow>
     (refusal, server_options \<times> string list) sum" where
  "with_limit rest complaint opts set_limit = with_value rest (\<lambda>v.
     case ParseStrictPositiveSize v of
       None \<Rightarrow> Inl (Complaint complaint)
     | Some n \<Rightarrow> Inr (opts\<lparr>so_preauth_rate_limit_config :=
         set_limit (unat n) (so_preauth_rate_limit_config opts)\<rparr>))"

text \<open>One turn of the loop over \<^verbatim>\<open>argv\<close>, in three parts, the last options first.\<close>

definition late_option ::
    "string \<Rightarrow> string list \<Rightarrow> server_options \<Rightarrow> (refusal, server_options \<times> string list) sum" where
  "late_option arg rest opts =
     (if arg = ''--io-timeout-seconds'' then with_value rest (\<lambda>v.
        if atoi v \<le> 0 then Inl (Complaint ''invalid io timeout seconds'')
        else Inr (opts\<lparr>so_io_timeout_seconds := atoi v\<rparr>))
      else if arg = ''--allow-insecure-dev'' then Inr (opts\<lparr>so_allow_insecure_dev := True\<rparr>, rest)
      else if arg = ''--derive-registration-token''
      then with_value rest (\<lambda>v. Inr (opts\<lparr>so_derive_registration_token_user := v\<rparr>))
      else Inl Usage)"

definition preauth_option ::
    "string \<Rightarrow> string list \<Rightarrow> server_options \<Rightarrow> (refusal, server_options \<times> string list) sum" where
  "preauth_option arg rest opts =
     (if arg = ''--preauth-window-seconds'' then with_value rest (\<lambda>v.
        case ParseStrictPositiveU64 v of
          None \<Rightarrow> Inl (Complaint ''invalid preauth window seconds'')
        | Some n \<Rightarrow> Inr (opts\<lparr>so_preauth_rate_limit_config :=
            (so_preauth_rate_limit_config opts)\<lparr>rl_window_seconds := n\<rparr>\<rparr>))
      else if arg = ''--preauth-register-per-addr''
      then with_limit rest ''invalid preauth register-per-addr limit'' opts (\<lambda>n c. c\<lparr>rl_register_per_addr := n\<rparr>)
      else if arg = ''--preauth-auth-begin-per-addr''
      then with_limit rest ''invalid preauth auth-begin-per-addr limit'' opts (\<lambda>n c. c\<lparr>rl_auth_begin_per_addr := n\<rparr>)
      else if arg = ''--preauth-auth-finish-per-addr''
      then with_limit rest ''invalid preauth auth-finish-per-addr limit'' opts (\<lambda>n c. c\<lparr>rl_auth_finish_per_addr := n\<rparr>)
      else if arg = ''--preauth-register-global''
      then with_limit rest ''invalid preauth register-global limit'' opts (\<lambda>n c. c\<lparr>rl_register_global := n\<rparr>)
      else if arg = ''--preauth-auth-begin-global''
      then with_limit rest ''invalid preauth auth-begin-global limit'' opts (\<lambda>n c. c\<lparr>rl_auth_begin_global := n\<rparr>)
      else if arg = ''--preauth-auth-finish-global''
      then with_limit rest ''invalid preauth auth-finish-global limit'' opts (\<lambda>n c. c\<lparr>rl_auth_finish_global := n\<rparr>)
      else late_option arg rest opts)"

definition server_option ::
    "string \<Rightarrow> string list \<Rightarrow> server_options \<Rightarrow> (refusal, server_options \<times> string list) sum" where
  "server_option arg rest opts =
     (if arg = ''--db'' then with_value rest (\<lambda>v. Inr (opts\<lparr>so_db_path := v\<rparr>))
      else if arg = ''--port'' then with_value rest (\<lambda>v.
        if atoi v \<le> 0 \<or> atoi v > 65535 then Inl (Complaint ''invalid port'')
        else Inr (opts\<lparr>so_port := word_of_int (atoi v)\<rparr>))
      else if arg = ''--tls-cert'' then with_value rest (\<lambda>v. Inr (opts\<lparr>so_tls_cert := v\<rparr>))
      else if arg = ''--tls-key'' then with_value rest (\<lambda>v. Inr (opts\<lparr>so_tls_key := v\<rparr>))
      else if arg = ''--tls-client-ca'' then with_value rest (\<lambda>v. Inr (opts\<lparr>so_tls_client_ca := v\<rparr>))
      else if arg = ''--tls-require-client-cert'' then Inr (opts\<lparr>so_tls_require_client_cert := True\<rparr>, rest)
      else if arg = ''--registration-token'' then with_value rest (\<lambda>v. Inr (opts\<lparr>so_registration_token := v\<rparr>))
      else if arg = ''--max-active-connections'' then with_value rest (\<lambda>v.
        if atoi v \<le> 0 then Inl (Complaint ''invalid max active connections'')
        else Inr (opts\<lparr>so_max_active_connections := word_of_int (atoi v)\<rparr>))
      else preauth_option arg rest opts)"

lemmas server_option_defs = server_option_def preauth_option_def late_option_def with_limit_def

lemma server_option_shorter: "server_option arg rest opts = Inr (opts', rest') \<Longrightarrow> length rest' \<le> length rest"
  by (auto simp: server_option_defs split: if_splits dest: with_value_shorter)

function parse_server_args :: "string list \<Rightarrow> server_options \<Rightarrow> (refusal, server_options) sum" where
  "parse_server_args [] opts = Inr opts"
| "parse_server_args (arg # rest) opts =
     (case server_option arg rest opts of
        Inl e \<Rightarrow> Inl e
      | Inr (opts', rest') \<Rightarrow> parse_server_args rest' opts')"
  by pat_completeness auto

termination parse_server_args
  by (relation "measure (length \<circ> fst)") (auto dest: server_option_shorter)

section \<open>The program\<close>

text \<open>\<^verbatim>\<open>main\<close> ends with the usage or a message on \<^verbatim>\<open>cerr\<close>, prints a token, or serves.\<close>

datatype server_outcome =
    Exits refusal
  | Prints string
  | Serves server_options SqliteStore "server_ctx option"

definition HexEncode_server :: "bytes \<Rightarrow> string" where
  "HexEncode_server bytes = hex_string bytes"

definition derive_token :: "openssl \<Rightarrow> server_options \<Rightarrow> server_outcome" where
  "derive_token ssl opts =
     (if so_registration_token opts = []
      then Exits (Complaint ''--derive-registration-token requires --registration-token'')
      else case HmacSha256 ssl (ToBytes (so_registration_token opts))
          (ToBytes (so_derive_registration_token_user opts)) of
        Err e \<Rightarrow> Exits (Complaint (''failed to derive registration token: '' @ e))
      | Ok token \<Rightarrow> Prints (HexEncode_server token))"

definition tls_enabled :: "server_options \<Rightarrow> bool" where
  "tls_enabled opts \<longleftrightarrow> so_tls_cert opts \<noteq> [] \<or> so_tls_key opts \<noteq> [] \<or> so_tls_client_ca opts \<noteq> [] \<or>
     so_tls_require_client_cert opts"

definition check_options :: "server_options \<Rightarrow> refusal option" where
  "check_options opts =
     (if tls_enabled opts \<and> (so_tls_cert opts = [] \<or> so_tls_key opts = [])
      then Some (Complaint ''TLS requires both --tls-cert and --tls-key'')
      else if so_tls_require_client_cert opts \<and> so_tls_client_ca opts = []
      then Some (Complaint ''--tls-require-client-cert requires --tls-client-ca'')
      else if \<not> so_allow_insecure_dev opts \<and> \<not> tls_enabled opts
      then Some (Complaint ''TLS is required by default; configure TLS or use --allow-insecure-dev for local testing'')
      else if \<not> so_allow_insecure_dev opts \<and> so_registration_token opts = []
      then Some (Complaint ''registration provisioning secret is required by default; provide --registration-token or use --allow-insecure-dev for local testing'')
      else None)"

definition tls_config_of :: "server_options \<Rightarrow> TlsServerConfig" where
  "tls_config_of opts = \<lparr>tsc_enabled = tls_enabled opts, tsc_cert_file = so_tls_cert opts,
     tsc_key_file = so_tls_key opts, tsc_client_ca_file = so_tls_client_ca opts,
     tsc_require_client_cert = so_tls_require_client_cert opts\<rparr>"

text \<open>\<open>disk\<close> has the database files; \<open>env\<close> and \<open>listen\<close> are what SQLite and the sockets answer.\<close>

definition server_main ::
    "openssl \<Rightarrow> sq_env \<Rightarrow> listen_env \<Rightarrow> (string \<Rightarrow> db option) \<Rightarrow> string list \<Rightarrow> server_outcome" where
  "server_main ssl env listen disk args =
     (case parse_server_args args default_options of
        Inl e \<Rightarrow> Exits e
      | Inr opts \<Rightarrow>
          if so_derive_registration_token_user opts \<noteq> [] then derive_token ssl opts
          else case check_options opts of
            Some e \<Rightarrow> Exits e
          | None \<Rightarrow>
              (case fst (SqliteStore_Open env (disk (so_db_path opts)) (so_registration_token opts)) of
                 Err e \<Rightarrow> Exits (Complaint (''failed to open sqlite store: '' @ e))
               | Ok store \<Rightarrow>
                   (case Run_setup listen (tls_config_of opts) True of
                      Err e \<Rightarrow> Exits (Complaint (''server failed: '' @ e))
                    | Ok ctx \<Rightarrow> Serves opts store ctx)))"

text \<open>The members of the server that \<^verbatim>\<open>main\<close> constructs.\<close>

definition server_config :: "openssl \<Rightarrow> server_options \<Rightarrow> server_ctx option \<Rightarrow> SqliteStore run_config" where
  "server_config ssl opts ctx = \<lparr>rc_api = sqlite_api ssl, rc_limits = so_preauth_rate_limit_config opts,
     rc_max_active_connections = so_max_active_connections opts,
     rc_client_io_timeout_seconds = so_io_timeout_seconds opts, rc_ctx = ctx\<rparr>"

section \<open>Lemmas\<close>

text \<open>What the command line can and cannot set.\<close>

lemma server_option_Inr:
  assumes "server_option arg rest opts = Inr (opts', rest')"
  shows "set rest' \<subseteq> set rest" and "so_allow_insecure_dev opts' \<Longrightarrow> so_allow_insecure_dev opts \<or> arg = ''--allow-insecure-dev''"
    and "0 < so_max_active_connections opts \<Longrightarrow> 0 < so_max_active_connections opts'"
proof -
  have "0 < (word_of_int (atoi v) :: u64)" if "\<not> atoi v \<le> 0" for v
    using that atoi_less [of v] by (simp add: word_less_def uint_word_of_int)
  with assms show "set rest' \<subseteq> set rest" "so_allow_insecure_dev opts' \<Longrightarrow> so_allow_insecure_dev opts \<or> arg = ''--allow-insecure-dev''"
    "0 < so_max_active_connections opts \<Longrightarrow> 0 < so_max_active_connections opts'"
    by (auto simp: server_option_defs with_value_Inr split: if_splits option.splits)
qed

lemma parse_server_args_Inr:
  "parse_server_args args opts = Inr opts' \<Longrightarrow>
     (so_allow_insecure_dev opts' \<longrightarrow> so_allow_insecure_dev opts \<or> ''--allow-insecure-dev'' \<in> set args) \<and>
     (0 < so_max_active_connections opts \<longrightarrow> 0 < so_max_active_connections opts')"
proof (induction args opts rule: parse_server_args.induct)
  case (2 arg rest opts)
  obtain opts1 rest1 where o: "server_option arg rest opts = Inr (opts1, rest1)"
    and r: "parse_server_args rest1 opts1 = Inr opts'"
    using "2.prems" by (auto split: sum.splits)
  from "2.IH" [OF o refl r] server_option_Inr [OF o] show ?case by auto
qed simp

text \<open>The SQLite store under the calls of the TCP server.\<close>

lemma sqlite_call_keeps_wf: "keeps_wf ssl {} m \<Longrightarrow> store_wf ssl st \<Longrightarrow> store_wf ssl (snd (sqlite_call m st))"
  by (cases "m (st, 0)") (auto simp: sqlite_call_def dest: keeps_wfD)

interpretation sqlite_law: store_law "sqlite_api ssl" "store_wf ssl" for ssl
  by unfold_locales (simp_all add: sqlite_api_def sqlite_call_keeps_wf keeps_wf_register keeps_wf_begin keeps_wf_finish
      keeps_wf_authenticate keeps_wf_revoke keeps_wf_publish keeps_wf_acquire keeps_wf_enqueue keeps_wf_drain)

lemma server_main_Serves:
  assumes "server_main ssl env listen disk args = Serves opts store ctx"
  obtains f where "parse_server_args args default_options = Inr opts" "check_options opts = None"
    "SqliteStore_Open env (disk (so_db_path opts)) (so_registration_token opts) = (Ok store, f)"
    "Run_setup listen (tls_config_of opts) True = Ok ctx"
  using assms
  by (cases "SqliteStore_Open env (disk (so_db_path opts)) (so_registration_token opts)")
    (auto simp: server_main_def derive_token_def split: sum.splits if_splits option.splits result.splits)

lemma opened_secret:
  assumes "SqliteStore_Open env old secret = (Ok st, f)"
  shows "sq_required_registration_token st = secret"
proof -
  have keep: "sq_required_registration_token (fst s') = sq_required_registration_token (fst s)"
    if "ExecAllowingDuplicateColumn env g s = (r, s')"
      "\<And>st. sq_required_registration_token (snd (g st)) = sq_required_registration_token st" for g s r s'
    using that by (cases s) (auto simp: ExecAllowingDuplicateColumn_def Exec_def sq_call_def Let_def
        split: prod.splits option.splits result.splits if_splits; metis snd_conv)
  have ed: "sq_required_registration_token (snd (add_bundle_sig_ed st)) = sq_required_registration_token st"
    and ml: "sq_required_registration_token (snd (add_bundle_sig_ml st)) = sq_required_registration_token st" for st
    by (simp_all add: add_bundle_sig_ed_def add_bundle_sig_ml_def)
  show ?thesis using assms
    by (auto simp: SqliteStore_Open_def InitSchema_def sq_bind_Ok sq_return_iff Exec_def sq_call_def Let_def
        split: option.splits result.splits prod.splits dest!: keep [OF _ ed] keep [OF _ ml])
qed

section \<open>Theorems\<close>

text \<open>
C36. ParseStrictPositiveU64 accepts exactly the texts of white space, an optional sign and
decimal digits of a number from 1 to 2^64 - 1, and with a minus sign it gives the number
negated modulo 2^64.
\<close>

theorem strict_numbers_may_be_negative:
  "ParseStrictPositiveU64 text = Some v \<longleftrightarrow>
    (\<exists>neg ds. decimal_text text neg ds \<and> 0 < digits_value ds \<and> digits_value ds < 2 ^ 64 \<and>
      v = (if neg then - of_nat (digits_value ds) else of_nat (digits_value ds)))"
proof -
  obtain neg ds rest where s: "split_number text = (neg, ds, rest)" by (cases "split_number text")
  have z: "(of_nat n :: u64) = 0 \<longleftrightarrow> n = 0" if "n < 2 ^ 64" for n
    using that by (auto simp: word_of_nat_eq_0_iff dest: dvd_imp_le)
  have d: "decimal_text text neg' ds' \<longleftrightarrow> neg' = neg \<and> ds' = ds \<and> rest = [] \<and> ds \<noteq> []" for neg' ds'
    using split_number_decimal [of "text" neg' ds'] s by auto
  have "ds = []" if "text = []" using s that by (auto simp: split_number_def)
  then show ?thesis
    by (auto simp: ParseStrictPositiveU64_def strtoull_def s d z Let_def split: if_splits)
qed

text \<open>
C37. A token that the server program prints for --derive-registration-token is accepted for
that user by a server with the same registration secret.
\<close>

theorem derived_token_is_accepted:
  assumes "server_main ssl env listen disk args = Prints token"
  shows "\<exists>opts. parse_server_args args default_options = Inr opts \<and> so_registration_token opts \<noteq> [] \<and>
    VerifyProvisioningToken ssl (so_registration_token opts) (so_derive_registration_token_user opts) token = Ok ()"
  using assms
  by (auto simp: server_main_def derive_token_def HexEncode_server_def VerifyProvisioningToken_def DecodeHex_hex_string
      split: sum.splits if_splits option.splits result.splits)

text \<open>
C16. If the server program starts serving and --allow-insecure-dev is not among its
arguments, its store demands a provisioning secret, and it has a TLS context for TLS 1.3 or
later with the given certificate and key, which verifies client certificates against the
given authority if they are required.
\<close>

theorem secure_by_default:
  assumes "server_main ssl env listen disk args = Serves opts store ctx"
    and "''--allow-insecure-dev'' \<notin> set args"
  shows "sq_required_registration_token store \<noteq> [] \<and>
    (\<exists>tls. ctx = Some tls \<and> sx_min_tls13 tls \<and> sx_cert_file tls = so_tls_cert opts \<and> so_tls_cert opts \<noteq> [] \<and>
      sx_key_file tls = so_tls_key opts \<and> so_tls_key opts \<noteq> [] \<and>
      (so_tls_require_client_cert opts \<longrightarrow> sx_verify_mode tls = SSL_VERIFY_PEER_FAIL_IF_NO_PEER_CERT \<and>
        sx_client_ca_file tls = Some (so_tls_client_ca opts)))"
proof -
  obtain f where m: "parse_server_args args default_options = Inr opts" "check_options opts = None"
    "SqliteStore_Open env (disk (so_db_path opts)) (so_registration_token opts) = (Ok store, f)"
    "Run_setup listen (tls_config_of opts) True = Ok ctx"
    using assms(1) by (rule server_main_Serves)
  have "\<not> so_allow_insecure_dev opts"
    using parse_server_args_Inr [OF m(1)] assms(2) by (auto simp: default_options_def)
  then have c: "so_registration_token opts \<noteq> []" "tls_enabled opts" "so_tls_cert opts \<noteq> []" "so_tls_key opts \<noteq> []"
    "so_tls_require_client_cert opts \<longrightarrow> so_tls_client_ca opts \<noteq> []"
    using m(2) by (auto simp: check_options_def split: if_splits)
  obtain tls where "create_server_ctx listen (tls_config_of opts) = Ok tls" "ctx = Some tls"
    using m(4) c(2) by (auto simp: Run_setup_def tls_config_of_def result_inv split: if_splits)
  with c opened_secret [OF m(3)] show ?thesis
    by (auto simp: create_server_ctx_def tls_config_of_def Let_def split: if_splits)
qed

text \<open>
C15. In every state that a started server program reaches, whatever its clients send and
however its connection threads and the accept loop interleave, the current and the committed
tables of the SQLite store are well-formed, the number of connections is at most the
configured one, which is positive, and every connection in HandleConnection has completed
its handshake under the configured TLS context. A database that exists at the start must be
well-formed; SQLite itself does not fail.
\<close>

theorem running_server_stays_safe:
  assumes "server_main ssl env listen disk args = Serves opts store ctx"
    and "\<forall>d. disk (so_db_path opts) = Some d \<longrightarrow> db_wf ssl d"
    and "run_reachable (server_config ssl opts ctx) store l"
  shows "db_wf ssl (sq_db (snd (li_world l))) \<and> db_wf ssl (committed (snd (li_world l))) \<and>
    0 < so_max_active_connections opts \<and> length (li_conns l) \<le> unat (so_max_active_connections opts) \<and>
    (\<forall>c\<in>set (li_conns l). cn_phase c = Handling \<longrightarrow> cn_tls c = ctx)"
proof -
  obtain f where m: "parse_server_args args default_options = Inr opts"
    "SqliteStore_Open env (disk (so_db_path opts)) (so_registration_token opts) = (Ok store, f)"
    using assms(1) by (rule server_main_Serves)
  have "store_wf ssl store"
    by (rule opened_wf [OF m(2)]) (use assms(2) in \<open>simp add: empty_db_wf split: option.split\<close>)
  then have wf: "store_wf ssl (snd (li_world l))"
    using sqlite_law.reachable_keeps [OF assms(3)] by (simp add: server_config_def)
  have "0 < so_max_active_connections opts"
    using parse_server_args_Inr [OF m(1)] by (simp add: default_options_def)
  with run_inv_reachable [OF assms(3)] wf store_wf_committed [OF wf] show ?thesis
    by (auto simp: run_inv_def server_config_def store_wf_def)
qed

section \<open>A server with one connection\<close>

definition demo_listen :: listen_env where
  "demo_listen = \<lparr>le_ssl_error = None, le_ctx_new = True, le_min_version = True, le_use_cert = (\<lambda>_. True),
     le_use_key = (\<lambda>_. True), le_check_key = (\<lambda>_ _. True), le_load_ca = (\<lambda>_. True),
     le_socket = None, le_bind = None, le_listen = None\<rparr>"

definition demo_start :: sq_env where
  "demo_start = \<lparr>se_fault = (\<lambda>_. None), se_now = (\<lambda>_. 0), se_rnd1 = Some [], se_rnd2 = None\<rparr>"

definition demo_args :: "string list" where
  "demo_args = [''--tls-cert'', ''c.pem'', ''--tls-key'', ''k.pem'', ''--registration-token'', ''s'']"

definition demo_main :: "string list \<Rightarrow> server_outcome" where
  "demo_main args = server_main toy_ssl demo_start demo_listen (\<lambda>_. None) args"

lemma demo_serves: "\<exists>opts store ctx. demo_main demo_args = Serves opts store ctx"
proof -
  have "case demo_main demo_args of Serves opts store ctx \<Rightarrow> True | _ \<Rightarrow> False" by code_simp
  then show ?thesis by (auto split: server_outcome.splits)
qed

text \<open>One client connects and completes its handshake.\<close>

definition demo_conn :: "server_ctx option \<Rightarrow> phase \<Rightarrow> conn" where
  "demo_conn tls p = \<lparr>cn_fd = 5, cn_peer = ''unknown'', cn_tls = tls, cn_phase = p, cn_responses = []\<rparr>"

definition demo_accepted :: "'s \<Rightarrow> server_ctx option \<Rightarrow> phase \<Rightarrow> 's listener" where
  "demo_accepted s tls p = \<lparr>li_acceptor = Accepting, li_active_connections = 1, li_accepted_connections = 1,
     li_conns = [demo_conn tls p], li_open = {5}, li_world = (TcpServer_init, s)\<rparr>"

lemma demo_reachable:
  assumes "rc_max_active_connections rc > 0" "rc_ctx rc = Some ctx"
  shows "run_reachable rc s (demo_accepted s (Some ctx) Handling)"
proof -
  let ?l = "listener_init s"
  let ?l1 = "?l\<lparr>li_acceptor := Accepted 5, li_accepted_connections := 1, li_open := {5}\<rparr>"
  let ?l2 = "?l1\<lparr>li_acceptor := Admitted 5\<rparr>"
  let ?l3 = "?l2\<lparr>li_acceptor := Spawning 5, li_active_connections := 1\<rparr>"
  have "run_step rc ?l ?l1"
    using run_step.accept_ok [of ?l 5 rc] by (simp add: listener_init_def)
  moreover have "run_step rc ?l1 ?l2"
    using run_step.admit [of ?l1 5 rc] assms(1) by (simp add: listener_init_def at_limit_def)
  moreover have "run_step rc ?l2 ?l3"
    using run_step.count_in [of ?l2 5 rc] by (simp add: listener_init_def)
  moreover have "run_step rc ?l3 (demo_accepted s None Started)"
    using run_step.spawn [of ?l3 5 rc NoPeerName]
    by (simp add: listener_init_def demo_accepted_def demo_conn_def PeerAddressString_def)
  moreover have "run_step rc (demo_accepted s None Started) (demo_accepted s (Some ctx) Handling)"
    using run_step.tls_accepted [of 0 "demo_accepted s None Started" "demo_conn None Started" rc ctx] assms(2)
    by (simp add: demo_accepted_def demo_conn_def set_conn_def)
  ultimately show ?thesis by (meson run_reachable.intros)
qed

lemma demo_config:
  assumes "demo_main demo_args = Serves opts store ctx"
  obtains tls where "0 < rc_max_active_connections (server_config toy_ssl opts ctx)"
    "rc_ctx (server_config toy_ssl opts ctx) = Some tls" "ctx = Some tls"
proof -
  obtain f where m: "parse_server_args demo_args default_options = Inr opts" "check_options opts = None"
    "Run_setup demo_listen (tls_config_of opts) True = Ok ctx"
    using assms unfolding demo_main_def by (rule server_main_Serves)
  have "so_tls_cert opts \<noteq> []"
  proof -
    have "case parse_server_args demo_args default_options of Inr x \<Rightarrow> so_tls_cert x \<noteq> [] | _ \<Rightarrow> False" by code_simp
    with m(1) show ?thesis by simp
  qed
  then have "tsc_enabled (tls_config_of opts)" by (simp add: tls_config_of_def tls_enabled_def)
  then obtain tls where "ctx = Some tls" using m(3) by (auto simp: Run_setup_def result_inv)
  moreover have "0 < so_max_active_connections opts"
    using parse_server_args_Inr [OF m(1)] by (simp add: default_options_def)
  ultimately show ?thesis using that by (simp add: server_config_def)
qed

theorem secure_by_default_witness:
  "\<exists>opts store ctx. demo_main demo_args = Serves opts store (Some ctx) \<and> sq_required_registration_token store \<noteq> [] \<and>
    sx_min_tls13 ctx"
proof -
  obtain opts store ctx where m: "demo_main demo_args = Serves opts store ctx" using demo_serves by blast
  have "''--allow-insecure-dev'' \<notin> set demo_args" by (simp add: demo_args_def)
  from secure_by_default [OF m [unfolded demo_main_def] this] m show ?thesis by auto
qed

theorem running_server_stays_safe_witness:
  "\<exists>opts store ctx l. demo_main demo_args = Serves opts store ctx \<and> length (li_conns l) = 1 \<and>
    run_reachable (server_config toy_ssl opts ctx) store l \<and> db_wf toy_ssl (sq_db (snd (li_world l)))"
proof -
  obtain opts store ctx where m: "demo_main demo_args = Serves opts store ctx" using demo_serves by blast
  obtain tls where rc: "0 < rc_max_active_connections (server_config toy_ssl opts ctx)"
    "rc_ctx (server_config toy_ssl opts ctx) = Some tls" using m by (rule demo_config)
  note r = demo_reachable [OF rc, of store]
  have "length (li_conns (demo_accepted store (Some tls) Handling)) = 1" by (simp add: demo_accepted_def)
  with m r running_server_stays_safe [OF m [unfolded demo_main_def] _ r] show ?thesis by auto
qed

theorem connections_are_counted_and_bounded_witness:
  "\<exists>rc s l. run_reachable (rc :: SqliteStore run_config) s l \<and> length (li_conns l) = 1 \<and> unat (li_active_connections l) = 1"
proof -
  obtain opts store ctx where m: "demo_main demo_args = Serves opts store ctx" using demo_serves by blast
  obtain tls where rc: "0 < rc_max_active_connections (server_config toy_ssl opts ctx)"
    "rc_ctx (server_config toy_ssl opts ctx) = Some tls" using m by (rule demo_config)
  note r = demo_reachable [OF rc, of store]
  have "length (li_conns (demo_accepted store (Some tls) Handling)) = 1"
    "counted (li_acceptor (demo_accepted store (Some tls) Handling)) = 0" by (simp_all add: demo_accepted_def counted_def)
  with r connections_are_counted_and_bounded [OF r rc(1)] show ?thesis by auto
qed

theorem handled_connections_are_secured_witness:
  "\<exists>rc s l c. run_reachable (rc :: SqliteStore run_config) s l \<and> c \<in> set (li_conns l) \<and> cn_phase c = Handling \<and>
    (\<exists>tls. cn_tls c = Some tls \<and> sx_min_tls13 tls)"
proof -
  obtain opts store ctx where m: "demo_main demo_args = Serves opts store ctx" using demo_serves by blast
  obtain tls where rc: "0 < rc_max_active_connections (server_config toy_ssl opts ctx)"
    "rc_ctx (server_config toy_ssl opts ctx) = Some tls" and ctx: "ctx = Some tls" using m by (rule demo_config)
  obtain f where su: "Run_setup demo_listen (tls_config_of opts) True = Ok ctx"
    using m unfolding demo_main_def by (rule server_main_Serves)
  have c: "demo_conn (Some tls) Handling \<in> set (li_conns (demo_accepted store (Some tls) Handling))"
    "cn_phase (demo_conn (Some tls) Handling) = Handling" by (simp_all add: demo_accepted_def demo_conn_def)
  have en: "tsc_enabled (tls_config_of opts)" using su ctx by (auto simp: Run_setup_def result_inv split: if_splits)
  from handled_connections_are_secured [OF su _ en demo_reachable [OF rc, of store] c] rc(2) ctx
    demo_reachable [OF rc, of store] c
  show ?thesis by blast
qed

theorem derived_token_is_accepted_witness:
  "\<exists>token. demo_main [''--registration-token'', ''s'', ''--derive-registration-token'', ''alice''] = Prints token \<and>
    VerifyProvisioningToken toy_ssl ''s'' ''alice'' token = Ok ()"
proof -
  let ?args = "[''--registration-token'', ''s'', ''--derive-registration-token'', ''alice'']"
  have "case demo_main ?args of Prints token \<Rightarrow> True | _ \<Rightarrow> False" by code_simp
  then obtain token where p: "demo_main ?args = Prints token" by (auto split: server_outcome.splits)
  have "case parse_server_args ?args default_options of
      Inr opts \<Rightarrow> so_registration_token opts = ''s'' \<and> so_derive_registration_token_user opts = ''alice'' | _ \<Rightarrow> False"
    by code_simp
  then have "VerifyProvisioningToken toy_ssl ''s'' ''alice'' token = Ok ()"
    using derived_token_is_accepted [OF p [unfolded demo_main_def]] by (auto split: sum.splits)
  with p show ?thesis by blast
qed

end
