(* ===== verification/Client_Cli.thy ===== *)
theory Client_Cli
  imports Command_Line Tcp_Client Client_Laws
begin

text \<open>
  \<^verbatim>\<open>src/client/client_cli_main.cpp\<close>: the command line of the client, what it starts with, and the loop over the lines the user
  types. The loop does what a sequence of client operations does (\<open>cli_ops\<close>), so everything proved of
  such sequences holds of what is typed.
\<close>

section \<open>The command line\<close>

record client_options =
  co_user :: string
  co_host :: string
  co_port :: "16 word"
  co_publish_on_start :: bool
  co_tls_ca :: string
  co_tls_server_name :: string
  co_tls_client_cert :: string
  co_tls_client_key :: string
  co_tls_pins :: "string list"
  co_registration_token :: string
  co_allow_insecure_dev :: bool

definition default_client_options :: client_options where
  "default_client_options = \<lparr>co_user = [], co_host = ''127.0.0.1'', co_port = 8080, co_publish_on_start = False,
     co_tls_ca = [], co_tls_server_name = [], co_tls_client_cert = [], co_tls_client_key = [], co_tls_pins = [],
     co_registration_token = [], co_allow_insecure_dev = False\<rparr>"

definition client_option ::
    "string \<Rightarrow> string list \<Rightarrow> client_options \<Rightarrow> (refusal, client_options \<times> string list) sum" where
  "client_option arg rest opts =
     (if arg = ''--user'' then with_value rest (\<lambda>v. Inr (opts\<lparr>co_user := v\<rparr>))
      else if arg = ''--host'' then with_value rest (\<lambda>v. Inr (opts\<lparr>co_host := v\<rparr>))
      else if arg = ''--port'' then with_value rest (\<lambda>v.
        if atoi v \<le> 0 \<or> atoi v > 65535 then Inl (Complaint ''invalid port'')
        else Inr (opts\<lparr>co_port := word_of_int (atoi v)\<rparr>))
      else if arg = ''--publish-on-start'' then Inr (opts\<lparr>co_publish_on_start := True\<rparr>, rest)
      else if arg = ''--tls-ca'' then with_value rest (\<lambda>v. Inr (opts\<lparr>co_tls_ca := v\<rparr>))
      else if arg = ''--tls-server-name'' then with_value rest (\<lambda>v. Inr (opts\<lparr>co_tls_server_name := v\<rparr>))
      else if arg = ''--tls-client-cert'' then with_value rest (\<lambda>v. Inr (opts\<lparr>co_tls_client_cert := v\<rparr>))
      else if arg = ''--tls-client-key'' then with_value rest (\<lambda>v. Inr (opts\<lparr>co_tls_client_key := v\<rparr>))
      else if arg = ''--tls-pin-sha256'' then with_value rest (\<lambda>v. Inr (opts\<lparr>co_tls_pins := co_tls_pins opts @ [v]\<rparr>))
      else if arg = ''--register-token'' then with_value rest (\<lambda>v. Inr (opts\<lparr>co_registration_token := v\<rparr>))
      else if arg = ''--allow-insecure-dev'' then Inr (opts\<lparr>co_allow_insecure_dev := True\<rparr>, rest)
      else Inl Usage)"

lemma client_option_shorter: "client_option arg rest opts = Inr (opts', rest') \<Longrightarrow> length rest' \<le> length rest"
  by (auto simp: client_option_def split: if_splits dest: with_value_shorter)

function parse_client_args :: "string list \<Rightarrow> client_options \<Rightarrow> (refusal, client_options) sum" where
  "parse_client_args [] opts = Inr opts"
| "parse_client_args (arg # rest) opts =
     (case client_option arg rest opts of
        Inl e \<Rightarrow> Inl e
      | Inr (opts', rest') \<Rightarrow> parse_client_args rest' opts')"
  by pat_completeness auto

termination parse_client_args
  by (relation "measure (length \<circ> fst)") (auto dest: client_option_shorter)

section \<open>Starting\<close>

text \<open>The pins do not switch TLS on.\<close>

definition client_tls_config :: "client_options \<Rightarrow> TlsClientConfig" where
  "client_tls_config opts =
     \<lparr>tc_enabled = (co_tls_ca opts \<noteq> [] \<or> co_tls_server_name opts \<noteq> [] \<or> co_tls_client_cert opts \<noteq> [] \<or>
        co_tls_client_key opts \<noteq> []),
      tc_ca_file = co_tls_ca opts, tc_server_name = co_tls_server_name opts,
      tc_client_cert_file = co_tls_client_cert opts, tc_client_key_file = co_tls_client_key opts,
      tc_pinned_server_cert_sha256_hex = co_tls_pins opts\<rparr>"

text \<open>
  The object that talks to the server in the name of a client. The identity keys of a client never change, so it
  signs with those of the start.
\<close>

definition remote_server :: "openssl \<Rightarrow> client_options \<Rightarrow> string \<Rightarrow> Client \<Rightarrow> TcpServerApi" where
  "remote_server ssl opts user client =
     TcpServerApi_init (co_host opts) (co_port opts) user (dk_public_key (cl_identity_mldsa_key client))
       (Some (\<lambda>ent message. SignTransportAuth ssl ent client message))
       (co_registration_token opts) (client_tls_config opts)"

text \<open>
  \<^verbatim>\<open>main\<close> up to the object that talks to the server; \<open>srv\<close> is the state of the server side, which the
  client does not touch before.
\<close>

definition client_start ::
    "openssl \<Rightarrow> inputs \<Rightarrow> path_env \<Rightarrow> load_env \<Rightarrow> disk \<Rightarrow> 's \<Rightarrow> string list \<Rightarrow>
     (refusal, client_options \<times> 's sys \<times> TcpServerApi) sum" where
  "client_start ssl inp penv lenv disk srv args =
     (case parse_client_args args default_client_options of
        Inl e \<Rightarrow> Inl e
      | Inr opts \<Rightarrow>
          if co_user opts = [] then Inl Usage
          else if co_tls_client_cert opts = [] \<and> co_tls_client_key opts \<noteq> [] \<or>
                  co_tls_client_cert opts \<noteq> [] \<and> co_tls_client_key opts = []
          then Inl (Complaint ''TLS client auth requires both --tls-client-cert and --tls-client-key'')
          else (case Create ssl inp penv lenv (co_user opts) disk srv 0 of
              Err e \<Rightarrow> Inl (Complaint (''client init failed: '' @ e))
            | Ok s \<Rightarrow>
                if \<not> co_allow_insecure_dev opts \<and> \<not> tc_enabled (client_tls_config opts)
                then Inl (Complaint ''TLS is required by default; configure TLS or use --allow-insecure-dev for local testing'')
                else Inr (opts, s, remote_server ssl opts (co_user opts) (sy_client s))))"

section \<open>The lines\<close>

definition TrimLeadingSpace :: "string \<Rightarrow> string" where
  "TrimLeadingSpace = dropWhile (\<lambda>c. c = CHR '' '' \<or> c = CHR 0x09)"

definition help_lines :: "string list" where
  "help_lines = [''Commands:'', ''  publish'', ''  init <peer> <message>'', ''  send <peer> <message>'', ''  poll'',
     ''  safety <peer>'', ''  verify <peer> <safety_number>'', ''  help'', ''  quit'']"

definition report :: "unit result \<times> 's sys \<Rightarrow> string list \<times> 's sys" where
  "report rs = (case fst rs of Ok _ \<Rightarrow> [''ok''] | Err e \<Rightarrow> [''error: '' @ e], snd rs)"

text \<open>One turn of the loop: \<open>None\<close> leaves it, else the lines printed and the state.\<close>

definition cli_line ::
    "openssl \<Rightarrow> inputs \<Rightarrow> 's IServerApi \<Rightarrow> string \<Rightarrow> 's sys \<Rightarrow> (string list \<times> 's sys) option" where
  "cli_line ssl inp api line s =
     (let (cmd, iss) = read_word line
      in if cmd = [] then Some ([], s)
         else if cmd = ''quit'' \<or> cmd = ''exit'' then None
         else if cmd = ''help'' then Some (help_lines, s)
         else if cmd = ''publish'' then Some (report (PublishPrekeys ssl inp (Some api) s))
         else if cmd = ''safety'' then
           (let (peer, _) = read_word iss
            in if peer = [] then Some ([''error: missing peer''], s)
               else Some (case GetPeerSafetyNumber ssl (sy_client s) peer of
                   Ok number \<Rightarrow> [number] | Err e \<Rightarrow> [''error: '' @ e], s))
         else if cmd = ''verify'' then
           (let (peer, iss) = read_word iss; (safety, _) = read_word iss
            in if peer = [] \<or> safety = [] then Some ([''error: usage verify <peer> <safety_number>''], s)
               else Some (report (VerifyPeerSafetyNumber ssl inp peer safety s)))
         else if cmd = ''poll'' then
           (case ProcessInbox ssl inp (Some api) s of
              (Err e, s') \<Rightarrow> Some ([''error: '' @ e], s')
            | (Ok [], s') \<Rightarrow> Some ([''no messages''], s')
            | (Ok msgs, s') \<Rightarrow> Some (map (\<lambda>msg. ''message: '' @ msg) msgs, s'))
         else if cmd = ''init'' \<or> cmd = ''send'' then
           (let (peer, rest) = read_word iss; msg = TrimLeadingSpace rest
            in if peer = [] then Some ([''error: missing peer''], s)
               else if msg = [] then Some ([''error: missing message''], s)
               else if cmd = ''init'' then Some (report (InitiateSession ssl inp (Some api) peer msg s))
               else Some (report (SendMessage ssl inp (Some api) peer msg s)))
         else Some ([''error: unknown command''], s))"

text \<open>The loop ends with the input or when a line leaves it.\<close>

fun cli_loop ::
    "openssl \<Rightarrow> inputs \<Rightarrow> 's IServerApi \<Rightarrow> string list \<Rightarrow> 's sys \<Rightarrow> string list \<times> 's sys" where
  "cli_loop ssl inp api [] s = ([], s)"
| "cli_loop ssl inp api (line # lines) s =
     (case cli_line ssl inp api line s of
        None \<Rightarrow> ([], s)
      | Some (out, s') \<Rightarrow> (let (outs, s'') = cli_loop ssl inp api lines s' in (out @ outs, s'')))"

text \<open>
  \<^verbatim>\<open>main\<close> after the start: the exit code, what is printed (but for the greeting and the prompts), and the state.
\<close>

definition cli_session ::
    "openssl \<Rightarrow> inputs \<Rightarrow> 's IServerApi \<Rightarrow> client_options \<Rightarrow> string list \<Rightarrow> 's sys \<Rightarrow> nat \<times> string list \<times> 's sys" where
  "cli_session ssl inp api opts lines s =
     (let (published, s) = (if co_publish_on_start opts then PublishPrekeys ssl inp (Some api) s else (Ok (), s))
      in case published of
           Err e \<Rightarrow> (1, [''publish failed: '' @ e], s)
         | Ok _ \<Rightarrow>
             (let (outs, s) = cli_loop ssl inp api lines s
              in (0, (if co_publish_on_start opts then [''published prekeys''] else []) @ help_lines @ outs, s)))"

section \<open>What a line means\<close>

text \<open>The operation a line stands for, if any, and the operations of a typed session.\<close>

definition line_op :: "string \<Rightarrow> client_op list" where
  "line_op line =
     (let (cmd, iss) = read_word line; (peer, rest) = read_word iss; (safety, _) = read_word rest;
          msg = TrimLeadingSpace rest
      in if cmd = ''publish'' then [PublishOp]
         else if cmd = ''poll'' then [InboxOp]
         else if cmd = ''verify'' \<and> peer \<noteq> [] \<and> safety \<noteq> [] then [VerifyOp peer safety]
         else if cmd = ''init'' \<and> peer \<noteq> [] \<and> msg \<noteq> [] then [InitiateOp peer msg]
         else if cmd = ''send'' \<and> peer \<noteq> [] \<and> msg \<noteq> [] then [SendOp peer msg]
         else [])"

definition leaves :: "string \<Rightarrow> bool" where
  "leaves line \<longleftrightarrow> fst (read_word line) \<in> {''quit'', ''exit''}"

definition cli_ops :: "string list \<Rightarrow> client_op list" where
  "cli_ops lines = concat (map line_op (takeWhile (\<lambda>line. \<not> leaves line) lines))"

lemma cli_line_op:
  "cli_line ssl inp api line s =
     (if leaves line then None else Some (fst (the (cli_line ssl inp api line s)),
        client_run ssl inp (Some api) (line_op line) s))"
  by (auto simp: cli_line_def leaves_def line_op_def client_run_def report_def Let_def split_beta
      split: prod.splits result.splits list.splits)

lemma client_run_append: "client_run ssl inp api (xs @ ys) s = client_run ssl inp api ys (client_run ssl inp api xs s)"
  by (simp add: client_run_def)

lemma cli_loop_run: "snd (cli_loop ssl inp api lines s) = client_run ssl inp (Some api) (cli_ops lines) s"
proof (induction lines arbitrary: s)
  case Nil
  then show ?case by (simp add: cli_ops_def client_run_def)
next
  case (Cons line lines)
  show ?case
  proof (cases "leaves line")
    case True
    then have "cli_line ssl inp api line s = None" using cli_line_op [of ssl inp api line s] by simp
    with True show ?thesis by (simp add: cli_ops_def client_run_def)
  next
    case False
    then obtain out where "cli_line ssl inp api line s = Some (out, client_run ssl inp (Some api) (line_op line) s)"
      using cli_line_op [of ssl inp api line s] by (metis (full_types))
    with False Cons.IH show ?thesis by (simp add: cli_ops_def client_run_append split_beta)
  qed
qed

lemma client_option_Inr:
  assumes "client_option arg rest opts = Inr (opts', rest')"
  shows "set rest' \<subseteq> set rest" and "co_allow_insecure_dev opts' \<Longrightarrow> co_allow_insecure_dev opts \<or> arg = ''--allow-insecure-dev''"
  using assms by (auto simp: client_option_def with_value_Inr split: if_splits)

lemma parse_client_args_Inr:
  "parse_client_args args opts = Inr opts' \<Longrightarrow> co_allow_insecure_dev opts' \<Longrightarrow>
     co_allow_insecure_dev opts \<or> ''--allow-insecure-dev'' \<in> set args"
proof (induction args opts rule: parse_client_args.induct)
  case (2 arg rest opts)
  obtain opts1 rest1 where o: "client_option arg rest opts = Inr (opts1, rest1)"
    and r: "parse_client_args rest1 opts1 = Inr opts'"
    using "2.prems"(1) by (auto split: sum.splits)
  from "2.IH" [OF o refl r "2.prems"(2)] client_option_Inr [OF o] show ?case by auto
qed simp

lemma is_space_blank [simp]: "is_space CHR '' ''"
  by (simp add: is_space_def)

lemma read_command: "is_word cmd \<Longrightarrow> read_word (cmd @ '' '' @ rest) = (cmd, '' '' @ rest)"
  by (simp add: read_word_word)

lemma is_verify_line: "list_ex is_verify (line_op line) \<Longrightarrow> fst (read_word line) = ''verify''"
  by (auto simp: line_op_def is_verify_def Let_def split: prod.splits if_splits)

section \<open>Theorems\<close>

text \<open>
C25. A session at the console leaves the client, the server and the state file as the
sequence of client operations does that the typed lines stand for, up to the first line that
leaves the loop; if publishing at the start fails, no line is run.
\<close>

theorem console_runs_client_operations:
  "(let (code, out, s') = cli_session ssl inp api opts lines s
    in s' = client_run ssl inp (Some api)
         ((if co_publish_on_start opts then [PublishOp] else []) @ (if code = 0 then cli_ops lines else [])) s)"
proof -
  have p: "snd (PublishPrekeys ssl inp (Some api) s) = client_run ssl inp (Some api) [PublishOp] s"
    by (simp add: client_run_def)
  show ?thesis
    using p cli_loop_run [of ssl inp api lines]
    by (auto simp: cli_session_def Let_def client_run_append split_beta split: result.split)
      (simp_all add: client_run_def)
qed

theorem typed_text_is_sent:
  assumes "is_word peer" and "TrimLeadingSpace msg = msg" and "msg \<noteq> []"
  shows "cli_line ssl inp api (''send '' @ peer @ '' '' @ msg) s = Some (report (SendMessage ssl inp (Some api) peer msg s)) \<and>
    cli_line ssl inp api (''init '' @ peer @ '' '' @ msg) s = Some (report (InitiateSession ssl inp (Some api) peer msg s))"
proof -
  have w: "is_word ''send''" "is_word ''init''" by (simp_all add: is_word_def is_space_def)
  have peer: "read_word (CHR '' '' # peer @ CHR '' '' # msg) = (peer, CHR '' '' # msg)"
    using read_command [OF assms(1), of msg] by (simp add: read_word_space)
  have t: "TrimLeadingSpace (CHR '' '' # msg) = msg" using assms(2) by (simp add: TrimLeadingSpace_def)
  have "peer \<noteq> []" using assms(1) by (simp add: is_word_def)
  then show ?thesis
    using read_command [OF w(1), of "peer @ '' '' @ msg"] read_command [OF w(2), of "peer @ '' '' @ msg"] peer t assms(3)
    by (simp add: cli_line_def)
qed

text \<open>
C27. If no line typed at the console is a verify command, every session the client has
afterwards is with a peer the user had verified before, whatever the server sends.
\<close>

theorem console_needs_verify_for_sessions:
  assumes "sessions_verified (sy_client s)" and "\<forall>line\<in>set lines. fst (read_word line) \<noteq> ''verify''"
    and "map_of (cl_sessions_by_peer (sy_client (snd (cli_loop ssl inp api lines s)))) u = Some st"
  shows "\<exists>p. map_of (cl_trusted_peer_identities (sy_client s)) u = Some p \<and> pi_verified p"
proof -
  let ?s = "client_run ssl inp (Some api) (cli_ops lines) s"
  have nv: "\<not> list_ex is_verify (cli_ops lines)"
    using assms(2) is_verify_line by (fastforce simp: cli_ops_def list_ex_iff dest: set_takeWhileD)
  have "sessions_verified (sy_client ?s)" using verified.run_keeps [OF assms(1)] .
  then obtain p where p: "map_of (cl_trusted_peer_identities (sy_client ?s)) u = Some p" "pi_verified p"
    using assms(3) by (auto simp: cli_loop_run sessions_verified_def trusted_def)
  from only_the_user_verifies_peers [OF nv p] p(2) show ?thesis by blast
qed


end
