(* ===== verification/Demos.thy ===== *)
theory Demos
  imports Client_Cli
begin

text \<open>
  The two demonstration programs, \<^verbatim>\<open>src/client/client_main.cpp\<close> over the in-memory server and
  \<^verbatim>\<open>src/client/network_demo_main.cpp\<close> over TCP. Neither of them verifies a safety number, so on a machine where Alice has not
  verified Bob before, both stop at the handshake.
\<close>

section \<open>The programs\<close>

text \<open>Both clients share the server, the disk and the stream of inputs: the other one goes on with what one left.\<close>

definition hand_over :: "'s sys \<Rightarrow> 's sys \<Rightarrow> 's sys" where
  "hand_over from to = to\<lparr>sy_disk := sy_disk from, sy_server := sy_server from, sy_tick := sy_tick from\<rparr>"

text \<open>
  From the handshake on both programs are the same but for their texts; the result is the exit code and what
  is printed.
\<close>

definition demo_talk ::
    "openssl \<Rightarrow> inputs \<Rightarrow> 's IServerApi \<Rightarrow> 's IServerApi \<Rightarrow> string \<Rightarrow> string \<Rightarrow> string \<Rightarrow> 's sys \<Rightarrow> 's sys \<Rightarrow>
     nat \<times> string list" where
  "demo_talk ssl inp alice_api bob_api hello answer reply_failed alice bob =
     (case InitiateSession ssl inp (Some alice_api) ''bob'' hello alice of
        (Err e, _) \<Rightarrow> (1, [''init failed: '' @ e])
      | (Ok _, alice) \<Rightarrow>
          (case ProcessInbox ssl inp (Some bob_api) (hand_over alice bob) of
             (Err e, _) \<Rightarrow> (1, [''bob inbox failed: '' @ e])
           | (Ok bob_msgs, bob) \<Rightarrow>
               (let out = map (\<lambda>msg. ''bob received: '' @ msg) bob_msgs
                in case SendMessage ssl inp (Some bob_api) ''alice'' answer bob of
                     (Err e, _) \<Rightarrow> (1, out @ [reply_failed @ e])
                   | (Ok _, bob) \<Rightarrow>
                       (case ProcessInbox ssl inp (Some alice_api) (hand_over bob alice) of
                          (Err e, _) \<Rightarrow> (1, out @ [''alice inbox failed: '' @ e])
                        | (Ok alice_msgs, _) \<Rightarrow> (0, out @ map (\<lambda>msg. ''alice received: '' @ msg) alice_msgs)))))"

text \<open>\<^verbatim>\<open>Client::Create\<close> of both users; \<open>None\<close> if one of them fails.\<close>

definition create_both ::
    "openssl \<Rightarrow> inputs \<Rightarrow> path_env \<Rightarrow> load_env \<Rightarrow> load_env \<Rightarrow> disk \<Rightarrow> 's \<Rightarrow> ('s sys \<times> 's sys) option" where
  "create_both ssl inp penv lenv_alice lenv_bob disk srv =
     (case Create ssl inp penv lenv_alice ''alice'' disk srv 0 of
        Err _ \<Rightarrow> None
      | Ok alice \<Rightarrow>
          (case Create ssl inp penv lenv_bob ''bob'' (sy_disk alice) (sy_server alice) (sy_tick alice) of
             Err _ \<Rightarrow> None
           | Ok bob \<Rightarrow> Some (hand_over bob alice, bob)))"

text \<open>\<^verbatim>\<open>main\<close> of \<^verbatim>\<open>client_main.cpp\<close>: Bob publishes only if Alice could.\<close>

definition client_main ::
    "openssl \<Rightarrow> inputs \<Rightarrow> path_env \<Rightarrow> load_env \<Rightarrow> load_env \<Rightarrow> disk \<Rightarrow> nat \<times> string list" where
  "client_main ssl inp penv lenv_alice lenv_bob disk =
     (let api = in_memory_api ssl
      in case create_both ssl inp penv lenv_alice lenv_bob disk (InMemoryServer_init []) of
        None \<Rightarrow> (1, [''client create failed''])
      | Some (alice, bob) \<Rightarrow>
          (case PublishPrekeys ssl inp (Some api) alice of
             (Err _, _) \<Rightarrow> (1, [''prekey publish failed''])
           | (Ok _, alice) \<Rightarrow>
               (case PublishPrekeys ssl inp (Some api) (hand_over alice bob) of
                  (Err _, _) \<Rightarrow> (1, [''prekey publish failed''])
                | (Ok _, bob) \<Rightarrow>
                    demo_talk ssl inp api api ''hello from alice'' ''hello from bob'' ''reply failed: ''
                      (hand_over bob alice) bob)))"

text \<open>The options of the network demo are those of the console but two.\<close>

definition demo_option ::
    "string \<Rightarrow> string list \<Rightarrow> client_options \<Rightarrow> (refusal, client_options \<times> string list) sum" where
  "demo_option arg rest opts =
     (if arg \<in> {''--user'', ''--publish-on-start''} then Inl Usage else client_option arg rest opts)"

lemma demo_option_shorter: "demo_option arg rest opts = Inr (opts', rest') \<Longrightarrow> length rest' \<le> length rest"
  by (auto simp: demo_option_def split: if_splits dest: client_option_shorter)

function parse_demo_args :: "string list \<Rightarrow> client_options \<Rightarrow> (refusal, client_options) sum" where
  "parse_demo_args [] opts = Inr opts"
| "parse_demo_args (arg # rest) opts =
     (case demo_option arg rest opts of
        Inl e \<Rightarrow> Inl e
      | Inr (opts', rest') \<Rightarrow> parse_demo_args rest' opts')"
  by pat_completeness auto

termination parse_demo_args
  by (relation "measure (length \<circ> fst)") (auto dest: demo_option_shorter)

definition failure_lines :: "string \<Rightarrow> unit result \<Rightarrow> string list" where
  "failure_lines who r = (case r of Ok _ \<Rightarrow> [] | Err e \<Rightarrow> [who @ '': '' @ e])"

text \<open>
  \<^verbatim>\<open>main\<close> of \<^verbatim>\<open>network_demo_main.cpp\<close>. \<open>apis\<close> is the network: it runs the two \<^verbatim>\<open>TcpServerApi\<close> objects over
  a state with their connections and the server.
\<close>

definition network_demo ::
    "openssl \<Rightarrow> inputs \<Rightarrow> path_env \<Rightarrow> load_env \<Rightarrow> load_env \<Rightarrow> disk \<Rightarrow>
     (TcpServerApi \<Rightarrow> TcpServerApi \<Rightarrow> 's IServerApi \<times> 's IServerApi) \<Rightarrow> 's \<Rightarrow> string list \<Rightarrow> nat \<times> string list" where
  "network_demo ssl inp penv lenv_alice lenv_bob disk apis srv args =
     (case parse_demo_args args default_client_options of
        Inl Usage \<Rightarrow> (1, [''usage''])
      | Inl (Complaint e) \<Rightarrow> (1, [e])
      | Inr opts \<Rightarrow>
          if co_tls_client_cert opts = [] \<and> co_tls_client_key opts \<noteq> [] \<or>
             co_tls_client_cert opts \<noteq> [] \<and> co_tls_client_key opts = []
          then (1, [''TLS client auth requires both --tls-client-cert and --tls-client-key''])
          else if \<not> co_allow_insecure_dev opts \<and> \<not> tc_enabled (client_tls_config opts)
          then (1, [''TLS is required by default; configure TLS or use --allow-insecure-dev for local testing''])
          else (case create_both ssl inp penv lenv_alice lenv_bob disk srv of
              None \<Rightarrow> (1, [''client creation failed''])
            | Some (alice, bob) \<Rightarrow>
                (let (alice_api, bob_api) = apis (remote_server ssl opts (cl_user_id (sy_client alice)) (sy_client alice))
                       (remote_server ssl opts (cl_user_id (sy_client bob)) (sy_client bob));
                     (publish_alice, alice) = PublishPrekeys ssl inp (Some alice_api) alice;
                     (publish_bob, bob) = PublishPrekeys ssl inp (Some bob_api) (hand_over alice bob)
                 in case (publish_alice, publish_bob) of
                      (Ok _, Ok _) \<Rightarrow>
                        demo_talk ssl inp alice_api bob_api ''hello from alice over TCP'' ''hello from bob over TCP''
                          ''bob send failed: '' (hand_over bob alice) bob
                    | _ \<Rightarrow> (1, [''publish failed''] @ failure_lines ''alice'' publish_alice @
                        failure_lines ''bob'' publish_bob))))"

section \<open>Whom they trust\<close>

lemma trusted_before: "no_new_trust c0 c \<Longrightarrow> trusted c u \<Longrightarrow> trusted c0 u"
  by (auto simp: no_new_trust_def trusted_def)

lemma no_new_trust_refl: "no_new_trust c c"
  by (simp add: no_new_trust_def)

lemma hand_over_client [simp]: "sy_client (hand_over from to) = sy_client to"
  by (simp add: hand_over_def)

lemma InitiateSession_trusted:
  assumes "InitiateSession ssl inp server u t s = (Ok x, s')"
  shows "trusted (sy_client s) u"
  using assms
  by (auto simp: InitiateSession_def act_bind_Ok VerifyOrRememberPeerIdentity_def trusted_def act_lift_def
      act_client_def act_context_def with_context_def act_call_def Let_def
      split: option.splits if_splits prod.splits result.splits)

lemma PublishPrekeys_trusted:
  "PublishPrekeys ssl inp server s = (r, s') \<Longrightarrow> trusted (sy_client s') u \<Longrightarrow> trusted (sy_client s) u"
  using keeps_snd [OF trust.keeps_PublishPrekeys no_new_trust_refl] trusted_before by (metis snd_conv)

lemma state_of_Ok: "(case rs of (Ok x, s) \<Rightarrow> Ok s | (Err e, s) \<Rightarrow> Err e) = Ok s' \<longleftrightarrow> (\<exists>x. rs = (Ok x, s'))"
  by (auto split: prod.splits result.splits)

lemma Create_trusted:
  assumes "Create ssl inp penv lenv v disk srv tick = Ok s" "trusted (sy_client s) u"
  shows "\<exists>c. LoadLocalState ssl lenv v (DefaultLocalStatePath penv v) disk = Ok c \<and> trusted c u"
proof -
  have step: "no_new_trust (sy_client s0) (sy_client s1)"
    if "act_bind (act_context c (RefillOneTimePrekeyPools ssl inp)) (\<lambda>_. act_context c' (act_save ssl inp)) s0 = (Ok x, s1)"
    for c c' s0 s1 x
  proof -
    have "keeps (no_new_trust (sy_client s0))
        (act_bind (act_context c (RefillOneTimePrekeyPools ssl inp)) (\<lambda>_. act_context c' (act_save ssl inp)))"
      by (intro keeps_rules trust.keeps_RefillOneTimePrekeyPools)
    from keeps_snd [OF this no_new_trust_refl] that show ?thesis by simp
  qed
  show ?thesis
  proof (cases "LoadLocalState ssl lenv v (DefaultLocalStatePath penv v) disk")
    case (Ok c)
    then have "no_new_trust c (sy_client s)"
      using assms(1) by (auto simp: Create_def Let_def state_of_Ok dest!: step)
    with trusted_before assms(2) Ok show ?thesis by blast
  next
    case (Err e)
    then obtain c where "new_identity ssl (\<lambda>i. in_entropy inp (tick + i)) v (DefaultLocalStatePath penv v) = Ok c"
      and "no_new_trust c (sy_client s)"
      using assms(1) by (auto simp: Create_def Let_def state_of_Ok result_inv split: if_splits dest!: step)
    then have "trusted c u" "cl_trusted_peer_identities c = []"
      using trusted_before assms(2) by (auto simp: new_identity_def result_inv Let_def)
    then show ?thesis by (simp add: trusted_def)
  qed
qed

lemma demo_talk_needs_trust: "\<not> trusted (sy_client alice) ''bob'' \<Longrightarrow> fst (demo_talk ssl inp aa ba h a r alice bob) = 1"
  using InitiateSession_trusted
  by (auto simp: demo_talk_def split: prod.splits result.splits) blast

section \<open>Theorems\<close>


end
