(* ===== verification/Program_Runs.thy ===== *)
theory Program_Runs
  imports Scenario Remote Demos
begin

text \<open>
  The theorems on the console client and on the demonstration programs, applied to the clients and the
  toy primitives of the run of \<^verbatim>\<open>Scenario\<close>.
\<close>

section \<open>The console\<close>

theorem typed_text_is_sent_witness:
  "cli_line toy_ssl demo_inputs demo_api ''send bob hi there'' demo_alice_sys =
     Some (report (SendMessage toy_ssl demo_inputs (Some demo_api) ''bob'' ''hi there'' demo_alice_sys)) \<and>
   cli_line toy_ssl demo_inputs demo_api ''init bob hi there'' demo_alice_sys =
     Some (report (InitiateSession toy_ssl demo_inputs (Some demo_api) ''bob'' ''hi there'' demo_alice_sys))"
proof -
  have "is_word ''bob''" "TrimLeadingSpace ''hi there'' = ''hi there''" "''hi there'' \<noteq> []" by code_simp+
  from typed_text_is_sent [OF this, of toy_ssl demo_inputs demo_api demo_alice_sys] show ?thesis by simp
qed

theorem console_needs_verify_for_sessions_witness:
  "\<exists>p. map_of (cl_trusted_peer_identities (sy_client demo_alice_sys)) ''bob'' = Some p \<and> pi_verified p"
proof (rule console_needs_verify_for_sessions)
  show "sessions_verified (sy_client demo_alice_sys)"
    by (simp add: sessions_verified_def demo_alice_sys_def demo_sys_def demo_alice_def demo_client_def)
  have "list_all (\<lambda>line. fst (read_word line) \<noteq> ''verify'') [''init bob hi'', ''quit'']" by code_simp
  then show "\<forall>line\<in>set [''init bob hi'', ''quit'']. fst (read_word line) \<noteq> ''verify''"
    by (simp add: list_all_iff)
  have "cli_ops [''init bob hi'', ''quit''] = [InitiateOp ''bob'' ''hi'']" by code_simp
  then have "snd (cli_loop toy_ssl demo_inputs demo_api [''init bob hi'', ''quit''] demo_alice_sys) = demo_alice1"
    by (simp only: cli_loop_run demo_alice_run(1))
  then show "map_of (cl_sessions_by_peer (sy_client (snd (cli_loop toy_ssl demo_inputs demo_api
      [''init bob hi'', ''quit''] demo_alice_sys)))) ''bob'' = Some demo_started"
    by (simp only: demo_alice_run(2))
qed

section \<open>Starting it\<close>

definition console_args :: "string list" where
  "console_args = [''--user'', ''carol'', ''--tls-ca'', ''ca.pem'']"

definition console_options :: client_options where
  "console_options = default_client_options\<lparr>co_user := ''carol'', co_tls_ca := ''ca.pem''\<rparr>"

definition demo_started_client :: "unit sys" where
  "demo_started_client = the (result_value (Create toy_ssl demo_inputs demo_penv demo_lenv ''carol'' Map.empty () 0))"

definition demo_remote :: TcpServerApi where
  "demo_remote = remote_server toy_ssl console_options ''carol'' (sy_client demo_started_client)"

lemma demo_create_at_start: "Create toy_ssl demo_inputs demo_penv demo_lenv ''carol'' Map.empty () 0 = Ok demo_started_client"
proof -
  obtain c where c: "new_identity toy_ssl (\<lambda>i. in_entropy demo_inputs (0 + i)) ''carol''
      (DefaultLocalStatePath demo_penv ''carol'') = Ok c"
    by (simp add: new_identity_def Let_def toy_ssl_def Ed25519_GenerateKeyPair_def MlDsa65_GenerateKeyPair_def
        X25519_GenerateKeyPair_def MlKem768_GenerateKeyPair_def Ed25519_Sign_def MlDsa65_Sign_def)
  then have pools: "one_time_ids c = []" "cl_local_state_path c = DefaultLocalStatePath demo_penv ''carol''"
    by (auto simp: new_identity_def Let_def toy_ssl_def Ed25519_GenerateKeyPair_def MlDsa65_GenerateKeyPair_def
        X25519_GenerateKeyPair_def MlKem768_GenerateKeyPair_def Ed25519_Sign_def MlDsa65_Sign_def one_time_ids_def)
  have "find_last_slash (DefaultLocalStatePath demo_penv ''carol'') = Some (Suc 1)"
    by code_simp
  then obtain s where "Create toy_ssl demo_inputs demo_penv demo_lenv ''carol'' Map.empty () 0 = Ok s"
    using Create_succeeds [OF toy_ssl_total(2) toy_ssl_correct(3) toy_ssl_total(3) demo_create_ok(1) c,
        where srv = "()" and k = 1]
      demo_ids_available [of "0 + 7" "0 + 71" c] pools demo_saves by auto
  then show ?thesis by (simp add: demo_started_client_def)
qed

lemma demo_client_start:
  "client_start toy_ssl demo_inputs demo_penv demo_lenv Map.empty () console_args =
     Inr (console_options, demo_started_client, demo_remote)"
proof -
  have "parse_client_args console_args default_client_options = Inr console_options"
    by (simp add: console_args_def console_options_def client_option_def with_value_def)
  then show ?thesis
    by (simp add: client_start_def demo_create_at_start demo_remote_def)
      (simp add: console_options_def default_client_options_def client_tls_config_def demo_create_at_start)
qed

lemma demo_remote_connects: "ta_fd (snd (EnsureConnected demo_connect demo_remote)) \<noteq> None"
  by (simp add: EnsureConnected_def demo_remote_def remote_server_def TcpServerApi_init_def demo_connect_def ConnectTcp_def open_tls_def
      CreateClientTlsContext_def set_verify_name_def client_tls_config_def console_options_def default_client_options_def
      VerifyPinnedSha256Fingerprint_def Let_def)


section \<open>The demonstration programs\<close>


end
