(* ===== verification/Spec2Isabelle.thy ===== *)
theory Spec2Isabelle
  imports Secure_Buffer Remote Sqlite_Runs Server_Main Program_Runs
begin

text \<open>
  A verification of pqchat, a messenger with a hybrid post-quantum handshake
  (X25519 and ML-KEM-768) and a symmetric ratchet, written in C++. All paths are below
  \<^verbatim>\<open>src/\<close> of the repository.

  \<^bold>\<open>The program.\<close> A client (\<^verbatim>\<open>client/client.cpp\<close>) owns long-term keys, prekeys, peer identities
  and sessions, keeps them in an encrypted file, and talks to a server through the interface
  \<^verbatim>\<open>IServerApi\<close>: it publishes prekey bundles, acquires those of others, enqueues envelopes and drains
  its inbox. The interface is implemented by the in-memory server, by the SQLite store, and by the
  class \<^verbatim>\<open>TcpServerApi\<close>, which forwards calls as frames over a TCP or TLS connection to the TCP server, which
  in turn calls a store. Everything that crosses a boundary is encoded by
  \<^verbatim>\<open>protocol/serialization.cpp\<close>; every signature and hash is over a canonical input of
  \<^verbatim>\<open>protocol/messages.cpp\<close> and its neighbours.

  \<^bold>\<open>Theories.\<close>

  \<^item> \<open>Prelude\<close>: machine words, bytes, \<^verbatim>\<open>Result\<close> (\<^verbatim>\<open>util/result.h\<close>), shared lemmas and the named
    collections the other theories use.
  \<^item> \<open>Codec\<close>: \<^verbatim>\<open>Writer\<close> and \<^verbatim>\<open>Reader\<close>; the locale \<open>codec\<close> with the two laws of a canonical encoding.
  \<^item> \<open>Crypto\<close>: the wrappers of \<^verbatim>\<open>crypto/\<close>; OpenSSL is the record \<open>openssl\<close>, and what is relied upon
    (correctness of key agreement, encapsulation, signatures and AEAD) are predicates on it. \<open>toy_ssl\<close> satisfies
    all of them and serves in the concrete runs; no secrecy is claimed of anything.
  \<^item> \<open>Secure_Buffer\<close>: \<^verbatim>\<open>crypto/secure_buffer.cpp\<close> over an explicit memory: what is freed has been wiped, no block
    has two owners, and the buffers behave as the plain byte lists that the other theories use for them.
  \<^item> \<open>Messages\<close>, \<open>Serialization\<close>: the protocol structures, the inputs of signatures and hashes (each determines
    what it covers, none can be mistaken for one of another purpose), the message formats (accepted
    exactly if canonical).
  \<^item> \<open>Rate_Limit\<close>: the sliding windows of both servers, the locale \<open>rate_limiter\<close> and its bound.
  \<^item> \<open>Server_Api\<close>: \<^verbatim>\<open>IServerApi\<close> as a record of functions; the locales \<open>inbox_service\<close> and
    \<open>message_server\<close>, what a client relies on. A store may limit the envelopes it takes (\<open>fits\<close>), the ids that
    may be acknowledged (\<open>known\<close>) and how many more envelopes it takes (\<open>room\<close>).
  \<^item> \<open>In_Memory_Server\<close>: \<^verbatim>\<open>server/in_memory_server.cpp\<close>; authentication, prekeys, inboxes, runs of calls,
    refinement of an abstract inbox; the interpretations of the locales of \<open>Server_Api\<close>.
  \<^item> \<open>Sqlite_Store\<close>: \<^verbatim>\<open>server/sqlite_store.cpp\<close>; the tables as a record, statements as functions on it,
    transactions. Any call of SQLite may fail. \<open>Sqlite_Laws\<close>: what holds under any faults, by relations that
    pass through the code (locale \<open>sq_frame\<close>): failed calls roll back, sessions need a challenge and a proof.
    \<open>Sqlite_Invariant\<close>: methods, crashes and restarts as a step relation; the tables stay well-formed.
    \<open>Sqlite_Service\<close>: without faults the store passes the contract of \<open>Server_Api\<close>.
  \<^item> \<open>Tcp_Wire\<close>, \<open>Tcp_Server\<close>: frames over any segmentation of the byte stream, and
    \<^verbatim>\<open>HandleConnection\<close> with the limits before authentication; which frames may change what.
  \<^item> \<open>Tcp_Listener\<close>: \<^verbatim>\<open>TcpServer::Run\<close>; the accept loop and the threads of the connections as a step
    relation in which they interleave, and its invariant on counters, descriptors and TLS. The locale \<open>store_law\<close>
    carries an invariant of any store through it.
  \<^item> \<open>Tcp_Client\<close>: \<^verbatim>\<open>client/tls_pinning.cpp\<close> and \<^verbatim>\<open>client/tcp_server_api.cpp\<close>; what every call keeps
    (locale \<open>tcp_law\<close>), in particular that TLS connections are verified.
  \<^item> \<open>Remote\<close>: both ends of the transport; logging in, and that a remote call is the call on the store.
  \<^item> \<open>Ratchet\<close>: key schedule and sessions; two sessions over two channels as a step relation.
  \<^item> \<open>Client_State\<close>: the client record, the format of its file, saving and loading.
  \<^item> \<open>Client\<close>, \<open>Client_Laws\<close>: the operations of the client over any server, and what they keep
    (locale \<open>client_law\<close>).
  \<^item> \<open>Handshake\<close>, \<open>Delivery\<close>, \<open>Progress\<close>: agreement of the two ends of a handshake, what a client reads of its
    inbox, and operations that succeed.
  \<^item> \<open>Scenario\<close>: delivery from end to end over the in-memory server, and the concrete runs of clients;
    \<open>Sqlite_Scenario\<close>: the same over the SQLite store, and that both stores deliver the same mail;
    \<open>Sqlite_Runs\<close>: concrete calls of the SQLite store.
  \<^item> \<open>Command_Line\<close>, \<open>Server_Main\<close>: \<^verbatim>\<open>server/server_main.cpp\<close>; numbers and options as the C library reads them, the
    checks before the start, and what the running server (accept loop, SQLite store, TLS) keeps.
  \<^item> \<open>Client_Cli\<close>: \<^verbatim>\<open>client/client_cli_main.cpp\<close>; a console session is a run of client operations, so the theorems of
    \<open>Client_Laws\<close> hold of what the user types. \<open>Demos\<close>: \<^verbatim>\<open>client/client_main.cpp\<close> and
    \<^verbatim>\<open>client/network_demo_main.cpp\<close>. \<open>Program_Runs\<close>: these theorems applied to concrete runs.

  \<^bold>\<open>How code becomes definitions.\<close> A function that returns \<^verbatim>\<open>Result\<close> returns \<open>Ok\<close> or \<open>Err\<close> with the error
  text of the source. State is passed explicitly and is returned as the source leaves it, also
  after an error. What comes from outside is an argument or a stream of inputs: entropy, random bytes, clocks, which system
  call fails, what a socket returns. Times, ids and counters are 64-bit and 32-bit words that wrap; sizes
  are natural numbers, as no vector comes near \<open>2 ^ 63\<close> bytes.

  \<^bold>\<open>Bounds.\<close> Loops over data are structural or have a termination proof. The bounded loops of the source
  keep their bounds: 16 keys per pool and 32 attempts to draw an id (\<open>Client\<close>; \<open>Progress.refill_completes\<close> shows that
  64 good draws are enough), 64 passes of the inbox loop, which is why the end-to-end theorem is about at most
  62 texts. \<open>drain_all\<close> takes fuel; one step more than there are envelopes suffices. A read that waits
  for the peer is \<open>None\<close>; the theorems of \<open>Remote\<close> show that the calls return.

  \<^bold>\<open>Simplifications.\<close>

  \<^item> A failed server call with an empty error text is a failure for \<open>Client\<close>, while \<^verbatim>\<open>ok()\<close> would be true in
    C++; no server of the repository returns one, and \<open>Tcp_Client\<close> follows the C++ (see
    \<open>Remote.empty_refusal_counts_as_success\<close>).
  \<^item> The threads of different connections interleave between frames: handling a frame is one step. The mutexes of the
    servers make their calls atomic, but not the pair of authenticating a token and running a command.
  \<^item> In the running server SQLite does its work; faults of SQLite are the subject of \<open>Sqlite_Laws\<close> and
    \<open>Sqlite_Invariant\<close>.
  \<^item> \<^verbatim>\<open>atoi\<close> of a number beyond \<^verbatim>\<open>int\<close>, which C leaves undefined, is what the GNU C library returns. The
    object that talks to the server signs with the client as it was at the start, whose identity keys never change.
  \<^item> The write loop of \<^verbatim>\<open>WriteAllFileAtomic\<close> is one call that fails or succeeds.
  \<^item> The statements of a failed schema script of \<^verbatim>\<open>InitSchema\<close> are not separated: the script runs or it does not. The
    error text after a rollback is that of the call that failed.
  \<^item> The iteration order of \<^verbatim>\<open>unordered_map\<close> is that of an association list.
  \<^item> \<^verbatim>\<open>TLS1_3_VERSION\<close> is taken to be defined, as in every OpenSSL the build accepts.

  \<^bold>\<open>Not modelled.\<close> The deleters of \<^verbatim>\<open>crypto/openssl_raii.h\<close>, which call one function of OpenSSL each;
  copies of secrets that the code makes outside of \<^verbatim>\<open>SecureBuffer\<close>; SQLite itself, of which the statements the store uses are modelled by what they do to the tables; the
  failure to create a thread, which ends the server process; usage texts, greetings and prompts of the programs.
\<close>

end
